(* ===== verification/Prelude.thy ===== *)
theory Prelude
  imports Main "HOL-Library.Word" "HOL-Library.Finite_Map" "HOL-Library.Sublist"
    "HOL-Library.Char_ord" "HOL-Library.List_Lexorder"
begin

text \<open>
  Shared vocabulary of the development: the machine types of the Rust sources, the part of
  \<open>std::str\<close>, \<open>Option\<close> and \<open>Result\<close> that the conversion code uses, and the generic lemmas
  the component theories rely on.

  A Rust \<open>String\<close> or \<open>&str\<close> is the list of its UTF-8 bytes, a HOL \<^typ>\<open>string\<close>
  (one \<^typ>\<open>char\<close> per byte).  \<open>u32\<close> and \<open>u64\<close> are words, so \<open>+\<close> wraps as it does
  in a release build.
\<close>

type_synonym u8 = "8 word"
type_synonym u32 = "32 word"
type_synonym u64 = "64 word"
type_synonym i64 = "64 word" \<comment> \<open>read with \<^const>\<open>sint\<close>\<close>
type_synonym f32 = rat \<comment> \<open>the exact value of a finite float; JSON has no NaN or infinity\<close>

named_theorems str_simps \<open>evaluation of the string operations\<close>
named_theorems model_defs \<open>definitions unfolded by the component proofs\<close>

section \<open>Integers\<close>

definition saturating_sub :: "'a::len word \<Rightarrow> 'a word \<Rightarrow> 'a word" where
  "saturating_sub a b = (if b \<le> a then a - b else 0)"

lemma saturating_sub_unat: "unat (saturating_sub a b) = unat a - unat b"
  by (auto simp: saturating_sub_def unat_sub word_le_nat_alt)

lemma saturating_sub_le: "saturating_sub a b \<le> a"
  by (simp add: word_le_nat_alt saturating_sub_unat)

lemma saturating_sub_Suc:
  "saturating_sub (x + 1) 1 = x" if "x + 1 \<noteq> (0 :: 'a::len word)"
proof -
  from that have "1 \<le> x + 1"
    by (simp add: word_le_nat_alt unat_gt_0 Suc_le_eq)
  then show ?thesis
    by (simp add: saturating_sub_def)
qed

section \<open>Options and results\<close>

definition unwrap_or :: "'a \<Rightarrow> 'a option \<Rightarrow> 'a" where
  "unwrap_or d x = (case x of None \<Rightarrow> d | Some v \<Rightarrow> v)"

lemma unwrap_or_simps [simp]:
  "unwrap_or d None = d" "unwrap_or d (Some v) = v"
  by (simp_all add: unwrap_or_def)

definition opt_filter :: "('a \<Rightarrow> bool) \<Rightarrow> 'a option \<Rightarrow> 'a option" where
  "opt_filter P x = (case x of None \<Rightarrow> None | Some v \<Rightarrow> if P v then Some v else None)"

lemma opt_filter_simps [simp]:
  "opt_filter P None = None"
  "opt_filter P (Some v) = (if P v then Some v else None)"
  by (simp_all add: opt_filter_def)

lemma opt_filter_eq_Some [simp]: "opt_filter P x = Some v \<longleftrightarrow> x = Some v \<and> P v"
  by (cases x) auto

definition or_else :: "'a option \<Rightarrow> 'a option \<Rightarrow> 'a option" where
  "or_else x y = (case x of None \<Rightarrow> y | Some v \<Rightarrow> Some v)"

lemma or_else_simps [simp]:
  "or_else None y = y" "or_else (Some v) y = Some v" "or_else x None = x"
  by (simp_all add: or_else_def split: option.splits)

definition then_some :: "bool \<Rightarrow> 'a \<Rightarrow> 'a option" where
  "then_some b v = (if b then Some v else None)"

lemma then_some_simps [simp]:
  "then_some True v = Some v" "then_some False v = None"
  "then_some b v = None \<longleftrightarrow> \<not> b" "then_some b v = Some w \<longleftrightarrow> b \<and> v = w"
  by (auto simp: then_some_def)

lemma unwrap_then_some [simp]:
  "unwrap_or [] (then_some (xs \<noteq> []) xs) = xs"
  "unwrap_or False (then_some b True) = b"
  by (simp_all add: then_some_def)

text \<open>\<open>Option::ok_or\<close> and the \<open>?\<close> operator: an error stops the computation.\<close>

definition ok_or :: "'e \<Rightarrow> 'a option \<Rightarrow> 'e + 'a" where
  "ok_or e x = (case x of None \<Rightarrow> Inl e | Some v \<Rightarrow> Inr v)"

definition try_bind :: "'e + 'a \<Rightarrow> ('a \<Rightarrow> 'e + 'b) \<Rightarrow> 'e + 'b" where
  "try_bind x f = (case x of Inl e \<Rightarrow> Inl e | Inr v \<Rightarrow> f v)"

lemma ok_or_simps [simp]:
  "ok_or e None = Inl e" "ok_or e (Some v) = Inr v"
  by (simp_all add: ok_or_def)

lemma ok_or_eq [simp]:
  "ok_or e x = Inr v \<longleftrightarrow> x = Some v" "ok_or e x = Inl e' \<longleftrightarrow> x = None \<and> e' = e"
  by (cases x; auto)+

lemma try_bind_simps [simp]:
  "try_bind (Inl e) f = Inl e" "try_bind (Inr v) f = f v"
  by (simp_all add: try_bind_def)

lemma try_bind_eq_Inr [simp]:
  "try_bind x f = Inr w \<longleftrightarrow> (\<exists>v. x = Inr v \<and> f v = Inr w)"
  by (cases x) auto

text \<open>\<open>Iterator::filter_map\<close> is \<^const>\<open>List.map_filter\<close>.\<close>

lemma map_filter_append [simp]:
  "List.map_filter f (xs @ ys) = List.map_filter f xs @ List.map_filter f ys"
  by (induction xs) (auto simp: List.map_filter_simps split: option.splits)

lemma map_filter_Nil [simp]: "List.map_filter f [] = []"
  by (simp add: List.map_filter_simps)

lemma map_filter_Cons [simp]:
  "List.map_filter f (x # xs) =
     (case f x of None \<Rightarrow> List.map_filter f xs | Some y \<Rightarrow> y # List.map_filter f xs)"
  by (simp add: List.map_filter_simps)

lemma set_map_filter: "set (List.map_filter f xs) = {y. \<exists>x \<in> set xs. f x = Some y}"
  by (induction xs) (auto split: option.splits)

lemma map_filter_Some: "(\<And>x. x \<in> set xs \<Longrightarrow> f x = Some (g x)) \<Longrightarrow> List.map_filter f xs = map g xs"
  by (induction xs) auto

lemma map_filter_None: "(\<And>x. x \<in> set xs \<Longrightarrow> f x = None) \<Longrightarrow> List.map_filter f xs = []"
  by (induction xs) auto

lemma map_filter_inverse:
  "(\<And>x. x \<in> set xs \<Longrightarrow> \<exists>v. f x = Some v \<and> g v = Some x) \<Longrightarrow>
     List.map_filter g (List.map_filter f xs) = xs"
  by (induction xs) (force split: option.splits)+

lemma map_filter_map: "List.map_filter g (map f xs) = List.map_filter (g \<circ> f) xs"
  by (induction xs) (auto split: option.splits)

lemma map_filter_cong [fundef_cong]:
  "xs = ys \<Longrightarrow> (\<And>x. x \<in> set ys \<Longrightarrow> f x = g x) \<Longrightarrow> List.map_filter f xs = List.map_filter g ys"
  by (induction xs arbitrary: ys) (auto split: option.splits)

lemma size_list_mem: "x \<in> set xs \<Longrightarrow> f x < size_list f xs"
  by (induction xs) auto

section \<open>Strings\<close>

abbreviation nl :: char where "nl \<equiv> CHR 0x0A"
abbreviation cr :: char where "cr \<equiv> CHR 0x0D"

definition starts_with :: "string \<Rightarrow> string \<Rightarrow> bool" where
  "starts_with p s \<longleftrightarrow> take (length p) s = p"

definition strip_prefix :: "string \<Rightarrow> string \<Rightarrow> string option" where
  "strip_prefix p s = (if starts_with p s then Some (drop (length p) s) else None)"

lemma starts_with_iff: "starts_with p s \<longleftrightarrow> (\<exists>r. s = p @ r)"
proof
  assume "starts_with p s"
  then have "s = p @ drop (length p) s"
    unfolding starts_with_def by (metis append_take_drop_id)
  then show "\<exists>r. s = p @ r" ..
qed (auto simp: starts_with_def)

lemma starts_with_append [simp]: "starts_with p (p @ r)"
  by (simp add: starts_with_def)

lemma strip_prefix_append [simp]: "strip_prefix p (p @ r) = Some r"
  by (simp add: strip_prefix_def)

lemma strip_prefix_Some: "strip_prefix p s = Some r \<longleftrightarrow> s = p @ r"
  by (auto simp: strip_prefix_def starts_with_iff split: if_splits)

lemma strip_prefix_None: "strip_prefix p s = None \<longleftrightarrow> \<not> starts_with p s"
  by (simp add: strip_prefix_def)

text \<open>\<open>str::split_once\<close>: the text before and after the first occurrence of a pattern.\<close>

fun split_once :: "string \<Rightarrow> string \<Rightarrow> (string \<times> string) option" where
  "split_once p [] = (if p = [] then Some ([], []) else None)"
| "split_once p (c # s) =
     (if starts_with p (c # s) then Some ([], drop (length p) (c # s))
      else map_option (\<lambda>(a, b). (c # a, b)) (split_once p s))"

lemma split_once_Some: "split_once p s = Some (a, b) \<Longrightarrow> s = a @ p @ b"
  by (induction p s arbitrary: a rule: split_once.induct)
    (auto simp: starts_with_iff split: if_splits)

lemma split_once_shorter:
  assumes "split_once p s = Some (a, b)" "p \<noteq> []"
  shows "length b < length s"
  using split_once_Some [OF assms(1)] assms(2) by auto

text \<open>\<open>str::rsplit_once\<close> with a character pattern: around the last occurrence.\<close>

definition rsplit_once :: "char \<Rightarrow> string \<Rightarrow> (string \<times> string) option" where
  "rsplit_once c s =
     (if c \<in> set s
      then let after = rev (takeWhile (\<lambda>x. x \<noteq> c) (rev s))
           in Some (take (length s - length after - 1) s, after)
      else None)"

lemma rsplit_once_Some_conv:
  assumes "c \<notin> set b"
  shows "rsplit_once c (a @ c # b) = Some (a, b)"
proof -
  have "takeWhile (\<lambda>x. x \<noteq> c) (rev (a @ c # b)) = rev b"
    using assms by (simp add: takeWhile_append)
  then show ?thesis
    by (simp add: rsplit_once_def)
qed

lemma rsplit_once_None [simp]: "rsplit_once c s = None \<longleftrightarrow> c \<notin> set s"
  by (simp add: rsplit_once_def Let_def)

text \<open>\<open>str::split\<close> with a non-empty pattern, and \<open>slice::join\<close>.\<close>

function str_split :: "string \<Rightarrow> string \<Rightarrow> string list" where
  "str_split p s =
     (if p = [] then [s]
      else case split_once p s of None \<Rightarrow> [s] | Some (a, b) \<Rightarrow> a # str_split p b)"
  by pat_completeness auto
termination
  by (relation "measure (\<lambda>(p, s). length s)") (auto dest: split_once_shorter)

declare str_split.simps [simp del]

fun join :: "string \<Rightarrow> string list \<Rightarrow> string" where
  "join sep [] = []"
| "join sep [x] = x"
| "join sep (x # y # xs) = x @ sep @ join sep (y # xs)"

lemma join_empty_sep [simp]: "join [] xs = concat xs"
proof (induction xs)
  case (Cons x xs)
  then show ?case by (cases xs) auto
qed simp

lemma str_split_nonempty [simp]: "str_split p s \<noteq> []"
  by (subst str_split.simps) (auto split: option.splits)

lemma join_str_split: "p \<noteq> [] \<Longrightarrow> join p (str_split p s) = s"
proof (induction p s rule: str_split.induct)
  case (1 p s)
  show ?case
  proof (cases "split_once p s")
    case None
    then show ?thesis by (simp add: str_split.simps)
  next
    case (Some ab)
    obtain a b where ab: "ab = (a, b)" by (cases ab)
    with Some "1.IH" "1.prems" have IH: "join p (str_split p b) = b" by simp
    obtain y ys where ys: "str_split p b = y # ys"
      using str_split_nonempty by (meson list.exhaust)
    have "str_split p s = a # str_split p b"
      using Some ab "1.prems" by (subst str_split.simps) simp
    then have "join p (str_split p s) = a @ p @ join p (str_split p b)"
      using ys by simp
    with IH split_once_Some [OF Some [unfolded ab]] show ?thesis
      by simp
  qed
qed

definition str_replace :: "string \<Rightarrow> string \<Rightarrow> string \<Rightarrow> string" where
  "str_replace p r s = join r (str_split p s)"

text \<open>
  \<open>str::lines\<close>: a line ends at a newline, one carriage return before that newline belongs to
  the line ending, and a final empty piece is not a line.
\<close>

definition strip_cr :: "string \<Rightarrow> string" where
  "strip_cr s = (if s \<noteq> [] \<and> last s = cr then butlast s else s)"

function str_lines :: "string \<Rightarrow> string list" where
  "str_lines s =
     (if s = [] then []
      else case dropWhile (\<lambda>c. c \<noteq> nl) s of
             [] \<Rightarrow> [s]
           | _ # rest \<Rightarrow> strip_cr (takeWhile (\<lambda>c. c \<noteq> nl) s) # str_lines rest)"
  by pat_completeness auto
termination
proof (relation "measure length")
  fix s c rest
  assume "dropWhile (\<lambda>c. c \<noteq> nl) s = c # rest"
  then have "length (c # rest) \<le> length s"
    by (metis length_dropWhile_le)
  then show "(rest, s) \<in> measure length" by simp
qed simp

declare str_lines.simps [simp del]

lemma str_lines_Nil [simp]: "str_lines [] = []"
  by (simp add: str_lines.simps)

lemma str_lines_single: "nl \<notin> set s \<Longrightarrow> s \<noteq> [] \<Longrightarrow> str_lines s = [s]"
proof -
  assume "nl \<notin> set s" and ne: "s \<noteq> []"
  then have "dropWhile (\<lambda>c. c \<noteq> nl) s = []"
    by (auto simp: dropWhile_eq_Nil_conv)
  with ne show ?thesis by (subst str_lines.simps) (simp del: dropWhile_eq_Nil_conv)
qed

lemma str_lines_Cons:
  "nl \<notin> set a \<Longrightarrow> str_lines (a @ nl # s) = strip_cr a # str_lines s"
  by (subst str_lines.simps) (simp add: takeWhile_append dropWhile_append)

lemma strip_cr_no_cr: "cr \<notin> set s \<Longrightarrow> strip_cr s = s"
  using last_in_set by (fastforce simp: strip_cr_def)

text \<open>
  \<open>str::trim\<close> removes Unicode white space.  In UTF-8 these are the six ASCII characters and
  the listed two- and three-byte sequences (U+0085, U+00A0, U+1680, U+2000 to U+200A, U+2028,
  U+2029, U+202F, U+205F, U+3000).
\<close>

definition ws_seqs :: "string list" where
  "ws_seqs =
     [[CHR 0x09], [CHR 0x0A], [CHR 0x0B], [CHR 0x0C], [CHR 0x0D], [CHR 0x20],
      [CHR 0xC2, CHR 0x85], [CHR 0xC2, CHR 0xA0], [CHR 0xE1, CHR 0x9A, CHR 0x80],
      [CHR 0xE2, CHR 0x80, CHR 0x80], [CHR 0xE2, CHR 0x80, CHR 0x81],
      [CHR 0xE2, CHR 0x80, CHR 0x82], [CHR 0xE2, CHR 0x80, CHR 0x83],
      [CHR 0xE2, CHR 0x80, CHR 0x84], [CHR 0xE2, CHR 0x80, CHR 0x85],
      [CHR 0xE2, CHR 0x80, CHR 0x86], [CHR 0xE2, CHR 0x80, CHR 0x87],
      [CHR 0xE2, CHR 0x80, CHR 0x88], [CHR 0xE2, CHR 0x80, CHR 0x89],
      [CHR 0xE2, CHR 0x80, CHR 0x8A], [CHR 0xE2, CHR 0x80, CHR 0xA8],
      [CHR 0xE2, CHR 0x80, CHR 0xA9], [CHR 0xE2, CHR 0x80, CHR 0xAF],
      [CHR 0xE2, CHR 0x81, CHR 0x9F], [CHR 0xE3, CHR 0x80, CHR 0x80]]"

lemma ws_seqs_nonempty: "w \<in> set ws_seqs \<Longrightarrow> w \<noteq> []"
  by (auto simp: ws_seqs_def)

function drop_seqs :: "string list \<Rightarrow> string \<Rightarrow> string" where
  "drop_seqs ws s =
     (case List.find (\<lambda>w. w \<noteq> [] \<and> starts_with w s) ws of
        None \<Rightarrow> s
      | Some w \<Rightarrow> drop_seqs ws (drop (length w) s))"
  by pat_completeness auto
termination
proof (relation "measure (\<lambda>(ws, s). length s)")
  fix ws s w
  assume "List.find (\<lambda>w. w \<noteq> [] \<and> starts_with w s) ws = Some w"
  then have "w \<noteq> []" "starts_with w s"
    by (auto simp: find_Some_iff)
  then show "((ws, drop (length w) s), ws, s) \<in> measure (\<lambda>(ws, s). length s)"
    by (auto simp: starts_with_iff)
qed simp

declare drop_seqs.simps [simp del]

definition trim_start :: "string \<Rightarrow> string" where
  "trim_start s = drop_seqs ws_seqs s"

definition trim_end :: "string \<Rightarrow> string" where
  "trim_end s = rev (drop_seqs (map rev ws_seqs) (rev s))"

definition trim :: "string \<Rightarrow> string" where
  "trim s = trim_end (trim_start s)"

text \<open>Text that begins and ends with a visible ASCII character is left alone.\<close>

definition visible :: "char \<Rightarrow> bool" where
  "visible c \<longleftrightarrow> 0x21 \<le> (of_char c :: nat) \<and> (of_char c :: nat) < 0x7F"

lemma drop_seqs_visible:
  assumes "\<And>w. w \<in> set ws \<Longrightarrow> w = [] \<or> \<not> visible (hd w)" and "s = [] \<or> visible (hd s)"
  shows "drop_seqs ws s = s"
proof -
  have "\<not> (w \<noteq> [] \<and> starts_with w s)" if "w \<in> set ws" for w
    using assms(1) [OF that] assms(2) by (cases w) (auto simp: starts_with_iff)
  then have "List.find (\<lambda>w. w \<noteq> [] \<and> starts_with w s) ws = None"
    by (auto simp: find_None_iff)
  then show ?thesis
    by (simp add: drop_seqs.simps)
qed

lemma ws_seqs_hd_invisible:
  "w \<in> set ws_seqs \<Longrightarrow> \<not> visible (hd w)"
  "w \<in> set (map rev ws_seqs) \<Longrightarrow> \<not> visible (hd w)"
  by (auto simp: ws_seqs_def visible_def)

lemma trim_start_visible: "s \<noteq> [] \<Longrightarrow> visible (hd s) \<Longrightarrow> trim_start s = s"
  unfolding trim_start_def
  by (rule drop_seqs_visible) (auto dest: ws_seqs_hd_invisible)

lemma trim_end_visible: "s \<noteq> [] \<Longrightarrow> visible (last s) \<Longrightarrow> trim_end s = s"
  unfolding trim_end_def
  by (subst drop_seqs_visible) (use ws_seqs_hd_invisible(2) in \<open>auto simp: hd_rev\<close>)

lemma drop_seqs_Nil [simp]: "drop_seqs ws [] = []"
proof -
  have "List.find (\<lambda>w. w \<noteq> [] \<and> starts_with w []) ws = None"
    by (auto simp: find_None_iff starts_with_def)
  then show ?thesis by (simp add: drop_seqs.simps)
qed

lemma trim_Nil [simp]: "trim [] = []"
  by (simp add: trim_def trim_start_def trim_end_def)

lemma trim_visible:
  "s \<noteq> [] \<Longrightarrow> visible (hd s) \<Longrightarrow> visible (last s) \<Longrightarrow> trim s = s"
  by (simp add: trim_def trim_start_visible trim_end_visible)

end
