(* ===== verification/Server_Prelude.thy ===== *)
theory Server_Prelude
  imports Prelude
begin

text \<open>
  String operations of the standard library that only the server crate uses, with the lemmas its components
  share: suffixes, substrings, ASCII case, and the collections of routing and stream facts.
\<close>

named_theorems server_simps \<open>definitions unfolded when a server operation is evaluated\<close>

definition ends_with :: "string \<Rightarrow> string \<Rightarrow> bool" where
  "ends_with p s \<longleftrightarrow> starts_with (rev p) (rev s)"

lemma ends_with_iff: "ends_with p s \<longleftrightarrow> (\<exists>r. s = r @ p)"
  unfolding ends_with_def starts_with_iff by (metis rev_append rev_rev_ident)

definition strip_suffix :: "string \<Rightarrow> string \<Rightarrow> string option" where
  "strip_suffix p s = (if ends_with p s then Some (take (length s - length p) s) else None)"

lemma strip_suffix_Some: "strip_suffix p s = Some r \<longleftrightarrow> s = r @ p"
  by (auto simp: strip_suffix_def ends_with_iff split: if_splits)

lemma strip_suffix_None: "strip_suffix p s = None \<longleftrightarrow> (\<forall>r. s \<noteq> r @ p)"
  by (auto simp: strip_suffix_def ends_with_iff)

text \<open>\<open>str::find\<close> and \<open>str::contains\<close> with a string pattern.\<close>

definition str_find :: "string \<Rightarrow> string \<Rightarrow> nat option" where
  "str_find p s = map_option (length \<circ> fst) (split_once p s)"

definition str_contains :: "string \<Rightarrow> string \<Rightarrow> bool" where
  "str_contains p s \<longleftrightarrow> split_once p s \<noteq> None"

lemma split_once_None: "split_once p s = None \<longleftrightarrow> (\<forall>a b. s \<noteq> a @ p @ b)"
proof (induction p s rule: split_once.induct)
  case (2 p c s)
  show ?case
  proof (cases "starts_with p (c # s)")
    case True
    then show ?thesis by (auto simp: starts_with_iff) (metis append_Nil)
  next
    case False
    have "(\<exists>a b. c # s = a @ p @ b) \<longleftrightarrow> (\<exists>a b. s = a @ p @ b)"
      using False by (auto simp: starts_with_iff Cons_eq_append_conv)
    with False 2 show ?thesis by auto
  qed
qed auto

lemma str_contains_iff: "str_contains p s \<longleftrightarrow> (\<exists>a b. s = a @ p @ b)"
  by (auto simp: str_contains_def split_once_None)

text \<open>The occurrence \<open>split_once\<close> finds is the leftmost one.\<close>

lemma split_once_leftmost:
  "split_once p s = Some (a, b) \<Longrightarrow> s = a' @ p @ b' \<Longrightarrow> length a \<le> length a'"
proof (induction p s arbitrary: a a' rule: split_once.induct)
  case (2 p c s)
  show ?case
  proof (cases "starts_with p (c # s)")
    case True
    with "2.prems"(1) have "a = []" by simp
    then show ?thesis by simp
  next
    case False
    with "2.prems"(1) obtain a1 where a: "a = c # a1" "split_once p s = Some (a1, b)"
      by auto
    from False "2.prems"(2) obtain a2 where a': "a' = c # a2" "s = a2 @ p @ b'"
      by (cases a') (auto simp: starts_with_iff)
    from "2.IH" [OF False a(2) a'(2)] a a' show ?thesis by simp
  qed
qed auto

lemma split_once_suffix:
  assumes "split_once p s = Some (a, b)" and "s = a' @ p @ b'"
  obtains u where "b = u @ b'"
proof -
  have eq: "(a @ p) @ b = (a' @ p) @ b'" using split_once_Some [OF assms(1)] assms(2) by simp
  moreover have "length (a @ p) \<le> length (a' @ p)" using split_once_leftmost [OF assms] by simp
  ultimately show ?thesis
    using that by (metis append_eq_append_conv_if append_take_drop_id)
qed

lemma str_find_Some: "str_find p s = Some k \<Longrightarrow> s = take k s @ p @ drop (k + length p) s"
proof -
  assume "str_find p s = Some k"
  then obtain a b where ab: "split_once p s = Some (a, b)" "k = length a"
    by (auto simp: str_find_def)
  from split_once_Some [OF ab(1)] ab(2) show ?thesis by simp
qed

text \<open>\<open>str::to_ascii_lowercase\<close> and \<open>str::trim_end_matches\<close> with a character.\<close>

definition ascii_lower :: "char \<Rightarrow> char" where
  "ascii_lower c = (let n = of_char c :: nat in if 65 \<le> n \<and> n \<le> 90 then char_of (n + 32) else c)"

definition to_ascii_lowercase :: "string \<Rightarrow> string" where
  "to_ascii_lowercase s = map ascii_lower s"

definition trim_end_char :: "char \<Rightarrow> string \<Rightarrow> string" where
  "trim_end_char c s = rev (dropWhile (\<lambda>x. x = c) (rev s))"

lemma ascii_lower_idem [simp]: "ascii_lower (ascii_lower c) = ascii_lower c"
  by (simp add: ascii_lower_def Let_def)

lemma to_ascii_lowercase_idem [simp]: "to_ascii_lowercase (to_ascii_lowercase s) = to_ascii_lowercase s"
  by (simp add: to_ascii_lowercase_def)

text \<open>An unsigned number printed in decimal.\<close>

fun show_nat :: "nat \<Rightarrow> string" where
  "show_nat n = (if n < 10 then [] else show_nat (n div 10)) @ [char_of (48 + n mod 10)]"

declare show_nat.simps [simp del]

end
