(* ===== verification/Glob.thy ===== *)
theory Glob
  imports Server_Prelude
begin

text \<open>
  The pattern matcher of \<open>crates/server/src/config/mod.rs\<close> (\<open>glob_match\<close>), which model routes, model maps and
  header rules share, and the proof that its greedy search decides the language of the pattern.
\<close>

section \<open>The matcher\<close>

text \<open>The loop over the pieces between stars: index, number of pieces, position in the value.\<close>

fun glob_loop :: "nat \<Rightarrow> nat \<Rightarrow> string \<Rightarrow> string list \<Rightarrow> nat \<Rightarrow> bool" where
  "glob_loop n pos val [] i = True"
| "glob_loop n pos val (part # parts) i =
     (if part = [] then glob_loop n pos val parts (Suc i)
      else if i = 0 then starts_with part val \<and> glob_loop n (length part) val parts (Suc i)
      else if i = n - 1 then ends_with part (drop pos val) \<and> glob_loop n pos val parts (Suc i)
      else case str_find part (drop pos val) of
             Some found \<Rightarrow> glob_loop n (pos + found + length part) val parts (Suc i)
           | None \<Rightarrow> False)"

definition glob_match :: "string \<Rightarrow> string \<Rightarrow> bool" where
  "glob_match pattern val =
     (if pattern = ''*'' then True
      else if CHR ''*'' \<notin> set pattern then pattern = val
      else
        (let parts = str_split ''*'' pattern
         in case parts of
              [pre, suf] \<Rightarrow>
                starts_with pre val \<and> ends_with suf val \<and> length pre + length suf \<le> length val
            | _ \<Rightarrow> glob_loop (length parts) 0 val parts 0))"

section \<open>The language of a pattern\<close>

text \<open>The reference: a star stands for any text, every other character for itself.\<close>

fun glob_ref :: "string \<Rightarrow> string \<Rightarrow> bool" where
  "glob_ref [] val = (val = [])"
| "glob_ref (c # p) [] = (c = CHR ''*'' \<and> glob_ref p [])"
| "glob_ref (c # p) (d # v) =
     (if c = CHR ''*'' then glob_ref p (d # v) \<or> glob_ref (c # p) v else c = d \<and> glob_ref p v)"

lemma glob_ref_literal:
  "CHR ''*'' \<notin> set q \<Longrightarrow> glob_ref (q @ p) val \<longleftrightarrow> (\<exists>r. val = q @ r \<and> glob_ref p r)"
proof (induction q arbitrary: val)
  case (Cons c q)
  then show ?case by (cases val) auto
qed simp

lemma glob_ref_star: "glob_ref (CHR ''*'' # p) val \<longleftrightarrow> (\<exists>w r. val = w @ r \<and> glob_ref p r)"
proof (induction val)
  case (Cons d v)
  have "(\<exists>w r. d # v = w @ r \<and> glob_ref p r) \<longleftrightarrow> glob_ref p (d # v) \<or> (\<exists>w r. v = w @ r \<and> glob_ref p r)"
    by (auto simp: Cons_eq_append_conv)
  with Cons show ?case by simp
qed simp

text \<open>The pieces after the first star: each is found after any text, and the last one ends the value.\<close>

fun tail_match :: "string list \<Rightarrow> string \<Rightarrow> bool" where
  "tail_match [] val = (val = [])"
| "tail_match (p # ps) val = (\<exists>w r. val = w @ p @ r \<and> tail_match ps r)"

lemma glob_ref_tail:
  "list_all (\<lambda>p. CHR ''*'' \<notin> set p) ps \<Longrightarrow> glob_ref (concat (map ((#) CHR ''*'') ps)) val \<longleftrightarrow> tail_match ps val"
proof (induction ps arbitrary: val)
  case (Cons p ps)
  then show ?case
    by (auto simp: glob_ref_star glob_ref_literal simp del: glob_ref.simps)
qed simp

lemma join_star: "join ''*'' (p # ps) = p @ concat (map ((#) CHR ''*'') ps)"
  by (induction ps arbitrary: p) auto

lemma split_once_char_free: "split_once [c] s = Some (a, b) \<Longrightarrow> c \<notin> set a"
  by (induction "[c]" s arbitrary: a rule: split_once.induct)
    (auto simp: starts_with_def split: if_splits)

lemma split_once_char_None: "split_once [c] s = None \<longleftrightarrow> c \<notin> set s"
  by (auto simp: split_once_None in_set_conv_decomp)

lemma str_split_char_free: "list_all (\<lambda>p. c \<notin> set p) (str_split [c] s)"
proof (induction "[c]" s rule: str_split.induct)
  case (1 s)
  then show ?case
    by (subst str_split.simps)
      (auto simp: split_once_char_None dest: split_once_char_free split: option.splits)
qed

lemma glob_ref_parts:
  assumes "str_split ''*'' pattern = p # ps"
  shows "glob_ref pattern val \<longleftrightarrow> (\<exists>r. val = p @ r \<and> tail_match ps r)"
proof -
  have "pattern = p @ concat (map ((#) CHR ''*'') ps)"
    using join_str_split [of "''*''" pattern] assms by (simp add: join_star)
  moreover have "list_all (\<lambda>q. CHR ''*'' \<notin> set q) (p # ps)"
    using str_split_char_free [of "CHR ''*''" pattern] assms by simp
  ultimately show ?thesis
    by (simp add: glob_ref_literal glob_ref_tail)
qed

section \<open>The greedy search is right\<close>

lemma tail_match_suffix: "ps \<noteq> [] \<Longrightarrow> tail_match ps r \<Longrightarrow> tail_match ps (u @ r)"
  by (cases ps) (auto, metis append_assoc)

text \<open>Taking the leftmost occurrence of a piece loses no match, as long as a star follows.\<close>

lemma tail_match_greedy:
  assumes "ps \<noteq> []"
  shows "tail_match (p # ps) val \<longleftrightarrow> (\<exists>a b. split_once p val = Some (a, b) \<and> tail_match ps b)"
proof
  assume "tail_match (p # ps) val"
  then obtain w r where val: "val = w @ p @ r" and r: "tail_match ps r" by auto
  then obtain a b where ab: "split_once p val = Some (a, b)"
    using split_once_None [of p val] by (cases "split_once p val") auto
  obtain u where "b = u @ r" using split_once_suffix [OF ab val] .
  with r assms have "tail_match ps b" by (simp add: tail_match_suffix)
  with ab show "\<exists>a b. split_once p val = Some (a, b) \<and> tail_match ps b" by blast
next
  assume "\<exists>a b. split_once p val = Some (a, b) \<and> tail_match ps b"
  then show "tail_match (p # ps) val" by (auto dest: split_once_Some)
qed

lemma tail_match_last: "tail_match [p] val \<longleftrightarrow> ends_with p val"
  by (auto simp: ends_with_iff)

lemma split_once_empty: "split_once [] s = Some ([], s)"
  by (cases s) (simp_all add: starts_with_def)

text \<open>After the first piece, the loop decides \<open>tail_match\<close> on the rest of the value.\<close>

lemma glob_loop_tail:
  assumes "i \<noteq> 0" and "i + length ps = n" and "ps \<noteq> []"
  shows "glob_loop n pos val ps i \<longleftrightarrow> tail_match ps (drop pos val)"
  using assms
proof (induction ps arbitrary: i pos)
  case (Cons p ps)
  show ?case
  proof (cases "ps = []")
    case True
    with Cons.prems have "i = n - 1" by simp
    with True Cons.prems(1) show ?thesis
      by (cases "p = []") (simp_all add: tail_match_last ends_with_iff)
  next
    case False
    have IH: "glob_loop n pos' val ps (Suc i) \<longleftrightarrow> tail_match ps (drop pos' val)" for pos'
      using Cons.IH [of "Suc i" pos'] Cons.prems False by simp
    have "i \<noteq> n - 1" using Cons.prems False by (cases ps) auto
    show ?thesis
    proof (cases "split_once p (drop pos val)")
      case None
      then have "\<not> tail_match (p # ps) (drop pos val)" by (auto simp: split_once_None)
      moreover from None have "p \<noteq> []" by (auto simp: split_once_empty)
      ultimately show ?thesis
        using None \<open>i \<noteq> n - 1\<close> Cons.prems(1) by (simp add: str_find_def)
    next
      case (Some ab)
      obtain a b where ab: "ab = (a, b)" by fastforce
      have "drop pos val = a @ p @ b" using Some ab split_once_Some by blast
      then have "b = drop (pos + length a + length p) val"
        by (metis append_assoc append_eq_conv_conj drop_drop length_append add.assoc add.commute)
      moreover have "p = [] \<Longrightarrow> a = []" using Some ab by (simp add: split_once_empty)
      ultimately show ?thesis
        using Some ab \<open>i \<noteq> n - 1\<close> Cons.prems(1) IH tail_match_greedy [OF False, of p "drop pos val"]
        by (auto simp: str_find_def simp del: tail_match.simps)
    qed
  qed
qed simp

lemma str_split_star_length: "CHR ''*'' \<in> set pattern \<Longrightarrow> \<exists>p q ps. str_split ''*'' pattern = p # q # ps"
proof -
  assume "CHR ''*'' \<in> set pattern"
  then obtain a b where "split_once ''*'' pattern = Some (a, b)"
    using split_once_char_None [of "CHR ''*''" pattern] by (cases "split_once ''*'' pattern") auto
  then have "str_split ''*'' pattern = a # str_split ''*'' b"
    by (subst str_split.simps) simp
  then show ?thesis
    using str_split_nonempty [of "''*''" b] by (metis list.exhaust)
qed

lemma two_part_match:
  "(\<exists>r. val = p @ r \<and> tail_match [q] r) \<longleftrightarrow>
     starts_with p val \<and> ends_with q val \<and> length p + length q \<le> length val"
proof
  assume "\<exists>r. val = p @ r \<and> tail_match [q] r"
  then show "starts_with p val \<and> ends_with q val \<and> length p + length q \<le> length val"
    by (auto simp: starts_with_iff ends_with_iff)
next
  assume a: "starts_with p val \<and> ends_with q val \<and> length p + length q \<le> length val"
  then obtain r s where r: "val = p @ r" and s: "val = s @ q"
    unfolding starts_with_iff ends_with_iff by blast
  have "length p \<le> length s" using a arg_cong [OF s, of length] by simp
  with r s obtain w where "s = p @ w"
    by (metis append_eq_append_conv_if append_take_drop_id)
  with r s have "r = w @ q" by simp
  with r show "\<exists>r. val = p @ r \<and> tail_match [q] r" by auto
qed

lemma glob_match_iff: "glob_match pattern val \<longleftrightarrow> glob_ref pattern val"
proof (cases "CHR ''*'' \<in> set pattern")
  case False
  then show ?thesis
    using glob_ref_literal [of pattern "[]" val] by (auto simp: glob_match_def)
next
  case True
  then obtain p q ps where parts: "str_split ''*'' pattern = p # q # ps"
    using str_split_star_length by blast
  have loop: "glob_loop (length (p # q # ps)) 0 val (p # q # ps) 0 \<longleftrightarrow>
      (\<exists>r. val = p @ r \<and> tail_match (q # ps) r)"
    by (auto simp: glob_loop_tail starts_with_iff simp del: tail_match.simps glob_loop.simps(2)
        simp add: glob_loop.simps(2) [of _ _ _ p])
  show ?thesis
  proof (cases "pattern = ''*''")
    case True
    then show ?thesis using glob_ref_star [of "[]" val] by (simp add: glob_match_def)
  next
    case False
    with True parts loop glob_ref_parts [OF parts] two_part_match [of val p q] show ?thesis
      by (cases ps) (simp_all add: glob_match_def del: tail_match.simps glob_loop.simps)
  qed
qed

text \<open>C33: \<open>glob_match\<close> decides exactly the language of its pattern: a star stands for any text, empty text
  included, every other character (a question mark too) for itself.  Its three cases and its greedy
  left-to-right search agree with the backtracking reference on every pattern and value.\<close>

theorem glob_match_correct: "glob_match pattern val \<longleftrightarrow> glob_ref pattern val"
  by (rule glob_match_iff)

end
