(* ===== verification/Json.thy ===== *)
theory Json
  imports Prelude
begin

text \<open>
  The JSON tree of \<open>serde_json\<close> as the conversion code sees it.  \<open>serde_json::Map\<close> is a
  \<open>BTreeMap\<close> in this build (the \<open>preserve_order\<close> feature is off), so an object is a finite
  map and two objects with the same entries are equal.  The crate itself (its parser, its printer
  and the derived \<open>Serialize\<close>/\<open>Deserialize\<close> code) is not part of the repository: text and
  trees are related only through the parameters in the record \<open>serde\<close> at the end.
\<close>

datatype number = PosInt u64 | NegInt i64 | Float rat

datatype "value" =
    JNull
  | JBool bool
  | JNumber number
  | JString string
  | JArray "value list"
  | JObject "(string, value) fmap"

type_synonym obj = "(string, value) fmap"

abbreviation obj_of :: "(string \<times> value) list \<Rightarrow> obj" where
  "obj_of \<equiv> fmap_of_list"

abbreviation jobj :: "(string \<times> value) list \<Rightarrow> value" where
  "jobj kvs \<equiv> JObject (fmap_of_list kvs)"

section \<open>Accessors\<close>

fun as_str :: "value \<Rightarrow> string option" where
  "as_str (JString s) = Some s"
| "as_str _ = None"

fun as_bool :: "value \<Rightarrow> bool option" where
  "as_bool (JBool b) = Some b"
| "as_bool _ = None"

fun as_u64 :: "value \<Rightarrow> u64 option" where
  "as_u64 (JNumber (PosInt n)) = Some n"
| "as_u64 _ = None"

fun as_i64 :: "value \<Rightarrow> i64 option" where
  "as_i64 (JNumber (PosInt n)) = (if unat n < 2 ^ 63 then Some n else None)"
| "as_i64 (JNumber (NegInt n)) = Some n"
| "as_i64 _ = None"

fun as_array :: "value \<Rightarrow> value list option" where
  "as_array (JArray vs) = Some vs"
| "as_array _ = None"

fun as_object :: "value \<Rightarrow> obj option" where
  "as_object (JObject m) = Some m"
| "as_object _ = None"

definition is_null :: "value \<Rightarrow> bool" where
  "is_null v \<longleftrightarrow> v = JNull"

text \<open>\<open>Value::get\<close> with a string index.\<close>

fun jget :: "value \<Rightarrow> string \<Rightarrow> value option" where
  "jget (JObject m) k = fmlookup m k"
| "jget _ k = None"

definition get_str :: "obj \<Rightarrow> string \<Rightarrow> string option" where
  "get_str m k = Option.bind (fmlookup m k) as_str"

definition jget_str :: "value \<Rightarrow> string \<Rightarrow> string option" where
  "jget_str v k = Option.bind (jget v k) as_str"

lemma jget_str_obj [simp]: "jget_str (JObject m) k = get_str m k"
  by (simp add: jget_str_def get_str_def)

text \<open>\<open>Value::from(i64)\<close> and \<open>Value::from(u32)\<close>, \<open>Value::from(u64)\<close>.\<close>

definition json_i64 :: "i64 \<Rightarrow> value" where
  "json_i64 n = JNumber (if sint n < 0 then NegInt n else PosInt n)"

definition json_u64 :: "u64 \<Rightarrow> value" where
  "json_u64 n = JNumber (PosInt n)"

definition json_u32 :: "u32 \<Rightarrow> value" where
  "json_u32 n = JNumber (PosInt (ucast n))"

lemma as_u64_json_u64 [simp]: "as_u64 (json_u64 n) = Some n"
  by (simp add: json_u64_def)

lemma as_u64_json_u32 [simp]: "as_u64 (json_u32 n) = Some (ucast n)"
  by (simp add: json_u32_def)

lemma ucast_up_down_u32 [simp]: "(ucast (ucast (n :: u32) :: u64) :: u32) = n"
  by (simp add: ucast_up_ucast_id is_up)

lemma sint_nonneg_bound: "0 \<le> sint (n :: i64) \<Longrightarrow> unat n < 2 ^ 63"
proof -
  assume "0 \<le> sint n"
  moreover have "sint n < 2 ^ 63"
    using sint_lt [of n] by simp
  ultimately have "uint n = sint n"
    by (simp add: uint_sint take_bit_int_eq_self)
  with \<open>sint n < 2 ^ 63\<close> show ?thesis
    by (simp add: unat_eq_nat_uint nat_less_iff)
qed

lemma as_i64_json_i64 [simp]: "as_i64 (json_i64 n) = Some n"
  using sint_nonneg_bound [of n] by (auto simp: json_i64_def not_less)

section \<open>Recursion through objects\<close>

text \<open>A value found in an object or an array is smaller than the object or array.\<close>

lemma size_fset_mem: "x |\<in>| A \<Longrightarrow> f x < size_fset f A"
proof -
  assume "x |\<in>| A"
  then have "Suc (f x) \<le> (\<Sum>y \<in> fset A. Suc (f y))"
    by (intro member_le_sum) auto
  then show ?thesis by (simp add: size_fset_simps)
qed

lemma size_fmlookup: "fmlookup m k = Some v \<Longrightarrow> size v < size (JObject m)"
proof -
  assume "fmlookup m k = Some v"
  then have "(k, v) |\<in>| fset_of_fmap m"
    by (simp add: fset_of_fmap_iff)
  from size_fset_mem [OF this, of "\<lambda>(a, b). size b"] show ?thesis
    by simp
qed

lemma size_fmdrop: "fmlookup (fmdrop j m) k = Some v \<Longrightarrow> size v < size (JObject m)"
  by (auto split: if_splits dest: size_fmlookup)

lemma size_JArray_mem: "v \<in> set vs \<Longrightarrow> size v < size (JArray vs)"
  by (induction vs) auto

section \<open>The parameters that stand for \<open>serde_json\<close>\<close>

text \<open>
  \<open>from_text\<close> is \<open>serde_json::from_str::<Value>\<close> (\<^const>\<open>Inl\<close> carries the error's
  message) and \<open>to_text\<close> is \<open>Value::to_string\<close>.  The typed readers of the wire structs are
  further parameters, declared next to the structs.
\<close>

record serde =
  from_text :: "string \<Rightarrow> string + value"
  to_text :: "value \<Rightarrow> string"

end
