(* ===== verification/IR.thy ===== *)
theory IR
  imports Json
begin

text \<open>
  The hub of the converter: \<open>crates/core/src/error.rs\<close>, \<open>convert.rs\<close> (the \<open>Format\<close>
  enum) and \<open>crates/core/src/ir/\<close> (request, response and stream types).  The namespaced bag of
  unmodelled fields is given an interface (\<open>extra_bag\<close>) whose laws are proved for
  \<open>put\<close>, \<open>take\<close> and \<open>dropped\<close>.
\<close>

section \<open>Errors and formats\<close>

datatype ConvertError =
    JsonError string
  | UnsupportedConversion string string
  | MissingField string
  | InvalidField string string
  | UnsupportedContentType string
  | SseParse string
  | StreamStateError string

type_synonym 'a result = "ConvertError + 'a"

datatype Format = OpenAIChat | Claude | OpenAIResponses | Gemini

fun format_as_str :: "Format \<Rightarrow> string" where
  "format_as_str OpenAIChat = ''openai_chat''"
| "format_as_str Claude = ''claude''"
| "format_as_str OpenAIResponses = ''openai_responses''"
| "format_as_str Gemini = ''gemini''"

definition format_parse :: "string \<Rightarrow> Format result" where
  "format_parse s =
     (if s = ''openai_chat'' \<or> s = ''openai'' then Inr OpenAIChat
      else if s = ''claude'' \<or> s = ''anthropic'' then Inr Claude
      else if s = ''openai_responses'' \<or> s = ''responses'' then Inr OpenAIResponses
      else if s = ''gemini'' \<or> s = ''google'' then Inr Gemini
      else Inl (InvalidField ''format'' (''unknown format: '' @ s)))"

section \<open>Request IR\<close>

datatype Role = User | Assistant

record Signature =
  sig_by :: Format
  sig_value :: string

datatype IrPart =
    Text (part_text: string) (part_signature: "Signature option")
  | Image (img_url: string) (img_media_type: string) (img_data: "string option")
      (img_detail: "string option")
  | ToolCall (call_id: string) (call_name: string) (call_args: "value")
      (call_signature: "Signature option")
  | ToolResult (result_call_id: string) (result_is_error: bool) (result_content: "IrPart list")
  | Thinking (think_text: string) (think_signature: "Signature option")
  | Sealed (sealed_by: Format) (sealed_raw: "value")

record IrMessage =
  im_role :: Role
  im_parts :: "IrPart list"

record IrTool =
  it_name :: string
  it_description :: string
  it_schema :: "value"
  it_strict :: "bool option"

datatype IrToolChoice = ChoiceAuto | ChoiceNone | ChoiceRequired | ChoiceNamed string

record Sampling =
  sa_max_tokens :: "u32 option"
  sa_temperature :: "f32 option"
  sa_top_p :: "f32 option"
  sa_top_k :: "u32 option"
  sa_stop :: "string list"

datatype Reasoning = ReasoningOff | Budget u32 | Effort string

text \<open>The bag of fields no IR type models: \<open>(owner format, field, value)\<close> in insertion order.\<close>

type_synonym NamespacedExtra = "(Format \<times> string \<times> value) list"

record IrRequest =
  ir_model :: string
  ir_system :: "IrPart list"
  ir_messages :: "IrMessage list"
  ir_tools :: "IrTool list"
  ir_tool_choice :: "IrToolChoice option"
  ir_sampling :: Sampling
  ir_stream :: bool
  ir_reasoning :: Reasoning
  ir_extra :: NamespacedExtra

definition PASSLIST :: "string list" where
  "PASSLIST = [''user'', ''stream_options'', ''parallel_tool_calls'']"

fun extra_put :: "Format \<Rightarrow> string \<Rightarrow> value \<Rightarrow> NamespacedExtra \<Rightarrow> NamespacedExtra" where
  "extra_put owner field v [] = [(owner, field, v)]"
| "extra_put owner field v ((f, name, w) # rest) =
     (if f = owner \<and> name = field then (f, name, v) # rest
      else (f, name, w) # extra_put owner field v rest)"

definition extra_takes :: "Format \<Rightarrow> Format \<times> string \<times> value \<Rightarrow> bool" where
  "extra_takes target e = (case e of (owner, name, v) \<Rightarrow> owner = target \<or> name \<in> set PASSLIST)"

text \<open>\<open>take\<close> returns what the target may carry and leaves the rest in the bag.\<close>

definition extra_take ::
  "Format \<Rightarrow> NamespacedExtra \<Rightarrow> (string \<times> value) list \<times> NamespacedExtra" where
  "extra_take target es =
     (map (\<lambda>(owner, name, v). (name, v)) (filter (extra_takes target) es),
      filter (\<lambda>e. \<not> extra_takes target e) es)"

definition extra_dropped :: "NamespacedExtra \<Rightarrow> (Format \<times> string) list" where
  "extra_dropped es = map (\<lambda>(f, name, v). (f, name)) es"

definition extra_is_empty :: "NamespacedExtra \<Rightarrow> bool" where
  "extra_is_empty es \<longleftrightarrow> es = []"

text \<open>\<open>put\<close> and \<open>take\<close> over a loop: \<open>if let Some(v) = ... { extra.put(...) }\<close>.\<close>

definition extra_put_opt :: "Format \<Rightarrow> string \<Rightarrow> value option \<Rightarrow> NamespacedExtra \<Rightarrow> NamespacedExtra" where
  "extra_put_opt owner field v es =
     (case v of None \<Rightarrow> es | Some w \<Rightarrow> extra_put owner field w es)"

subsection \<open>The bag as an interface\<close>

text \<open>
  What the readers and builders rely on: a field put under an owner is found again under that
  owner and that name only, every \<open>(owner, field)\<close> slot is unique, and what one \<open>take\<close>
  removes is exactly what the target owns or the passlist names.
\<close>

locale extra_bag =
  fixes empty :: "'b"
    and put :: "Format \<Rightarrow> string \<Rightarrow> value \<Rightarrow> 'b \<Rightarrow> 'b"
    and take :: "Format \<Rightarrow> 'b \<Rightarrow> (string \<times> value) list \<times> 'b"
    and lookup :: "'b \<Rightarrow> Format \<Rightarrow> string \<Rightarrow> value option"
    and invar :: "'b \<Rightarrow> bool"
    and passes :: "string \<Rightarrow> bool"
  assumes lookup_empty: "lookup empty f k = None"
    and invar_empty: "invar empty"
    and invar_put: "invar b \<Longrightarrow> invar (put f k v b)"
    and invar_take: "invar b \<Longrightarrow> invar (snd (take f b))"
    and lookup_put: "lookup (put f k v b) g l = (if g = f \<and> l = k then Some v else lookup b g l)"
    and taken_iff: "invar b \<Longrightarrow>
      (k, v) \<in> set (fst (take t b)) \<longleftrightarrow> (\<exists>f. lookup b f k = Some v \<and> (f = t \<or> passes k))"
    and lookup_rest: "invar b \<Longrightarrow>
      lookup (snd (take t b)) f k = (if f = t \<or> passes k then None else lookup b f k)"
begin

text \<open>A vendor's private field never reaches another vendor's builder.\<close>

lemma foreign_field_stays:
  assumes "invar b" and "f \<noteq> t" and "\<not> passes k" and "\<And>v. lookup b t k \<noteq> Some v"
  shows "k \<notin> fst ` set (fst (take t (put f k v b)))"
    and "lookup (snd (take t (put f k v b))) f k = Some v"
  using assms invar_put [of b] by (auto simp: taken_iff lookup_rest lookup_put split: if_splits)

text \<open>A field put under a format's own name comes back to that format.\<close>

lemma own_field_returns: "invar b \<Longrightarrow> (k, v) \<in> set (fst (take f (put f k v b)))"
  using invar_put [of b] by (auto simp: taken_iff lookup_put)

text \<open>\<open>take\<close> is exhaustive: a second \<open>take\<close> for the same target finds nothing.\<close>

lemma take_take_empty: "invar b \<Longrightarrow> fst (take t (snd (take t b))) = []"
proof -
  assume b: "invar b"
  then have "(k, v) \<notin> set (fst (take t (snd (take t b))))" for k v
    by (auto simp: taken_iff invar_take lookup_rest split: if_splits)
  then show ?thesis
    by (metis list.set_intros(1) neq_Nil_conv surj_pair)
qed

end

definition extra_invar :: "NamespacedExtra \<Rightarrow> bool" where
  "extra_invar es \<longleftrightarrow> distinct (extra_dropped es)"

definition extra_lookup :: "NamespacedExtra \<Rightarrow> Format \<Rightarrow> string \<Rightarrow> value option" where
  "extra_lookup es f k = map_of (map (\<lambda>(f, k, v). ((f, k), v)) es) (f, k)"

lemma extra_lookup_simps [simp]:
  "extra_lookup [] f k = None"
  "extra_lookup ((g, l, w) # es) f k = (if g = f \<and> l = k then Some w else extra_lookup es f k)"
  by (auto simp: extra_lookup_def)

lemma extra_lookup_put:
  "extra_lookup (extra_put f k v es) g l =
     (if g = f \<and> l = k then Some v else extra_lookup es g l)"
  by (induction f k v es rule: extra_put.induct) auto

lemma extra_put_slots:
  "set (extra_dropped (extra_put f k v es)) = insert (f, k) (set (extra_dropped es))"
  by (induction f k v es rule: extra_put.induct) (auto simp: extra_dropped_def)

lemma extra_invar_put: "extra_invar es \<Longrightarrow> extra_invar (extra_put f k v es)"
  using extra_put_slots
  by (induction f k v es rule: extra_put.induct)
    (fastforce simp: extra_invar_def extra_dropped_def)+

lemma extra_lookup_mem:
  "extra_invar es \<Longrightarrow> extra_lookup es f k = Some v \<longleftrightarrow> (f, k, v) \<in> set es"
  by (induction es) (force simp: extra_invar_def extra_dropped_def)+

lemma extra_invar_filter: "extra_invar es \<Longrightarrow> extra_invar (filter P es)"
  by (simp add: extra_invar_def extra_dropped_def distinct_map_filter)

lemma extra_lookup_filter:
  assumes "extra_invar es"
  shows "extra_lookup (filter P es) f k = Some v \<longleftrightarrow> extra_lookup es f k = Some v \<and> P (f, k, v)"
  using assms by (auto simp: extra_lookup_mem extra_invar_filter)

lemma extra_lookup_rest:
  assumes "extra_invar es"
  shows "extra_lookup (snd (extra_take t es)) f k =
    (if f = t \<or> k \<in> set PASSLIST then None else extra_lookup es f k)"
proof -
  have "extra_lookup (snd (extra_take t es)) f k = Some v \<longleftrightarrow>
      (if f = t \<or> k \<in> set PASSLIST then None else extra_lookup es f k) = Some v" for v
    using assms by (auto simp: extra_take_def extra_lookup_filter extra_takes_def)
  then show ?thesis by (metis not_Some_eq)
qed

interpretation ns: extra_bag "[]" extra_put extra_take extra_lookup extra_invar
  "\<lambda>k. k \<in> set PASSLIST"
proof (unfold_locales, goal_cases)
  case (3 b f k v)
  then show ?case by (rule extra_invar_put)
next
  case (4 b f)
  then show ?case by (simp add: extra_take_def extra_invar_filter)
next
  case (5 f k v b g l)
  show ?case by (rule extra_lookup_put)
next
  case (6 b k v t)
  then show ?case by (force simp: extra_take_def extra_takes_def extra_lookup_mem)
next
  case (7 b t f k)
  then show ?case by (rule extra_lookup_rest)
qed (simp_all add: extra_invar_def extra_dropped_def)

section \<open>Response IR\<close>

datatype StopReason = EndTurn | MaxTokens | ToolUse | StopSequence | ContentFilter

record Usage =
  us_input_tokens :: u64
  us_output_tokens :: u64
  us_cache_read_tokens :: "u64 option"
  us_cache_write_tokens :: "u64 option"
  us_cache_write_1h :: "u64 option"
  us_reasoning_tokens :: "u64 option"

definition usage_default :: Usage where
  "usage_default = \<lparr>us_input_tokens = 0, us_output_tokens = 0, us_cache_read_tokens = None,
     us_cache_write_tokens = None, us_cache_write_1h = None, us_reasoning_tokens = None\<rparr>"

definition total_tokens :: "Usage \<Rightarrow> u64" where
  "total_tokens u = us_input_tokens u + us_output_tokens u"

fun to_openai_chat :: "StopReason \<Rightarrow> string" where
  "to_openai_chat EndTurn = ''stop''"
| "to_openai_chat MaxTokens = ''length''"
| "to_openai_chat ToolUse = ''tool_calls''"
| "to_openai_chat StopSequence = ''stop''"
| "to_openai_chat ContentFilter = ''content_filter''"

fun to_claude :: "StopReason \<Rightarrow> string" where
  "to_claude EndTurn = ''end_turn''"
| "to_claude MaxTokens = ''max_tokens''"
| "to_claude ToolUse = ''tool_use''"
| "to_claude StopSequence = ''stop_sequence''"
| "to_claude ContentFilter = ''end_turn''"

fun to_gemini :: "StopReason \<Rightarrow> string" where
  "to_gemini EndTurn = ''STOP''"
| "to_gemini MaxTokens = ''MAX_TOKENS''"
| "to_gemini ToolUse = ''STOP''"
| "to_gemini StopSequence = ''STOP''"
| "to_gemini ContentFilter = ''SAFETY''"

definition from_openai_chat :: "string \<Rightarrow> StopReason" where
  "from_openai_chat s =
     (if s = ''stop'' then EndTurn
      else if s = ''length'' then MaxTokens
      else if s = ''tool_calls'' then ToolUse
      else if s = ''content_filter'' then ContentFilter
      else EndTurn)"

definition from_claude :: "string \<Rightarrow> StopReason" where
  "from_claude s =
     (if s = ''end_turn'' then EndTurn
      else if s = ''max_tokens'' then MaxTokens
      else if s = ''tool_use'' then ToolUse
      else if s = ''stop_sequence'' then StopSequence
      else if s = ''refusal'' then ContentFilter
      else EndTurn)"

definition from_gemini :: "string \<Rightarrow> StopReason" where
  "from_gemini s =
     (if s = ''STOP'' then EndTurn
      else if s = ''MAX_TOKENS'' then MaxTokens
      else if s = ''SAFETY'' \<or> s = ''PROHIBITED_CONTENT'' then ContentFilter
      else EndTurn)"

definition from_openai_resp :: "string \<Rightarrow> StopReason" where
  "from_openai_resp s =
     (if s = ''max_output_tokens'' then MaxTokens
      else if s = ''content_filter'' then ContentFilter
      else EndTurn)"

record IrResponse =
  re_id :: "string option"
  re_model :: string
  re_parts :: "IrPart list"
  re_stop_reason :: StopReason
  re_stop_sequence :: "string option"
  re_usage :: Usage

text \<open>
  Which stop reasons survive a trip through a wire format, as a normal form per format: the
  reasons a format has no word for collapse onto the one it would be read back as.
\<close>

fun norm_stop :: "Format \<Rightarrow> StopReason \<Rightarrow> StopReason" where
  "norm_stop OpenAIChat StopSequence = EndTurn"
| "norm_stop Claude ContentFilter = EndTurn"
| "norm_stop Gemini ToolUse = EndTurn"
| "norm_stop Gemini StopSequence = EndTurn"
| "norm_stop _ r = r"

lemma stop_reason_roundtrips [simp]:
  "from_openai_chat (to_openai_chat r) = norm_stop OpenAIChat r"
  "from_claude (to_claude r) = norm_stop Claude r"
  "from_gemini (to_gemini r) = norm_stop Gemini r"
  by (cases r; simp add: from_openai_chat_def from_claude_def from_gemini_def)+

section \<open>Stream events and stream state\<close>

datatype CanonicalStreamEvent =
    Start (ev_id: string) (ev_model: string)
  | TextDelta string
  | ToolCallStart (ev_index: u32) (ev_call_id: string) (ev_name: string)
      (ev_signature: "string option")
  | ToolCallDelta (ev_index: u32) (ev_arguments: string)
  | ThinkingDelta string
  | ThinkingSignature (ev_by: Format) (ev_delta: string)
  | SealedThinking (ev_by: Format) (ev_raw: "value")
  | Done (ev_stop: StopReason) (ev_usage: "Usage option")

record AccumulatedToolCall =
  tc_index :: u32
  tc_id :: string
  tc_name :: string
  tc_arguments :: string

datatype StreamPhase = PhaseInit | PhaseContent | PhaseToolCalls | PhaseDone

record StreamState =
  response_id :: "string option"
  st_model :: "string option"
  block_index :: u32
  tool_call_index :: u32
  finish_reason :: "StopReason option"
  accumulated_usage :: "Usage option"
  accumulated_text :: string
  accumulated_tool_calls :: "AccumulatedToolCall list"
  phase :: StreamPhase
  st_done :: bool
  thinking_signature :: string
  thinking_signature_by :: "Format option"

definition stream_state_new :: StreamState where
  "stream_state_new = \<lparr>response_id = None, st_model = None, block_index = 0,
     tool_call_index = 0, finish_reason = None, accumulated_usage = None,
     accumulated_text = [], accumulated_tool_calls = [], phase = PhaseInit, st_done = False,
     thinking_signature = [], thinking_signature_by = None\<rparr>"

definition next_block_index :: "StreamState \<Rightarrow> u32 \<times> StreamState" where
  "next_block_index s = (block_index s, s\<lparr>block_index := block_index s + 1\<rparr>)"

definition next_tool_call_index :: "StreamState \<Rightarrow> u32 \<times> StreamState" where
  "next_tool_call_index s = (tool_call_index s, s\<lparr>tool_call_index := tool_call_index s + 1\<rparr>)"

end
