(* ===== verification/Config.thy ===== *)
theory Config
  imports Glob IR
begin

text \<open>
  The gateway's configuration and what is derived from it: \<open>crates/server/src/config/\<close> with its
  \<open>upstream_api.rs\<close>, \<open>provider.rs\<close>, \<open>routes.rs\<close> and the routing half of \<open>mod.rs\<close>.  A \<open>HashMap\<close> is an
  association list with distinct keys in the order in which iteration visits it, so a theorem over every such
  list covers every iteration order.
\<close>

section \<open>The API an upstream speaks\<close>

datatype UpstreamApi = ApiChat | ApiClaude | ApiResponses | ApiGemini | ApiCodeAssist | ApiCopilot

datatype WireCompat = GeminiApi | CodeAssist

fun to_format :: "UpstreamApi \<Rightarrow> Format" where
  "to_format ApiChat = OpenAIChat"
| "to_format ApiCopilot = OpenAIChat"
| "to_format ApiClaude = Claude"
| "to_format ApiResponses = OpenAIResponses"
| "to_format ApiGemini = Gemini"
| "to_format ApiCodeAssist = Gemini"

fun api_path :: "UpstreamApi \<Rightarrow> string \<Rightarrow> bool \<Rightarrow> string" where
  "api_path ApiChat model streaming = ''/v1/chat/completions''"
| "api_path ApiClaude model streaming = ''/v1/messages''"
| "api_path ApiResponses model streaming = ''/v1/responses''"
| "api_path ApiGemini model streaming =
     (if streaming then ''/v1beta/models/'' @ model @ '':streamGenerateContent''
      else ''/v1beta/models/'' @ model @ '':generateContent'')"
| "api_path ApiCodeAssist model streaming =
     (if streaming then ''/v1internal:streamGenerateContent?alt=sse'' else ''/v1internal:generateContent'')"
| "api_path ApiCopilot model streaming = ''/v1/chat/completions''"

fun from_format :: "Format \<Rightarrow> UpstreamApi" where
  "from_format OpenAIChat = ApiChat"
| "from_format Claude = ApiClaude"
| "from_format OpenAIResponses = ApiResponses"
| "from_format Gemini = ApiGemini"

definition from_npm :: "string \<Rightarrow> UpstreamApi" where
  "from_npm npm =
     (if npm = ''@ai-sdk/anthropic'' \<or> npm = ''@ai-sdk/google-vertex/anthropic'' then ApiClaude
      else if npm = ''@ai-sdk/openai'' \<or> npm = ''@ai-sdk/azure'' then ApiResponses
      else if npm = ''@ai-sdk/google'' then ApiCodeAssist
      else ApiChat)"

definition is_ascii_digit :: "char \<Rightarrow> bool" where
  "is_ascii_digit c \<longleftrightarrow> 48 \<le> (of_char c :: nat) \<and> (of_char c :: nat) \<le> 57"

text \<open>\<open>str::parse::<u32>\<close> on a run of digits: empty text and a number past the width are errors.\<close>

definition parse_u32_digits :: "string \<Rightarrow> nat option" where
  "parse_u32_digits s =
     (let n = foldl (\<lambda>n c. 10 * n + (of_char c - 48)) 0 s
      in if s = [] \<or> 2 ^ 32 \<le> n then None else Some n)"

definition copilot_api :: "string \<Rightarrow> UpstreamApi" where
  "copilot_api model =
     (case strip_prefix ''gpt-'' model of
        None \<Rightarrow> ApiChat
      | Some rest \<Rightarrow>
          (case parse_u32_digits (takeWhile is_ascii_digit rest) of
             None \<Rightarrow> ApiChat
           | Some version \<Rightarrow>
               if 5 \<le> version \<and> \<not> starts_with ''gpt-5-mini'' model then ApiResponses else ApiChat))"

fun wire_api :: "WireCompat \<Rightarrow> UpstreamApi" where
  "wire_api GeminiApi = ApiGemini"
| "wire_api CodeAssist = ApiCodeAssist"

lemma to_format_from_format [simp]: "to_format (from_format f) = f"
  by (cases f) simp_all

lemma copilot_api_cases: "copilot_api model = ApiChat \<or> copilot_api model = ApiResponses"
  by (simp add: copilot_api_def split: option.split)

section \<open>Providers\<close>

type_synonym 'a hash_map = "(string \<times> 'a) list"

record PluginRef =
  spec :: string
  target :: string

datatype AuthScheme = SchemeBearer | SchemeApiKeyHeader | SchemeXApiKey | SchemeGoogleApiKey | SchemeAnthropic | SchemeNone

record ProviderEndpointConfig =
  ep_path :: "string option"
  stream_path :: "string option"

record ProviderAuthConfig =
  scheme :: "AuthScheme option"
  auth_extra :: "string hash_map"

record ProviderConfig =
  pname :: string
  pformat :: Format
  base_url :: string
  api_key :: string
  account :: "string option"
  accounts :: "string list"
  papi :: "UpstreamApi option"
  wire :: "WireCompat option"
  model_map :: "string hash_map"
  endpoints :: ProviderEndpointConfig
  auth :: ProviderAuthConfig
  plugin :: "PluginRef option"
  pproxy :: "string option"

text \<open>The part of an account id before its colon (\<open>id.split(':').next()\<close>).\<close>

definition account_prefix :: "string \<Rightarrow> string" where
  "account_prefix acct = hd (str_split '':'' acct)"

fun dedup_ids :: "string list \<Rightarrow> string list \<Rightarrow> string list" where
  "dedup_ids ids [] = ids"
| "dedup_ids ids (x # xs) = dedup_ids (if x \<noteq> [] \<and> x \<notin> set ids then ids @ [x] else ids) xs"

definition account_ids :: "ProviderConfig \<Rightarrow> string list" where
  "account_ids p =
     dedup_ids []
       (if accounts p \<noteq> [] then accounts p
        else case account p of Some acct \<Rightarrow> [acct] | None \<Rightarrow> [])"

definition first_prefix :: "ProviderConfig \<Rightarrow> string option" where
  "first_prefix p = (case account_ids p of [] \<Rightarrow> None | acct # _ \<Rightarrow> Some (account_prefix acct))"

definition effective_api :: "ProviderConfig \<Rightarrow> UpstreamApi" where
  "effective_api p =
     (case papi p of
        Some api \<Rightarrow> api
      | None \<Rightarrow>
          (case wire p of
             Some w \<Rightarrow> wire_api w
           | None \<Rightarrow>
               if first_prefix p = Some ''gemini'' \<or> first_prefix p = Some ''antigravity'' then ApiCodeAssist
               else if first_prefix p = Some ''chatgpt-api'' then ApiResponses
               else from_format (pformat p)))"

definition is_copilot_account :: "ProviderConfig \<Rightarrow> bool" where
  "is_copilot_account p \<longleftrightarrow> first_prefix p = Some ''copilot''"

definition api_for :: "ProviderConfig \<Rightarrow> string \<Rightarrow> UpstreamApi" where
  "api_for p model = (if is_copilot_account p then copilot_api model else effective_api p)"

definition proxy_for :: "ProviderConfig \<Rightarrow> string option \<Rightarrow> string option" where
  "proxy_for p server_proxy = or_else (pproxy p) server_proxy"

definition GEMINI_CODE_ASSIST_BASE :: string where
  "GEMINI_CODE_ASSIST_BASE = ''https://cloudcode-pa.googleapis.com''"

definition ANTIGRAVITY_CODE_ASSIST_BASE :: string where
  "ANTIGRAVITY_CODE_ASSIST_BASE = ''https://daily-cloudcode-pa.googleapis.com''"

definition code_assist_base :: "ProviderConfig \<Rightarrow> string" where
  "code_assist_base p =
     (if trim (base_url p) \<noteq> [] then base_url p
      else if first_prefix p = Some ''antigravity'' then ANTIGRAVITY_CODE_ASSIST_BASE
      else GEMINI_CODE_ASSIST_BASE)"

definition chatgpt_api_base :: "ProviderConfig \<Rightarrow> string" where
  "chatgpt_api_base p =
     (let base = if trim (base_url p) = [] then ''https://api.openai.com'' else trim_end_char CHR ''/'' (base_url p)
      in unwrap_or base (strip_suffix ''/v1'' base))"

definition code_assist_load_base :: "ProviderConfig \<Rightarrow> string" where
  "code_assist_load_base p = (if trim (base_url p) \<noteq> [] then base_url p else GEMINI_CODE_ASSIST_BASE)"

text \<open>The loop of \<open>resolve_model\<close> over the map's entries, in iteration order.\<close>

fun best_pattern :: "string \<Rightarrow> string hash_map \<Rightarrow> (string \<times> string) option \<Rightarrow> (string \<times> string) option" where
  "best_pattern model [] best = best"
| "best_pattern model ((pattern, tgt) # rest) best =
     (if pattern = ''*'' then best_pattern model rest best
      else if glob_match pattern model \<and>
              (case best of None \<Rightarrow> True | Some (p, _) \<Rightarrow> length p < length pattern)
      then best_pattern model rest (Some (pattern, tgt))
      else best_pattern model rest best)"

definition resolve_model :: "ProviderConfig \<Rightarrow> string \<Rightarrow> string" where
  "resolve_model p model =
     (case map_of (model_map p) model of
        Some mapped \<Rightarrow> mapped
      | None \<Rightarrow>
          (case best_pattern model (model_map p) None of
             Some (_, tgt) \<Rightarrow> tgt
           | None \<Rightarrow> unwrap_or model (map_of (model_map p) ''*'')))"

section \<open>Routes and the configuration\<close>

datatype RouteStrategy = Priority | RoundRobin

record ModelRouteConfig =
  pattern :: string
  mr_provider :: "string option"
  mr_providers :: "string list"
  mr_upstream :: "string option"
  mr_strategy :: RouteStrategy

record ResolvedRoute =
  provider_names :: "string list"
  upstream_model :: string
  strategy :: RouteStrategy

definition route_provider_names :: "ModelRouteConfig \<Rightarrow> string list" where
  "route_provider_names mr =
     (case mr_provider mr of Some p \<Rightarrow> [p] | None \<Rightarrow> []) @ mr_providers mr"

datatype PassThroughMode = ModeAllow | ModeDeny

record PassThroughHeadersConfig =
  mode :: PassThroughMode
  allow :: "string list"
  deny :: "string list"

record ServerSettings =
  host :: string
  port :: "16 word"
  server_api_key :: "string option"
  pass_through_headers :: PassThroughHeadersConfig
  server_proxy :: "string option"

record ServerConfig =
  server :: ServerSettings
  providers :: "ProviderConfig list"
  model_routes :: "ModelRouteConfig list"

definition find_provider :: "ServerConfig \<Rightarrow> string \<Rightarrow> ProviderConfig option" where
  "find_provider cfg name = List.find (\<lambda>p. pname p = name) (providers cfg)"

definition is_wildcard :: "string \<Rightarrow> bool" where
  "is_wildcard pat \<longleftrightarrow> CHR ''*'' \<in> set pat \<or> CHR ''?'' \<in> set pat"

text \<open>The loop of \<open>resolve_provider_form\<close> over the routes.\<close>

fun resolve_routes :: "ServerConfig \<Rightarrow> string \<Rightarrow> bool \<Rightarrow> ModelRouteConfig list \<Rightarrow> ResolvedRoute option" where
  "resolve_routes cfg model wild [] = None"
| "resolve_routes cfg model wild (mr # mrs) =
     (if is_wildcard (pattern mr) \<and> \<not> wild then resolve_routes cfg model wild mrs
      else if glob_match (pattern mr) model then
        (case route_provider_names mr of
           [] \<Rightarrow> resolve_routes cfg model wild mrs
         | n # _ \<Rightarrow>
             Some \<lparr>provider_names = route_provider_names mr,
                   upstream_model =
                     (case mr_upstream mr of
                        Some u \<Rightarrow> u
                      | None \<Rightarrow> (case find_provider cfg n of Some p \<Rightarrow> resolve_model p model | None \<Rightarrow> model)),
                   strategy = mr_strategy mr\<rparr>)
      else resolve_routes cfg model wild mrs)"

definition resolve_provider_form :: "ServerConfig \<Rightarrow> string \<Rightarrow> bool \<Rightarrow> ResolvedRoute option" where
  "resolve_provider_form cfg model wild = resolve_routes cfg model wild (model_routes cfg)"

definition rebase_upstream :: "ResolvedRoute \<Rightarrow> string \<Rightarrow> string \<Rightarrow> ResolvedRoute" where
  "rebase_upstream r client_model bare_model =
     (if upstream_model r = client_model then r\<lparr>upstream_model := bare_model\<rparr> else r)"

text \<open>The bare name of a model behind a prefix that names a configured provider.\<close>

definition known_bare :: "ServerConfig \<Rightarrow> string \<Rightarrow> string option" where
  "known_bare cfg model =
     (case split_once ''/'' model of
        Some (pre, bare) \<Rightarrow> (if find_provider cfg pre \<noteq> None then Some bare else None)
      | None \<Rightarrow> None)"

definition resolve_bare :: "ServerConfig \<Rightarrow> string \<Rightarrow> bool \<Rightarrow> ResolvedRoute option" where
  "resolve_bare cfg model wild =
     (case known_bare cfg model of
        Some bare \<Rightarrow>
          map_option (\<lambda>r. rebase_upstream r model bare) (resolve_provider_form cfg bare wild)
      | None \<Rightarrow> None)"

definition resolve_provider :: "ServerConfig \<Rightarrow> string \<Rightarrow> ResolvedRoute option" where
  "resolve_provider cfg model =
     (case resolve_provider_form cfg model False of
        Some r \<Rightarrow> Some r
      | None \<Rightarrow>
          (case resolve_bare cfg model False of
             Some r \<Rightarrow> Some r
           | None \<Rightarrow>
               (case resolve_provider_form cfg model True of
                  Some r \<Rightarrow> (case resolve_bare cfg model True of Some r' \<Rightarrow> Some r' | None \<Rightarrow> Some r)
                | None \<Rightarrow>
                    (case split_once ''/'' model of
                       Some (_, bare) \<Rightarrow> resolve_provider_form cfg bare True
                     | None \<Rightarrow> None))))"

text \<open>\<open>validate\<close>: each finding as a value, in the order in which the code pushes its text.\<close>

datatype ConfigError =
  PluginWithApi nat string
| AccountAndAccounts nat string
| RouteProviderMissing nat string string
| RouteWithoutProvider nat string

definition validate_provider :: "nat \<times> ProviderConfig \<Rightarrow> ConfigError list" where
  "validate_provider = (\<lambda>(i, p).
     (if plugin p \<noteq> None \<and> (papi p \<noteq> None \<or> wire p \<noteq> None) then [PluginWithApi i (pname p)] else []) @
     (if account p \<noteq> None \<and> accounts p \<noteq> [] then [AccountAndAccounts i (pname p)] else []))"

definition validate_route :: "ServerConfig \<Rightarrow> nat \<times> ModelRouteConfig \<Rightarrow> ConfigError list" where
  "validate_route cfg = (\<lambda>(i, mr).
     [RouteProviderMissing i (pattern mr) n. n \<leftarrow> route_provider_names mr, n \<notin> set (map pname (providers cfg))] @
     (if route_provider_names mr = [] then [RouteWithoutProvider i (pattern mr)] else []))"

definition validate :: "ServerConfig \<Rightarrow> ConfigError list" where
  "validate cfg =
     concat (map validate_provider (enumerate 0 (providers cfg))) @
     concat (map (validate_route cfg) (enumerate 0 (model_routes cfg)))"

text \<open>\<open>available_models\<close>: the names pushed so far are also the set \<open>seen\<close>.\<close>

fun push_new :: "(string \<Rightarrow> bool) \<Rightarrow> string list \<Rightarrow> string list \<Rightarrow> string list" where
  "push_new ok models [] = models"
| "push_new ok models (x # xs) = push_new ok (if ok x \<and> x \<notin> set models then models @ [x] else models) xs"

definition available_models :: "ServerConfig \<Rightarrow> string list" where
  "available_models cfg =
     push_new (\<lambda>m. m \<noteq> ''*'')
       (push_new (\<lambda>m. m \<noteq> ''*'' \<and> CHR ''*'' \<notin> set m) [] (map pattern (model_routes cfg)))
       (concat (map (map fst \<circ> model_map) (providers cfg)))"

section \<open>Accounts\<close>

lemma dedup_ids_props:
  "distinct ids \<Longrightarrow> distinct (dedup_ids ids xs)"
  "set (dedup_ids ids xs) = set ids \<union> {x \<in> set xs. x \<noteq> []}"
  by (induction ids xs rule: dedup_ids.induct) auto

lemma account_ids_distinct [simp]: "distinct (account_ids p)"
  by (simp add: account_ids_def dedup_ids_props)

lemma account_ids_nonempty: "x \<in> set (account_ids p) \<Longrightarrow> x \<noteq> []"
  by (auto simp: account_ids_def dedup_ids_props split: if_splits option.splits)

lemma api_for_not_copilot:
  "papi p \<noteq> Some ApiCopilot \<Longrightarrow> api_for p model \<noteq> ApiCopilot"
  using copilot_api_cases [of model]
  by (cases "pformat p"; cases "the (wire p)") (auto simp: api_for_def effective_api_def split: option.split)

section \<open>The model map\<close>

text \<open>The entries of a map whose pattern matches a model, the catch-all aside.\<close>

definition candidates :: "string hash_map \<Rightarrow> string \<Rightarrow> (string \<times> string) set" where
  "candidates mm model = {e \<in> set mm. fst e \<noteq> ''*'' \<and> glob_ref (fst e) model}"

definition is_longest :: "(string \<times> string) set \<Rightarrow> string \<times> string \<Rightarrow> bool" where
  "is_longest cs e \<longleftrightarrow> e \<in> cs \<and> (\<forall>c \<in> cs. length (fst c) \<le> length (fst e))"

lemma candidates_simps [simp]:
  "candidates [] model = {}"
  "candidates ((pat, tgt) # mm) model =
     (if pat \<noteq> ''*'' \<and> glob_ref pat model then insert (pat, tgt) (candidates mm model) else candidates mm model)"
  by (auto simp: candidates_def)

lemma is_longest_empty [simp]: "\<not> is_longest {} e"
  by (simp add: is_longest_def)

lemma is_longest_insert:
  "is_longest (cs \<union> {b}) e \<Longrightarrow> length (fst a) \<le> length (fst b) \<Longrightarrow> is_longest (insert a (cs \<union> {b})) e"
  by (auto simp: is_longest_def)

lemma best_pattern_Some:
  "\<exists>e. best_pattern model mm (Some b) = Some e \<and> is_longest (candidates mm model \<union> {b}) e"
proof (induction mm arbitrary: b)
  case (Cons x mm)
  obtain pat tgt where x: "x = (pat, tgt)" by fastforce
  show ?case
  proof (cases "pat \<noteq> ''*'' \<and> glob_match pat model \<and> length (fst b) < length pat")
    case True
    with x Cons.IH [of x] obtain e where
      "best_pattern model (x # mm) (Some b) = Some e" "is_longest (candidates mm model \<union> {x}) e"
      by (cases b) auto
    moreover from this True x have "is_longest (insert b (candidates mm model \<union> {x})) e"
      by (intro is_longest_insert) simp_all
    ultimately show ?thesis
      using True x by (simp add: glob_match_iff insert_commute Un_commute)
  next
    case False
    with x Cons.IH [of b] obtain e where
      e: "best_pattern model (x # mm) (Some b) = Some e" "is_longest (candidates mm model \<union> {b}) e"
      by (cases b) auto
    with False x is_longest_insert [OF e(2), of x] show ?thesis
      by (auto simp: glob_match_iff insert_commute)
  qed
qed (simp add: is_longest_def)

lemma best_pattern_None:
  "case best_pattern model mm None of
     None \<Rightarrow> candidates mm model = {} | Some e \<Rightarrow> is_longest (candidates mm model) e"
proof (induction mm)
  case (Cons x mm)
  obtain pat tgt where x: "x = (pat, tgt)" by fastforce
  with Cons best_pattern_Some [of model mm x] show ?case
    by (auto simp: glob_match_iff split: option.splits)
qed simp


text \<open>A provider's \<open>resolve_model\<close> takes, in every iteration order of its hash map, the exact entry if there
  is one, else the target of a matching pattern of the greatest length, else the catch-all, else the name as
  it is.  Matching is the language of the pattern (\<open>glob_ref\<close>), not the search of \<open>glob_match\<close>.\<close>

lemma resolve_model_longest:
  "case map_of (model_map p) model of
     Some mapped \<Rightarrow> resolve_model p model = mapped
   | None \<Rightarrow>
       if candidates (model_map p) model = {}
       then resolve_model p model = unwrap_or model (map_of (model_map p) ''*'')
       else \<exists>pat. is_longest (candidates (model_map p) model) (pat, resolve_model p model)"
  using best_pattern_None [of "model_map p" model]
  by (auto simp: resolve_model_def split: option.splits)

section \<open>Routing\<close>

lemma resolve_routes_Some:
  "resolve_routes cfg model wild mrs = Some r \<Longrightarrow>
     \<exists>mr \<in> set mrs. provider_names r = route_provider_names mr \<and> provider_names r \<noteq> [] \<and>
       glob_match (pattern mr) model \<and> (wild \<or> \<not> is_wildcard (pattern mr)) \<and> strategy r = mr_strategy mr"
  by (induction mrs) (auto split: if_splits list.splits)

lemma resolve_routes_None:
  "resolve_routes cfg model wild mrs = None \<longleftrightarrow>
     (\<forall>mr \<in> set mrs. glob_match (pattern mr) model \<longrightarrow> (wild \<or> \<not> is_wildcard (pattern mr)) \<longrightarrow>
        route_provider_names mr = [])"
  by (induction mrs) (auto split: list.splits)

lemma rebase_upstream_simps [simp]:
  "provider_names (rebase_upstream r c b) = provider_names r"
  "strategy (rebase_upstream r c b) = strategy r"
  by (simp_all add: rebase_upstream_def)

text \<open>Every answer of \<open>resolve_provider\<close> names the providers of one of the configured routes.\<close>

lemma resolve_provider_route:
  assumes "resolve_provider cfg model = Some r"
  obtains mr where "mr \<in> set (model_routes cfg)" "provider_names r = route_provider_names mr" "provider_names r \<noteq> []"
proof -
  obtain model' wild r' where "resolve_provider_form cfg model' wild = Some r'" "provider_names r = provider_names r'"
    using assms
    by (auto simp: resolve_provider_def resolve_bare_def split: option.splits)
  then show ?thesis
    using that resolve_routes_Some unfolding resolve_provider_form_def by metis
qed

lemma find_provider_None: "find_provider cfg n = None \<longleftrightarrow> n \<notin> set (map pname (providers cfg))"
  by (auto simp: find_provider_def find_None_iff)

lemma validate_routes:
  assumes "validate cfg = []" "mr \<in> set (model_routes cfg)"
  shows "route_provider_names mr \<noteq> []" "list_all (\<lambda>n. find_provider cfg n \<noteq> None) (route_provider_names mr)"
proof -
  obtain i where "i < length (model_routes cfg)" "mr = model_routes cfg ! i"
    using assms(2) by (auto simp: in_set_conv_nth)
  then have "(i, mr) \<in> set (enumerate 0 (model_routes cfg))"
    by (simp add: in_set_enumerate_eq)
  with assms(1) have "validate_route cfg (i, mr) = []"
    by (auto simp: validate_def)
  then show "route_provider_names mr \<noteq> []" "list_all (\<lambda>n. find_provider cfg n \<noteq> None) (route_provider_names mr)"
    by (auto simp: validate_route_def find_provider_None list_all_iff split: if_splits)
qed

text \<open>In a configuration that passes \<open>validate\<close>, whatever route answers a model, it names at least one
  provider and each name is a configured provider, so the plan of a routed request never misses one.\<close>

lemma resolve_provider_validated:
  assumes "validate cfg = []" and "resolve_provider cfg model = Some r"
  shows "provider_names r \<noteq> [] \<and> list_all (\<lambda>n. find_provider cfg n \<noteq> None) (provider_names r)"
proof -
  obtain mr where mr: "mr \<in> set (model_routes cfg)" "provider_names r = route_provider_names mr"
    using resolve_provider_route [OF assms(2)] by metis
  then show ?thesis using validate_routes [OF assms(1)] by simp
qed

lemma literal_glob: "\<not> is_wildcard pat \<Longrightarrow> glob_match pat model \<longleftrightarrow> pat = model"
  by (auto simp: is_wildcard_def glob_match_def)

lemma resolve_literal_None:
  "resolve_provider_form cfg model False = None \<longleftrightarrow>
     (\<forall>mr \<in> set (model_routes cfg). pattern mr = model \<longrightarrow> \<not> is_wildcard model \<longrightarrow> route_provider_names mr = [])"
  by (auto simp: resolve_provider_form_def resolve_routes_None literal_glob)

lemma resolve_literal_Some:
  "resolve_provider_form cfg model False = Some r \<Longrightarrow>
     \<exists>mr \<in> set (model_routes cfg). pattern mr = model \<and> provider_names r = route_provider_names mr"
  unfolding resolve_provider_form_def by (drule resolve_routes_Some) (auto simp: literal_glob)

text \<open>C34: a route that names a model literally is never shadowed by a wildcard, wherever the wildcard stands in
  the table: the answer for the name, and for the name behind the prefix of a configured provider when no
  route names the prefixed form, comes from a literal route of that name.\<close>

theorem resolve_provider_literal_wins:
  assumes "mr \<in> set (model_routes cfg)" and "\<not> is_wildcard (pattern mr)" and "route_provider_names mr \<noteq> []"
    and "client_model = pattern mr \<or>
         (known_bare cfg client_model = Some (pattern mr) \<and>
          (\<forall>mr' \<in> set (model_routes cfg). pattern mr' \<noteq> client_model))"
  shows "\<exists>r mr'. resolve_provider cfg client_model = Some r \<and> mr' \<in> set (model_routes cfg) \<and>
           pattern mr' = pattern mr \<and> provider_names r = route_provider_names mr'"
proof -
  have "resolve_provider_form cfg (pattern mr) False \<noteq> None"
    using assms(1-3) by (auto simp: resolve_literal_None)
  then obtain r where r: "resolve_provider_form cfg (pattern mr) False = Some r" by blast
  obtain mr' where mr': "mr' \<in> set (model_routes cfg)" "pattern mr' = pattern mr" "provider_names r = route_provider_names mr'"
    using resolve_literal_Some [OF r] by blast
  show ?thesis
    using assms(4)
  proof
    assume "client_model = pattern mr"
    with r mr' show ?thesis by (auto simp: resolve_provider_def)
  next
    assume a: "known_bare cfg client_model = Some (pattern mr) \<and>
      (\<forall>mr' \<in> set (model_routes cfg). pattern mr' \<noteq> client_model)"
    then have "resolve_provider_form cfg client_model False = None" by (simp add: resolve_literal_None)
    with a r mr' show ?thesis
      by (auto simp: resolve_provider_def resolve_bare_def)
  qed
qed

text \<open>A catch-all route answers every model.\<close>

lemma resolve_provider_catch_all:
  assumes "mr \<in> set (model_routes cfg)" "pattern mr = ''*''" "route_provider_names mr \<noteq> []"
  shows "resolve_provider cfg model \<noteq> None"
proof -
  have "resolve_provider_form cfg model True \<noteq> None"
    using assms by (auto simp: resolve_provider_form_def resolve_routes_None glob_match_def)
  then show ?thesis by (auto simp: resolve_provider_def split: option.splits)
qed

section \<open>A sample configuration\<close>

definition sample_provider :: ProviderConfig where
  "sample_provider =
     \<lparr>pname = ''anthropic'', pformat = Claude, base_url = ''https://api.anthropic.com'', api_key = ''sk'',
      account = None, accounts = [], papi = None, wire = None,
      model_map = [(''claude-*'', ''sonnet''), (''claude-opus-*'', ''opus'')],
      endpoints = \<lparr>ep_path = None, stream_path = None\<rparr>, auth = \<lparr>scheme = None, auth_extra = []\<rparr>,
      plugin = None, pproxy = None\<rparr>"

definition sample_route :: "string \<Rightarrow> ModelRouteConfig" where
  "sample_route pat = \<lparr>pattern = pat, mr_provider = Some ''anthropic'', mr_providers = [], mr_upstream = None,
     mr_strategy = Priority\<rparr>"

definition sample_config :: ServerConfig where
  "sample_config =
     \<lparr>server = \<lparr>host = ''127.0.0.1'', port = 1228, server_api_key = Some ''global'',
                pass_through_headers = \<lparr>mode = ModeAllow, allow = [], deny = []\<rparr>, server_proxy = None\<rparr>,
      providers = [sample_provider], model_routes = [sample_route ''*'', sample_route ''claude-opus-4'']\<rparr>"

lemmas sample_defs = sample_provider_def sample_route_def sample_config_def

lemma resolve_provider_validated_witness:
  "\<exists>r. resolve_provider sample_config ''claude-opus-4'' = Some r \<and> provider_names r \<noteq> [] \<and>
     list_all (\<lambda>n. find_provider sample_config n \<noteq> None) (provider_names r)"
proof -
  have "validate sample_config = []" by code_simp
  moreover obtain r where r: "resolve_provider sample_config ''claude-opus-4'' = Some r"
    using resolve_provider_catch_all [of "sample_route ''*''" sample_config]
    by (force simp: sample_defs route_provider_names_def)
  ultimately show ?thesis using resolve_provider_validated [of sample_config "''claude-opus-4''" r] by blast
qed

theorem resolve_provider_literal_wins_witness:
  "\<exists>r mr'. resolve_provider sample_config ''anthropic/claude-opus-4'' = Some r \<and>
     mr' \<in> set (model_routes sample_config) \<and> pattern mr' = ''claude-opus-4'' \<and>
     provider_names r = route_provider_names mr'"
proof -
  have "known_bare sample_config ''anthropic/claude-opus-4'' = Some ''claude-opus-4''" by code_simp
  then show ?thesis
    using resolve_provider_literal_wins
      [of "sample_route ''claude-opus-4''" sample_config "''anthropic/claude-opus-4''"]
    by (auto simp: sample_config_def sample_route_def is_wildcard_def route_provider_names_def)
qed

text \<open>\<open>available_models\<close> lists a wildcard of a model map as if it were a model: its filter drops only the
  pattern \<open>*\<close> there, while the route table is filtered for every star.  The name it lists matches no literal
  route, and the provider maps it by its own pattern.\<close>

lemma available_models_lists_wildcards:
  "''claude-*'' \<in> set (available_models sample_config) \<and>
   available_models (sample_config\<lparr>providers := [], model_routes := [sample_route ''claude-*'']\<rparr>) = []"
  by code_simp

end
