(* ===== verification/Auth.thy ===== *)
theory Auth
  imports Config
begin

text \<open>
  Keys and headers: who may use the gateway and how it signs upstream (\<open>crates/server/src/auth.rs\<close>,
  \<open>ApiKeySource\<close> of \<open>credentials/mod.rs\<close>), which client headers travel on (\<open>build_upstream_headers\<close> of
  \<open>proxy.rs\<close>), and what the logs see of them (\<open>handlers/redact.rs\<close>).
\<close>

section \<open>Client keys\<close>

datatype AuthError = Missing | Invalid

definition bearer :: "string option \<Rightarrow> string option" where
  "bearer header = Option.bind header (strip_prefix ''Bearer '')"

definition validate_client_key :: "string option \<Rightarrow> string option \<Rightarrow> AuthError + unit" where
  "validate_client_key client_api_key auth_header =
     (case client_api_key of
        None \<Rightarrow> Inr ()
      | Some expected \<Rightarrow>
          try_bind (ok_or Missing (bearer auth_header)) (\<lambda>provided.
            if provided = expected then Inr () else Inl Invalid))"

definition validate_client_keys :: "string option \<Rightarrow> string list \<Rightarrow> string option \<Rightarrow> AuthError + unit" where
  "validate_client_keys client_api_key agent_keys auth_header =
     (case client_api_key of
        None \<Rightarrow> Inr ()
      | Some expected \<Rightarrow>
          try_bind (ok_or Missing (bearer auth_header)) (\<lambda>provided.
            if provided = expected \<or> provided \<in> set agent_keys then Inr () else Inl Invalid))"

definition require_management_key :: "string option \<Rightarrow> string option \<Rightarrow> AuthError + unit" where
  "require_management_key client_api_key auth_header = validate_client_key client_api_key auth_header"

text \<open>The header that carries a key.\<close>

definition bearer_header :: "string \<Rightarrow> string" where
  "bearer_header k = ''Bearer '' @ k"

lemma bearer_Some: "bearer h = Some k \<longleftrightarrow> h = Some (bearer_header k)"
  unfolding bearer_def bearer_header_def by (cases h) (simp_all only: bind.simps strip_prefix_Some, auto)

lemma bearer_header_inj [simp]: "bearer_header a = bearer_header b \<longleftrightarrow> a = b"
  by (simp add: bearer_header_def)

lemma bearer_bearer_header [simp]: "bearer (Some (bearer_header k)) = Some k"
  by (simp add: bearer_Some)



section \<open>Upstream credentials\<close>

type_synonym header = "string \<times> string"

fun default_auth_scheme :: "Format \<Rightarrow> AuthScheme" where
  "default_auth_scheme OpenAIChat = SchemeBearer"
| "default_auth_scheme OpenAIResponses = SchemeBearer"
| "default_auth_scheme Claude = SchemeAnthropic"
| "default_auth_scheme Gemini = SchemeGoogleApiKey"

fun build_headers_for_scheme :: "AuthScheme \<Rightarrow> string \<Rightarrow> header list" where
  "build_headers_for_scheme SchemeBearer key = [(''Authorization'', ''Bearer '' @ key)]"
| "build_headers_for_scheme SchemeApiKeyHeader key = [(''api-key'', key)]"
| "build_headers_for_scheme SchemeXApiKey key = [(''x-api-key'', key)]"
| "build_headers_for_scheme SchemeGoogleApiKey key = [(''x-goog-api-key'', key)]"
| "build_headers_for_scheme SchemeAnthropic key = [(''x-api-key'', key), (''anthropic-version'', ''2023-06-01'')]"
| "build_headers_for_scheme SchemeNone key = []"

record ApiKeySource =
  src_scheme :: AuthScheme
  src_api_key :: string
  extra_headers :: "header list"

definition for_provider :: "ProviderConfig \<Rightarrow> ApiKeySource" where
  "for_provider p =
     \<lparr>src_scheme = unwrap_or (default_auth_scheme (pformat p)) (scheme (auth p)),
      src_api_key = api_key p, extra_headers = auth_extra (auth p)\<rparr>"

definition auth_headers :: "ApiKeySource \<Rightarrow> header list" where
  "auth_headers src = build_headers_for_scheme (src_scheme src) (src_api_key src) @ extra_headers src"

section \<open>Headers that travel on\<close>

definition HOP_BY_HOP_HEADERS :: "string list" where
  "HOP_BY_HOP_HEADERS =
     [''connection'', ''keep-alive'', ''proxy-authenticate'', ''proxy-authorization'', ''te'', ''trailer'',
      ''transfer-encoding'', ''upgrade'']"

definition REQUEST_CONTROL_HEADERS :: "string list" where
  "REQUEST_CONTROL_HEADERS = [''host'', ''content-length'', ''content-type'', ''authorization'']"

text \<open>A client header: its name and its value when that is visible text (\<open>HeaderValue::to_str\<close>).\<close>

type_synonym client_header = "string \<times> string option"

definition blocked_header :: "header list \<Rightarrow> string \<Rightarrow> bool" where
  "blocked_header auths name_lower \<longleftrightarrow>
     name_lower \<in> set HOP_BY_HOP_HEADERS \<or> name_lower \<in> set REQUEST_CONTROL_HEADERS \<or>
     name_lower \<in> set (map (to_ascii_lowercase \<circ> fst) auths)"

definition should_forward :: "PassThroughHeadersConfig \<Rightarrow> string \<Rightarrow> bool" where
  "should_forward config name_lower =
     (case mode config of
        ModeAllow \<Rightarrow>
          \<not> list_ex (\<lambda>pat. glob_match pat name_lower) (deny config) \<or>
          list_ex (\<lambda>pat. glob_match pat name_lower) (allow config)
      | ModeDeny \<Rightarrow>
          list_ex (\<lambda>pat. glob_match pat name_lower) (allow config) \<and>
          \<not> list_ex (\<lambda>pat. glob_match pat name_lower) (deny config))"

definition forward_header :: "header list \<Rightarrow> PassThroughHeadersConfig \<Rightarrow> client_header \<Rightarrow> header option" where
  "forward_header auths config = (\<lambda>(name, val).
     let name_lower = to_ascii_lowercase name
     in if blocked_header auths name_lower then None
        else if \<not> should_forward config name_lower then None
        else map_option (\<lambda>v. (name, v)) val)"

definition build_upstream_headers ::
    "client_header list \<Rightarrow> header list \<Rightarrow> PassThroughHeadersConfig \<Rightarrow> header list" where
  "build_upstream_headers client auths config = auths @ List.map_filter (forward_header auths config) client"

lemma forward_header_Some:
  "forward_header auths config (name, val) = Some h \<longleftrightarrow>
     \<not> blocked_header auths (to_ascii_lowercase name) \<and> should_forward config (to_ascii_lowercase name) \<and>
     (\<exists>v. val = Some v \<and> h = (name, v))"
  by (auto simp: forward_header_def Let_def)

text \<open>C38: what reaches the upstream is the gateway's own credentials first, then client headers of which none is
  hop-by-hop, none is managed by the proxy, none is the client's own authorization, none repeats a credential
  header in any letter case, and each is one the configured patterns let through.\<close>

theorem upstream_headers_safe:
  "\<exists>fwd. build_upstream_headers client auths config = auths @ fwd \<and>
     list_all (\<lambda>(name, v).
       (name, Some v) \<in> set client \<and>
       to_ascii_lowercase name \<notin> set HOP_BY_HOP_HEADERS \<union> set REQUEST_CONTROL_HEADERS \<and>
       to_ascii_lowercase name \<notin> set (map (to_ascii_lowercase \<circ> fst) auths) \<and>
       should_forward config (to_ascii_lowercase name)) fwd"
  unfolding build_upstream_headers_def
  by (intro exI conjI, rule refl)
    (fastforce simp: list_all_iff set_map_filter forward_header_Some blocked_header_def simp del: set_map)

text \<open>Applying the header policy again, as the two forwarding functions do to headers that already went through
  it, changes nothing, repeated client headers included.\<close>

lemma upstream_headers_idempotent:
  "build_upstream_headers client (build_upstream_headers client auths config) config =
     build_upstream_headers client auths config"
proof -
  let ?all = "build_upstream_headers client auths config"
  have "forward_header ?all config h = None" if "h \<in> set client" for h
  proof (rule ccontr)
    assume "forward_header ?all config h \<noteq> None"
    then obtain r where r: "forward_header ?all config h = Some r" by blast
    obtain name val where h: "h = (name, val)" by fastforce
    have "forward_header auths config h = Some r"
      using r h by (auto simp: forward_header_Some blocked_header_def build_upstream_headers_def)
    moreover from r h have "fst r = name" by (auto simp: forward_header_Some)
    ultimately have "to_ascii_lowercase name \<in> set (map (to_ascii_lowercase \<circ> fst) ?all)"
      using that by (force simp: build_upstream_headers_def set_map_filter)
    with r h show False by (auto simp: forward_header_Some blocked_header_def)
  qed
  then show ?thesis
    by (simp add: build_upstream_headers_def [of client ?all] map_filter_None)
qed

text \<open>The policy stops only the client's \<open>authorization\<close>: an \<open>x-api-key\<close> or cookie a client sends travels to
  a provider that is signed with a bearer token, under the default configuration.\<close>

lemma client_api_key_forwarded:
  "(''x-api-key'', secret) \<in>
     set (build_upstream_headers [(''x-api-key'', Some secret)] (build_headers_for_scheme SchemeBearer key)
       \<lparr>mode = ModeAllow, allow = [], deny = []\<rparr>)"
  by (simp add: build_upstream_headers_def forward_header_def Let_def blocked_header_def should_forward_def
      HOP_BY_HOP_HEADERS_def REQUEST_CONTROL_HEADERS_def to_ascii_lowercase_def ascii_lower_def)

section \<open>What the logs see\<close>

definition SENSITIVE_KEYS :: "string list" where
  "SENSITIVE_KEYS = [''api_key'', ''apiKey'', ''authorization'', ''x-api-key'', ''secret'']"

definition SENSITIVE_HEADERS :: "string list" where
  "SENSITIVE_HEADERS = [''authorization'', ''x-api-key'', ''api-key'', ''x-goog-api-key'', ''proxy-authorization'']"

definition sanitize_header :: "header \<Rightarrow> string" where
  "sanitize_header = (\<lambda>(name, val).
     if to_ascii_lowercase name \<in> set SENSITIVE_HEADERS then name @ ''=[REDACTED]'' else name @ ''='' @ val)"

definition sanitize_headers_for_log :: "header list \<Rightarrow> string" where
  "sanitize_headers_for_log headers = join '' '' (map sanitize_header headers)"

text \<open>A header list with the values of its sensitive headers replaced.\<close>

definition with_secrets :: "(string \<Rightarrow> string) \<Rightarrow> header list \<Rightarrow> header list" where
  "with_secrets f = map (\<lambda>(name, val).
     (name, if to_ascii_lowercase name \<in> set SENSITIVE_HEADERS then f val else val))"

text \<open>The line logged for the upstream headers does not depend on any credential: header lists that differ in
  the values of sensitive headers alone are logged as the same text.\<close>

lemma headers_log_no_secret:
  "sanitize_headers_for_log (with_secrets f headers) = sanitize_headers_for_log headers"
proof -
  have "map sanitize_header (with_secrets f headers) = map sanitize_header headers"
    by (auto simp: sanitize_header_def with_secrets_def)
  then show ?thesis by (simp add: sanitize_headers_for_log_def)
qed

end
