(* ===== verification/Utf8.thy ===== *)
theory Utf8
  imports Server_Prelude
begin

text \<open>
  \<open>String::from_utf8_lossy\<close> and \<open>str::is_char_boundary\<close> of the standard library, which the gateway applies to
  bodies and stream chunks, and \<open>utf8_prefix\<close> of \<open>crates/server/src/observability.rs\<close>.  Text is its UTF-8 bytes.
\<close>

abbreviation byte :: "char \<Rightarrow> nat" where "byte c \<equiv> of_char c"

text \<open>How many bytes follow a leading byte, and the range of the first of them.\<close>

definition utf8_lead :: "nat \<Rightarrow> (nat \<times> nat \<times> nat) option" where
  "utf8_lead b =
     (if b < 0x80 then Some (0, 0, 0)
      else if 0xC2 \<le> b \<and> b \<le> 0xDF then Some (1, 0x80, 0xBF)
      else if b = 0xE0 then Some (2, 0xA0, 0xBF)
      else if b = 0xED then Some (2, 0x80, 0x9F)
      else if 0xE1 \<le> b \<and> b \<le> 0xEF then Some (2, 0x80, 0xBF)
      else if b = 0xF0 then Some (3, 0x90, 0xBF)
      else if 0xF1 \<le> b \<and> b \<le> 0xF3 then Some (3, 0x80, 0xBF)
      else if b = 0xF4 then Some (3, 0x80, 0x8F)
      else None)"

fun continuations :: "nat \<Rightarrow> nat \<Rightarrow> nat \<Rightarrow> string \<Rightarrow> nat" where
  "continuations 0 lo hi s = 0"
| "continuations (Suc n) lo hi [] = 0"
| "continuations (Suc n) lo hi (c # s) =
     (if lo \<le> byte c \<and> byte c \<le> hi then Suc (continuations n 0x80 0xBF s) else 0)"

text \<open>Whether the text begins with a whole character, and the bytes of it or of the broken sequence there.\<close>

definition utf8_char :: "char \<Rightarrow> string \<Rightarrow> bool \<times> nat" where
  "utf8_char c s =
     (case utf8_lead (byte c) of
        None \<Rightarrow> (False, 0)
      | Some (n, lo, hi) \<Rightarrow> (let k = continuations n lo hi s in (k = n, k)))"

function (sequential) from_utf8_lossy :: "string \<Rightarrow> string" where
  "from_utf8_lossy [] = []"
| "from_utf8_lossy (c # s) =
     (case utf8_char c s of
        (True, k) \<Rightarrow> c # take k s @ from_utf8_lossy (drop k s)
      | (False, k) \<Rightarrow> [CHR 0xEF, CHR 0xBF, CHR 0xBD] @ from_utf8_lossy (drop k s))"
  by pat_completeness auto

termination by (relation "measure length") auto

function (sequential) utf8_valid :: "string \<Rightarrow> bool" where
  "utf8_valid [] = True"
| "utf8_valid (c # s) = (case utf8_char c s of (ok, k) \<Rightarrow> ok \<and> utf8_valid (drop k s))"
  by pat_completeness auto

termination by (relation "measure length") auto

lemma continuations_le: "continuations n lo hi s \<le> n" "continuations n lo hi s \<le> length s"
  by (induction n lo hi s rule: continuations.induct) auto

lemma continuations_append:
  "continuations n lo hi s = n \<Longrightarrow> continuations n lo hi (s @ t) = n"
  by (induction n lo hi s rule: continuations.induct) (auto split: if_splits)

lemma utf8_char_append:
  "utf8_char c s = (True, k) \<Longrightarrow> utf8_char c (s @ t) = (True, k) \<and> k \<le> length s"
  using continuations_le(2) continuations_append
  by (auto simp: utf8_char_def Let_def split: option.splits) (metis continuations_append)+

text \<open>Whole characters are kept, whatever follows them.\<close>

lemma from_utf8_lossy_append: "utf8_valid s \<Longrightarrow> from_utf8_lossy (s @ t) = s @ from_utf8_lossy t"
proof (induction s rule: utf8_valid.induct)
  case (2 c s)
  obtain k where k: "utf8_char c s = (True, k)" and "utf8_valid (drop k s)"
    using "2.prems" by (auto split: prod.splits)
  then have "from_utf8_lossy (drop k s @ t) = drop k s @ from_utf8_lossy t"
    using "2.IH" [OF k [symmetric]] by simp
  with k utf8_char_append [OF k, of t] show ?case by simp
qed simp

lemma from_utf8_lossy_valid: "utf8_valid s \<Longrightarrow> from_utf8_lossy s = s"
  using from_utf8_lossy_append [of s "[]"] by simp

lemma from_utf8_lossy_concat:
  "list_all utf8_valid chunks \<Longrightarrow> map from_utf8_lossy chunks = chunks"
  by (induction chunks) (simp_all add: from_utf8_lossy_valid)

text \<open>\<open>utf8_prefix\<close>: the search for a boundary at or below the limit.\<close>

definition is_char_boundary :: "string \<Rightarrow> nat \<Rightarrow> bool" where
  "is_char_boundary s i \<longleftrightarrow>
     i = 0 \<or> i = length s \<or> (i < length s \<and> \<not> (0x80 \<le> byte (s ! i) \<and> byte (s ! i) < 0xC0))"

fun boundary_below :: "string \<Rightarrow> nat \<Rightarrow> nat" where
  "boundary_below s 0 = 0"
| "boundary_below s (Suc e) = (if is_char_boundary s (Suc e) then Suc e else boundary_below s e)"

definition utf8_prefix :: "string \<Rightarrow> nat \<Rightarrow> string" where
  "utf8_prefix text max_bytes =
     (if length text \<le> max_bytes then text else take (boundary_below text (min max_bytes (length text))) text)"

lemma boundary_below_spec: "boundary_below s e \<le> e \<and> is_char_boundary s (boundary_below s e)"
  by (induction e) (auto simp: is_char_boundary_def)

lemma utf8_prefix_bound: "length (utf8_prefix text n) \<le> n \<and> (\<exists>rest. text = utf8_prefix text n @ rest)"
  using boundary_below_spec [of "text" "min n (length text)"]
  by (auto simp: utf8_prefix_def) (metis append_take_drop_id)

end
