(* ===== verification/Redact.thy ===== *)
theory Redact
  imports Auth Utf8
begin

text \<open>
  The redaction of logged bodies: \<open>truncated_body\<close> and \<open>sanitize_log_body\<close> of
  \<open>crates/server/src/handlers/redact.rs\<close>.  The loop may not end, so it is a partial function whose value
  \<open>None\<close> is a call that never returns.
\<close>

definition log_patterns :: "string list" where
  "log_patterns =
     concat (map (\<lambda>key. [[CHR 0x22] @ key @ [CHR 0x22] @ '':'' @ [CHR 0x22],
                          [CHR 0x22] @ key @ [CHR 0x22] @ '': '' @ [CHR 0x22]]) SENSITIVE_KEYS)"

text \<open>One turn: the text with the value after the first occurrence replaced, or the break.\<close>

definition redact_once :: "string \<Rightarrow> string \<Rightarrow> string option" where
  "redact_once pat result =
     (case split_once pat result of
        None \<Rightarrow> None
      | Some (before, rest) \<Rightarrow>
          (case split_once [CHR 0x22] rest of
             None \<Rightarrow> None
           | Some (_, after) \<Rightarrow> Some (before @ (pat @ ''[REDACTED]'' @ [CHR 0x22]) @ after)))"

partial_function (option) redact_loop :: "string \<Rightarrow> string \<Rightarrow> string option" where
  "redact_loop pat result =
     (case redact_once pat result of None \<Rightarrow> Some result | Some result' \<Rightarrow> redact_loop pat result')"

fun redact_all :: "string list \<Rightarrow> string \<Rightarrow> string option" where
  "redact_all [] result = Some result"
| "redact_all (pat # pats) result = Option.bind (redact_loop pat result) (redact_all pats)"

definition sanitize_log_body :: "string \<Rightarrow> string option" where
  "sanitize_log_body text = redact_all log_patterns text"

definition truncated_body :: "string \<Rightarrow> nat \<Rightarrow> string option" where
  "truncated_body body max_len =
     (let s = from_utf8_lossy body;
          text = (if length s \<le> max_len then s
                  else let pre = utf8_prefix s max_len
                       in pre @ ''...<truncated '' @ show_nat (length s - length pre) @ '' bytes>'')
      in sanitize_log_body text)"

lemma redact_once_again:
  assumes "redact_once pat s = Some s'"
  shows "redact_once pat s' \<noteq> None"
proof -
  from assms obtain a b w c where s: "split_once pat s = Some (a, b)" "split_once [CHR 0x22] b = Some (w, c)"
    and s': "s' = a @ pat @ (''[REDACTED]'' @ [CHR 0x22] @ c)"
    by (auto simp: redact_once_def split: option.splits)
  obtain a' b' where ab: "split_once pat s' = Some (a', b')"
    using s' split_once_None [of pat s'] by (cases "split_once pat s'") auto
  obtain u where "b' = u @ (''[REDACTED]'' @ [CHR 0x22] @ c)"
    using split_once_suffix [OF ab s'] .
  then have "CHR 0x22 \<in> set b'" by simp
  then have "split_once [CHR 0x22] b' \<noteq> None"
    by (auto simp: split_once_None in_set_conv_decomp)
  with ab show ?thesis by (auto simp: redact_once_def split: option.splits)
qed

text \<open>A call that returns never replaced anything.\<close>

lemma redact_loop_Some:
  assumes "redact_loop pat s = Some y"
  shows "redact_once pat s = None \<and> y = s"
proof (rule redact_loop.raw_induct [OF _ assms])
  fix f pat s y
  assume IH: "\<And>pat s y. f pat s = Some y \<Longrightarrow> redact_once pat s = None \<and> y = s"
    and step: "(case redact_once pat s of None \<Rightarrow> Some s | Some s' \<Rightarrow> f pat s') = Some y"
  show "redact_once pat s = None \<and> y = s"
  proof (cases "redact_once pat s")
    case (Some s')
    with step IH have "redact_once pat s' = None" by auto
    with redact_once_again [OF Some] show ?thesis by simp
  qed (use step in simp)
qed

lemma redact_loop_iff: "redact_loop pat s = Some y \<longleftrightarrow> redact_once pat s = None \<and> y = s"
  using redact_loop_Some [of pat s y] by (auto simp: redact_loop.simps)

lemma redact_all_iff:
  "redact_all pats s = Some y \<longleftrightarrow> y = s \<and> list_all (\<lambda>pat. redact_once pat s = None) pats"
  by (induction pats) (auto simp: bind_eq_Some_conv redact_loop_iff)

text \<open>C40: the redaction of logged bodies never redacts: a call returns exactly when the text has no sensitive key
  with a terminated value, and then it returns the text as it was; on every text it is meant for, the replacement
  holds the pattern again and the loop never ends.\<close>

theorem sanitize_log_body_never_redacts:
  "sanitize_log_body text = Some out \<longleftrightarrow>
     out = text \<and> list_all (\<lambda>pat. redact_once pat text = None) log_patterns"
  by (simp add: sanitize_log_body_def redact_all_iff)

lemma sanitize_log_body_loops:
  "sanitize_log_body (concat [[CHR 0x22], ''api_key'', [CHR 0x22], '':'', [CHR 0x22], ''sk'', [CHR 0x22]]) = None"
proof -
  have "\<not> list_all (\<lambda>pat. redact_once pat
      (concat [[CHR 0x22], ''api_key'', [CHR 0x22], '':'', [CHR 0x22], ''sk'', [CHR 0x22]]) = None) log_patterns"
    by code_simp
  then show ?thesis
    by (cases "sanitize_log_body (concat [[CHR 0x22], ''api_key'', [CHR 0x22], '':'', [CHR 0x22], ''sk'', [CHR 0x22]])")
      (auto simp: sanitize_log_body_def redact_all_iff)
qed

end
