(* ===== verification/Sse.thy ===== *)
theory Sse
  imports IR
begin

text \<open>
  Server-sent events: \<open>crates/core/src/sse.rs\<close>.  The parser of one block, the splitter of a
  stream into blocks, the two formatters and the \<open>[DONE]\<close> sentinel, with the round trip
  between them.
\<close>

record SseEvent =
  sse_event :: "string option"
  sse_data :: string

text \<open>The loop body of \<open>parse_sse_block\<close>: the event type and the data lines so far.\<close>

definition sse_line :: "string \<Rightarrow> string option \<times> string list \<Rightarrow> string option \<times> string list" where
  "sse_line line acc =
     (case acc of (event_type, data_lines) \<Rightarrow>
       (case strip_prefix ''event:'' line of
          Some val \<Rightarrow> (Some (trim val), data_lines)
        | None \<Rightarrow>
            (case strip_prefix ''data:'' line of
               Some val \<Rightarrow> (event_type, data_lines @ [dropWhile (\<lambda>c. c = CHR '' '') val])
             | None \<Rightarrow> (event_type, data_lines))))"

definition parse_sse_block :: "string \<Rightarrow> SseEvent option" where
  "parse_sse_block block =
     (let (event_type, data_lines) = fold sse_line (str_lines block) (None, [])
      in if data_lines = [] then None
         else Some \<lparr>sse_event = event_type, sse_data = join [nl] data_lines\<rparr>)"

definition split_sse_blocks :: "string \<Rightarrow> string list" where
  "split_sse_blocks input =
     (let input' = (if cr \<in> set input
                    then str_replace [cr] [nl] (str_replace [cr, nl] [nl] input)
                    else input)
      in filter (\<lambda>s. s \<noteq> []) (map trim (str_split [nl, nl] input')))"

definition format_sse_data :: "string \<Rightarrow> string" where
  "format_sse_data data = ''data: '' @ data @ [nl, nl]"

definition format_sse_event :: "string \<Rightarrow> string \<Rightarrow> string" where
  "format_sse_event event_type data = ''event: '' @ event_type @ [nl] @ ''data: '' @ data @ [nl, nl]"

definition is_openai_done :: "string \<Rightarrow> bool" where
  "is_openai_done data \<longleftrightarrow> trim data = ''[DONE]''"

section \<open>Well-formed payloads\<close>

text \<open>
  One line, beginning and ending with a visible ASCII character: what \<open>serde_json\<close> prints for an
  object and what the emitters use as event names.
\<close>

definition one_line :: "string \<Rightarrow> bool" where
  "one_line s \<longleftrightarrow> s \<noteq> [] \<and> visible (hd s) \<and> visible (last s) \<and> nl \<notin> set s \<and> cr \<notin> set s"

lemma visible_not_space: "visible c \<Longrightarrow> c \<noteq> CHR '' ''"
  by (auto simp: visible_def)

lemma visible_not_nl: "visible c \<Longrightarrow> c \<noteq> nl"
  by (auto simp: visible_def)

lemma drop_spaces_one_line: "one_line s \<Longrightarrow> dropWhile (\<lambda>c. c = CHR '' '') s = s"
  by (cases s) (auto simp: one_line_def dest: visible_not_space)

lemma find_ws_space: "List.find (\<lambda>w. w \<noteq> [] \<and> starts_with w (CHR '' '' # s)) ws_seqs = Some '' ''"
  by (simp add: ws_seqs_def starts_with_def)

lemma trim_space_one_line: "one_line s \<Longrightarrow> trim (CHR '' '' # s) = s"
proof -
  assume s: "one_line s"
  have "trim_start (CHR '' '' # s) = trim_start s"
    unfolding trim_start_def by (subst drop_seqs.simps) (simp add: find_ws_space)
  with s show ?thesis
    by (simp add: trim_def one_line_def trim_start_visible trim_end_visible)
qed

lemma trim_one_line: "one_line s \<Longrightarrow> trim s = s"
  by (simp add: one_line_def trim_visible)

section \<open>One event\<close>

definition format_sse :: "SseEvent \<Rightarrow> string" where
  "format_sse ev =
     (case sse_event ev of Some t \<Rightarrow> format_sse_event t (sse_data ev)
      | None \<Rightarrow> format_sse_data (sse_data ev))"

definition sse_block :: "SseEvent \<Rightarrow> string" where
  "sse_block ev =
     (case sse_event ev of
        Some t \<Rightarrow> ''event: '' @ t @ [nl] @ ''data: '' @ sse_data ev
      | None \<Rightarrow> ''data: '' @ sse_data ev)"

definition wf_sse :: "SseEvent \<Rightarrow> bool" where
  "wf_sse ev \<longleftrightarrow> one_line (sse_data ev) \<and> (\<forall>t. sse_event ev = Some t \<longrightarrow> one_line t)"

lemma format_sse_block: "format_sse ev = sse_block ev @ [nl, nl]"
  by (simp add: format_sse_def sse_block_def format_sse_event_def format_sse_data_def
      split: option.splits)

lemma sse_line_data:
  "one_line d \<Longrightarrow> sse_line (''data: '' @ d) (e, ds) = (e, ds @ [d])"
  by (simp add: sse_line_def strip_prefix_def starts_with_def drop_spaces_one_line)

lemma sse_line_event:
  "one_line t \<Longrightarrow> sse_line (''event: '' @ t) (e, ds) = (Some t, ds)"
  by (simp add: sse_line_def strip_prefix_def starts_with_def trim_space_one_line)

lemma one_line_no_nl: "one_line s \<Longrightarrow> nl \<notin> set s \<and> cr \<notin> set s"
  by (simp add: one_line_def)

lemma str_lines_sse_block:
  assumes "wf_sse ev"
  shows "str_lines (sse_block ev) =
    (case sse_event ev of
       Some t \<Rightarrow> [''event: '' @ t, ''data: '' @ sse_data ev]
     | None \<Rightarrow> [''data: '' @ sse_data ev])"
proof (cases "sse_event ev")
  case None
  with assms show ?thesis
    by (simp add: sse_block_def wf_sse_def str_lines_single one_line_no_nl)
next
  case (Some t)
  have "nl \<notin> set (''event: '' @ t)" "cr \<notin> set (''event: '' @ t)"
       "nl \<notin> set (''data: '' @ sse_data ev)"
    using assms Some by (auto simp: wf_sse_def dest: one_line_no_nl)
  with Some show ?thesis
    using str_lines_Cons [of "''event: '' @ t" "''data: '' @ sse_data ev"]
    by (simp add: sse_block_def str_lines_single strip_cr_no_cr)
qed

lemma parse_sse_block_wf: "wf_sse ev \<Longrightarrow> parse_sse_block (sse_block ev) = Some ev"
  using sse_line_event sse_line_data
  by (cases ev, cases "sse_event ev")
    (auto simp: parse_sse_block_def str_lines_sse_block wf_sse_def)

section \<open>A whole stream\<close>

text \<open>Text that has no blank line and does not end in a newline stays in one piece.\<close>

lemma split_once_blank:
  assumes "split_once [nl, nl] b = None" and "b = [] \<or> last b \<noteq> nl"
  shows "split_once [nl, nl] (b @ nl # nl # rest) = Some (b, rest)"
  using assms
proof (induction b)
  case Nil
  then show ?case by (simp add: starts_with_def)
next
  case (Cons c b)
  have "\<not> starts_with [nl, nl] (c # b)"
    using Cons.prems(1) by (auto split: if_splits)
  then have "\<not> starts_with [nl, nl] (c # b @ nl # nl # rest)"
    using Cons.prems(2) by (cases b) (auto simp: starts_with_def)
  moreover have "split_once [nl, nl] b = None" "b = [] \<or> last b \<noteq> nl"
    using Cons.prems by (auto split: if_splits)
  ultimately show ?case
    using Cons.IH by simp
qed

lemma split_once_append_None:
  assumes "nl \<notin> set a"
  shows "split_once [nl, nl] (a @ b) = None \<longleftrightarrow> split_once [nl, nl] b = None"
  using assms
  by (induction a) (auto simp: starts_with_def)

lemma split_once_no_nl: "nl \<notin> set a \<Longrightarrow> split_once [nl, nl] a = None"
  using split_once_append_None [of a "[]"] by simp

lemma sse_block_no_blank:
  assumes "wf_sse ev"
  shows "split_once [nl, nl] (sse_block ev) = None"
proof (cases "sse_event ev")
  case None
  with assms show ?thesis
    by (intro split_once_no_nl) (auto simp: sse_block_def wf_sse_def dest: one_line_no_nl)
next
  case (Some t)
  have t: "nl \<notin> set (''event: '' @ t)" and d: "nl \<notin> set (''data: '' @ sse_data ev)"
    using assms Some by (auto simp: wf_sse_def dest: one_line_no_nl)
  have "split_once [nl, nl] (nl # ''data: '' @ sse_data ev) = None"
    using split_once_no_nl [OF d] by (simp add: starts_with_def)
  with Some t show ?thesis
    by (simp add: sse_block_def split_once_append_None [of "''event: '' @ t", simplified])
qed

lemma sse_block_ends:
  assumes "wf_sse ev"
  shows "sse_block ev \<noteq> []" "visible (hd (sse_block ev))" "visible (last (sse_block ev))"
    "cr \<notin> set (sse_block ev)"
  using assms
  by (auto simp: sse_block_def wf_sse_def one_line_def visible_def split: option.splits)

lemma str_split_stream:
  assumes "list_all wf_sse evs"
  shows "str_split [nl, nl] (concat (map format_sse evs)) = map sse_block evs @ [[]]"
  using assms
proof (induction evs)
  case Nil
  then show ?case by (simp add: str_split.simps)
next
  case (Cons ev evs)
  have "last (sse_block ev) \<noteq> nl"
    using Cons.prems sse_block_ends(3) visible_not_nl by auto
  then have "split_once [nl, nl] (sse_block ev @ nl # nl # concat (map format_sse evs)) =
      Some (sse_block ev, concat (map format_sse evs))"
    using Cons.prems by (intro split_once_blank) (auto intro: sse_block_no_blank)
  then show ?case
    using Cons by (simp add: format_sse_block [of ev] str_split.simps [of _ "_ @ nl # nl # _"])
qed

lemma split_sse_blocks_stream:
  assumes "list_all wf_sse evs"
  shows "split_sse_blocks (concat (map format_sse evs)) = map sse_block evs"
proof -
  have no_cr: "cr \<notin> set (concat (map format_sse evs))"
    using assms sse_block_ends(4) by (auto simp: format_sse_block list_all_iff)
  have trims: "map (trim \<circ> sse_block) evs = map sse_block evs"
    using assms sse_block_ends by (auto simp: list_all_iff trim_visible)
  have "filter (\<lambda>s. s \<noteq> []) (map sse_block evs) = map sse_block evs"
    using assms sse_block_ends(1) by (auto simp: list_all_iff filter_id_conv)
  then show ?thesis
    using no_cr trims by (simp add: split_sse_blocks_def str_split_stream [OF assms] del: set_concat cong: map_cong)
qed

lemma sse_events_of_stream:
  "list_all wf_sse evs \<Longrightarrow>
     List.map_filter parse_sse_block (split_sse_blocks (concat (map format_sse evs))) = evs"
  by (simp add: split_sse_blocks_stream map_filter_map)
    (simp add: map_filter_Some [where g = "\<lambda>x. x"] parse_sse_block_wf list_all_iff)

text \<open>C9: A stream written event by event with \<open>format_sse_event\<close> and \<open>format_sse_data\<close> and
  read back with \<open>split_sse_blocks\<close> and \<open>parse_sse_block\<close> gives the same events, in order and
  none merged or lost, whenever event names and payloads are single lines with visible ends (as JSON
  text is).\<close>

theorem sse_stream_roundtrip:
  assumes "list_all wf_sse evs"
  shows "map parse_sse_block (split_sse_blocks (concat (map format_sse evs))) = map Some evs"
  using assms by (simp add: split_sse_blocks_stream parse_sse_block_wf list_all_iff)

theorem sse_stream_roundtrip_witness:
  "map parse_sse_block (split_sse_blocks (concat (map format_sse
      [\<lparr>sse_event = Some ''message_stop'', sse_data = ''{}''\<rparr>,
       \<lparr>sse_event = None, sse_data = ''[DONE]''\<rparr>]))) =
   [Some \<lparr>sse_event = Some ''message_stop'', sse_data = ''{}''\<rparr>,
    Some \<lparr>sse_event = None, sse_data = ''[DONE]''\<rparr>]"
proof -
  have "list_all wf_sse
      [\<lparr>sse_event = Some ''message_stop'', sse_data = ''{}''\<rparr>,
       \<lparr>sse_event = None, sse_data = ''[DONE]''\<rparr>]"
    by (simp add: wf_sse_def one_line_def visible_def)
  from sse_stream_roundtrip [OF this] show ?thesis by simp
qed

end
