(* ===== verification/Vendor.thy ===== *)
theory Vendor
  imports IR
begin

text \<open>
  The isolation contract between vendors that \<open>crates/core/src/ir/request.rs\<close> states in its module
  comment: a signature, a sealed block and a private field are meaningful to one API only, and only
  that API's builder may use them.  \<open>mask_request f\<close> removes everything another vendor than \<open>f\<close> signed,
  sealed or owns; a request builder keeps the contract when masking cannot change what it builds.
\<close>

definition mask_sig :: "Format \<Rightarrow> Signature option \<Rightarrow> Signature option" where
  "mask_sig f s = opt_filter (\<lambda>x. sig_by x = f) s"

fun mask_part :: "Format \<Rightarrow> IrPart \<Rightarrow> IrPart" where
  "mask_part f (Text t s) = Text t (mask_sig f s)"
| "mask_part f (Image u mt d det) = Image u mt d det"
| "mask_part f (ToolCall i n a s) = ToolCall i n a (mask_sig f s)"
| "mask_part f (ToolResult c e ps) = ToolResult c e (map (mask_part f) ps)"
| "mask_part f (Thinking t s) = Thinking t (mask_sig f s)"
| "mask_part f (Sealed b raw) = Sealed b (if b = f then raw else JNull)"

definition mask_message :: "Format \<Rightarrow> IrMessage \<Rightarrow> IrMessage" where
  "mask_message f m = m\<lparr>im_parts := map (mask_part f) (im_parts m)\<rparr>"

definition mask_request :: "Format \<Rightarrow> IrRequest \<Rightarrow> IrRequest" where
  "mask_request f ir =
     ir\<lparr>ir_system := map (mask_part f) (ir_system ir),
        ir_messages := map (mask_message f) (ir_messages ir),
        ir_extra := filter (extra_takes f) (ir_extra ir)\<rparr>"

lemma opt_filter_mask_sig [simp]:
  "opt_filter (\<lambda>s. sig_by s = f) (mask_sig f x) = opt_filter (\<lambda>s. sig_by s = f) x"
  by (cases x) (auto simp: mask_sig_def)

lemma mask_message_simps [simp]:
  "im_role (mask_message f m) = im_role m"
  "im_parts (mask_message f m) = map (mask_part f) (im_parts m)"
  by (simp_all add: mask_message_def)

lemma mask_request_simps [simp]:
  "ir_model (mask_request f ir) = ir_model ir"
  "ir_system (mask_request f ir) = map (mask_part f) (ir_system ir)"
  "ir_messages (mask_request f ir) = map (mask_message f) (ir_messages ir)"
  "ir_tools (mask_request f ir) = ir_tools ir"
  "ir_tool_choice (mask_request f ir) = ir_tool_choice ir"
  "ir_sampling (mask_request f ir) = ir_sampling ir"
  "ir_stream (mask_request f ir) = ir_stream ir"
  "ir_reasoning (mask_request f ir) = ir_reasoning ir"
  "fst (extra_take f (ir_extra (mask_request f ir))) = fst (extra_take f (ir_extra ir))"
  by (simp_all add: mask_request_def extra_take_def)

definition part_text_opt :: "IrPart \<Rightarrow> string option" where
  "part_text_opt p = (case p of Text t s \<Rightarrow> Some t | _ \<Rightarrow> None)"

lemma part_text_opt_simps [simp]:
  "part_text_opt (Text t s) = Some t" "part_text_opt (Image u mt d det) = None"
  "part_text_opt (ToolCall i n a s) = None" "part_text_opt (ToolResult c e ps) = None"
  "part_text_opt (Thinking t s) = None" "part_text_opt (Sealed b raw) = None"
  by (simp_all add: part_text_opt_def)

lemma part_text_opt_mask [simp]: "part_text_opt (mask_part f p) = part_text_opt p"
  by (cases p) auto

lemma map_filter_text_mask [simp]:
  "List.map_filter part_text_opt (map (mask_part f) ps) = List.map_filter part_text_opt ps"
  by (induction ps) (auto split: option.splits)

locale request_builder =
  fixes fmt :: Format
    and build :: "IrRequest \<Rightarrow> 'w"
  assumes build_mask: "build (mask_request fmt ir) = build ir"
begin

text \<open>Requests that differ only in what other vendors signed, sealed or own build the same wire request.\<close>

lemma noninterference: "mask_request fmt a = mask_request fmt b \<Longrightarrow> build a = build b"
  by (metis build_mask)

text \<open>A field another vendor owns, outside the passlist, never changes what is built.\<close>

lemma foreign_extra_ignored:
  assumes "f \<noteq> fmt" and "k \<notin> set PASSLIST"
  shows "build (ir\<lparr>ir_extra := ir_extra ir @ [(f, k, v)]\<rparr>) = build ir"
  by (rule noninterference) (use assms in \<open>simp add: mask_request_def extra_takes_def\<close>)

end

end
