(* ===== verification/Shared.thy ===== *)
theory Shared
  imports Sse Vendor
begin

text \<open>
  Helpers every format uses: \<open>crates/core/src/converters/shared.rs\<close> and
  \<open>converters/reasoning.rs\<close>.  Random identifiers (\<open>uuid::Uuid::new_v4\<close>) are arguments.
  The three id normalisers share one contract, the locale \<open>id_normalizer\<close>.
\<close>

section \<open>Identifiers\<close>

definition new_chat_id :: "string \<Rightarrow> string" where
  "new_chat_id uuid = ''chatcmpl-'' @ uuid"

definition new_resp_id :: "string \<Rightarrow> string" where
  "new_resp_id uuid = ''resp_'' @ uuid"

definition new_msg_id :: "string \<Rightarrow> string" where
  "new_msg_id uuid = ''msg_'' @ uuid"

definition normalize_id_to_chat :: "string \<Rightarrow> string \<Rightarrow> string" where
  "normalize_id_to_chat uuid i =
     (if i = [] then new_chat_id uuid
      else if starts_with ''chatcmpl-'' i then i
      else ''chatcmpl-'' @
        unwrap_or i (or_else (strip_prefix ''msg_'' i) (strip_prefix ''resp_'' i)))"

definition normalize_id_to_claude :: "string \<Rightarrow> string \<Rightarrow> string" where
  "normalize_id_to_claude uuid i =
     (if i = [] then new_msg_id uuid
      else if starts_with ''msg_'' i then i
      else ''msg_'' @
        unwrap_or i (or_else (strip_prefix ''chatcmpl-'' i) (strip_prefix ''resp_'' i)))"

definition normalize_id_to_resp :: "string \<Rightarrow> string \<Rightarrow> string" where
  "normalize_id_to_resp uuid i =
     (if i = [] then new_resp_id uuid
      else if starts_with ''resp_'' i then i
      else ''resp_'' @
        unwrap_or i (or_else (strip_prefix ''chatcmpl-'' i) (strip_prefix ''msg_'' i)))"

definition id_prefixes :: "string set" where
  "id_prefixes = {''chatcmpl-'', ''msg_'', ''resp_''}"

locale id_normalizer =
  fixes norm :: "string \<Rightarrow> string \<Rightarrow> string"
    and own :: string
  assumes own_prefix: "own \<in> id_prefixes"
    and norm_fresh: "norm u [] = own @ u"
    and norm_prefixed: "q \<in> id_prefixes \<Longrightarrow> norm u (q @ b) = own @ b"
    and norm_plain: "i \<noteq> [] \<Longrightarrow> (\<And>q. q \<in> id_prefixes \<Longrightarrow> \<not> starts_with q i) \<Longrightarrow> norm u i = own @ i"
begin

lemma norm_own_prefix: "starts_with own (norm u i)"
proof (cases "\<exists>q \<in> id_prefixes. starts_with q i")
  case True
  then show ?thesis by (auto simp: starts_with_iff norm_prefixed)
next
  case False
  then show ?thesis by (cases "i = []") (auto simp: norm_fresh norm_plain)
qed

lemma norm_idem: "norm v (norm u i) = norm u i"
proof -
  obtain b where "norm u i = own @ b"
    using norm_own_prefix by (auto simp: starts_with_iff)
  then show ?thesis by (simp add: norm_prefixed own_prefix)
qed

text \<open>An id that already carries a vendor prefix keeps its body, so ids stay distinct.\<close>

lemma norm_inj:
  "q \<in> id_prefixes \<Longrightarrow> norm u (q @ a) = norm v (q @ b) \<longleftrightarrow> a = b"
  by (simp add: norm_prefixed)

end

lemma prefix_free:
  "\<not> starts_with ''chatcmpl-'' (''msg_'' @ b)" "\<not> starts_with ''chatcmpl-'' (''resp_'' @ b)"
  "\<not> starts_with ''msg_'' (''chatcmpl-'' @ b)" "\<not> starts_with ''msg_'' (''resp_'' @ b)"
  "\<not> starts_with ''resp_'' (''chatcmpl-'' @ b)" "\<not> starts_with ''resp_'' (''msg_'' @ b)"
  by (simp_all add: starts_with_def)

lemmas normalize_defs = normalize_id_to_chat_def normalize_id_to_claude_def
  normalize_id_to_resp_def new_chat_id_def new_msg_id_def new_resp_id_def

interpretation chat_id: id_normalizer normalize_id_to_chat "''chatcmpl-''"
proof (unfold_locales, goal_cases)
  case (3 q u b)
  then show ?case
    by (auto simp: id_prefixes_def normalize_defs strip_prefix_def starts_with_def)
next
  case (4 i u)
  then show ?case by (simp add: normalize_defs id_prefixes_def strip_prefix_def)
qed (simp_all add: id_prefixes_def normalize_defs)

interpretation claude_id: id_normalizer normalize_id_to_claude "''msg_''"
proof (unfold_locales, goal_cases)
  case (3 q u b)
  then show ?case
    by (auto simp: id_prefixes_def normalize_defs strip_prefix_def starts_with_def)
next
  case (4 i u)
  then show ?case by (simp add: normalize_defs id_prefixes_def strip_prefix_def)
qed (simp_all add: id_prefixes_def normalize_defs)

interpretation resp_id: id_normalizer normalize_id_to_resp "''resp_''"
proof (unfold_locales, goal_cases)
  case (3 q u b)
  then show ?case
    by (auto simp: id_prefixes_def normalize_defs strip_prefix_def starts_with_def)
next
  case (4 i u)
  then show ?case by (simp add: normalize_defs id_prefixes_def strip_prefix_def)
qed (simp_all add: id_prefixes_def normalize_defs)

text \<open>Two normalisers back to back: the first format's own id is recovered.\<close>

locale id_normalizer_pair = there: id_normalizer norm1 own1 + ret: id_normalizer norm2 own2
  for norm1 own1 norm2 own2
begin

lemma roundtrip: "norm2 v (norm1 u (own2 @ b)) = own2 @ b"
  by (simp add: there.norm_prefixed ret.norm_prefixed there.own_prefix ret.own_prefix)

end

interpretation chat_claude_id: id_normalizer_pair
  normalize_id_to_claude "''msg_''" normalize_id_to_chat "''chatcmpl-''"
  by unfold_locales

interpretation chat_resp_id: id_normalizer_pair
  normalize_id_to_resp "''resp_''" normalize_id_to_chat "''chatcmpl-''"
  by unfold_locales

interpretation claude_resp_id: id_normalizer_pair
  normalize_id_to_resp "''resp_''" normalize_id_to_claude "''msg_''"
  by unfold_locales

interpretation claude_chat_id: id_normalizer_pair
  normalize_id_to_chat "''chatcmpl-''" normalize_id_to_claude "''msg_''"
  by unfold_locales

section \<open>Private fields and billing headers\<close>

fun strip_private_fields :: "value \<Rightarrow> value" where
  "strip_private_fields (JObject m) = JObject (fmfilter (\<lambda>k. \<not> starts_with ''_'' k) m)"
| "strip_private_fields v = v"

definition clean_system_billing_headers :: "string \<Rightarrow> string" where
  "clean_system_billing_headers text =
     join [nl] (filter (\<lambda>line. \<not> starts_with ''x-anthropic-billing-header:'' line) (str_lines text))"

section \<open>Responses item types and constants\<close>

definition ITEM_TYPE_MESSAGE :: string where "ITEM_TYPE_MESSAGE = ''message''"
definition ITEM_TYPE_FUNCTION_CALL :: string where "ITEM_TYPE_FUNCTION_CALL = ''function_call''"
definition ITEM_TYPE_FUNCTION_CALL_OUTPUT :: string where
  "ITEM_TYPE_FUNCTION_CALL_OUTPUT = ''function_call_output''"
definition ITEM_TYPE_INPUT_TEXT :: string where "ITEM_TYPE_INPUT_TEXT = ''input_text''"
definition ITEM_TYPE_OUTPUT_TEXT :: string where "ITEM_TYPE_OUTPUT_TEXT = ''output_text''"
definition ITEM_TYPE_INPUT_IMAGE :: string where "ITEM_TYPE_INPUT_IMAGE = ''input_image''"

lemmas item_types = ITEM_TYPE_MESSAGE_def ITEM_TYPE_FUNCTION_CALL_def
  ITEM_TYPE_FUNCTION_CALL_OUTPUT_def ITEM_TYPE_INPUT_TEXT_def ITEM_TYPE_OUTPUT_TEXT_def
  ITEM_TYPE_INPUT_IMAGE_def

definition CLAUDE_TEMPERATURE_MAX :: f32 where "CLAUDE_TEMPERATURE_MAX = 1"

section \<open>Arguments, images, data URLs\<close>

definition parse_arguments :: "serde \<Rightarrow> string \<Rightarrow> value" where
  "parse_arguments S args =
     (if args = [] then jobj []
      else case from_text S args of Inl e \<Rightarrow> jobj [] | Inr v \<Rightarrow> v)"

definition image_block_to_url :: "obj \<Rightarrow> string result" where
  "image_block_to_url m =
     try_bind (ok_or (MissingField ''image.source'') (Option.bind (fmlookup m ''source'') as_object))
       (\<lambda>source. try_bind (ok_or (MissingField ''image.source.type'') (get_str source ''type''))
       (\<lambda>source_type.
         if source_type = ''base64'' then
           try_bind (ok_or (MissingField ''image.source.media_type'') (get_str source ''media_type''))
             (\<lambda>media_type.
               try_bind (ok_or (MissingField ''image.source.data'') (get_str source ''data''))
                 (\<lambda>data. Inr (''data:'' @ media_type @ '';base64,'' @ data)))
         else if source_type = ''url'' then
           try_bind (ok_or (MissingField ''image.source.url'') (get_str source ''url'')) Inr
         else Inl (UnsupportedContentType (''image source: '' @ source_type))))"

definition parse_data_url :: "string \<Rightarrow> (string \<times> string) option" where
  "parse_data_url url =
     Option.bind (strip_prefix ''data:'' url)
       (\<lambda>rest. Option.bind (split_once '';'' rest)
         (\<lambda>(mime, after). map_option (\<lambda>data. (mime, data)) (strip_prefix ''base64,'' after)))"

definition extract_function_response_text :: "serde \<Rightarrow> value \<Rightarrow> string" where
  "extract_function_response_text S response =
     (case as_str response of
        Some text \<Rightarrow> text
      | None \<Rightarrow>
          (case as_object response of
             Some m \<Rightarrow>
               (case or_else (fmlookup m ''result'') (fmlookup m ''output'') of
                  Some result \<Rightarrow> to_text S result
                | None \<Rightarrow> to_text S response)
           | None \<Rightarrow> to_text S response))"

lemma split_once_char: "c \<notin> set a \<Longrightarrow> split_once [c] (a @ c # b) = Some (a, b)"
  by (induction a) (auto simp: starts_with_def)

text \<open>A data URL built as \<open>data:<mime>;base64,<data>\<close> is taken apart again into exactly that mime
  type and payload, for every mime type without a parameter.\<close>

lemma data_url_roundtrip:
  assumes "CHR '';'' \<notin> set mime"
  shows "parse_data_url (''data:'' @ mime @ '';base64,'' @ data) = Some (mime, data)"
proof -
  have "strip_prefix ''data:'' (''data:'' @ mime @ '';base64,'' @ data) = Some (mime @ '';base64,'' @ data)"
    by (rule strip_prefix_append)
  moreover have "split_once '';'' (mime @ '';base64,'' @ data) = Some (mime, ''base64,'' @ data)"
    using split_once_char [OF assms, of "''base64,'' @ data"] by simp
  moreover have "strip_prefix ''base64,'' (''base64,'' @ data) = Some data"
    by (rule strip_prefix_append)
  ultimately show ?thesis
    by (simp add: parse_data_url_def)
qed

lemma data_url_roundtrip_witness:
  "parse_data_url (''data:'' @ ''image/png'' @ '';base64,'' @ ''iVBO'') = Some (''image/png'', ''iVBO'')"
  by (rule data_url_roundtrip) simp

section \<open>Reasoning effort and thinking budgets\<close>

record ThinkingConfig =
  tk_type :: string
  tk_budget_tokens :: u32

definition reasoning_effort_to_thinking :: "string option \<Rightarrow> u32 \<Rightarrow> ThinkingConfig option" where
  "reasoning_effort_to_thinking effort max_tokens =
     Option.bind effort (\<lambda>e.
       if e = ''none'' then None
       else if e = ''low'' then Some \<lparr>tk_type = ''enabled'', tk_budget_tokens = 1024\<rparr>
       else if e = ''high'' then
         Some \<lparr>tk_type = ''enabled'', tk_budget_tokens = max max_tokens 4096\<rparr>
       else Some \<lparr>tk_type = ''enabled'', tk_budget_tokens = max max_tokens 2048\<rparr>)"

definition thinking_to_reasoning_effort :: "ThinkingConfig \<Rightarrow> string option" where
  "thinking_to_reasoning_effort thinking =
     (if tk_type thinking \<noteq> ''enabled'' then Some ''none''
      else Some (if tk_budget_tokens thinking \<le> 1024 then ''low''
                 else if tk_budget_tokens thinking \<ge> 4096 then ''high''
                 else ''medium''))"

definition thinking_to_reasoning_json :: "ThinkingConfig \<Rightarrow> value option" where
  "thinking_to_reasoning_json thinking =
     map_option (\<lambda>effort. jobj [(''effort'', JString effort)]) (thinking_to_reasoning_effort thinking)"

text \<open>Effort to budget and back: \<open>low\<close> and \<open>high\<close> come back as they went in, and every other
  label (\<open>medium\<close> and the unknown ones) comes back as \<open>medium\<close> exactly when \<open>max_tokens\<close> is below
  4096; from there on it comes back as \<open>high\<close>.\<close>

lemma effort_budget_roundtrip:
  assumes "reasoning_effort_to_thinking (Some e) max_tokens = Some cfg"
  shows "thinking_to_reasoning_effort cfg =
    Some (if e = ''low'' then ''low''
          else if e = ''high'' \<or> max_tokens \<ge> 4096 then ''high''
          else ''medium'')"
proof -
  have big: "\<not> max max_tokens 2048 \<le> (1024 :: u32)" "\<not> max max_tokens 4096 \<le> (1024 :: u32)"
    "(4096 :: u32) \<le> max max_tokens 4096"
    by (simp_all add: max.bounded_iff le_max_iff_disj)
  have "(4096 :: u32) \<le> max max_tokens 2048 \<longleftrightarrow> 4096 \<le> max_tokens"
    by (simp add: le_max_iff_disj)
  moreover have "(4096 :: u32) \<le> max_tokens \<Longrightarrow> \<not> max_tokens \<le> 1024"
    by (simp add: word_le_nat_alt)
  ultimately show ?thesis
    using assms big
    by (auto simp: reasoning_effort_to_thinking_def thinking_to_reasoning_effort_def
        split: if_splits)
qed

lemma effort_budget_roundtrip_witness:
  "\<exists>cfg. reasoning_effort_to_thinking (Some ''medium'') 8192 = Some cfg \<and>
     thinking_to_reasoning_effort cfg = Some ''high''"
proof -
  let ?cfg = "\<lparr>tk_type = ''enabled'', tk_budget_tokens = 8192\<rparr> :: ThinkingConfig"
  have "reasoning_effort_to_thinking (Some ''medium'') 8192 = Some ?cfg"
    by (simp add: reasoning_effort_to_thinking_def)
  with effort_budget_roundtrip [OF this] show ?thesis by auto
qed

end
