(* ===== verification/Claude_Wire.thy ===== *)
theory Claude_Wire
  imports Shared
begin

text \<open>
  The wire structs of the Claude Messages API: \<open>crates/core/src/formats/claude/types.rs\<close>.  Their
  derived \<open>Serialize\<close>/\<open>Deserialize\<close> code belongs to \<open>serde\<close>; the typed readers of the
  stream events are the parameters collected in \<open>claude_serde\<close>.
\<close>

definition DEFAULT_MAX_TOKENS :: u32 where "DEFAULT_MAX_TOKENS = 4096"

record ClaudeMessage =
  cm_role :: string
  cm_content :: "value"

record ClaudeTool =
  ct_name :: string
  ct_description :: "string option"
  ct_input_schema :: "value"

record ClaudeRequest =
  cq_model :: string
  cq_max_tokens :: u32
  cq_messages :: "ClaudeMessage list"
  cq_system :: "value option"
  cq_temperature :: "f32 option"
  cq_top_p :: "f32 option"
  cq_top_k :: "u32 option"
  cq_stop_sequences :: "string list option"
  cq_stream :: "bool option"
  cq_tools :: "ClaudeTool list option"
  cq_tool_choice :: "value option"
  cq_metadata :: "value option"
  cq_thinking :: "ThinkingConfig option"

datatype ClaudeContentBlock =
    CB_Text string
  | CB_ToolUse string string "value"
  | CB_Thinking string "string option"
  | CB_RedactedThinking string

record ClaudeCacheCreation =
  cc_ephemeral_5m_input_tokens :: "u64 option"
  cc_ephemeral_1h_input_tokens :: "u64 option"

record ClaudeUsage =
  cu_input_tokens :: u64
  cu_output_tokens :: u64
  cu_cache_creation_input_tokens :: "u64 option"
  cu_cache_creation :: "ClaudeCacheCreation option"
  cu_cache_read_input_tokens :: "u64 option"

record ClaudeResponse =
  cp_id :: string
  cp_type :: string
  cp_role :: string
  cp_model :: string
  cp_content :: "ClaudeContentBlock list"
  cp_stop_reason :: "string option"
  cp_stop_sequence :: "string option"
  cp_usage :: ClaudeUsage

section \<open>Stream events\<close>

record ClaudeStreamUsage =
  csu_input_tokens :: u64
  csu_output_tokens :: u64
  csu_cache_creation_input_tokens :: "u64 option"
  csu_cache_creation :: "ClaudeCacheCreation option"
  csu_cache_read_input_tokens :: "u64 option"

record ClaudeStreamMessage =
  csm_id :: string
  csm_model :: string
  csm_usage :: "ClaudeStreamUsage option"

record ClaudeMessageStartEvent =
  cms_type :: string
  cms_message :: ClaudeStreamMessage

datatype ClaudeStreamContentBlock =
    CSB_Text string
  | CSB_ToolUse string string "value"
  | CSB_Thinking string "string option"

record ClaudeContentBlockStartEvent =
  cbs_type :: string
  cbs_index :: u32
  cbs_content_block :: ClaudeStreamContentBlock

datatype ClaudeStreamDelta =
    CSD_TextDelta string
  | CSD_InputJsonDelta string
  | CSD_ThinkingDelta string
  | CSD_SignatureDelta string

record ClaudeContentBlockDeltaEvent =
  cbd_type :: string
  cbd_index :: u32
  cbd_delta :: ClaudeStreamDelta

record ClaudeMessageDelta =
  cmd_stop_reason :: "string option"
  cmd_stop_sequence :: "string option"

record ClaudeMessageDeltaEvent =
  cde_type :: string
  cde_delta :: ClaudeMessageDelta
  cde_usage :: "ClaudeStreamUsage option"

text \<open>
  \<open>serde_json::from_str\<close> and \<open>from_value\<close> at the four event structs; \<^const>\<open>Inl\<close> carries the
  message of the error.
\<close>

record claude_serde =
  from_message_start :: "string \<Rightarrow> string + ClaudeMessageStartEvent"
  from_block_start :: "value \<Rightarrow> string + ClaudeContentBlockStartEvent"
  from_block_delta :: "string \<Rightarrow> string + ClaudeContentBlockDeltaEvent"
  from_message_delta :: "string \<Rightarrow> string + ClaudeMessageDeltaEvent"

end
