(* ===== verification/Claude_Read.thy ===== *)
theory Claude_Read
  imports Claude_Wire
begin

text \<open>
  Claude Messages to IR: \<open>crates/core/src/formats/claude/read.rs\<close>.
\<close>

definition claude_take_string :: "obj \<Rightarrow> string \<Rightarrow> string \<times> obj" where
  "claude_take_string m key =
     ((case fmlookup m key of Some (JString text) \<Rightarrow> text | _ \<Rightarrow> []), fmdrop key m)"

definition claude_text_field :: "obj \<Rightarrow> string \<Rightarrow> string" where
  "claude_text_field m key = unwrap_or [] (get_str m key)"

definition claude_read_system_item :: "value \<Rightarrow> IrPart option" where
  "claude_read_system_item item =
     (case item of
        JObject m \<Rightarrow>
          (case fmlookup m ''text'' of Some (JString text) \<Rightarrow> Some (Text text None) | _ \<Rightarrow> None)
      | _ \<Rightarrow> None)"

definition claude_read_system :: "value option \<Rightarrow> IrPart list" where
  "claude_read_system system =
     (case system of
        Some (JString text) \<Rightarrow> [Text text None]
      | Some (JArray items) \<Rightarrow> List.map_filter claude_read_system_item items
      | _ \<Rightarrow> [])"

definition claude_read_image :: "obj \<Rightarrow> IrPart option" where
  "claude_read_image m =
     (case image_block_to_url m of
        Inl e \<Rightarrow> None
      | Inr url \<Rightarrow>
          Option.bind (Option.bind (fmlookup m ''source'') as_object) (\<lambda>source.
            let base64 = (get_str source ''type'' = Some ''base64'')
            in Some (Image url
                 (if base64 then claude_text_field source ''media_type'' else [])
                 (then_some base64 (claude_text_field source ''data''))
                 None)))"

text \<open>
  \<open>read_parts\<close> and \<open>read_block\<close> call each other through the \<open>content\<close> of a tool result; the
  recursion follows the JSON tree.  \<open>obj.remove\<close> is \<^const>\<open>fmdrop\<close>.
\<close>

lemma size_content:
  "size (unwrap_or JNull (fmlookup (fmdrop j m) k)) < size (JObject m)"
  by (cases "fmlookup (fmdrop j m) k") (auto dest: size_fmdrop simp del: fmlookup_drop)

function (sequential) claude_read_parts :: "value \<Rightarrow> IrPart list"
  and claude_read_block :: "value \<Rightarrow> IrPart option" where
  "claude_read_parts (JString text) = [Text text None]"
| "claude_read_parts (JArray blocks) = List.map_filter claude_read_block blocks"
| "claude_read_parts _ = []"
| "claude_read_block (JObject m) =
     (case get_str m ''type'' of
        None \<Rightarrow> None
      | Some block_type \<Rightarrow>
          if block_type = ''text'' then
            Some (Text (fst (claude_take_string m ''text'')) None)
          else if block_type = ''image'' then claude_read_image m
          else if block_type = ''tool_use'' then
            (let (i, m1) = claude_take_string m ''id'';
                 (name, m2) = claude_take_string m1 ''name''
             in Some (ToolCall i name (unwrap_or (jobj []) (fmlookup m2 ''input'')) None))
          else if block_type = ''tool_result'' then
            Some (ToolResult
              (fst (claude_take_string m ''tool_use_id''))
              (unwrap_or False (Option.bind (fmlookup (fmdrop ''tool_use_id'' m) ''is_error'') as_bool))
              (claude_read_parts
                (unwrap_or JNull (fmlookup (fmdrop ''tool_use_id'' m) ''content''))))
          else if block_type = ''thinking'' then
            (let (text, m1) = claude_take_string m ''thinking''
             in Some (Thinking text
                  (case fmlookup m1 ''signature'' of
                     Some (JString v) \<Rightarrow> Some \<lparr>sig_by = Claude, sig_value = v\<rparr>
                   | _ \<Rightarrow> None)))
          else if block_type = ''redacted_thinking'' then Some (Sealed Claude (JObject m))
          else None)"
| "claude_read_block _ = None"
  by pat_completeness auto
termination
proof (relation "measure (case_sum size size)", goal_cases)
  case (2 blocks b)
  then show ?case using size_JArray_mem by auto
next
  case (3 m t)
  then show ?case using size_content by (simp del: fmlookup_drop "value.size")
qed simp

definition claude_read_message :: "ClaudeMessage \<Rightarrow> IrMessage option" where
  "claude_read_message msg =
     (if cm_role msg = ''user''
      then Some \<lparr>im_role = User, im_parts = claude_read_parts (cm_content msg)\<rparr>
      else if cm_role msg = ''assistant''
      then Some \<lparr>im_role = Assistant, im_parts = claude_read_parts (cm_content msg)\<rparr>
      else None)"

definition claude_read_tools :: "ClaudeTool list option \<Rightarrow> IrTool list" where
  "claude_read_tools tools =
     map (\<lambda>tool. \<lparr>it_name = ct_name tool, it_description = unwrap_or [] (ct_description tool),
                  it_schema = ct_input_schema tool, it_strict = None\<rparr>)
       (unwrap_or [] tools)"

definition claude_read_tool_choice :: "value option \<Rightarrow> IrToolChoice option" where
  "claude_read_tool_choice choice =
     map_option (\<lambda>v.
       (case jget_str v ''type'' of
          Some t \<Rightarrow>
            if t = ''none'' then ChoiceNone
            else if t = ''any'' then ChoiceRequired
            else if t = ''tool'' then
              (case jget_str v ''name'' of Some name \<Rightarrow> ChoiceNamed name | None \<Rightarrow> ChoiceAuto)
            else ChoiceAuto
        | None \<Rightarrow> ChoiceAuto)) choice"

definition claude_read :: "ClaudeRequest \<Rightarrow> IrRequest" where
  "claude_read req =
     \<lparr>ir_model = cq_model req,
      ir_system = claude_read_system (cq_system req),
      ir_messages = List.map_filter claude_read_message (cq_messages req),
      ir_tools = claude_read_tools (cq_tools req),
      ir_tool_choice = claude_read_tool_choice (cq_tool_choice req),
      ir_sampling = \<lparr>sa_max_tokens = Some (cq_max_tokens req), sa_temperature = cq_temperature req,
        sa_top_p = cq_top_p req, sa_top_k = cq_top_k req,
        sa_stop = unwrap_or [] (cq_stop_sequences req)\<rparr>,
      ir_stream = unwrap_or False (cq_stream req),
      ir_reasoning =
        (case cq_thinking req of
           Some cfg \<Rightarrow> if tk_type cfg = ''enabled'' then Budget (tk_budget_tokens cfg) else ReasoningOff
         | None \<Rightarrow> ReasoningOff),
      ir_extra = extra_put_opt Claude ''metadata'' (cq_metadata req) []\<rparr>"

definition claude_read_response_block :: "ClaudeContentBlock \<Rightarrow> IrPart" where
  "claude_read_response_block block =
     (case block of
        CB_Text text \<Rightarrow> Text text None
      | CB_ToolUse i name input \<Rightarrow> ToolCall i name input None
      | CB_Thinking thinking signature \<Rightarrow>
          Thinking thinking (map_option (\<lambda>v. \<lparr>sig_by = Claude, sig_value = v\<rparr>) signature)
      | CB_RedactedThinking data \<Rightarrow>
          Sealed Claude (jobj [(''type'', JString ''redacted_thinking''), (''data'', JString data)]))"

definition claude_read_response :: "ClaudeResponse \<Rightarrow> IrResponse" where
  "claude_read_response resp =
     \<lparr>re_id = Some (cp_id resp),
      re_model = cp_model resp,
      re_parts = map claude_read_response_block (cp_content resp),
      re_stop_reason = from_claude (unwrap_or [] (cp_stop_reason resp)),
      re_stop_sequence = cp_stop_sequence resp,
      re_usage =
        \<lparr>us_input_tokens = cu_input_tokens (cp_usage resp),
         us_output_tokens = cu_output_tokens (cp_usage resp),
         us_cache_read_tokens = cu_cache_read_input_tokens (cp_usage resp),
         us_cache_write_tokens = cu_cache_creation_input_tokens (cp_usage resp),
         us_cache_write_1h =
           Option.bind (cu_cache_creation (cp_usage resp)) cc_ephemeral_1h_input_tokens,
         us_reasoning_tokens = None\<rparr>\<rparr>"

end
