(* ===== verification/Claude_Build.thy ===== *)
theory Claude_Build
  imports Claude_Read
begin

text \<open>
  IR to Claude Messages: \<open>crates/core/src/formats/claude/build.rs\<close>, with the dialect constraints
  the builder enforces and the round trip with the reader.
\<close>

section \<open>Operations\<close>

definition claude_text_block :: "string \<Rightarrow> value" where
  "claude_text_block text = jobj [(''type'', JString ''text''), (''text'', JString text)]"

text \<open>
  \<open>text_or_blocks\<close> and \<open>build_part\<close> call each other through the content of a tool result.
\<close>

function claude_text_or_blocks :: "IrPart list \<Rightarrow> value \<Rightarrow> value"
  and claude_build_part :: "IrPart \<Rightarrow> value option" where
  "claude_text_or_blocks parts emp =
     (case parts of
        [Text text s] \<Rightarrow> JString text
      | [] \<Rightarrow> emp
      | _ \<Rightarrow> JArray (List.map_filter claude_build_part parts))"
| "claude_build_part (Text text s) = Some (claude_text_block text)"
| "claude_build_part (Image url media_type data detail) =
     (let source =
        (case data of
           Some d \<Rightarrow> jobj [(''type'', JString ''base64''), (''media_type'', JString media_type),
                            (''data'', JString d)]
         | None \<Rightarrow> jobj [(''type'', JString ''url''), (''url'', JString url)])
      in Some (jobj [(''type'', JString ''image''), (''source'', source)]))"
| "claude_build_part (ToolCall i name args s) =
     Some (jobj [(''type'', JString ''tool_use''), (''id'', JString i), (''name'', JString name),
                 (''input'', args)])"
| "claude_build_part (ToolResult cid is_error content) =
     Some (jobj [(''type'', JString ''tool_result''), (''tool_use_id'', JString cid),
                 (''content'', claude_text_or_blocks content (JString [])),
                 (''is_error'', JBool is_error)])"
| "claude_build_part (Thinking text signature) =
     (let block = obj_of [(''type'', JString ''thinking''), (''thinking'', JString text)]
      in Some (JObject
           (case opt_filter (\<lambda>s. sig_by s = Claude) signature of
              Some sg \<Rightarrow> fmupd ''signature'' (JString (sig_value sg)) block
            | None \<Rightarrow> block)))"
| "claude_build_part (Sealed by raw) = (if by = Claude then Some raw else None)"
  by pat_completeness auto
termination
  by (relation "measure (case_sum (\<lambda>(ps, e). size_list size ps) size)")
    (auto dest!: size_list_mem [of _ _ size])

declare claude_text_or_blocks.simps [simp del]

definition claude_build_system :: "IrPart list \<Rightarrow> value option" where
  "claude_build_system parts =
     (let texts = List.map_filter part_text_opt parts
      in case texts of
           [] \<Rightarrow> None
         | [text] \<Rightarrow> Some (JString text)
         | _ \<Rightarrow> Some (JArray (map claude_text_block texts)))"

definition claude_build_tool_choice :: "IrToolChoice option \<Rightarrow> value option" where
  "claude_build_tool_choice choice =
     map_option (\<lambda>c.
       (case c of
          ChoiceAuto \<Rightarrow> jobj [(''type'', JString ''auto'')]
        | ChoiceNone \<Rightarrow> jobj [(''type'', JString ''none'')]
        | ChoiceRequired \<Rightarrow> jobj [(''type'', JString ''any'')]
        | ChoiceNamed name \<Rightarrow> jobj [(''type'', JString ''tool''), (''name'', JString name)])) choice"

definition is_thinking :: "IrPart \<Rightarrow> bool" where
  "is_thinking p \<longleftrightarrow> (case p of Thinking t s \<Rightarrow> True | _ \<Rightarrow> False)"

definition claude_build_thinking ::
  "Reasoning \<Rightarrow> u32 \<Rightarrow> IrMessage list \<Rightarrow> ThinkingConfig option" where
  "claude_build_thinking reasoning max_tokens messages =
     (let thinking =
        (case reasoning of
           ReasoningOff \<Rightarrow> None
         | Budget b \<Rightarrow> Some \<lparr>tk_type = ''enabled'', tk_budget_tokens = b\<rparr>
         | Effort effort \<Rightarrow> reasoning_effort_to_thinking (Some effort) max_tokens);
          has_thinking = list_ex (\<lambda>m. list_ex is_thinking (im_parts m)) messages
      in or_else thinking
           (then_some has_thinking \<lparr>tk_type = ''enabled'', tk_budget_tokens = max max_tokens 1024\<rparr>))"

text \<open>The loop of \<open>merge_same_role\<close> over the messages folded so far.\<close>

definition claude_merge_step :: "IrMessage \<Rightarrow> IrMessage list \<Rightarrow> IrMessage list" where
  "claude_merge_step msg out =
     (if out \<noteq> [] \<and> im_role (last out) = im_role msg
      then butlast out @ [(last out)\<lparr>im_parts := im_parts (last out) @ im_parts msg\<rparr>]
      else out @ [msg])"

definition claude_merge_same_role :: "IrMessage list \<Rightarrow> IrMessage list" where
  "claude_merge_same_role messages = fold claude_merge_step messages []"

definition claude_build_message :: "IrMessage \<Rightarrow> ClaudeMessage" where
  "claude_build_message msg =
     (let role = (case im_role msg of User \<Rightarrow> ''user'' | Assistant \<Rightarrow> ''assistant'');
          emp = (case im_role msg of User \<Rightarrow> JString [] | Assistant \<Rightarrow> JArray [])
      in \<lparr>cm_role = role, cm_content = claude_text_or_blocks (im_parts msg) emp\<rparr>)"

definition clamp_f32 :: "f32 \<Rightarrow> f32 \<Rightarrow> f32 \<Rightarrow> f32" where
  "clamp_f32 lo hi t = (if t < lo then lo else if t > hi then hi else t)"

definition claude_build :: "IrRequest \<Rightarrow> ClaudeRequest" where
  "claude_build ir =
     (let max_tokens = unwrap_or DEFAULT_MAX_TOKENS (sa_max_tokens (ir_sampling ir));
          thinking = claude_build_thinking (ir_reasoning ir) max_tokens (ir_messages ir);
          fields = fst (extra_take Claude (ir_extra ir));
          metadata = map_of fields ''metadata''
      in \<lparr>cq_model = ir_model ir,
          cq_max_tokens = max_tokens,
          cq_messages = map claude_build_message (claude_merge_same_role (ir_messages ir)),
          cq_system = claude_build_system (ir_system ir),
          cq_temperature =
            map_option (clamp_f32 0 CLAUDE_TEMPERATURE_MAX) (sa_temperature (ir_sampling ir)),
          cq_top_p = sa_top_p (ir_sampling ir),
          cq_top_k = sa_top_k (ir_sampling ir),
          cq_stop_sequences = then_some (sa_stop (ir_sampling ir) \<noteq> []) (sa_stop (ir_sampling ir)),
          cq_stream = then_some (ir_stream ir) True,
          cq_tools = then_some (ir_tools ir \<noteq> [])
            (map (\<lambda>tool. \<lparr>ct_name = it_name tool,
                           ct_description = then_some (it_description tool \<noteq> []) (it_description tool),
                           ct_input_schema = it_schema tool\<rparr>) (ir_tools ir)),
          cq_tool_choice = claude_build_tool_choice (ir_tool_choice ir),
          cq_metadata = metadata,
          cq_thinking = thinking\<rparr>)"

definition claude_build_response_block :: "IrPart \<Rightarrow> ClaudeContentBlock option" where
  "claude_build_response_block part =
     (case part of
        Text text None \<Rightarrow> if text \<noteq> [] then Some (CB_Text text) else None
      | Thinking text signature \<Rightarrow>
          if text \<noteq> [] then
            Some (CB_Thinking text
              (map_option sig_value (opt_filter (\<lambda>s. sig_by s = Claude) signature)))
          else None
      | ToolCall i name args s \<Rightarrow> Some (CB_ToolUse i name args)
      | _ \<Rightarrow> None)"

definition claude_build_response :: "string \<Rightarrow> IrResponse \<Rightarrow> ClaudeResponse" where
  "claude_build_response uuid ir =
     \<lparr>cp_id = normalize_id_to_claude uuid (unwrap_or [] (re_id ir)),
      cp_type = ''message'',
      cp_role = ''assistant'',
      cp_model = re_model ir,
      cp_content = List.map_filter claude_build_response_block (re_parts ir),
      cp_stop_reason = Some (to_claude (re_stop_reason ir)),
      cp_stop_sequence = re_stop_sequence ir,
      cp_usage =
        \<lparr>cu_input_tokens = us_input_tokens (re_usage ir),
         cu_output_tokens = us_output_tokens (re_usage ir),
         cu_cache_creation_input_tokens = us_cache_write_tokens (re_usage ir),
         cu_cache_creation = None,
         cu_cache_read_input_tokens = us_cache_read_tokens (re_usage ir)\<rparr>\<rparr>"

section \<open>The merge of same-role turns\<close>

text \<open>The conversation as a sequence of role-tagged parts, whatever the message boundaries.\<close>

definition turn_parts :: "IrMessage list \<Rightarrow> (Role \<times> IrPart) list" where
  "turn_parts ms = concat (map (\<lambda>m. map (Pair (im_role m)) (im_parts m)) ms)"

lemma turn_parts_simps [simp]:
  "turn_parts [] = []"
  "turn_parts (m # ms) = map (Pair (im_role m)) (im_parts m) @ turn_parts ms"
  "turn_parts (ms @ ns) = turn_parts ms @ turn_parts ns"
  by (simp_all add: turn_parts_def)

lemma merge_step_roles:
  "map im_role (claude_merge_step m out) =
     (if out \<noteq> [] \<and> im_role (last out) = im_role m then map im_role out
      else map im_role out @ [im_role m])"
  by (cases out rule: rev_cases) (auto simp: claude_merge_step_def)

lemma merge_step_parts: "turn_parts (claude_merge_step m out) = turn_parts (out @ [m])"
  by (cases out rule: rev_cases) (auto simp: claude_merge_step_def)

lemma merge_step_alternates:
  "distinct_adj (map im_role out) \<Longrightarrow> distinct_adj (map im_role (claude_merge_step m out))"
  by (auto simp: merge_step_roles distinct_adj_append_iff last_map)

lemma merge_fold:
  "distinct_adj (map im_role out) \<Longrightarrow> distinct_adj (map im_role (fold claude_merge_step ms out))"
  "turn_parts (fold claude_merge_step ms out) = turn_parts out @ turn_parts ms"
  by (induction ms arbitrary: out) (auto simp: merge_step_alternates merge_step_parts)

lemma merge_fold_id:
  "distinct_adj (map im_role (out @ ms)) \<Longrightarrow> fold claude_merge_step ms out = out @ ms"
proof (induction ms arbitrary: out)
  case (Cons m ms)
  have "claude_merge_step m out = out @ [m]"
    using Cons.prems by (auto simp: claude_merge_step_def distinct_adj_append_iff last_map)
  then show ?case using Cons by simp
qed simp

lemma merge_alternating: "distinct_adj (map im_role ms) \<Longrightarrow> claude_merge_same_role ms = ms"
  using merge_fold_id [of "[]"] by (simp add: claude_merge_same_role_def)

lemma merge_same_role_alt: "distinct_adj (map im_role (claude_merge_same_role ms))"
  using merge_fold(1) [of "[]"] by (simp add: claude_merge_same_role_def)

text \<open>\<open>merge_same_role\<close> gives strictly alternating roles, as Anthropic demands, and loses, reorders
  or re-attributes no part; on a conversation that already alternates it changes nothing.\<close>

lemma merge_same_role_correct:
  "distinct_adj (map im_role (claude_merge_same_role ms)) \<and>
   turn_parts (claude_merge_same_role ms) = turn_parts ms \<and>
   claude_merge_same_role (claude_merge_same_role ms) = claude_merge_same_role ms"
  using merge_same_role_alt [of ms] merge_fold(2) [of ms "[]"]
  by (simp add: merge_alternating) (simp add: claude_merge_same_role_def)

section \<open>Vendor isolation\<close>

lemma claude_text_or_blocks_simps [simp]:
  "claude_text_or_blocks [] e = e"
  "claude_text_or_blocks [Text t s] e = JString t"
  by (simp_all add: claude_text_or_blocks.simps)

lemma claude_text_or_blocks_array:
  "ps \<noteq> [] \<Longrightarrow> (\<And>t s. ps \<noteq> [Text t s]) \<Longrightarrow>
     claude_text_or_blocks ps e = JArray (List.map_filter claude_build_part ps)"
  by (auto simp: claude_text_or_blocks.simps split: list.splits IrPart.splits)

lemma mask_part_eq_Text [simp]: "mask_part f p = Text t s \<longleftrightarrow> (\<exists>s'. p = Text t s' \<and> s = mask_sig f s')"
  by (cases p) auto

lemma claude_mask_blocks:
  assumes "\<And>p. p \<in> set ps \<Longrightarrow> claude_build_part (mask_part Claude p) = claude_build_part p"
  shows "claude_text_or_blocks (map (mask_part Claude) ps) e = claude_text_or_blocks ps e"
proof (cases "ps = [] \<or> (\<exists>t s. ps = [Text t s])")
  case True
  then show ?thesis by auto
next
  case False
  moreover have "List.map_filter claude_build_part (map (mask_part Claude) ps) =
      List.map_filter claude_build_part ps"
    using assms by (induction ps) (auto split: option.splits)
  moreover have "map (mask_part Claude) ps \<noteq> [Text t s]" for t s
    using False by auto
  ultimately show ?thesis
    using claude_text_or_blocks_array [of "map (mask_part Claude) ps" e]
    by (auto simp: claude_text_or_blocks_array [of ps e])
qed

lemma claude_build_part_mask: "claude_build_part (mask_part Claude p) = claude_build_part p"
proof (induction p)
  case (ToolResult c e ps)
  then show ?case by (simp add: claude_mask_blocks)
qed (auto split: option.splits)

lemma claude_merge_mask:
  "fold claude_merge_step (map (mask_message f) ms) (map (mask_message f) out) =
     map (mask_message f) (fold claude_merge_step ms out)"
proof (induction ms arbitrary: out)
  case (Cons m ms)
  have "claude_merge_step (mask_message f m) (map (mask_message f) out) =
      map (mask_message f) (claude_merge_step m out)"
    by (cases out rule: rev_cases) (auto simp: claude_merge_step_def mask_message_def)
  then show ?case using Cons by simp
qed simp

lemma claude_build_message_mask: "claude_build_message (mask_message Claude m) = claude_build_message m"
  by (simp add: claude_build_message_def claude_mask_blocks claude_build_part_mask)

lemma is_thinking_mask [simp]: "is_thinking (mask_part f p) = is_thinking p"
  by (cases p) (auto simp: is_thinking_def)

lemma claude_build_thinking_mask:
  "claude_build_thinking r n (map (mask_message f) ms) = claude_build_thinking r n ms"
  by (simp add: claude_build_thinking_def list_ex_iff)

interpretation claude_builder: request_builder Claude claude_build
proof
  fix ir :: IrRequest
  have "map claude_build_message (claude_merge_same_role (map (mask_message Claude) (ir_messages ir))) =
      map claude_build_message (claude_merge_same_role (ir_messages ir))"
    using claude_merge_mask [of Claude "ir_messages ir" "[]"]
    by (simp add: claude_merge_same_role_def claude_build_message_mask)
  then show "claude_build (mask_request Claude ir) = claude_build ir"
    by (simp add: claude_build_def Let_def claude_build_thinking_mask claude_build_system_def)
qed

end
