(* ===== verification/Stream_Adapter.thy ===== *)
theory Stream_Adapter
  imports Shared
begin

text \<open>
  The \<open>StreamAdapter\<close> trait of \<open>crates/core/src/formats/mod.rs\<close> as an interface.  A \<open>&mut
  StreamState\<close> argument is a state passed in and returned; a failed call returns its error and no
  state.  The clock and the random ids one call
  may draw are its \<open>env\<close>.
\<close>

record env =
  env_now :: u64
  env_uuid :: "nat \<Rightarrow> string"

type_synonym parser = "env \<Rightarrow> SseEvent \<Rightarrow> StreamState \<Rightarrow> (CanonicalStreamEvent list \<times> StreamState) result"
type_synonym emitter = "env \<Rightarrow> CanonicalStreamEvent \<Rightarrow> StreamState \<Rightarrow> (string list \<times> StreamState) result"

text \<open>An event before it is printed: its name and its JSON payload.\<close>

type_synonym frame = "string \<times> value"

definition render :: "serde \<Rightarrow> frame \<Rightarrow> string" where
  "render S fr = format_sse_event (fst fr) (to_text S (snd fr))"

text \<open>The loop \<open>for ce in &canonical { lines.extend(emit(ce)?) }\<close>; each call has its own \<open>env\<close>.\<close>

fun emit_all ::
  "emitter \<Rightarrow> (nat \<Rightarrow> env) \<Rightarrow> CanonicalStreamEvent list \<Rightarrow> StreamState \<Rightarrow> (string list \<times> StreamState) result" where
  "emit_all emit E [] st = Inr ([], st)"
| "emit_all emit E (ev # evs) st =
     try_bind (emit (E 0) ev st) (\<lambda>(ls, st1).
       try_bind (emit_all emit (E \<circ> Suc) evs st1) (\<lambda>(ls', st2). Inr (ls @ ls', st2)))"

fun parse_all ::
  "parser \<Rightarrow> (nat \<Rightarrow> env) \<Rightarrow> SseEvent list \<Rightarrow> StreamState \<Rightarrow>
     (CanonicalStreamEvent list \<times> StreamState) result" where
  "parse_all parse E [] st = Inr ([], st)"
| "parse_all parse E (e # es) st =
     try_bind (parse (E 0) e st) (\<lambda>(evs, st1).
       try_bind (parse_all parse (E \<circ> Suc) es st1) (\<lambda>(evs', st2). Inr (evs @ evs', st2)))"

lemma emit_all_append:
  "emit_all emit E (xs @ ys) st =
     try_bind (emit_all emit E xs st) (\<lambda>(ls, st1).
       try_bind (emit_all emit (\<lambda>n. E (length xs + n)) ys st1) (\<lambda>(ls', st2). Inr (ls @ ls', st2)))"
proof (induction xs arbitrary: E st)
  case Nil
  then show ?case by (auto simp: try_bind_def split: sum.splits)
next
  case (Cons x xs)
  then show ?case
    by (auto simp: try_bind_def comp_def split: sum.splits)
qed

lemma parse_all_append:
  "parse_all parse E (xs @ ys) st =
     try_bind (parse_all parse E xs st) (\<lambda>(evs, st1).
       try_bind (parse_all parse (\<lambda>n. E (length xs + n)) ys st1) (\<lambda>(evs', st2). Inr (evs @ evs', st2)))"
proof (induction xs arbitrary: E st)
  case Nil
  then show ?case by (auto simp: try_bind_def split: sum.splits)
next
  case (Cons x xs)
  then show ?case
    by (auto simp: try_bind_def comp_def split: sum.splits)
qed

text \<open>
  What the hub relies on: the terminal event is written and closes the state, the opening event fixes
  the model, and a signature or a sealed block of an API that does not speak this format (only
  Claude's and the emitter's own are ever written) leaves no trace.
\<close>

definition foreign_to :: "Format \<Rightarrow> CanonicalStreamEvent \<Rightarrow> bool" where
  "foreign_to own ev \<longleftrightarrow>
     (case ev of
        ThinkingSignature f d \<Rightarrow> f \<noteq> own \<and> f \<noteq> Claude
      | SealedThinking f raw \<Rightarrow> f \<noteq> own \<and> f \<noteq> Claude
      | _ \<Rightarrow> False)"

locale stream_emitter =
  fixes emit :: emitter and own :: Format
  assumes emit_done:
      "\<exists>ls st'. emit E (Done r u) st = Inr (ls, st') \<and> ls \<noteq> [] \<and> st_done st' \<and> phase st' = PhaseDone"
    and emit_start:
      "\<exists>ls st'. emit E (Start i m) st = Inr (ls, st') \<and> st_model st' = Some m \<and>
         (\<exists>i'. response_id st' = Some i')"
    and emit_foreign_sig:
      "f \<noteq> own \<Longrightarrow> f \<noteq> Claude \<Longrightarrow> emit E (ThinkingSignature f d) st = Inr ([], st)"
    and emit_foreign_seal:
      "f \<noteq> own \<Longrightarrow> f \<noteq> Claude \<Longrightarrow> emit E (SealedThinking f raw) st = Inr ([], st)"
begin

text \<open>A canonical stream that ends in \<open>Done\<close> leaves the client a terminal event and a closed state.\<close>

lemma emit_all_done:
  assumes "emit_all emit E evs st = Inr (ls, st1)"
  shows "\<exists>ls' st'. emit_all emit E (evs @ [Done r u]) st = Inr (ls @ ls', st') \<and> ls' \<noteq> [] \<and>
    st_done st' \<and> phase st' = PhaseDone"
proof -
  obtain ls' st' where "emit (E (length evs)) (Done r u) st1 = Inr (ls', st')"
      "ls' \<noteq> []" "st_done st'" "phase st' = PhaseDone"
    using emit_done by metis
  with assms show ?thesis
    by (auto simp: emit_all_append)
qed

text \<open>Dropping another vendor's reasoning events from a canonical stream changes nothing that is written.\<close>

lemma emit_foreign: "foreign_to own ev \<Longrightarrow> emit E ev st = Inr ([], st)"
  by (cases ev) (auto simp: foreign_to_def emit_foreign_sig emit_foreign_seal)

lemma emit_all_foreign:
  "\<exists>E'. range E' \<subseteq> range E \<and>
     emit_all emit E evs st = emit_all emit E' (filter (\<lambda>ev. \<not> foreign_to own ev) evs) st"
proof (induction evs arbitrary: E st)
  case Nil
  then show ?case by auto
next
  case (Cons ev evs)
  show ?case
  proof (cases "foreign_to own ev")
    case True
    from Cons [of "E \<circ> Suc" st] obtain E' where "range E' \<subseteq> range (E \<circ> Suc)"
      and "emit_all emit (E \<circ> Suc) evs st = emit_all emit E' (filter (\<lambda>ev. \<not> foreign_to own ev) evs) st"
      by blast
    with True show ?thesis
      by (intro exI [of _ E']) (auto simp: emit_foreign try_bind_def split: sum.splits)
  next
    case False
    show ?thesis
    proof (cases "emit (E 0) ev st")
      case (Inl e)
      with False show ?thesis by (intro exI [of _ E]) simp
    next
      case (Inr r)
      obtain ls st1 where r: "r = (ls, st1)" by fastforce
      from Cons [of "E \<circ> Suc" st1] obtain E' where "range E' \<subseteq> range (E \<circ> Suc)"
        and "emit_all emit (E \<circ> Suc) evs st1 = emit_all emit E' (filter (\<lambda>ev. \<not> foreign_to own ev) evs) st1"
        by blast
      moreover have "case_nat (E 0) E' \<circ> Suc = E'" by (simp add: comp_def)
      moreover have "range (case_nat (E 0) E') \<subseteq> range E"
        using \<open>range E' \<subseteq> range (E \<circ> Suc)\<close> by (fastforce split: nat.splits)
      ultimately show ?thesis
        using False Inr r by (intro exI [of _ "case_nat (E 0) E'"]) simp
    qed
  qed
qed

end

text \<open>
  How every adapter writes: it makes a list of events and prints each with \<open>format_sse_event\<close> or
  \<open>format_sse_data\<close>.  What a client that splits the bytes into blocks and parses each block then
  sees is that list, for the whole stream.
\<close>

type_synonym 'f framer = "env \<Rightarrow> CanonicalStreamEvent \<Rightarrow> StreamState \<Rightarrow> 'f list \<times> StreamState"

fun frames_all ::
  "'f framer \<Rightarrow> (nat \<Rightarrow> env) \<Rightarrow> CanonicalStreamEvent list \<Rightarrow> StreamState \<Rightarrow> 'f list \<times> StreamState" where
  "frames_all fr E [] st = ([], st)"
| "frames_all fr E (ev # evs) st =
     (let (es, st1) = fr (E 0) ev st; (es', st2) = frames_all fr (E \<circ> Suc) evs st1 in (es @ es', st2))"

lemma frames_all_Cons:
  "fst (frames_all fr E (ev # evs) st) =
     fst (fr (E 0) ev st) @ fst (frames_all fr (E \<circ> Suc) evs (snd (fr (E 0) ev st)))"
  "snd (frames_all fr E (ev # evs) st) = snd (frames_all fr (E \<circ> Suc) evs (snd (fr (E 0) ev st)))"
  by (simp_all split: prod.splits)

lemma frames_all_append:
  "frames_all fr E (xs @ ys) st =
     (let (es, st1) = frames_all fr E xs st;
          (es', st2) = frames_all fr (\<lambda>n. E (length xs + n)) ys st1 in (es @ es', st2))"
  by (induction xs arbitrary: E st) (auto simp: comp_def split: prod.splits)

lemma frames_all_map:
  assumes "\<And>E ev st. fr' E ev st = apfst (map g) (fr E ev st)"
  shows "frames_all fr' E evs st = apfst (map g) (frames_all fr E evs st)"
  by (induction evs arbitrary: E st) (auto simp: assms split: prod.splits)

definition client_events :: "string list \<Rightarrow> SseEvent list" where
  "client_events lines = List.map_filter parse_sse_block (split_sse_blocks (concat lines))"

locale sse_writer =
  fixes emit :: emitter and frames :: "SseEvent framer"
  assumes emit_frames:
    "emit E ev st = Inr (map format_sse (fst (frames E ev st)), snd (frames E ev st))"
begin

lemma emit_all_frames:
  "emit_all emit E evs st =
     Inr (map format_sse (fst (frames_all frames E evs st)), snd (frames_all frames E evs st))"
  by (induction evs arbitrary: E st) (auto simp: emit_frames split: prod.splits)

lemma client_sees_frames:
  assumes "list_all wf_sse (fst (frames_all frames E evs st))"
  shows "\<exists>ls st'. emit_all emit E evs st = Inr (ls, st') \<and>
    client_events ls = fst (frames_all frames E evs st)"
  using assms by (simp add: emit_all_frames client_events_def sse_events_of_stream)

end

section \<open>Which events an emitter accepts\<close>

text \<open>
  An emitter may refuse an argument fragment, and then only one whose call it does not know: \<open>known st\<close> are
  the call indices for which it takes fragments.  \<open>well_indexed\<close> says of a canonical stream that every
  fragment follows the start of its call, given the calls already started.
\<close>

fun well_indexed :: "u32 set \<Rightarrow> CanonicalStreamEvent list \<Rightarrow> bool" where
  "well_indexed I [] = True"
| "well_indexed I (ToolCallStart i c n s # evs) = well_indexed (insert i I) evs"
| "well_indexed I (ToolCallDelta i a # evs) = (i \<in> I \<and> well_indexed I evs)"
| "well_indexed I (ev # evs) = well_indexed I evs"

definition starts_call :: "CanonicalStreamEvent \<Rightarrow> u32 set" where
  "starts_call ev = (case ev of ToolCallStart i c n s \<Rightarrow> {i} | _ \<Rightarrow> {})"

definition needs_call :: "CanonicalStreamEvent \<Rightarrow> u32 set" where
  "needs_call ev = (case ev of ToolCallDelta i a \<Rightarrow> {i} | _ \<Rightarrow> {})"

lemma well_indexed_Cons:
  "well_indexed I (ev # evs) \<longleftrightarrow> needs_call ev \<subseteq> I \<and> well_indexed (starts_call ev \<union> I) evs"
  by (cases ev) (auto simp: needs_call_def starts_call_def)

lemma well_indexed_mono: "well_indexed I evs \<Longrightarrow> I \<subseteq> J \<Longrightarrow> well_indexed J evs"
  by (induction evs arbitrary: I J) (simp, auto simp: well_indexed_Cons, blast)

lemma well_indexed_append:
  "well_indexed I (xs @ ys) \<longleftrightarrow> well_indexed I xs \<and> well_indexed (\<Union> (starts_call ` set xs) \<union> I) ys"
  by (induction xs arbitrary: I) (auto simp: well_indexed_Cons Un_ac)

locale accepting_emitter = stream_emitter +
  fixes known :: "StreamState \<Rightarrow> u32 set"
  assumes accepts:
    "needs_call ev \<subseteq> known st \<Longrightarrow>
       \<exists>ls st'. emit E ev st = Inr (ls, st') \<and> starts_call ev \<union> known st \<subseteq> known st'"
begin

lemma emit_all_accepts:
  "well_indexed (known st) evs \<Longrightarrow> \<exists>ls st'. emit_all emit E evs st = Inr (ls, st')"
proof (induction evs arbitrary: E st)
  case Nil
  then show ?case by simp
next
  case (Cons ev evs)
  then have "needs_call ev \<subseteq> known st" and idx: "well_indexed (starts_call ev \<union> known st) evs"
    by (simp_all add: well_indexed_Cons)
  with accepts [of ev st "E 0"] obtain ls st1 where "emit (E 0) ev st = Inr (ls, st1)"
      and "starts_call ev \<union> known st \<subseteq> known st1"
    by blast
  with idx have "emit (E 0) ev st = Inr (ls, st1)" "well_indexed (known st1) evs"
    by (simp_all add: well_indexed_mono)
  with Cons.IH [of st1 "E \<circ> Suc"] show ?case by (fastforce simp: comp_def)
qed

text \<open>A well-indexed stream that ends in \<open>Done\<close> is written to its end.\<close>

lemma emit_all_accepts_done:
  assumes "well_indexed (known st) evs"
  shows "\<exists>ls ls' st'. emit_all emit E (evs @ [Done r u]) st = Inr (ls @ ls', st') \<and> ls' \<noteq> [] \<and>
    st_done st' \<and> phase st' = PhaseDone"
  using emit_all_accepts [OF assms] emit_all_done by metis

end

end
