(* ===== verification/Claude_Stream.thy ===== *)
theory Claude_Stream
  imports Claude_Build Stream_Adapter
begin

text \<open>
  The Claude stream adapter: \<open>crates/core/src/formats/claude/stream.rs\<close>.
\<close>

section \<open>Parsing\<close>

definition claude_parse_message_start ::
  "claude_serde \<Rightarrow> string \<Rightarrow> StreamState \<Rightarrow> (CanonicalStreamEvent list \<times> StreamState) result" where
  "claude_parse_message_start C data st =
     (case from_message_start C data of
        Inl e \<Rightarrow> Inl (SseParse (''message_start parse error: '' @ e))
      | Inr parsed \<Rightarrow>
          let msg = cms_message parsed;
              st1 = st\<lparr>response_id := Some (csm_id msg), st_model := Some (csm_model msg),
                       phase := PhaseInit, block_index := 0, tool_call_index := 0, st_done := False\<rparr>;
              st2 = (case csm_usage msg of
                       None \<Rightarrow> st1
                     | Some u \<Rightarrow> st1\<lparr>accumulated_usage := Some (usage_default
                         \<lparr>us_input_tokens := csu_input_tokens u,
                          us_output_tokens := csu_output_tokens u,
                          us_cache_read_tokens := csu_cache_read_input_tokens u,
                          us_cache_write_tokens := csu_cache_creation_input_tokens u\<rparr>)\<rparr>)
          in Inr ([Start (csm_id msg) (csm_model msg)], st2))"

definition claude_parse_content_block_start ::
  "serde \<Rightarrow> claude_serde \<Rightarrow> string \<Rightarrow> StreamState \<Rightarrow> (CanonicalStreamEvent list \<times> StreamState) result" where
  "claude_parse_content_block_start S C data st =
     (case from_text S data of
        Inl e \<Rightarrow> Inl (SseParse (''content_block_start parse error: '' @ e))
      | Inr v \<Rightarrow>
          (case opt_filter (\<lambda>block. jget_str block ''type'' = Some ''redacted_thinking'')
                  (jget v ''content_block'') of
             Some raw \<Rightarrow>
               Inr ([SealedThinking Claude raw],
                    st\<lparr>block_index := ucast (unwrap_or 0 (Option.bind (jget v ''index'') as_u64)),
                       phase := PhaseContent\<rparr>)
           | None \<Rightarrow>
               (case from_block_start C v of
                  Inl e \<Rightarrow> Inl (SseParse (''content_block_start parse error: '' @ e))
                | Inr parsed \<Rightarrow>
                    let st1 = st\<lparr>block_index := cbs_index parsed, phase := PhaseContent\<rparr>
                    in (case cbs_content_block parsed of
                          CSB_ToolUse i name input \<Rightarrow>
                            (let (index, st2) = next_tool_call_index st1
                             in Inr ([ToolCallStart index i name None], st2\<lparr>phase := PhaseToolCalls\<rparr>))
                        | CSB_Thinking t s \<Rightarrow> Inr ([], st1)
                        | CSB_Text t \<Rightarrow> Inr ([], st1)))))"

definition claude_parse_content_block_delta ::
  "claude_serde \<Rightarrow> string \<Rightarrow> StreamState \<Rightarrow> (CanonicalStreamEvent list \<times> StreamState) result" where
  "claude_parse_content_block_delta C data st =
     (case from_block_delta C data of
        Inl e \<Rightarrow> Inl (SseParse (''content_block_delta parse error: '' @ e))
      | Inr parsed \<Rightarrow>
          let st1 = st\<lparr>block_index := cbd_index parsed\<rparr>
          in (case cbd_delta parsed of
                CSD_TextDelta text \<Rightarrow> Inr ([TextDelta text], st1\<lparr>phase := PhaseContent\<rparr>)
              | CSD_InputJsonDelta partial_json \<Rightarrow>
                  Inr ([ToolCallDelta (saturating_sub (tool_call_index st1) 1) partial_json],
                       st1\<lparr>phase := PhaseToolCalls\<rparr>)
              | CSD_ThinkingDelta thinking \<Rightarrow> Inr ([ThinkingDelta thinking], st1)
              | CSD_SignatureDelta signature \<Rightarrow> Inr ([ThinkingSignature Claude signature], st1)))"

definition claude_parse_message_delta ::
  "claude_serde \<Rightarrow> string \<Rightarrow> StreamState \<Rightarrow> (CanonicalStreamEvent list \<times> StreamState) result" where
  "claude_parse_message_delta C data st =
     (case from_message_delta C data of
        Inl e \<Rightarrow> Inl (SseParse (''message_delta parse error: '' @ e))
      | Inr parsed \<Rightarrow>
          let st1 = (case cde_usage parsed of
                       None \<Rightarrow> st
                     | Some u \<Rightarrow> st\<lparr>accumulated_usage :=
                         Some ((unwrap_or usage_default (accumulated_usage st))
                                 \<lparr>us_output_tokens := csu_output_tokens u\<rparr>)\<rparr>);
              stop_reason = unwrap_or EndTurn
                (map_option from_claude (cmd_stop_reason (cde_delta parsed)))
          in Inr ([Done stop_reason (accumulated_usage st1)], st1\<lparr>phase := PhaseDone\<rparr>))"

definition claude_parse_message_stop ::
  "StreamState \<Rightarrow> (CanonicalStreamEvent list \<times> StreamState) result" where
  "claude_parse_message_stop st =
     (let st1 = st\<lparr>st_done := True\<rparr>
      in if phase st1 = PhaseDone then Inr ([], st1)
         else let stop_reason =
                (if phase st1 = PhaseToolCalls \<or> tool_call_index st1 > 0 then ToolUse else EndTurn)
              in Inr ([Done stop_reason (accumulated_usage st1)], st1\<lparr>phase := PhaseDone\<rparr>))"

definition claude_parse_sse_event :: "serde \<Rightarrow> claude_serde \<Rightarrow> parser" where
  "claude_parse_sse_event S C E event st =
     (case sse_event event of
        None \<Rightarrow> Inl (SseParse ''Claude SSE events require event type'')
      | Some event_type \<Rightarrow>
          if event_type = ''message_start'' then claude_parse_message_start C (sse_data event) st
          else if event_type = ''content_block_start'' then
            claude_parse_content_block_start S C (sse_data event) st
          else if event_type = ''content_block_delta'' then
            claude_parse_content_block_delta C (sse_data event) st
          else if event_type = ''content_block_stop'' then Inr ([], st)
          else if event_type = ''message_delta'' then claude_parse_message_delta C (sse_data event) st
          else if event_type = ''message_stop'' then claude_parse_message_stop st
          else if event_type = ''ping'' then Inr ([], st)
          else Inl (SseParse (''unknown Claude SSE event: '' @ event_type)))"

section \<open>Emitting\<close>

definition claude_emit_message_start ::
  "string \<Rightarrow> string \<Rightarrow> string \<Rightarrow> StreamState \<Rightarrow> frame list \<times> StreamState" where
  "claude_emit_message_start uuid i model st =
     (let normalized_id = normalize_id_to_claude uuid i;
          st1 = st\<lparr>response_id := Some normalized_id, st_model := Some model, phase := PhaseInit,
                   block_index := 0, tool_call_index := 0, st_done := False,
                   accumulated_usage := Some usage_default\<rparr>;
          data = jobj [(''type'', JString ''message_start''),
            (''message'', jobj [(''id'', JString normalized_id), (''type'', JString ''message''),
               (''role'', JString ''assistant''), (''model'', JString model), (''content'', JArray []),
               (''stop_reason'', JNull), (''stop_sequence'', JNull),
               (''usage'', jobj [(''input_tokens'', json_u64 0), (''output_tokens'', json_u64 0)])])]
      in ([(''message_start'', data)], st1))"

definition claude_block_start :: "u32 \<Rightarrow> value \<Rightarrow> frame" where
  "claude_block_start index block =
     (''content_block_start'', jobj [(''type'', JString ''content_block_start''),
        (''index'', json_u32 index), (''content_block'', block)])"

definition claude_block_delta :: "u32 \<Rightarrow> value \<Rightarrow> frame" where
  "claude_block_delta index delta =
     (''content_block_delta'', jobj [(''type'', JString ''content_block_delta''),
        (''index'', json_u32 index), (''delta'', delta)])"

definition claude_emit_text_delta :: "string \<Rightarrow> StreamState \<Rightarrow> frame list \<times> StreamState" where
  "claude_emit_text_delta text st =
     (let (out, st1) =
        (if phase st = PhaseInit
         then ([claude_block_start (block_index st)
                  (jobj [(''type'', JString ''text''), (''text'', JString [])])],
               st\<lparr>phase := PhaseContent\<rparr>)
         else ([], st))
      in (out @ [claude_block_delta (block_index st1)
                   (jobj [(''type'', JString ''text_delta''), (''text'', JString text)])], st1))"

definition claude_emit_tool_call_start ::
  "u32 \<Rightarrow> string \<Rightarrow> string \<Rightarrow> StreamState \<Rightarrow> frame list \<times> StreamState" where
  "claude_emit_tool_call_start index i name st =
     (let (bi, st1) = next_block_index st
      in ([claude_block_start bi
             (jobj [(''type'', JString ''tool_use''), (''id'', JString i), (''name'', JString name),
                    (''input'', jobj [])])],
          st1\<lparr>tool_call_index := index + 1, phase := PhaseToolCalls\<rparr>))"

definition claude_emit_tool_call_delta :: "string \<Rightarrow> StreamState \<Rightarrow> frame list \<times> StreamState" where
  "claude_emit_tool_call_delta arguments_delta st =
     ([claude_block_delta (saturating_sub (block_index st) 1)
         (jobj [(''type'', JString ''input_json_delta''), (''partial_json'', JString arguments_delta)])],
      st)"

definition claude_emit_thinking_delta :: "string \<Rightarrow> StreamState \<Rightarrow> frame list \<times> StreamState" where
  "claude_emit_thinking_delta thinking st =
     (let (out, st1) =
        (if phase st = PhaseInit
         then ([claude_block_start (block_index st)
                  (jobj [(''type'', JString ''thinking''), (''thinking'', JString [])])],
               st\<lparr>phase := PhaseContent\<rparr>)
         else ([], st))
      in (out @ [claude_block_delta (block_index st1)
                   (jobj [(''type'', JString ''thinking_delta''), (''thinking'', JString thinking)])], st1))"

definition claude_done_usage :: "Usage option \<Rightarrow> obj" where
  "claude_done_usage usage =
     (let output_tokens = unwrap_or 0 (map_option us_output_tokens usage);
          input_tokens = unwrap_or 0 (map_option (\<lambda>u.
            unwrap_or (us_input_tokens u)
              (map_option (saturating_sub (us_input_tokens u)) (us_cache_read_tokens u))) usage);
          m0 = obj_of [(''input_tokens'', json_u64 input_tokens), (''output_tokens'', json_u64 output_tokens)];
          m1 = (case Option.bind usage us_cache_read_tokens of
                  Some r \<Rightarrow> fmupd ''cache_read_input_tokens'' (json_u64 r) m0 | None \<Rightarrow> m0);
          m2 = (case Option.bind usage us_cache_write_tokens of
                  Some w \<Rightarrow> fmupd ''cache_creation_input_tokens'' (json_u64 w) m1 | None \<Rightarrow> m1)
      in m2)"

definition claude_emit_done ::
  "StopReason \<Rightarrow> Usage option \<Rightarrow> StreamState \<Rightarrow> frame list \<times> StreamState" where
  "claude_emit_done stop_reason usage st =
     (let st1 = (case usage of Some u \<Rightarrow> st\<lparr>accumulated_usage := Some u\<rparr> | None \<Rightarrow> st);
          delta_data = jobj [(''type'', JString ''message_delta''),
            (''delta'', jobj [(''stop_reason'', JString (to_claude stop_reason)), (''stop_sequence'', JNull)]),
            (''usage'', JObject (claude_done_usage usage))];
          stop_data = jobj [(''type'', JString ''message_stop'')]
      in ([(''message_delta'', delta_data), (''message_stop'', stop_data)],
          st1\<lparr>st_done := True, phase := PhaseDone\<rparr>))"

text \<open>The dispatch of \<open>emit_sse_event\<close>, before and after printing.\<close>

definition claude_emit_frames ::
  "env \<Rightarrow> CanonicalStreamEvent \<Rightarrow> StreamState \<Rightarrow> frame list \<times> StreamState" where
  "claude_emit_frames E event st =
     (case event of
        ThinkingSignature f d \<Rightarrow> ([], st)
      | SealedThinking f raw \<Rightarrow> ([], st)
      | Start i model \<Rightarrow> claude_emit_message_start (env_uuid E 0) i model st
      | TextDelta text \<Rightarrow> claude_emit_text_delta text st
      | ToolCallStart index i name s \<Rightarrow> claude_emit_tool_call_start index i name st
      | ToolCallDelta index arguments_delta \<Rightarrow> claude_emit_tool_call_delta arguments_delta st
      | ThinkingDelta thinking \<Rightarrow> claude_emit_thinking_delta thinking st
      | Done stop_reason usage \<Rightarrow> claude_emit_done stop_reason usage st)"

definition claude_emit_sse_event :: "serde \<Rightarrow> emitter" where
  "claude_emit_sse_event S E event st =
     (let (frames, st1) = claude_emit_frames E event st in Inr (map (render S) frames, st1))"

lemmas claude_emit_defs = claude_emit_frames_def claude_emit_message_start_def
  claude_emit_text_delta_def claude_emit_tool_call_start_def claude_emit_tool_call_delta_def
  claude_emit_thinking_delta_def claude_emit_done_def next_block_index_def

interpretation claude_emitter: stream_emitter "claude_emit_sse_event S" Claude for S
  by unfold_locales
    (auto simp: claude_emit_sse_event_def claude_emit_defs Let_def split: option.splits)

definition claude_frames :: "serde \<Rightarrow> SseEvent framer" where
  "claude_frames S E ev st =
     (let (frames, st1) = claude_emit_frames E ev st
      in (map (\<lambda>fr. \<lparr>sse_event = Some (fst fr), sse_data = to_text S (snd fr)\<rparr>) frames, st1))"

interpretation claude_writer: sse_writer "claude_emit_sse_event S" "claude_frames S" for S
  by unfold_locales
    (simp add: claude_emit_sse_event_def claude_frames_def format_sse_def render_def split: prod.splits)

text \<open>This emitter accepts every event, whatever its index.\<close>

interpretation claude_accepts: accepting_emitter "claude_emit_sse_event S" Claude "\<lambda>_. UNIV" for S
  by unfold_locales (simp add: claude_writer.emit_frames)

end
