(* ===== verification/Claude_Stream_Props.thy ===== *)
theory Claude_Stream_Props
  imports Claude_Stream
begin

text \<open>
  What the Claude adapter promises on whole streams: one end per upstream stream, the content that
  reaches the client, and the framing of content blocks.
\<close>

declare frames_all.simps(2) [simp del]
declare frames_all_Cons [simp]

section \<open>One end per stream\<close>

definition is_done :: "CanonicalStreamEvent \<Rightarrow> bool" where
  "is_done ev \<longleftrightarrow> (case ev of Done r u \<Rightarrow> True | _ \<Rightarrow> False)"

lemma is_done_simps [simp]:
  "is_done (Done r u)" "\<not> is_done (Start i m)" "\<not> is_done (TextDelta t)"
  "\<not> is_done (ToolCallStart n i nm s)" "\<not> is_done (ToolCallDelta n a)" "\<not> is_done (ThinkingDelta t)"
  "\<not> is_done (ThinkingSignature f d)" "\<not> is_done (SealedThinking f raw)"
  by (simp_all add: is_done_def)

definition claude_end_event :: "SseEvent \<Rightarrow> bool" where
  "claude_end_event e \<longleftrightarrow> sse_event e = Some ''message_delta'' \<or> sse_event e = Some ''message_stop''"

lemmas claude_parse_defs = claude_parse_sse_event_def claude_parse_message_start_def
  claude_parse_content_block_start_def claude_parse_content_block_delta_def
  claude_parse_message_delta_def claude_parse_message_stop_def next_tool_call_index_def

lemma claude_parse_body:
  assumes "\<not> claude_end_event e" "claude_parse_sse_event S C E e st = Inr (evs, st')" "phase st \<noteq> PhaseDone"
  shows "list_all (\<lambda>ev. \<not> is_done ev) evs \<and> phase st' \<noteq> PhaseDone"
  using assms
  by (auto simp: claude_end_event_def claude_parse_defs Let_def
      split: option.splits if_splits sum.splits ClaudeStreamContentBlock.splits ClaudeStreamDelta.splits)

lemma claude_parse_all_body:
  assumes "list_all (\<lambda>e. \<not> claude_end_event e) es"
    and "parse_all (claude_parse_sse_event S C) E es st = Inr (evs, st')" "phase st \<noteq> PhaseDone"
  shows "list_all (\<lambda>ev. \<not> is_done ev) evs \<and> phase st' \<noteq> PhaseDone"
  using assms
proof (induction es arbitrary: E st evs)
  case (Cons e es)
  from Cons.prems obtain evs1 st1 evs2 where step:
      "claude_parse_sse_event S C (E 0) e st = Inr (evs1, st1)"
      "parse_all (claude_parse_sse_event S C) (E \<circ> Suc) es st1 = Inr (evs2, st')" "evs = evs1 @ evs2"
    by auto
  have "list_all (\<lambda>ev. \<not> is_done ev) evs1" "phase st1 \<noteq> PhaseDone"
    using claude_parse_body [OF _ step(1)] Cons.prems by auto
  with Cons.IH [OF _ step(2)] Cons.prems step(3) show ?case by auto
qed simp



section \<open>Content\<close>

text \<open>What a client sees in a frame, and what the canonical event says, without block numbers.\<close>

datatype seen = SeenText string | SeenThinking string | SeenCall string string | SeenArgs string

definition claude_seen :: "frame \<Rightarrow> seen option" where
  "claude_seen fr =
     (if fst fr = ''content_block_delta'' then
        Option.bind (jget (snd fr) ''delta'') (\<lambda>d.
          case jget_str d ''type'' of
            Some t \<Rightarrow>
              if t = ''text_delta'' then map_option SeenText (jget_str d ''text'')
              else if t = ''thinking_delta'' then map_option SeenThinking (jget_str d ''thinking'')
              else if t = ''input_json_delta'' then map_option SeenArgs (jget_str d ''partial_json'')
              else None
          | None \<Rightarrow> None)
      else if fst fr = ''content_block_start'' then
        Option.bind (jget (snd fr) ''content_block'') (\<lambda>b.
          if jget_str b ''type'' = Some ''tool_use''
          then Option.bind (jget_str b ''id'') (\<lambda>i. map_option (SeenCall i) (jget_str b ''name''))
          else None)
      else None)"

definition event_content :: "CanonicalStreamEvent \<Rightarrow> seen option" where
  "event_content ev =
     (case ev of
        TextDelta t \<Rightarrow> Some (SeenText t)
      | ThinkingDelta t \<Rightarrow> Some (SeenThinking t)
      | ToolCallStart n i nm s \<Rightarrow> Some (SeenCall i nm)
      | ToolCallDelta n a \<Rightarrow> Some (SeenArgs a)
      | _ \<Rightarrow> None)"

lemma claude_seen_frames:
  "claude_seen (claude_block_delta n d) =
     (case jget_str d ''type'' of
        Some t \<Rightarrow>
          if t = ''text_delta'' then map_option SeenText (jget_str d ''text'')
          else if t = ''thinking_delta'' then map_option SeenThinking (jget_str d ''thinking'')
          else if t = ''input_json_delta'' then map_option SeenArgs (jget_str d ''partial_json'')
          else None
      | None \<Rightarrow> None)"
  "claude_seen (claude_block_start n b) =
     (if jget_str b ''type'' = Some ''tool_use''
      then Option.bind (jget_str b ''id'') (\<lambda>i. map_option (SeenCall i) (jget_str b ''name'')) else None)"
  by (simp_all add: claude_seen_def claude_block_delta_def claude_block_start_def)

lemma claude_emit_seen:
  "List.map_filter claude_seen (fst (claude_emit_frames E ev st)) =
     (case event_content ev of Some c \<Rightarrow> [c] | None \<Rightarrow> [])"
  by (cases ev)
    (auto simp: claude_emit_defs event_content_def claude_seen_frames get_str_def Let_def
      claude_seen_def [of "(''message_start'', _)"] claude_seen_def [of "(''message_delta'', _)"]
      claude_seen_def [of "(''message_stop'', _)"] split: if_splits)

text \<open>Every text, thinking and argument fragment and every tool call of a canonical stream reaches
  the Claude client, once and in order.\<close>

lemma claude_emit_content:
  "List.map_filter claude_seen (fst (frames_all claude_emit_frames E evs st)) =
     List.map_filter event_content evs"
proof (induction evs arbitrary: E st)
  case (Cons ev evs)
  then show ?case
    using claude_emit_seen [of "E 0" ev st] by (auto split: option.splits)
qed simp

section \<open>Block framing\<close>

text \<open>
  A client's check of the content blocks: block starts count up from 0, and a delta names the block that
  was started last and has that block's kind.
\<close>

definition delta_fits :: "string \<Rightarrow> string \<Rightarrow> bool" where
  "delta_fits block delta \<longleftrightarrow>
     block = ''text'' \<and> delta = ''text_delta'' \<or> block = ''thinking'' \<and> delta = ''thinking_delta'' \<or>
     block = ''tool_use'' \<and> delta = ''input_json_delta''"

definition frame_index :: "frame \<Rightarrow> nat option" where
  "frame_index fr = map_option unat (Option.bind (jget (snd fr) ''index'') as_u64)"

definition frame_kind :: "string \<Rightarrow> frame \<Rightarrow> string" where
  "frame_kind k fr = unwrap_or [] (Option.bind (jget (snd fr) k) (\<lambda>b. jget_str b ''type''))"

fun blocks_ok :: "(nat \<times> string) option \<Rightarrow> frame list \<Rightarrow> bool" where
  "blocks_ok cur [] \<longleftrightarrow> True"
| "blocks_ok cur (fr # frs) \<longleftrightarrow>
     (if fst fr = ''content_block_start'' then
        (let n = (case cur of None \<Rightarrow> 0 | Some (i, k) \<Rightarrow> Suc i)
         in frame_index fr = Some n \<and> blocks_ok (Some (n, frame_kind ''content_block'' fr)) frs)
      else if fst fr = ''content_block_delta'' then
        (case cur of
           None \<Rightarrow> False
         | Some (i, k) \<Rightarrow> frame_index fr = Some i \<and> delta_fits k (frame_kind ''delta'' fr) \<and> blocks_ok cur frs)
      else blocks_ok cur frs)"

lemma unat_ucast_u64 [simp]: "unat (ucast (n :: u32) :: u64) = unat n"
proof -
  have "unat n < 2 ^ 32" using unsigned_less [of n] by simp
  then show ?thesis by (simp add: unsigned_ucast_eq take_bit_nat_eq_self)
qed

lemma blocks_ok_frames [simp]:
  "blocks_ok cur (claude_block_start n b # frs) \<longleftrightarrow>
     unat n = (case cur of None \<Rightarrow> 0 | Some (i, k) \<Rightarrow> Suc i) \<and>
     blocks_ok (Some (unat n, unwrap_or [] (jget_str b ''type''))) frs"
  "blocks_ok cur (claude_block_delta n d # frs) \<longleftrightarrow>
     (\<exists>k. cur = Some (unat n, k) \<and> delta_fits k (unwrap_or [] (jget_str d ''type'')) \<and> blocks_ok cur frs)"
  by (auto simp: claude_block_start_def claude_block_delta_def frame_index_def frame_kind_def Let_def
      split: option.splits)

lemma blocks_ok_other [simp]:
  "blocks_ok cur ((''message_start'', d) # frs) = blocks_ok cur frs"
  "blocks_ok cur ((''message_delta'', d) # frs) = blocks_ok cur frs"
  "blocks_ok cur ((''message_stop'', d) # frs) = blocks_ok cur frs"
  by simp_all

declare blocks_ok.simps(2) [simp del]

definition is_text_ev :: "CanonicalStreamEvent \<Rightarrow> bool" where
  "is_text_ev ev \<longleftrightarrow> (case ev of TextDelta t \<Rightarrow> True | _ \<Rightarrow> False)"

definition is_thinking_ev :: "CanonicalStreamEvent \<Rightarrow> bool" where
  "is_thinking_ev ev \<longleftrightarrow> (case ev of ThinkingDelta t \<Rightarrow> True | _ \<Rightarrow> False)"

definition is_tool_ev :: "CanonicalStreamEvent \<Rightarrow> bool" where
  "is_tool_ev ev \<longleftrightarrow> (case ev of ToolCallStart n i nm s \<Rightarrow> True | ToolCallDelta n a \<Rightarrow> True | _ \<Rightarrow> False)"

lemmas ev_kind_defs = is_text_ev_def is_thinking_ev_def is_tool_ev_def

definition content_ev :: "CanonicalStreamEvent \<Rightarrow> bool" where
  "content_ev ev \<longleftrightarrow> event_content ev \<noteq> None"

lemma claude_done_blocks:
  "blocks_ok cur (fst (frames_all claude_emit_frames E [Done r u] st))"
  by (simp add: claude_emit_defs Let_def)

lemma claude_content_blocks:
  assumes "list_all content_ev body" and "phase st = PhaseContent" "block_index st = 0"
    and "k = ''text'' \<and> P = is_text_ev \<or> k = ''thinking'' \<and> P = is_thinking_ev"
  shows "blocks_ok (Some (0, k)) (fst (frames_all claude_emit_frames E (body @ [Done r u]) st)) \<longleftrightarrow>
    list_all P body"
  using assms(1-3)
proof (induction body arbitrary: E)
  case Nil
  then show ?case using claude_done_blocks by simp
next
  case (Cons ev body)
  then show ?case
    using assms(4)
    by (cases ev)
      (auto simp: claude_emit_defs Let_def content_ev_def event_content_def delta_fits_def get_str_def
        ev_kind_defs)
qed

lemma claude_tool_blocks:
  assumes "list_all content_ev body" and "phase st = PhaseToolCalls" "unat (block_index st) = Suc k"
    and "Suc k + length body < 2 ^ 32"
  shows "blocks_ok (Some (k, ''tool_use'')) (fst (frames_all claude_emit_frames E (body @ [Done r u]) st)) \<longleftrightarrow>
    list_all is_tool_ev body"
  using assms
proof (induction body arbitrary: E st k)
  case Nil
  then show ?case using claude_done_blocks by simp
next
  case (Cons ev body)
  have idx: "unat (block_index st + 1) = Suc (Suc k)"
    using Cons.prems(3,4) by (simp add: unat_word_ariths(1))
  moreover have "unat (saturating_sub (block_index st) 1) = k"
    using Cons.prems(3) by (simp add: saturating_sub_unat)
  ultimately show ?case
    using Cons
    by (cases ev)
      (auto simp: claude_emit_defs Let_def content_ev_def event_content_def delta_fits_def get_str_def
        ev_kind_defs)
qed

text \<open>The blocks of a Claude stream are framed as a client expects exactly when the reply is all
  text, all thinking, or all tool calls.  As soon as it mixes them, a delta goes to a block of another kind
  or a tool call reuses the index of the text block before it.\<close>

lemma claude_stream_blocks:
  assumes "list_all content_ev body" and "length body + 1 < 2 ^ 32"
    and "body \<noteq> [] \<Longrightarrow> (\<forall>n a. hd body \<noteq> ToolCallDelta n a)"
  shows "blocks_ok None (fst (frames_all claude_emit_frames E (Start i m # body @ [Done r u]) st)) \<longleftrightarrow>
    list_all is_text_ev body \<or> list_all is_thinking_ev body \<or> list_all is_tool_ev body"
proof (cases body)
  case Nil
  then show ?thesis
    using claude_done_blocks by (simp add: claude_emit_defs Let_def)
next
  case (Cons ev rest)
  have "ev = TextDelta t \<Longrightarrow> ?thesis" for t
    using assms(1) Cons
    by (simp add: claude_emit_defs Let_def claude_content_blocks [where P = is_text_ev] delta_fits_def
        get_str_def ev_kind_defs)
  moreover have "ev = ThinkingDelta t \<Longrightarrow> ?thesis" for t
    using assms(1) Cons
    by (simp add: claude_emit_defs Let_def claude_content_blocks [where P = is_thinking_ev] delta_fits_def
        get_str_def ev_kind_defs)
  moreover have "ev = ToolCallStart n c nm s \<Longrightarrow> ?thesis" for n c nm s
    using assms(1,2) Cons
    by (simp add: claude_emit_defs Let_def claude_tool_blocks delta_fits_def
        get_str_def ev_kind_defs)
  ultimately show ?thesis
    using assms(1,3) Cons by (cases ev) (auto simp: content_ev_def event_content_def)
qed

lemma claude_stream_blocks_witness:
  "\<not> blocks_ok None (fst (frames_all claude_emit_frames (\<lambda>n. \<lparr>env_now = 0, env_uuid = (\<lambda>k. [])\<rparr>)
     (Start ''msg_1'' ''m'' # [TextDelta ''hi'', ToolCallStart 0 ''t1'' ''f'' None] @ [Done ToolUse None])
     stream_state_new))"
  by (subst claude_stream_blocks) (simp_all add: content_ev_def event_content_def ev_kind_defs)

text \<open>No event the adapter writes is a \<open>content_block_stop\<close>, so no block of a Claude stream is ever
  closed.\<close>

lemma claude_never_closes_blocks:
  "''content_block_stop'' \<notin> fst ` set (fst (frames_all claude_emit_frames E evs st))"
proof (induction evs arbitrary: E st)
  case (Cons ev evs)
  have "''content_block_stop'' \<notin> fst ` set (fst (claude_emit_frames (E 0) ev st))"
    by (cases ev) (auto simp: claude_emit_defs claude_block_start_def claude_block_delta_def Let_def)
  with Cons show ?case by auto
qed simp

end
