(* ===== verification/Claude_Roundtrip.thy ===== *)
theory Claude_Roundtrip
  imports Claude_Build
begin

text \<open>
  \<open>read\<close> after \<open>build\<close> for Claude: which requests and replies of the hub are carried by the Claude
  wire without loss, and what the builder guarantees of every request it writes.
\<close>

section \<open>Parts\<close>

text \<open>The parts Claude's wire can say: no foreign signatures or seals, no empty tool results.\<close>

fun claude_part_ok :: "IrPart \<Rightarrow> bool" where
  "claude_part_ok (Text t s) \<longleftrightarrow> s = None"
| "claude_part_ok (Image url mt data detail) \<longleftrightarrow> detail = None \<and>
     (case data of None \<Rightarrow> mt = [] | Some d \<Rightarrow> url = ''data:'' @ mt @ '';base64,'' @ d)"
| "claude_part_ok (ToolCall i n a s) \<longleftrightarrow> s = None"
| "claude_part_ok (ToolResult c e ps) \<longleftrightarrow> ps \<noteq> [] \<and> list_all claude_part_ok ps"
| "claude_part_ok (Thinking t s) \<longleftrightarrow> (case s of None \<Rightarrow> True | Some sg \<Rightarrow> sig_by sg = Claude)"
| "claude_part_ok (Sealed b raw) \<longleftrightarrow> b = Claude \<and>
     (case raw of JObject m \<Rightarrow> get_str m ''type'' = Some ''redacted_thinking'' | _ \<Rightarrow> False)"

lemma claude_read_image_built:
  "claude_part_ok (Image url mt data detail) \<Longrightarrow>
     \<exists>m. claude_build_part (Image url mt data detail) = Some (JObject m) \<and>
       get_str m ''type'' = Some ''image'' \<and>
       claude_read_image m = Some (Image url mt data detail)"
  by (cases data)
    (auto simp: claude_read_image_def image_block_to_url_def get_str_def claude_text_field_def)

lemma claude_read_blocks_built:
  assumes "\<And>p. p \<in> set ps \<Longrightarrow> \<exists>v. claude_build_part p = Some v \<and> claude_read_block v = Some p"
    and "list_all claude_part_ok ps" and "ps \<noteq> []"
  shows "claude_read_parts (claude_text_or_blocks ps e) = ps"
proof (cases "\<exists>t s. ps = [Text t s]")
  case True
  with assms(2) show ?thesis by auto
next
  case False
  then have "claude_text_or_blocks ps e = JArray (List.map_filter claude_build_part ps)"
    using assms(3) by (intro claude_text_or_blocks_array) auto
  then show ?thesis
    using map_filter_inverse [OF assms(1)] by simp
qed

lemma claude_read_block_built:
  "claude_part_ok p \<Longrightarrow> \<exists>v. claude_build_part p = Some v \<and> claude_read_block v = Some p"
proof (induction p)
  case (Image url mt data detail)
  from claude_read_image_built [OF Image] show ?case by fastforce
next
  case (ToolResult c e ps)
  then have "claude_read_parts (claude_text_or_blocks ps (JString [])) = ps"
    by (intro claude_read_blocks_built) (auto simp: list_all_iff)
  then show ?case
    by (simp add: get_str_def claude_take_string_def)
next
  case (Thinking t s)
  then show ?case
    by (cases s) (auto simp: get_str_def claude_take_string_def)
next
  case (Sealed b raw)
  then show ?case
    by (cases raw) auto
qed (auto simp: get_str_def claude_take_string_def claude_text_block_def)

lemma claude_read_parts_built:
  "list_all claude_part_ok ps \<Longrightarrow> ps \<noteq> [] \<Longrightarrow> claude_read_parts (claude_text_or_blocks ps e) = ps"
  by (rule claude_read_blocks_built) (auto simp: list_all_iff intro: claude_read_block_built)

section \<open>Requests\<close>

definition claude_message_ok :: "IrMessage \<Rightarrow> bool" where
  "claude_message_ok m \<longleftrightarrow> im_parts m \<noteq> [] \<and> list_all claude_part_ok (im_parts m)"

definition claude_normal :: "IrRequest \<Rightarrow> bool" where
  "claude_normal ir \<longleftrightarrow>
     list_all (\<lambda>p. \<exists>t. p = Text t None) (ir_system ir) \<and>
     distinct_adj (map im_role (ir_messages ir)) \<and>
     list_all claude_message_ok (ir_messages ir) \<and>
     list_all (\<lambda>t. it_strict t = None) (ir_tools ir) \<and>
     sa_max_tokens (ir_sampling ir) \<noteq> None \<and>
     (case sa_temperature (ir_sampling ir) of None \<Rightarrow> True | Some t \<Rightarrow> 0 \<le> t \<and> t \<le> 1) \<and>
     (case ir_reasoning ir of
        Budget b \<Rightarrow> True
      | ReasoningOff \<Rightarrow> \<not> list_ex (\<lambda>m. list_ex is_thinking (im_parts m)) (ir_messages ir)
      | Effort e \<Rightarrow> False) \<and>
     (ir_extra ir = [] \<or> (\<exists>v. ir_extra ir = [(Claude, ''metadata'', v)]))"

lemma claude_read_system_built:
  "list_all (\<lambda>p. \<exists>t. p = Text t None) ps \<Longrightarrow> claude_read_system (claude_build_system ps) = ps"
proof -
  assume ok: "list_all (\<lambda>p. \<exists>t. p = Text t None) ps"
  then have "\<exists>ts. ps = map (\<lambda>t. Text t None) ts"
    by (induction ps) (auto intro: exI [of _ "_ # _"])
  then obtain ts where ps: "ps = map (\<lambda>t. Text t None) ts" ..
  have texts: "List.map_filter part_text_opt ps = ts"
    unfolding ps by (induction ts) auto
  have "List.map_filter claude_read_system_item (map claude_text_block ts) = ps"
    unfolding ps by (induction ts) (auto simp: claude_read_system_item_def claude_text_block_def)
  then show ?thesis
    unfolding claude_build_system_def texts Let_def
    by (cases ts rule: remdups_adj.cases) (simp_all add: claude_read_system_def ps)
qed

lemma claude_read_messages_built:
  assumes "list_all claude_message_ok ms"
  shows "List.map_filter claude_read_message (map claude_build_message ms) = ms"
proof -
  have "claude_read_message (claude_build_message m) = Some m" if "m \<in> set ms" for m
  proof -
    have "claude_read_parts (claude_text_or_blocks (im_parts m) e) = im_parts m" for e
      using assms that by (auto simp: list_all_iff claude_message_ok_def intro!: claude_read_parts_built)
    then show ?thesis
      by (cases "im_role m") (auto simp: claude_read_message_def claude_build_message_def)
  qed
  then show ?thesis by (simp add: map_filter_map map_filter_Some [of _ _ "\<lambda>x. x"])
qed

lemma claude_read_tools_built:
  "list_all (\<lambda>t. it_strict t = None) ts \<Longrightarrow>
     claude_read_tools (then_some (ts \<noteq> [])
       (map (\<lambda>tool. \<lparr>ct_name = it_name tool,
                      ct_description = then_some (it_description tool \<noteq> []) (it_description tool),
                      ct_input_schema = it_schema tool\<rparr>) ts)) = ts"
  by (cases "ts = []") (auto simp: claude_read_tools_def then_some_def list_all_iff intro!: map_idI)

lemma claude_read_tool_choice_built:
  "claude_read_tool_choice (claude_build_tool_choice c) = c"
  by (auto simp: claude_read_tool_choice_def claude_build_tool_choice_def get_str_def
      option.map_comp comp_def intro!: option.map_ident_strong split: IrToolChoice.splits)

text \<open>C3: \<open>read(build(ir)) = ir\<close> for every request of the hub in Claude normal form: alternating
  non-empty turns of parts the Claude wire has (text, images, tool calls, tool results nested to any
  depth, Claude-signed thinking, Claude-sealed blocks), a stated \<open>max_tokens\<close>, a temperature in range
  and no other vendor's fields.\<close>

theorem claude_request_roundtrip:
  assumes "claude_normal ir"
  shows "claude_read (claude_build ir) = ir"
proof -
  note n = assms [unfolded claude_normal_def]
  obtain mt where mt: "sa_max_tokens (ir_sampling ir) = Some mt"
    using n by auto
  have temp: "map_option (clamp_f32 0 CLAUDE_TEMPERATURE_MAX) (sa_temperature (ir_sampling ir)) =
      sa_temperature (ir_sampling ir)"
    using n by (auto simp: clamp_f32_def CLAUDE_TEMPERATURE_MAX_def split: option.splits)
  have msgs: "List.map_filter claude_read_message
      (map claude_build_message (claude_merge_same_role (ir_messages ir))) = ir_messages ir"
    using n by (simp add: merge_alternating claude_read_messages_built)
  have meta: "extra_put_opt Claude ''metadata'' (map_of (fst (extra_take Claude (ir_extra ir))) ''metadata'') []
      = ir_extra ir"
    using n by (auto simp: extra_put_opt_def extra_take_def extra_takes_def PASSLIST_def)
  have think: "(case claude_build_thinking (ir_reasoning ir) mt (ir_messages ir) of
        Some cfg \<Rightarrow> if tk_type cfg = ''enabled'' then Budget (tk_budget_tokens cfg) else ReasoningOff
      | None \<Rightarrow> ReasoningOff) = ir_reasoning ir"
    using n by (auto simp: claude_build_thinking_def split: Reasoning.splits)
  show ?thesis
    unfolding claude_read_def claude_build_def Let_def
    using n mt msgs meta think temp
    by (simp add: claude_read_system_built claude_read_tools_built claude_read_tool_choice_built)
qed

theorem claude_request_roundtrip_witness:
  "claude_read (claude_build
     \<lparr>ir_model = ''m'', ir_system = [Text ''be brief'' None],
      ir_messages =
        [\<lparr>im_role = User, im_parts = [Text ''hi'' None]\<rparr>,
         \<lparr>im_role = Assistant, im_parts = [Thinking ''hm'' (Some \<lparr>sig_by = Claude, sig_value = ''s''\<rparr>),
            ToolCall ''t1'' ''f'' (jobj []) None]\<rparr>,
         \<lparr>im_role = User, im_parts = [ToolResult ''t1'' False [Text ''ok'' None]]\<rparr>],
      ir_tools = [], ir_tool_choice = None,
      ir_sampling = \<lparr>sa_max_tokens = Some 100, sa_temperature = Some (1 / 2), sa_top_p = None,
        sa_top_k = None, sa_stop = []\<rparr>,
      ir_stream = True, ir_reasoning = Budget 50, ir_extra = []\<rparr>) =
   \<lparr>ir_model = ''m'', ir_system = [Text ''be brief'' None],
      ir_messages =
        [\<lparr>im_role = User, im_parts = [Text ''hi'' None]\<rparr>,
         \<lparr>im_role = Assistant, im_parts = [Thinking ''hm'' (Some \<lparr>sig_by = Claude, sig_value = ''s''\<rparr>),
            ToolCall ''t1'' ''f'' (jobj []) None]\<rparr>,
         \<lparr>im_role = User, im_parts = [ToolResult ''t1'' False [Text ''ok'' None]]\<rparr>],
      ir_tools = [], ir_tool_choice = None,
      ir_sampling = \<lparr>sa_max_tokens = Some 100, sa_temperature = Some (1 / 2), sa_top_p = None,
        sa_top_k = None, sa_stop = []\<rparr>,
      ir_stream = True, ir_reasoning = Budget 50, ir_extra = []\<rparr>"
  by (rule claude_request_roundtrip)
    (simp add: claude_normal_def claude_message_ok_def)

section \<open>What every built request satisfies\<close>

lemma claude_built_roles:
  "map cm_role (cq_messages (claude_build ir)) =
     map (\<lambda>r. case r of User \<Rightarrow> ''user'' | Assistant \<Rightarrow> ''assistant'')
       (map im_role (claude_merge_same_role (ir_messages ir)))"
  by (simp add: claude_build_def Let_def claude_build_message_def)

lemma claude_built_roles_alternate: "distinct_adj (map cm_role (cq_messages (claude_build ir)))"
proof -
  have "inj (\<lambda>r. case r of User \<Rightarrow> ''user'' | Assistant \<Rightarrow> ''assistant'')"
    by (auto simp: inj_def split: Role.splits)
  then show ?thesis
    unfolding claude_built_roles using merge_same_role_alt
    by (subst distinct_adj_map_iff) (auto intro: inj_on_subset)
qed

lemma claude_built_thinking:
  "list_ex (\<lambda>m. list_ex is_thinking (im_parts m)) (ir_messages ir) \<Longrightarrow>
     \<exists>n. cq_thinking (claude_build ir) = Some \<lparr>tk_type = ''enabled'', tk_budget_tokens = n\<rparr>"
  by (auto simp: claude_build_def Let_def claude_build_thinking_def
      reasoning_effort_to_thinking_def split: Reasoning.splits)

text \<open>Whatever the hub request is, the Claude request written for it obeys the dialect's
  constraints: \<open>max_tokens\<close> is the client's or 4096, the temperature lies in \<open>[0, 1]\<close>, roles alternate
  strictly and are only \<open>user\<close> and \<open>assistant\<close>, and a history that carries thinking has thinking
  enabled.\<close>

lemma claude_build_dialect:
  "cq_max_tokens (claude_build ir) = unwrap_or 4096 (sa_max_tokens (ir_sampling ir)) \<and>
   pred_option (\<lambda>t. 0 \<le> t \<and> t \<le> 1) (cq_temperature (claude_build ir)) \<and>
   distinct_adj (map cm_role (cq_messages (claude_build ir))) \<and>
   set (map cm_role (cq_messages (claude_build ir))) \<subseteq> {''user'', ''assistant''} \<and>
   (list_ex (\<lambda>m. list_ex is_thinking (im_parts m)) (ir_messages ir) \<longrightarrow>
     (\<exists>n. cq_thinking (claude_build ir) = Some \<lparr>tk_type = ''enabled'', tk_budget_tokens = n\<rparr>))"
proof (intro conjI impI)
  show "cq_max_tokens (claude_build ir) = unwrap_or 4096 (sa_max_tokens (ir_sampling ir))"
    by (simp add: claude_build_def Let_def DEFAULT_MAX_TOKENS_def)
  show "pred_option (\<lambda>t. 0 \<le> t \<and> t \<le> 1) (cq_temperature (claude_build ir))"
    by (cases "sa_temperature (ir_sampling ir)")
      (auto simp: claude_build_def Let_def clamp_f32_def CLAUDE_TEMPERATURE_MAX_def)
  show "set (map cm_role (cq_messages (claude_build ir))) \<subseteq> {''user'', ''assistant''}"
    unfolding claude_built_roles by (auto split: Role.splits)
qed (auto intro: claude_built_roles_alternate dest: claude_built_thinking)

lemma claude_build_dialect_witness:
  "\<exists>n. cq_thinking (claude_build
     \<lparr>ir_model = ''m'', ir_system = [],
      ir_messages = [\<lparr>im_role = Assistant, im_parts = [Thinking ''hm'' None]\<rparr>],
      ir_tools = [], ir_tool_choice = None,
      ir_sampling = \<lparr>sa_max_tokens = None, sa_temperature = Some 2, sa_top_p = None,
        sa_top_k = None, sa_stop = []\<rparr>,
      ir_stream = False, ir_reasoning = ReasoningOff, ir_extra = []\<rparr>) =
     Some \<lparr>tk_type = ''enabled'', tk_budget_tokens = n\<rparr>"
  by (rule claude_build_dialect [THEN conjunct2, THEN conjunct2, THEN conjunct2, THEN conjunct2,
        THEN mp]) (simp add: is_thinking_def)

section \<open>Replies\<close>

definition claude_reply_part_ok :: "IrPart \<Rightarrow> bool" where
  "claude_reply_part_ok p \<longleftrightarrow>
     (case p of
        Text t s \<Rightarrow> t \<noteq> [] \<and> s = None
      | Thinking t s \<Rightarrow> t \<noteq> [] \<and> pred_option (\<lambda>sg. sig_by sg = Claude) s
      | ToolCall i n a s \<Rightarrow> s = None
      | _ \<Rightarrow> False)"

lemma claude_reply_part_built:
  "claude_reply_part_ok p \<Longrightarrow>
     \<exists>b. claude_build_response_block p = Some b \<and> claude_read_response_block b = p"
  by (cases p; cases "think_signature p")
    (auto simp: claude_reply_part_ok_def claude_build_response_block_def claude_read_response_block_def
      split: option.splits)

lemma claude_reply_parts_built:
  "list_all claude_reply_part_ok ps \<Longrightarrow>
     map claude_read_response_block (List.map_filter claude_build_response_block ps) = ps"
  by (induction ps) (auto dest!: claude_reply_part_built)

text \<open>\<open>read_response(build_response(r)) = r\<close> for a reply that already has a Claude id, non-empty
  text and thinking blocks (signed by Claude or not at all), tool calls, token counts without the
  one-hour cache split, and any stop reason but a content filter.\<close>

lemma claude_reply_roundtrip:
  assumes "re_id ir = Some (''msg_'' @ b)"
    and "list_all claude_reply_part_ok (re_parts ir)"
    and "re_stop_reason ir \<noteq> ContentFilter"
    and "us_cache_write_1h (re_usage ir) = None" "us_reasoning_tokens (re_usage ir) = None"
  shows "claude_read_response (claude_build_response uuid ir) = ir"
proof -
  have "norm_stop Claude (re_stop_reason ir) = re_stop_reason ir"
    using assms(3) by (cases "re_stop_reason ir") auto
  then show ?thesis
    using assms claude_id.norm_prefixed [OF claude_id.own_prefix, of uuid b]
    by (simp add: claude_read_response_def claude_build_response_def claude_reply_parts_built)
qed

lemma claude_reply_roundtrip_witness:
  "claude_read_response (claude_build_response ''u''
     \<lparr>re_id = Some (''msg_'' @ ''1''), re_model = ''m'',
      re_parts = [Thinking ''hm'' (Some \<lparr>sig_by = Claude, sig_value = ''s''\<rparr>), Text ''hi'' None],
      re_stop_reason = StopSequence, re_stop_sequence = Some ''x'', re_usage = usage_default\<rparr>) =
   \<lparr>re_id = Some (''msg_'' @ ''1''), re_model = ''m'',
      re_parts = [Thinking ''hm'' (Some \<lparr>sig_by = Claude, sig_value = ''s''\<rparr>), Text ''hi'' None],
      re_stop_reason = StopSequence, re_stop_sequence = Some ''x'', re_usage = usage_default\<rparr>"
  by (rule claude_reply_roundtrip [where b = "''1''"])
    (simp_all add: claude_reply_part_ok_def usage_default_def)

end
