(* ===== verification/Chat_Wire.thy ===== *)
theory Chat_Wire
  imports Stream_Adapter
begin

text \<open>
  The wire structs of the OpenAI Chat Completions API:
  \<open>crates/core/src/formats/openai_chat/types.rs\<close>, and \<open>message_content_as_text\<close> of
  \<open>converters/shared.rs\<close>, which reads one of them.  What \<open>serde\<close> derives for the structs is the
  parameter record \<open>chat_serde\<close>.
\<close>

record ReasoningConfig =
  rc_effort :: string

record StreamOptions =
  so_include_usage :: "bool option"

datatype StopValue = Single string | Multiple "string list"

record ImageUrlDetail =
  iu_url :: string
  iu_detail :: "string option"

datatype ContentPart = CP_Text string | CP_ImageUrl ImageUrlDetail

datatype MessageContent = MC_Text string | MC_Parts "ContentPart list"

record FunctionCall =
  fc_name :: string
  fc_arguments :: string

record ChatToolCall =
  ctc_id :: string
  ctc_type :: string
  ctc_function :: FunctionCall

record FunctionDef =
  fd_name :: string
  fd_description :: "string option"
  fd_parameters :: "value option"
  fd_strict :: "bool option"

record OpenAIChatTool =
  ot_type :: string
  ot_function :: FunctionDef

record OpenAIChatMessage =
  om_role :: string
  om_content :: "MessageContent option"
  om_name :: "string option"
  om_tool_calls :: "ChatToolCall list option"
  om_tool_call_id :: "string option"
  om_reasoning_content :: "string option"

record OpenAIChatRequest =
  oq_model :: string
  oq_messages :: "OpenAIChatMessage list"
  oq_temperature :: "f32 option"
  oq_top_p :: "f32 option"
  oq_max_completion_tokens :: "u32 option"
  oq_max_tokens :: "u32 option"
  oq_stop :: "StopValue option"
  oq_seed :: "i64 option"
  oq_stream :: "bool option"
  oq_stream_options :: "StreamOptions option"
  oq_tools :: "OpenAIChatTool list option"
  oq_tool_choice :: "value option"
  oq_response_format :: "value option"
  oq_n :: "u32 option"
  oq_reasoning_effort :: "string option"
  oq_reasoning :: "ReasoningConfig option"

section \<open>Replies\<close>

record PromptTokensDetails =
  ptd_cached_tokens :: "u64 option"

record OpenAIUsage =
  ou_prompt_tokens :: u64
  ou_completion_tokens :: u64
  ou_total_tokens :: u64
  ou_prompt_tokens_details :: "PromptTokensDetails option"

record ChoiceMessage =
  chm_role :: string
  chm_content :: "string option"
  chm_tool_calls :: "ChatToolCall list option"
  chm_refusal :: "string option"
  chm_reasoning_content :: "string option"

record Choice =
  ch_index :: u32
  ch_message :: ChoiceMessage
  ch_finish_reason :: "string option"

record OpenAIChatResponse =
  op_id :: string
  op_object :: string
  op_created :: u64
  op_model :: string
  op_choices :: "Choice list"
  op_usage :: "OpenAIUsage option"
  op_system_fingerprint :: "string option"

section \<open>Stream chunks\<close>

record StreamFunctionCall =
  sfc_name :: "string option"
  sfc_arguments :: "string option"

record StreamToolCall =
  stc_index :: u32
  stc_id :: "string option"
  stc_type :: "string option"
  stc_function :: "StreamFunctionCall option"

record Delta =
  de_role :: "string option"
  de_content :: "string option"
  de_reasoning_content :: "string option"
  de_tool_calls :: "StreamToolCall list option"

record StreamChoice =
  sc_index :: u32
  sc_delta :: Delta
  sc_finish_reason :: "string option"

record OpenAIChatStreamChunk =
  ck_id :: string
  ck_object :: string
  ck_created :: u64
  ck_model :: string
  ck_choices :: "StreamChoice list"
  ck_usage :: "OpenAIUsage option"

text \<open>
  \<open>serde_json::to_value(o).ok()\<close> and \<open>from_value(v).ok()\<close> at \<open>StreamOptions\<close>;
  \<open>from_str\<close> and \<open>to_string(..).unwrap_or_default()\<close> at the stream chunk.
\<close>

record chat_serde =
  stream_options_to_value :: "StreamOptions \<Rightarrow> value option"
  stream_options_from_value :: "value \<Rightarrow> StreamOptions option"
  from_chunk :: "string \<Rightarrow> string + OpenAIChatStreamChunk"
  chunk_to_text :: "OpenAIChatStreamChunk \<Rightarrow> string"

definition message_content_as_text :: "MessageContent option \<Rightarrow> string option" where
  "message_content_as_text content =
     Option.bind content (\<lambda>c.
       (case c of
          MC_Text t \<Rightarrow> Some t
        | MC_Parts parts \<Rightarrow>
            let texts = List.map_filter
                  (\<lambda>p. case p of CP_Text text \<Rightarrow> Some text | CP_ImageUrl u \<Rightarrow> None) parts
            in if texts = [] then None else Some (join [] texts)))"

end
