(* ===== verification/Chat_Read.thy ===== *)
theory Chat_Read
  imports Chat_Wire
begin

text \<open>
  Chat Completions to IR: \<open>crates/core/src/formats/openai_chat/read.rs\<close>.  A vector pushed to through
  \<open>&mut\<close> is a list passed in and returned.
\<close>

definition chat_image_part :: "ImageUrlDetail \<Rightarrow> IrPart" where
  "chat_image_part u =
     (case Option.bind (strip_prefix ''data:'' (iu_url u)) (split_once '';base64,'') of
        Some (media_type, data) \<Rightarrow> Image [] media_type (Some data) (iu_detail u)
      | None \<Rightarrow> Image (iu_url u) [] None (iu_detail u))"

definition chat_content_part :: "ContentPart \<Rightarrow> IrPart" where
  "chat_content_part part =
     (case part of CP_Text text \<Rightarrow> Text text None | CP_ImageUrl u \<Rightarrow> chat_image_part u)"

definition chat_user_parts :: "MessageContent option \<Rightarrow> IrPart list" where
  "chat_user_parts content =
     (case content of
        None \<Rightarrow> []
      | Some (MC_Text text) \<Rightarrow> [Text text None]
      | Some (MC_Parts parts) \<Rightarrow> map chat_content_part parts)"

definition chat_read_call :: "serde \<Rightarrow> ChatToolCall \<Rightarrow> IrPart" where
  "chat_read_call S tc =
     ToolCall (ctc_id tc) (fc_name (ctc_function tc))
       (parse_arguments S (fc_arguments (ctc_function tc))) None"

definition chat_assistant_parts ::
  "serde \<Rightarrow> MessageContent option \<Rightarrow> ChatToolCall list option \<Rightarrow> string option \<Rightarrow> IrPart list" where
  "chat_assistant_parts S content tool_calls reasoning_content =
     (case opt_filter (\<lambda>t. t \<noteq> []) reasoning_content of
        Some text \<Rightarrow> [Thinking text None] | None \<Rightarrow> []) @
     (case content of
        None \<Rightarrow> []
      | Some (MC_Text text) \<Rightarrow> if text \<noteq> [] then [Text text None] else []
      | Some (MC_Parts items) \<Rightarrow>
          List.map_filter (\<lambda>p. if p = CP_Text [] then None else Some (chat_content_part p)) items) @
     map (chat_read_call S) (unwrap_or [] tool_calls)"

definition chat_tool_result_content :: "MessageContent option \<Rightarrow> IrPart list" where
  "chat_tool_result_content content =
     (case message_content_as_text content of
        Some text \<Rightarrow> if text \<noteq> [] then [Text text None] else []
      | None \<Rightarrow> [])"

definition chat_read_message ::
  "serde \<Rightarrow> OpenAIChatMessage \<Rightarrow> IrPart list \<times> IrMessage list \<Rightarrow> IrPart list \<times> IrMessage list" where
  "chat_read_message S msg acc =
     (case acc of (system, out) \<Rightarrow>
        if om_role msg = ''system'' \<or> om_role msg = ''developer'' then
          (case message_content_as_text (om_content msg) of
             Some text \<Rightarrow> (system @ [Text text None], out)
           | None \<Rightarrow> (system, out))
        else if om_role msg = ''assistant'' then
          (system, out @ [\<lparr>im_role = Assistant,
             im_parts = chat_assistant_parts S (om_content msg) (om_tool_calls msg)
               (om_reasoning_content msg)\<rparr>])
        else if om_role msg = ''tool'' then
          (system, out @ [\<lparr>im_role = User,
             im_parts = [ToolResult (unwrap_or [] (om_tool_call_id msg)) False
               (chat_tool_result_content (om_content msg))]\<rparr>])
        else
          (system, out @ [\<lparr>im_role = User, im_parts = chat_user_parts (om_content msg)\<rparr>]))"

definition chat_read_tool :: "OpenAIChatTool \<Rightarrow> IrTool" where
  "chat_read_tool tool =
     \<lparr>it_name = fd_name (ot_function tool),
      it_description = unwrap_or [] (fd_description (ot_function tool)),
      it_schema = unwrap_or (jobj [(''type'', JString ''object'')]) (fd_parameters (ot_function tool)),
      it_strict = fd_strict (ot_function tool)\<rparr>"

definition chat_read_tool_choice :: "value option \<Rightarrow> IrToolChoice option" where
  "chat_read_tool_choice choice =
     map_option (\<lambda>c.
       (case c of
          JString s \<Rightarrow>
            if s = ''none'' then ChoiceNone
            else if s = ''required'' then ChoiceRequired
            else ChoiceAuto
        | JObject m \<Rightarrow>
            (case (if get_str m ''type'' = Some ''function''
                   then Option.bind (fmlookup m ''function'') (\<lambda>f. jget_str f ''name'')
                   else None) of
               Some name \<Rightarrow> ChoiceNamed name
             | None \<Rightarrow> ChoiceAuto)
        | _ \<Rightarrow> ChoiceAuto)) choice"

definition chat_stop_values :: "StopValue \<Rightarrow> string list" where
  "chat_stop_values stop = (case stop of Single s \<Rightarrow> [s] | Multiple v \<Rightarrow> v)"

text \<open>The loop that fills \<open>extra\<close>, in the order of the array it runs over.\<close>

definition chat_read_extra ::
  "i64 option \<Rightarrow> value option \<Rightarrow> u32 option \<Rightarrow> value option \<Rightarrow> NamespacedExtra" where
  "chat_read_extra seed response_format n stream_options =
     extra_put_opt OpenAIChat ''stream_options'' stream_options
       (extra_put_opt OpenAIChat ''n'' (map_option json_u32 n)
         (extra_put_opt OpenAIChat ''response_format'' response_format
           (extra_put_opt OpenAIChat ''seed'' (map_option json_i64 seed) [])))"

definition chat_read :: "serde \<Rightarrow> chat_serde \<Rightarrow> OpenAIChatRequest \<Rightarrow> IrRequest" where
  "chat_read S C req =
     (let (system, turns) = fold (chat_read_message S) (oq_messages req) ([], [])
      in \<lparr>ir_model = oq_model req,
          ir_system = system,
          ir_messages = turns,
          ir_tools = map chat_read_tool (unwrap_or [] (oq_tools req)),
          ir_tool_choice = chat_read_tool_choice (oq_tool_choice req),
          ir_sampling = \<lparr>sa_max_tokens = or_else (oq_max_completion_tokens req) (oq_max_tokens req),
            sa_temperature = oq_temperature req, sa_top_p = oq_top_p req, sa_top_k = None,
            sa_stop = unwrap_or [] (map_option chat_stop_values (oq_stop req))\<rparr>,
          ir_stream = unwrap_or False (oq_stream req),
          ir_reasoning =
            (case or_else (oq_reasoning_effort req) (map_option rc_effort (oq_reasoning req)) of
               Some effort \<Rightarrow> Effort effort
             | None \<Rightarrow> ReasoningOff),
          ir_extra = chat_read_extra (oq_seed req) (oq_response_format req) (oq_n req)
            (Option.bind (oq_stream_options req) (stream_options_to_value C))\<rparr>)"

definition chat_read_usage :: "OpenAIUsage \<Rightarrow> Usage" where
  "chat_read_usage usage =
     \<lparr>us_input_tokens = ou_prompt_tokens usage,
      us_output_tokens = ou_completion_tokens usage,
      us_cache_read_tokens = Option.bind (ou_prompt_tokens_details usage) ptd_cached_tokens,
      us_cache_write_tokens = None,
      us_cache_write_1h = None,
      us_reasoning_tokens = None\<rparr>"

definition chat_reply_parts :: "serde \<Rightarrow> ChoiceMessage \<Rightarrow> IrPart list" where
  "chat_reply_parts S m =
     (case opt_filter (\<lambda>t. t \<noteq> []) (chm_content m) of Some text \<Rightarrow> [Text text None] | None \<Rightarrow> []) @
     (case opt_filter (\<lambda>t. t \<noteq> []) (chm_reasoning_content m) of
        Some text \<Rightarrow> [Thinking text None] | None \<Rightarrow> []) @
     map (chat_read_call S) (unwrap_or [] (chm_tool_calls m))"

definition chat_read_response :: "serde \<Rightarrow> OpenAIChatResponse \<Rightarrow> IrResponse" where
  "chat_read_response S resp =
     (let ir = \<lparr>re_id = then_some (op_id resp \<noteq> []) (op_id resp),
                re_model = op_model resp,
                re_parts = [],
                re_stop_reason = EndTurn,
                re_stop_sequence = None,
                re_usage = unwrap_or usage_default (map_option chat_read_usage (op_usage resp))\<rparr>
      in case op_choices resp of
           [] \<Rightarrow> ir
         | choice # rest \<Rightarrow>
             ir\<lparr>re_parts := chat_reply_parts S (ch_message choice),
                re_stop_reason :=
                  unwrap_or EndTurn (map_option from_openai_chat (ch_finish_reason choice))\<rparr>)"

end
