(* ===== verification/Chat_Build.thy ===== *)
theory Chat_Build
  imports Chat_Read
begin

text \<open>
  IR to Chat Completions: \<open>crates/core/src/formats/openai_chat/build.rs\<close>, and the proof that the
  builder keeps the isolation contract between vendors.
\<close>

section \<open>Operations\<close>

definition chat_message :: "string \<Rightarrow> MessageContent option \<Rightarrow> OpenAIChatMessage" where
  "chat_message role content =
     \<lparr>om_role = role, om_content = content, om_name = None, om_tool_calls = None,
      om_tool_call_id = None, om_reasoning_content = None\<rparr>"

definition is_image :: "IrPart \<Rightarrow> bool" where
  "is_image p \<longleftrightarrow> (case p of Image u mt d det \<Rightarrow> True | _ \<Rightarrow> False)"

definition chat_image_url :: "IrPart \<Rightarrow> ImageUrlDetail" where
  "chat_image_url part =
     (case part of
        Image url media_type data detail \<Rightarrow>
          \<lparr>iu_url = (case data of Some d \<Rightarrow> ''data:'' @ media_type @ '';base64,'' @ d | None \<Rightarrow> url),
           iu_detail = detail\<rparr>
      | _ \<Rightarrow> \<lparr>iu_url = [], iu_detail = None\<rparr>)"

definition chat_text_of :: "IrPart list \<Rightarrow> string" where
  "chat_text_of parts = concat (List.map_filter part_text_opt parts)"

definition chat_content_item :: "IrPart \<Rightarrow> ContentPart option" where
  "chat_content_item part =
     (case part of
        Text text s \<Rightarrow> Some (CP_Text text)
      | Image u mt d det \<Rightarrow> Some (CP_ImageUrl (chat_image_url part))
      | _ \<Rightarrow> None)"

definition chat_message_content :: "IrPart list \<Rightarrow> MessageContent option" where
  "chat_message_content parts =
     (if list_ex is_image parts
      then let items = List.map_filter chat_content_item parts
           in then_some (items \<noteq> []) (MC_Parts items)
      else let text = chat_text_of parts in then_some (text \<noteq> []) (MC_Text text))"

definition chat_result_of :: "IrPart \<Rightarrow> (string \<times> IrPart list) option" where
  "chat_result_of part = (case part of ToolResult cid e inner \<Rightarrow> Some (cid, inner) | _ \<Rightarrow> None)"

definition chat_tool_message :: "string \<times> IrPart list \<Rightarrow> OpenAIChatMessage" where
  "chat_tool_message r =
     (case r of (cid, inner) \<Rightarrow>
        let text = chat_text_of inner;
            content = then_some (text \<noteq> []) (MC_Text text)
        in (chat_message ''tool'' content)\<lparr>om_tool_call_id := Some cid\<rparr>)"

definition chat_push_user_messages ::
  "IrPart list \<Rightarrow> OpenAIChatMessage list \<Rightarrow> OpenAIChatMessage list" where
  "chat_push_user_messages parts out =
     (let content = filter (\<lambda>p. chat_result_of p = None) parts;
          results = List.map_filter chat_result_of parts;
          out1 = (case chat_message_content content of
                    Some c \<Rightarrow> out @ [chat_message ''user'' (Some c)] | None \<Rightarrow> out)
      in out1 @ map chat_tool_message results)"

definition chat_call_of :: "serde \<Rightarrow> IrPart \<Rightarrow> ChatToolCall option" where
  "chat_call_of S part =
     (case part of
        ToolCall i name args s \<Rightarrow>
          Some \<lparr>ctc_id = i, ctc_type = ''function'',
                ctc_function = \<lparr>fc_name = name, fc_arguments = to_text S args\<rparr>\<rparr>
      | _ \<Rightarrow> None)"

definition is_content :: "IrPart \<Rightarrow> bool" where
  "is_content p \<longleftrightarrow> (case p of Text t s \<Rightarrow> True | Image u mt d det \<Rightarrow> True | _ \<Rightarrow> False)"

text \<open>\<open>reasoning_content = Some(text)\<close> inside the loop: the last thinking block is the one kept.\<close>

definition chat_last_thinking :: "IrPart list \<Rightarrow> string option" where
  "chat_last_thinking parts =
     fold (\<lambda>p acc. case p of Thinking text s \<Rightarrow> Some text | _ \<Rightarrow> acc) parts None"

definition chat_assistant_message :: "serde \<Rightarrow> IrPart list \<Rightarrow> OpenAIChatMessage" where
  "chat_assistant_message S parts =
     (let content = filter is_content parts;
          tool_calls = List.map_filter (chat_call_of S) parts
      in (chat_message ''assistant'' (chat_message_content content))
           \<lparr>om_tool_calls := then_some (tool_calls \<noteq> []) tool_calls,
            om_reasoning_content := opt_filter (\<lambda>r. r \<noteq> []) (chat_last_thinking parts)\<rparr>)"

definition chat_push_message ::
  "serde \<Rightarrow> IrMessage \<Rightarrow> OpenAIChatMessage list \<Rightarrow> OpenAIChatMessage list" where
  "chat_push_message S msg out =
     (case im_role msg of
        Assistant \<Rightarrow> out @ [chat_assistant_message S (im_parts msg)]
      | User \<Rightarrow> chat_push_user_messages (im_parts msg) out)"

definition chat_tool_wire :: "IrTool \<Rightarrow> OpenAIChatTool" where
  "chat_tool_wire tool =
     \<lparr>ot_type = ''function'',
      ot_function = \<lparr>fd_name = it_name tool,
        fd_description = then_some (it_description tool \<noteq> []) (it_description tool),
        fd_parameters = Some (it_schema tool), fd_strict = it_strict tool\<rparr>\<rparr>"

definition chat_tool_choice_value :: "IrToolChoice option \<Rightarrow> value option" where
  "chat_tool_choice_value choice =
     map_option (\<lambda>c.
       (case c of
          ChoiceAuto \<Rightarrow> JString ''auto''
        | ChoiceNone \<Rightarrow> JString ''none''
        | ChoiceRequired \<Rightarrow> JString ''required''
        | ChoiceNamed name \<Rightarrow>
            jobj [(''type'', JString ''function''), (''function'', jobj [(''name'', JString name)])])) choice"

definition chat_stop_value :: "string list \<Rightarrow> StopValue option" where
  "chat_stop_value stop =
     (case stop of [] \<Rightarrow> None | [s] \<Rightarrow> Some (Single s) | _ \<Rightarrow> Some (Multiple stop))"

text \<open>The four locals the loop over \<open>extra.take(OpenAIChat)\<close> assigns, the last entry winning.\<close>

record chat_extra =
  ce_seed :: "i64 option"
  ce_stream_options :: "StreamOptions option"
  ce_response_format :: "value option"
  ce_n :: "u32 option"

definition chat_take_field :: "chat_serde \<Rightarrow> string \<times> value \<Rightarrow> chat_extra \<Rightarrow> chat_extra" where
  "chat_take_field C kv ce =
     (case kv of (name, v) \<Rightarrow>
        if name = ''seed'' then ce\<lparr>ce_seed := as_i64 v\<rparr>
        else if name = ''stream_options'' then ce\<lparr>ce_stream_options := stream_options_from_value C v\<rparr>
        else if name = ''response_format'' then ce\<lparr>ce_response_format := Some v\<rparr>
        else if name = ''n'' then ce\<lparr>ce_n := map_option ucast (as_u64 v)\<rparr>
        else ce)"

definition chat_take_extra :: "chat_serde \<Rightarrow> NamespacedExtra \<Rightarrow> chat_extra" where
  "chat_take_extra C extra =
     fold (chat_take_field C) (fst (extra_take OpenAIChat extra))
       \<lparr>ce_seed = None, ce_stream_options = None, ce_response_format = None, ce_n = None\<rparr>"

definition chat_build :: "serde \<Rightarrow> chat_serde \<Rightarrow> IrRequest \<Rightarrow> OpenAIChatRequest" where
  "chat_build S C ir =
     (let out = map (\<lambda>text. chat_message ''system'' (Some (MC_Text text)))
                  (List.map_filter part_text_opt (ir_system ir));
          ce = chat_take_extra C (ir_extra ir)
      in \<lparr>oq_model = ir_model ir,
          oq_messages = fold (chat_push_message S) (ir_messages ir) out,
          oq_temperature = sa_temperature (ir_sampling ir),
          oq_top_p = sa_top_p (ir_sampling ir),
          oq_max_completion_tokens = sa_max_tokens (ir_sampling ir),
          oq_max_tokens = None,
          oq_stop = chat_stop_value (sa_stop (ir_sampling ir)),
          oq_seed = ce_seed ce,
          oq_stream = then_some (ir_stream ir) True,
          oq_stream_options = ce_stream_options ce,
          oq_tools = then_some (ir_tools ir \<noteq> []) (map chat_tool_wire (ir_tools ir)),
          oq_tool_choice = chat_tool_choice_value (ir_tool_choice ir),
          oq_response_format = ce_response_format ce,
          oq_n = ce_n ce,
          oq_reasoning_effort =
            (case ir_reasoning ir of
               Effort effort \<Rightarrow> Some effort
             | Budget budget \<Rightarrow>
                 thinking_to_reasoning_effort \<lparr>tk_type = ''enabled'', tk_budget_tokens = budget\<rparr>
             | ReasoningOff \<Rightarrow> None),
          oq_reasoning = None\<rparr>)"

definition chat_build_response :: "serde \<Rightarrow> env \<Rightarrow> IrResponse \<Rightarrow> OpenAIChatResponse" where
  "chat_build_response S E ir =
     (let text_parts = filter (\<lambda>t. t \<noteq> []) (List.map_filter part_text_opt (re_parts ir));
          tool_calls = List.map_filter (chat_call_of S) (re_parts ir);
          content = then_some (text_parts \<noteq> []) (concat text_parts)
      in \<lparr>op_id = normalize_id_to_chat (env_uuid E 0) (unwrap_or [] (re_id ir)),
          op_object = ''chat.completion'',
          op_created = env_now E,
          op_model = re_model ir,
          op_choices = [\<lparr>ch_index = 0,
            ch_message = \<lparr>chm_role = ''assistant'', chm_content = content,
              chm_tool_calls = then_some (tool_calls \<noteq> []) tool_calls, chm_refusal = None,
              chm_reasoning_content =
                opt_filter (\<lambda>r. r \<noteq> []) (chat_last_thinking (re_parts ir))\<rparr>,
            ch_finish_reason = Some (to_openai_chat (re_stop_reason ir))\<rparr>],
          op_usage = Some \<lparr>ou_prompt_tokens = us_input_tokens (re_usage ir),
            ou_completion_tokens = us_output_tokens (re_usage ir),
            ou_total_tokens = total_tokens (re_usage ir),
            ou_prompt_tokens_details =
              map_option (\<lambda>cached. \<lparr>ptd_cached_tokens = Some cached\<rparr>)
                (us_cache_read_tokens (re_usage ir))\<rparr>,
          op_system_fingerprint = None\<rparr>)"

section \<open>Shape of the built messages\<close>

lemma part_kind_simps [simp]:
  "is_image (Text t s) = False" "is_image (Image u mt d det)" "is_image (ToolCall i n a s) = False"
  "is_image (ToolResult c e ps) = False" "is_image (Thinking t s) = False" "is_image (Sealed b r) = False"
  "is_content (Text t s)" "is_content (Image u mt d det)" "is_content (ToolCall i n a s) = False"
  "is_content (ToolResult c e ps) = False" "is_content (Thinking t s) = False"
  "is_content (Sealed b r) = False"
  "chat_result_of (Text t s) = None" "chat_result_of (Image u mt d det) = None"
  "chat_result_of (ToolCall i n a s) = None" "chat_result_of (ToolResult c e ps) = Some (c, ps)"
  "chat_result_of (Thinking t s) = None" "chat_result_of (Sealed b r) = None"
  by (simp_all add: is_image_def is_content_def chat_result_of_def)

lemma chat_call_of_simps [simp]:
  "chat_call_of S (Text t s) = None" "chat_call_of S (Image u mt d det) = None"
  "chat_call_of S (ToolCall i n a s) = Some \<lparr>ctc_id = i, ctc_type = ''function'',
     ctc_function = \<lparr>fc_name = n, fc_arguments = to_text S a\<rparr>\<rparr>"
  "chat_call_of S (ToolResult c e ps) = None" "chat_call_of S (Thinking t s) = None"
  "chat_call_of S (Sealed b r) = None"
  by (simp_all add: chat_call_of_def)

lemma chat_content_item_simps [simp]:
  "chat_content_item (Text t s) = Some (CP_Text t)"
  "chat_content_item (Image u mt d det) = Some (CP_ImageUrl (chat_image_url (Image u mt d det)))"
  "chat_content_item (ToolCall i n a s) = None" "chat_content_item (ToolResult c e ps) = None"
  "chat_content_item (Thinking t s) = None" "chat_content_item (Sealed b r) = None"
  by (simp_all add: chat_content_item_def)

text \<open>Each turn appends its own messages, so the whole list is a concatenation over the turns.\<close>

definition chat_turn :: "serde \<Rightarrow> IrMessage \<Rightarrow> OpenAIChatMessage list" where
  "chat_turn S msg = chat_push_message S msg []"

lemma chat_push_message_append: "chat_push_message S msg out = out @ chat_turn S msg"
  by (auto simp: chat_turn_def chat_push_message_def chat_push_user_messages_def Let_def
      split: Role.splits option.splits)

lemma chat_push_fold: "fold (chat_push_message S) msgs out = out @ concat (map (chat_turn S) msgs)"
  by (induction msgs arbitrary: out) (simp_all add: chat_push_message_append)

section \<open>Vendor isolation\<close>

lemma mask_kind_simps [simp]:
  "is_image (mask_part f p) = is_image p" "is_content (mask_part f p) = is_content p"
  "chat_call_of S (mask_part f p) = chat_call_of S p"
  "chat_content_item (mask_part f p) = chat_content_item p"
  "chat_result_of (mask_part f p) = map_option (apsnd (map (mask_part f))) (chat_result_of p)"
  by (cases p; simp)+

lemma chat_message_content_mask [simp]:
  "chat_message_content (map (mask_part f) ps) = chat_message_content ps"
proof -
  have "list_ex is_image (map (mask_part f) ps) = list_ex is_image ps"
    by (induction ps) simp_all
  then show ?thesis
    by (simp add: chat_message_content_def chat_text_of_def map_filter_map comp_def)
qed

lemma chat_last_thinking_mask [simp]:
  "chat_last_thinking (map (mask_part f) ps) = chat_last_thinking ps"
proof -
  have "fold (\<lambda>p acc. case p of Thinking text s \<Rightarrow> Some text | _ \<Rightarrow> acc) (map (mask_part f) ps) acc =
      fold (\<lambda>p acc. case p of Thinking text s \<Rightarrow> Some text | _ \<Rightarrow> acc) ps acc" for acc
  proof (induction ps arbitrary: acc)
    case (Cons p ps)
    then show ?case by (cases p) simp_all
  qed simp
  then show ?thesis by (simp add: chat_last_thinking_def)
qed

lemma chat_tool_message_mask [simp]:
  "chat_tool_message (apsnd (map (mask_part f)) r) = chat_tool_message r"
  by (cases r) (simp add: chat_tool_message_def chat_text_of_def)

lemma chat_results_mask:
  "map chat_tool_message
     (List.map_filter (\<lambda>p. map_option (apsnd (map (mask_part f))) (chat_result_of p)) ps) =
     map chat_tool_message (List.map_filter chat_result_of ps)"
  by (induction ps) (auto split: option.splits)

lemma chat_turn_mask [simp]: "chat_turn S (mask_message f m) = chat_turn S m"
  by (auto simp: chat_turn_def chat_push_message_def chat_push_user_messages_def Let_def
      chat_assistant_message_def filter_map comp_def map_filter_map chat_results_mask
      split: Role.splits option.splits)

interpretation chat_builder: request_builder OpenAIChat "chat_build S C" for S C
  by unfold_locales
    (simp add: chat_build_def Let_def chat_push_fold chat_take_extra_def comp_def)

end
