(* ===== verification/Chat_Roundtrip.thy ===== *)
theory Chat_Roundtrip
  imports Chat_Build
begin

text \<open>
  \<open>read\<close> undoes \<open>build\<close> for Chat Completions, on the hub requests and replies the chat wire can carry.
\<close>

section \<open>Normal form\<close>

definition chat_image_ok :: "IrPart \<Rightarrow> bool" where
  "chat_image_ok p \<longleftrightarrow>
     (case p of
        Image url mt (Some d) det \<Rightarrow> url = [] \<and> CHR '';'' \<notin> set mt
      | Image url mt None det \<Rightarrow> mt = [] \<and> \<not> starts_with ''data:'' url
      | _ \<Rightarrow> False)"

definition chat_content_ok :: "IrPart list \<Rightarrow> bool" where
  "chat_content_ok ps \<longleftrightarrow>
     list_all (\<lambda>p. case p of Text t s \<Rightarrow> t \<noteq> [] \<and> s = None | _ \<Rightarrow> chat_image_ok p) ps \<and>
     (length ps \<le> 1 \<or> list_ex is_image ps)"

definition chat_call_ok :: "serde \<Rightarrow> IrPart \<Rightarrow> bool" where
  "chat_call_ok S p \<longleftrightarrow>
     (case p of
        ToolCall i n a s \<Rightarrow> s = None \<and> parse_arguments S (to_text S a) = a
      | _ \<Rightarrow> False)"

definition chat_lead_thinking :: "IrPart list \<Rightarrow> IrPart list \<times> IrPart list" where
  "chat_lead_thinking ps =
     (case ps of Thinking t None # r \<Rightarrow> if t \<noteq> [] then ([Thinking t None], r) else ([], ps)
      | _ \<Rightarrow> ([], ps))"

definition chat_assistant_ok :: "serde \<Rightarrow> IrPart list \<Rightarrow> bool" where
  "chat_assistant_ok S ps \<longleftrightarrow>
     (let r = snd (chat_lead_thinking ps)
      in chat_content_ok (takeWhile is_content r) \<and> list_all (chat_call_ok S) (dropWhile is_content r))"

definition chat_result_ok :: "IrPart \<Rightarrow> bool" where
  "chat_result_ok p \<longleftrightarrow>
     (case p of
        ToolResult c e inner \<Rightarrow>
          \<not> e \<and> (inner = [] \<or>
            inner = [Text (part_text (hd inner)) None] \<and> part_text (hd inner) \<noteq> [])
      | _ \<Rightarrow> False)"

definition chat_user_ok :: "IrPart list \<Rightarrow> bool" where
  "chat_user_ok ps \<longleftrightarrow>
     length ps = 1 \<and> chat_result_ok (hd ps) \<or> ps \<noteq> [] \<and> chat_content_ok ps"

definition chat_turn_ok :: "serde \<Rightarrow> IrMessage \<Rightarrow> bool" where
  "chat_turn_ok S m \<longleftrightarrow>
     (case im_role m of
        User \<Rightarrow> chat_user_ok (im_parts m)
      | Assistant \<Rightarrow> chat_assistant_ok S (im_parts m))"

definition chat_extra_ok :: "chat_serde \<Rightarrow> NamespacedExtra \<Rightarrow> bool" where
  "chat_extra_ok C es \<longleftrightarrow>
     (\<exists>seed rf n so. es = chat_read_extra seed rf n so \<and>
        pred_option (\<lambda>v. Option.bind (stream_options_from_value C v) (stream_options_to_value C) = Some v) so)"

definition chat_normal :: "serde \<Rightarrow> chat_serde \<Rightarrow> IrRequest \<Rightarrow> bool" where
  "chat_normal S C ir \<longleftrightarrow>
     list_all (\<lambda>p. \<exists>t. p = Text t None) (ir_system ir) \<and>
     list_all (chat_turn_ok S) (ir_messages ir) \<and>
     sa_top_k (ir_sampling ir) = None \<and>
     (case ir_reasoning ir of Budget b \<Rightarrow> False | _ \<Rightarrow> True) \<and>
     chat_extra_ok C (ir_extra ir)"

section \<open>Parts\<close>

lemma split_once_pat:
  "c \<notin> set a \<Longrightarrow> split_once (c # p) (a @ c # p @ b) = Some (a, b)"
  by (induction a) (auto simp: starts_with_def)

lemma chat_image_built: "chat_image_ok p \<Longrightarrow> chat_image_part (chat_image_url p) = p"
proof (cases p)
  case (Image url mt d det)
  assume ok: "chat_image_ok p"
  show ?thesis
  proof (cases d)
    case None
    with ok Image have "mt = []" "strip_prefix ''data:'' url = None"
      by (simp_all add: chat_image_ok_def strip_prefix_None)
    with Image None show ?thesis by (simp add: chat_image_part_def chat_image_url_def)
  next
    case (Some x)
    with ok Image have "url = []" "split_once '';base64,'' (mt @ '';base64,'' @ x) = Some (mt, x)"
      using split_once_pat [of "CHR '';''" mt "''base64,''" x] by (simp_all add: chat_image_ok_def)
    moreover have "strip_prefix ''data:'' (''data:'' @ r) = Some r" for r
      by (rule strip_prefix_append)
    ultimately show ?thesis
      using Image Some by (simp add: chat_image_part_def chat_image_url_def)
  qed
qed (simp_all add: chat_image_ok_def)

lemma chat_content_items:
  assumes "list_all (\<lambda>p. case p of Text t s \<Rightarrow> t \<noteq> [] \<and> s = None | _ \<Rightarrow> chat_image_ok p) ps"
  shows "\<exists>items. List.map_filter chat_content_item ps = items \<and> map chat_content_part items = ps \<and>
    CP_Text [] \<notin> set items"
  using assms
proof (induction ps)
  case (Cons p ps)
  then show ?case
    by (cases p)
      (auto simp: chat_content_part_def chat_image_built chat_image_ok_def [of "ToolCall _ _ _ _"]
        chat_image_ok_def [of "ToolResult _ _ _"] chat_image_ok_def [of "Thinking _ _"]
        chat_image_ok_def [of "Sealed _ _"])
qed simp

lemma chat_content_built:
  assumes "chat_content_ok ps"
  shows "if ps = [] then chat_message_content ps = None
    else chat_user_parts (chat_message_content ps) = ps"
    "chat_assistant_parts S (chat_message_content ps) None None = ps"
    "ps \<noteq> [] \<Longrightarrow> \<exists>c. chat_message_content ps = Some c"
proof -
  note ok = assms [unfolded chat_content_ok_def]
  obtain items where items: "List.map_filter chat_content_item ps = items"
      "map chat_content_part items = ps" "CP_Text [] \<notin> set items"
    using chat_content_items ok by blast
  then have keep: "List.map_filter
      (\<lambda>p. if p = CP_Text [] then None else Some (chat_content_part p)) items = ps"
    by (subst map_filter_Some [where g = chat_content_part]) auto
  have single: "\<exists>t. ps = [Text t None] \<and> t \<noteq> []" if no: "\<not> list_ex is_image ps" "ps \<noteq> []"
  proof -
    obtain p where "ps = [p]" using ok no by (cases ps) auto
    with ok no show ?thesis by (cases p) (auto simp: chat_image_ok_def)
  qed
  have "items \<noteq> []" if "ps \<noteq> []" using items that by auto
  then show "if ps = [] then chat_message_content ps = None
      else chat_user_parts (chat_message_content ps) = ps"
    "chat_assistant_parts S (chat_message_content ps) None None = ps"
    "ps \<noteq> [] \<Longrightarrow> \<exists>c. chat_message_content ps = Some c"
    using items keep single
    by (cases "list_ex is_image ps"; cases "ps = []";
        force simp: chat_message_content_def chat_user_parts_def chat_assistant_parts_def
          chat_text_of_def)+
qed

lemma chat_calls_built:
  "list_all (chat_call_ok S) cs \<Longrightarrow> map (chat_read_call S) (List.map_filter (chat_call_of S) cs) = cs"
proof (induction cs)
  case (Cons p cs)
  then show ?case by (cases p) (auto simp: chat_call_ok_def chat_read_call_def)
qed simp

lemma chat_calls_kind:
  assumes "list_all (chat_call_ok S) cs"
  shows "filter is_content cs = []" "chat_last_thinking (xs @ cs) = chat_last_thinking xs"
proof -
  have call: "\<exists>i n a s. p = ToolCall i n a s" if "p \<in> set cs" for p
    using assms that by (cases p) (auto simp: list_all_iff chat_call_ok_def)
  then show "filter is_content cs = []" by (fastforce simp: filter_empty_conv)
  have "fold (\<lambda>p acc. case p of Thinking text s \<Rightarrow> Some text | _ \<Rightarrow> acc) cs acc = acc" for acc
    using call by (induction cs arbitrary: acc) (simp, fastforce)
  then show "chat_last_thinking (xs @ cs) = chat_last_thinking xs"
    by (simp add: chat_last_thinking_def)
qed

lemma chat_content_kind:
  assumes "\<And>p. p \<in> set cs \<Longrightarrow> is_content p"
  shows "List.map_filter (chat_call_of S) cs = []" "chat_last_thinking (xs @ cs) = chat_last_thinking xs"
proof -
  have "chat_call_of S p = None \<and> (\<forall>t s. p \<noteq> Thinking t s)" if "p \<in> set cs" for p
    using assms [OF that] by (cases p) auto
  then have "List.map_filter (chat_call_of S) cs = [] \<and>
      (\<forall>acc. fold (\<lambda>p acc. case p of Thinking text s \<Rightarrow> Some text | _ \<Rightarrow> acc) cs acc = acc)"
    by (induction cs) (auto split: IrPart.splits)
  then show "List.map_filter (chat_call_of S) cs = []"
    "chat_last_thinking (xs @ cs) = chat_last_thinking xs"
    by (simp_all add: chat_last_thinking_def)
qed

lemma chat_lead_thinking_cases:
  obtains "chat_lead_thinking ps = ([], ps)"
  | t r where "ps = Thinking t None # r" "t \<noteq> []" "chat_lead_thinking ps = ([Thinking t None], r)"
proof (cases "\<exists>t r. ps = Thinking t None # r \<and> t \<noteq> []")
  case True
  then show thesis using that(2) by (auto simp: chat_lead_thinking_def)
next
  case False
  then show thesis
    by (intro that(1))
      (auto simp: chat_lead_thinking_def split: list.splits IrPart.splits option.splits)
qed

lemma chat_assistant_parts_split:
  "chat_assistant_parts S c tc r = chat_assistant_parts S None None r @
     chat_assistant_parts S c None None @ map (chat_read_call S) (unwrap_or [] tc)"
  by (simp add: chat_assistant_parts_def)

lemma chat_assistant_built:
  assumes "chat_assistant_ok S ps"
  shows "chat_assistant_parts S (om_content (chat_assistant_message S ps))
    (om_tool_calls (chat_assistant_message S ps)) (om_reasoning_content (chat_assistant_message S ps)) = ps"
proof -
  define th r where "th = fst (chat_lead_thinking ps)" and "r = snd (chat_lead_thinking ps)"
  define cs calls where "cs = takeWhile is_content r" and "calls = dropWhile is_content r"
  have split: "ps = th @ cs @ calls"
    by (rule chat_lead_thinking_cases [of ps]) (auto simp: th_def r_def cs_def calls_def)
  have ok: "chat_content_ok cs" "list_all (chat_call_ok S) calls"
    using assms by (simp_all add: chat_assistant_ok_def cs_def calls_def r_def Let_def)
  have th: "th = [] \<or> (\<exists>t. th = [Thinking t None] \<and> t \<noteq> [])"
    by (rule chat_lead_thinking_cases [of ps]) (auto simp: th_def)
  have cs: "is_content p" if "p \<in> set cs" for p
    using that by (auto simp: cs_def dest: set_takeWhileD)
  have content: "filter is_content ps = cs"
    unfolding split using th cs chat_calls_kind(1) [OF ok(2)] by auto
  have calls: "List.map_filter (chat_call_of S) ps = List.map_filter (chat_call_of S) calls"
    unfolding split using th chat_content_kind(1) [OF cs] by auto
  have "chat_last_thinking ps = chat_last_thinking th"
    unfolding split append_assoc [symmetric] chat_calls_kind(2) [OF ok(2)]
    by (rule chat_content_kind(2)) (rule cs)
  then have think: "opt_filter (\<lambda>t. t \<noteq> []) (chat_last_thinking ps) = (if th = [] then None else Some (think_text (hd th)))"
    using th by (auto simp: chat_last_thinking_def)
  let ?m = "chat_assistant_message S ps"
  have "chat_assistant_parts S None None (om_reasoning_content ?m) = th"
    using th think by (auto simp: chat_assistant_message_def Let_def chat_assistant_parts_def)
  moreover have "chat_assistant_parts S (om_content ?m) None None = cs"
    using chat_content_built(2) [OF ok(1)]
    by (simp add: chat_assistant_message_def Let_def chat_message_def content)
  moreover have "map (chat_read_call S) (unwrap_or [] (om_tool_calls ?m)) = calls"
    using chat_calls_built [OF ok(2)]
    by (simp add: chat_assistant_message_def Let_def calls)
  ultimately show ?thesis
    by (subst chat_assistant_parts_split) (simp only: split)
qed

lemma chat_result_ok_cases:
  assumes "chat_result_ok p"
  obtains c where "p = ToolResult c False []"
  | c t where "p = ToolResult c False [Text t None]" "t \<noteq> []"
  using assms by (cases p) (auto simp: chat_result_ok_def)

lemma chat_result_built:
  "chat_result_ok p \<Longrightarrow> fold (chat_read_message S) (chat_push_user_messages [p] []) (sys, out) =
    (sys, out @ [\<lparr>im_role = User, im_parts = [p]\<rparr>])"
  by (erule chat_result_ok_cases)
    (simp_all add: chat_push_user_messages_def chat_message_content_def chat_text_of_def
        chat_tool_message_def chat_message_def chat_read_message_def chat_tool_result_content_def
        message_content_as_text_def)

lemma chat_user_built:
  assumes "chat_user_ok ps"
  shows "fold (chat_read_message S) (chat_push_user_messages ps []) (sys, out) =
    (sys, out @ [\<lparr>im_role = User, im_parts = ps\<rparr>])"
proof (cases "length ps = 1 \<and> chat_result_ok (hd ps)")
  case True
  then show ?thesis using chat_result_built by (cases ps) auto
next
  case False
  then have ok: "ps \<noteq> []" "chat_content_ok ps"
    using assms by (auto simp: chat_user_ok_def)
  have "chat_result_of p = None" if "p \<in> set ps" for p
    using ok(2) that by (cases p) (auto simp: chat_content_ok_def list_all_iff chat_image_ok_def)
  then have "filter (\<lambda>p. chat_result_of p = None) ps = ps" "List.map_filter chat_result_of ps = []"
    by (simp_all add: filter_id_conv map_filter_None)
  with ok chat_content_built(1,3) [OF ok(2)] show ?thesis
    by (auto simp: chat_push_user_messages_def chat_message_def chat_read_message_def)
qed

lemma chat_turn_built:
  "chat_turn_ok S m \<Longrightarrow> fold (chat_read_message S) (chat_turn S m) (sys, out) = (sys, out @ [m])"
proof (cases "im_role m")
  case User
  moreover assume "chat_turn_ok S m"
  ultimately show ?thesis
    by (cases m) (auto simp: chat_turn_ok_def chat_turn_def chat_push_message_def chat_user_built)
next
  case Assistant
  moreover have "om_role (chat_assistant_message S ps) = ''assistant''" for ps
    by (simp add: chat_assistant_message_def chat_message_def Let_def)
  moreover assume "chat_turn_ok S m"
  ultimately show ?thesis
    by (cases m) (auto simp: chat_turn_ok_def chat_turn_def chat_push_message_def
        chat_read_message_def chat_assistant_built)
qed

lemma chat_turns_built:
  "list_all (chat_turn_ok S) ms \<Longrightarrow>
     fold (chat_read_message S) (concat (map (chat_turn S) ms)) (sys, out) = (sys, out @ ms)"
  by (induction ms arbitrary: out) (simp_all add: chat_turn_built)

lemma chat_system_built:
  "list_all (\<lambda>p. \<exists>t. p = Text t None) ps \<Longrightarrow>
     fold (chat_read_message S)
       (map (\<lambda>text. chat_message ''system'' (Some (MC_Text text))) (List.map_filter part_text_opt ps)) (sys, out) =
     (sys @ ps, out)"
  by (induction ps arbitrary: sys)
    (auto simp: chat_read_message_def chat_message_def message_content_as_text_def)

section \<open>Requests and replies\<close>

lemma chat_tools_built:
  "map chat_read_tool (unwrap_or [] (then_some (ts \<noteq> []) (map chat_tool_wire ts))) = ts"
  by (cases "ts = []") (auto simp: chat_read_tool_def chat_tool_wire_def then_some_def intro!: map_idI)

lemma chat_tool_choice_built: "chat_read_tool_choice (chat_tool_choice_value c) = c"
  by (auto simp: chat_read_tool_choice_def chat_tool_choice_value_def get_str_def
      option.map_comp comp_def intro!: option.map_ident_strong split: IrToolChoice.splits)

lemma chat_stop_built: "unwrap_or [] (map_option chat_stop_values (chat_stop_value xs)) = xs"
  by (auto simp: chat_stop_values_def chat_stop_value_def split: list.splits)

lemma chat_extra_built:
  assumes "pred_option (\<lambda>v. Option.bind (stream_options_from_value C v) (stream_options_to_value C) = Some v) so"
    and "ce = chat_take_extra C (chat_read_extra seed rf n so)"
  shows "ce_seed ce = seed" "ce_response_format ce = rf" "ce_n ce = n"
    "Option.bind (ce_stream_options ce) (stream_options_to_value C) = so"
  using assms
  by (cases seed; cases rf; cases n; cases so;
      simp add: chat_take_extra_def chat_read_extra_def extra_put_opt_def extra_take_def
        extra_takes_def chat_take_field_def)+

text \<open>C4: \<open>read(build(ir)) = ir\<close> for every request of the hub in chat normal form: any number of system
  texts, user turns of text and images (remote or inline), tool results, assistant turns of thinking,
  text, images and tool calls whose arguments \<open>serde_json\<close> prints and parses back, any tools, tool
  choice and stop list, an effort label or none, and the chat-owned fields \<open>seed\<close>, \<open>response_format\<close>,
  \<open>n\<close> and \<open>stream_options\<close>.\<close>

theorem chat_request_roundtrip:
  assumes "chat_normal S C ir"
  shows "chat_read S C (chat_build S C ir) = ir"
proof -
  note n = assms [unfolded chat_normal_def]
  obtain seed rf k so where ex: "ir_extra ir = chat_read_extra seed rf k so"
      "pred_option (\<lambda>v. Option.bind (stream_options_from_value C v) (stream_options_to_value C) = Some v) so"
    using n by (auto simp: chat_extra_ok_def)
  have msgs: "fold (chat_read_message S) (oq_messages (chat_build S C ir)) ([], []) =
      (ir_system ir, ir_messages ir)"
    using n by (simp add: chat_build_def Let_def chat_push_fold chat_system_built chat_turns_built)
  have reason: "(case or_else (oq_reasoning_effort (chat_build S C ir))
        (map_option rc_effort (oq_reasoning (chat_build S C ir))) of
      Some effort \<Rightarrow> Effort effort | None \<Rightarrow> ReasoningOff) = ir_reasoning ir"
    using n by (auto simp: chat_build_def Let_def split: Reasoning.splits)
  show ?thesis
    unfolding chat_read_def msgs reason
    using n ex chat_extra_built [OF ex(2) refl]
    by (intro IrRequest.equality Sampling.equality) (simp_all add: chat_build_def Let_def chat_tools_built chat_tool_choice_built chat_stop_built)
qed

definition chat_demo_serde :: serde where
  "chat_demo_serde = \<lparr>from_text = (\<lambda>s. Inr (jobj [])), to_text = (\<lambda>v. ''{}'')\<rparr>"

definition chat_demo_codec :: chat_serde where
  "chat_demo_codec = \<lparr>stream_options_to_value = (\<lambda>x. None), stream_options_from_value = (\<lambda>v. None),
     from_chunk = (\<lambda>s. Inl s), chunk_to_text = (\<lambda>c. [])\<rparr>"

definition chat_demo_request :: IrRequest where
  "chat_demo_request =
     \<lparr>ir_model = ''m'', ir_system = [Text ''be brief'' None],
      ir_messages =
        [\<lparr>im_role = User, im_parts = [Text ''look'' None, Image [] ''image/png'' (Some ''iVBO'') None]\<rparr>,
         \<lparr>im_role = Assistant, im_parts = [Thinking ''hm'' None, Text ''calling'' None,
            ToolCall ''t1'' ''f'' (jobj []) None]\<rparr>,
         \<lparr>im_role = User, im_parts = [ToolResult ''t1'' False [Text ''ok'' None]]\<rparr>],
      ir_tools = [], ir_tool_choice = Some (ChoiceNamed ''f''),
      ir_sampling = \<lparr>sa_max_tokens = Some 100, sa_temperature = None, sa_top_p = None,
        sa_top_k = None, sa_stop = [''a'', ''b'']\<rparr>,
      ir_stream = True, ir_reasoning = Effort ''low'',
      ir_extra = chat_read_extra (Some 7) None (Some 1) None\<rparr>"

theorem chat_request_roundtrip_witness:
  "chat_read chat_demo_serde chat_demo_codec
     (chat_build chat_demo_serde chat_demo_codec chat_demo_request) = chat_demo_request"
proof (rule chat_request_roundtrip)
  have "chat_extra_ok chat_demo_codec (chat_read_extra (Some 7) None (Some 1) None)"
    unfolding chat_extra_ok_def by (intro exI conjI, rule refl) simp
  then show "chat_normal chat_demo_serde chat_demo_codec chat_demo_request"
    by (simp add: chat_normal_def chat_demo_request_def chat_turn_ok_def chat_user_ok_def chat_result_ok_def
        chat_content_ok_def chat_image_ok_def chat_assistant_ok_def chat_lead_thinking_def
        chat_call_ok_def chat_demo_serde_def parse_arguments_def)
qed

text \<open>A reply as chat orders it: text, thinking, then the calls.\<close>

definition chat_reply_of :: "string option \<Rightarrow> string option \<Rightarrow> IrPart list \<Rightarrow> IrPart list" where
  "chat_reply_of tx th calls =
     (case tx of Some t \<Rightarrow> [Text t None] | None \<Rightarrow> []) @
     (case th of Some t \<Rightarrow> [Thinking t None] | None \<Rightarrow> []) @ calls"

text \<open>\<open>read_response(build_response(r)) = r\<close> for a chat-shaped reply: an id with the chat prefix, at
  most one non-empty text and one non-empty thinking part before the tool calls, and every stop reason
  but a stop sequence, which chat spells \<open>stop\<close>.\<close>

lemma chat_reply_roundtrip:
  assumes "re_id ir = Some (''chatcmpl-'' @ b)"
    and "re_parts ir = chat_reply_of tx th calls"
    and "pred_option (\<lambda>t. t \<noteq> []) tx" "pred_option (\<lambda>t. t \<noteq> []) th"
    and "list_all (chat_call_ok S) calls"
    and "re_stop_reason ir \<noteq> StopSequence" "re_stop_sequence ir = None"
    and "us_cache_write_tokens (re_usage ir) = None" "us_cache_write_1h (re_usage ir) = None"
      "us_reasoning_tokens (re_usage ir) = None"
  shows "chat_read_response S (chat_build_response S E ir) = ir"
proof -
  have calls: "\<exists>i n a s. p = ToolCall i n a s" if "p \<in> set calls" for p
    using assms(5) that by (cases p) (auto simp: list_all_iff chat_call_ok_def)
  then have texts: "List.map_filter part_text_opt calls = []"
    by (induction calls) (auto split: option.splits, force)
  have think: "chat_last_thinking (chat_reply_of tx th calls) = th"
    using chat_calls_kind(2) [OF assms(5), of "chat_reply_of tx th []"]
    by (cases tx; cases th) (simp_all add: chat_reply_of_def chat_last_thinking_def)
  have "norm_stop OpenAIChat (re_stop_reason ir) = re_stop_reason ir"
    using assms(6) by (cases "re_stop_reason ir") auto
  moreover have "chat_reply_parts S (ch_message (hd (op_choices (chat_build_response S E ir)))) =
      re_parts ir"
    using assms(3,4) texts think chat_calls_built [OF assms(5)]
    by (cases tx; cases th)
      (simp_all add: chat_build_response_def Let_def chat_reply_parts_def assms(2) chat_reply_of_def)
  ultimately show ?thesis
    using assms(1,7-10) chat_id.norm_prefixed [OF chat_id.own_prefix, of "env_uuid E 0" b]
    by (cases "us_cache_read_tokens (re_usage ir)")
      (simp_all add: chat_read_response_def chat_build_response_def Let_def chat_read_usage_def)
qed

lemma chat_reply_roundtrip_witness:
  "chat_read_response chat_demo_serde (chat_build_response chat_demo_serde
     \<lparr>env_now = 0, env_uuid = (\<lambda>n. [])\<rparr>
     \<lparr>re_id = Some (''chatcmpl-'' @ ''1''), re_model = ''m'',
      re_parts = chat_reply_of (Some ''hi'') (Some ''hm'') [ToolCall ''t1'' ''f'' (jobj []) None],
      re_stop_reason = ToolUse, re_stop_sequence = None, re_usage = usage_default\<rparr>) =
   \<lparr>re_id = Some (''chatcmpl-'' @ ''1''), re_model = ''m'',
      re_parts = chat_reply_of (Some ''hi'') (Some ''hm'') [ToolCall ''t1'' ''f'' (jobj []) None],
      re_stop_reason = ToolUse, re_stop_sequence = None, re_usage = usage_default\<rparr>"
  by (rule chat_reply_roundtrip [where b = "''1''" and tx = "Some ''hi''" and th = "Some ''hm''"
        and calls = "[ToolCall ''t1'' ''f'' (jobj []) None]"])
    (simp_all add: chat_call_ok_def chat_demo_serde_def parse_arguments_def usage_default_def)

end
