(* ===== verification/Chat_Stream.thy ===== *)
theory Chat_Stream
  imports Chat_Build
begin

text \<open>
  The Chat Completions stream adapter: \<open>crates/core/src/formats/openai_chat/stream.rs\<close>, and what a
  client gets back from a stream this adapter wrote.
\<close>

section \<open>Parsing\<close>

definition chat_parse_done :: "StreamState \<Rightarrow> CanonicalStreamEvent list \<times> StreamState" where
  "chat_parse_done st =
     (let st1 = st\<lparr>st_done := True, phase := PhaseDone\<rparr>;
          stop_reason = (if accumulated_tool_calls st1 \<noteq> [] then ToolUse
                         else unwrap_or EndTurn (finish_reason st1))
      in ([Done stop_reason (accumulated_usage st1)], st1))"

definition chat_tool_call_events :: "StreamToolCall \<Rightarrow> CanonicalStreamEvent list" where
  "chat_tool_call_events tc =
     (case stc_id tc of
        Some i \<Rightarrow>
          (case stc_function tc of
             Some func \<Rightarrow>
               (case sfc_name func of
                  Some name \<Rightarrow> [ToolCallStart (stc_index tc) i name None]
                | None \<Rightarrow> [])
           | None \<Rightarrow> [])
      | None \<Rightarrow> []) @
     (case stc_function tc of
        Some func \<Rightarrow>
          (case sfc_arguments func of
             Some args \<Rightarrow> if args \<noteq> [] then [ToolCallDelta (stc_index tc) args] else []
           | None \<Rightarrow> [])
      | None \<Rightarrow> [])"

text \<open>One turn of the loop over \<open>chunk.choices\<close>; \<open>events\<close> is the vector pushed to.\<close>

definition chat_parse_choice ::
  "StreamChoice \<Rightarrow> CanonicalStreamEvent list \<times> StreamState \<Rightarrow> CanonicalStreamEvent list \<times> StreamState" where
  "chat_parse_choice choice acc =
     (case acc of (events, st) \<Rightarrow>
        let delta = sc_delta choice;
            (events1, st1) =
              (case de_content delta of
                 Some content \<Rightarrow>
                   if content \<noteq> [] then (events @ [TextDelta content], st\<lparr>phase := PhaseContent\<rparr>)
                   else (events, st)
               | None \<Rightarrow> (events, st));
            events2 =
              (case de_reasoning_content delta of
                 Some reasoning \<Rightarrow>
                   if reasoning \<noteq> [] then events1 @ [ThinkingDelta reasoning] else events1
               | None \<Rightarrow> events1);
            (events3, st2) =
              (case de_tool_calls delta of
                 Some tool_calls \<Rightarrow>
                   (events2 @ concat (map chat_tool_call_events tool_calls),
                    st1\<lparr>phase := PhaseToolCalls\<rparr>)
               | None \<Rightarrow> (events2, st1));
            st3 =
              (case sc_finish_reason choice of
                 Some fr \<Rightarrow>
                   st2\<lparr>finish_reason := Some
                     (if fr = ''stop'' then EndTurn
                      else if fr = ''length'' then MaxTokens
                      else if fr = ''tool_calls'' then ToolUse
                      else if fr = ''content_filter'' then ContentFilter
                      else EndTurn)\<rparr>
               | None \<Rightarrow> st2)
        in (events3, st3))"

definition chat_parse_chunk ::
  "OpenAIChatStreamChunk \<Rightarrow> StreamState \<Rightarrow> CanonicalStreamEvent list \<times> StreamState" where
  "chat_parse_chunk chunk st =
     (let (events, st1) =
        (if response_id st = None
         then ([Start (ck_id chunk) (ck_model chunk)],
               st\<lparr>response_id := Some (ck_id chunk), st_model := Some (ck_model chunk)\<rparr>)
         else ([], st));
          st2 =
        (case ck_usage chunk of
           Some usage \<Rightarrow>
             st1\<lparr>accumulated_usage := Some (usage_default
               \<lparr>us_input_tokens := ou_prompt_tokens usage,
                us_output_tokens := ou_completion_tokens usage,
                us_cache_read_tokens :=
                  Option.bind (ou_prompt_tokens_details usage) ptd_cached_tokens\<rparr>)\<rparr>
         | None \<Rightarrow> st1)
      in fold chat_parse_choice (ck_choices chunk) (events, st2))"

definition chat_parse_sse_event :: "chat_serde \<Rightarrow> parser" where
  "chat_parse_sse_event C E event st =
     (if is_openai_done (sse_data event) then Inr (chat_parse_done st)
      else case from_chunk C (sse_data event) of
             Inl e \<Rightarrow> Inl (SseParse e)
           | Inr chunk \<Rightarrow> Inr (chat_parse_chunk chunk st))"

section \<open>Emitting\<close>

definition chat_stream_ids :: "env \<Rightarrow> StreamState \<Rightarrow> string \<times> string" where
  "chat_stream_ids E st =
     (unwrap_or (''chatcmpl-'' @ env_uuid E 0)
        (map_option (normalize_id_to_chat (env_uuid E 0)) (response_id st)),
      unwrap_or ''gpt-4o'' (st_model st))"

definition make_stream_chunk ::
  "env \<Rightarrow> string \<Rightarrow> string \<Rightarrow> Delta \<Rightarrow> string option \<Rightarrow> OpenAIUsage option \<Rightarrow> OpenAIChatStreamChunk" where
  "make_stream_chunk E i model delta fr usage =
     \<lparr>ck_id = i, ck_object = ''chat.completion.chunk'', ck_created = env_now E, ck_model = model,
      ck_choices = [\<lparr>sc_index = 0, sc_delta = delta, sc_finish_reason = fr\<rparr>], ck_usage = usage\<rparr>"

definition empty_delta :: Delta where
  "empty_delta = \<lparr>de_role = None, de_content = None, de_reasoning_content = None, de_tool_calls = None\<rparr>"

text \<open>The payload of one \<open>format_sse_data\<close>: a chunk or the sentinel.\<close>

datatype chat_frame = ChunkFrame OpenAIChatStreamChunk | DoneFrame

definition chat_frame_text :: "chat_serde \<Rightarrow> chat_frame \<Rightarrow> string" where
  "chat_frame_text C fr = (case fr of ChunkFrame c \<Rightarrow> chunk_to_text C c | DoneFrame \<Rightarrow> ''[DONE]'')"

definition chat_delta_chunk :: "env \<Rightarrow> Delta \<Rightarrow> StreamState \<Rightarrow> chat_frame list" where
  "chat_delta_chunk E delta st =
     (let (i, model) = chat_stream_ids E st
      in [ChunkFrame (make_stream_chunk E i model delta None None)])"

definition chat_emit_frames ::
  "env \<Rightarrow> CanonicalStreamEvent \<Rightarrow> StreamState \<Rightarrow> chat_frame list \<times> StreamState" where
  "chat_emit_frames E event st =
     (case event of
        ThinkingSignature f d \<Rightarrow> ([], st)
      | SealedThinking f raw \<Rightarrow> ([], st)
      | Start i model \<Rightarrow>
          ([ChunkFrame (make_stream_chunk E i model (empty_delta\<lparr>de_role := Some ''assistant''\<rparr>) None None)],
           st\<lparr>response_id := Some i, st_model := Some model\<rparr>)
      | TextDelta t \<Rightarrow> (chat_delta_chunk E (empty_delta\<lparr>de_content := Some t\<rparr>) st, st)
      | ToolCallStart index i name s \<Rightarrow>
          (chat_delta_chunk E (empty_delta\<lparr>de_tool_calls := Some
             [\<lparr>stc_index = index, stc_id = Some i, stc_type = Some ''function'',
               stc_function = Some \<lparr>sfc_name = Some name, sfc_arguments = None\<rparr>\<rparr>]\<rparr>) st, st)
      | ToolCallDelta index arguments_delta \<Rightarrow>
          (chat_delta_chunk E (empty_delta\<lparr>de_tool_calls := Some
             [\<lparr>stc_index = index, stc_id = None, stc_type = None,
               stc_function = Some \<lparr>sfc_name = None, sfc_arguments = Some arguments_delta\<rparr>\<rparr>]\<rparr>) st, st)
      | ThinkingDelta thinking \<Rightarrow>
          (chat_delta_chunk E (empty_delta\<lparr>de_reasoning_content := Some thinking\<rparr>) st, st)
      | Done stop_reason usage \<Rightarrow>
          (let (i, model) = chat_stream_ids E st;
               st1 = st\<lparr>st_done := True, phase := PhaseDone\<rparr>;
               st2 = (case usage of Some u \<Rightarrow> st1\<lparr>accumulated_usage := Some u\<rparr> | None \<Rightarrow> st1);
               finish_chunk = make_stream_chunk E i model empty_delta
                 (Some (to_openai_chat stop_reason))
                 (map_option (\<lambda>u. \<lparr>ou_prompt_tokens = us_input_tokens u,
                    ou_completion_tokens = us_output_tokens u,
                    ou_total_tokens = us_input_tokens u + us_output_tokens u,
                    ou_prompt_tokens_details = None\<rparr>) usage)
           in ([ChunkFrame finish_chunk, DoneFrame], st2)))"

definition chat_emit_sse_event :: "chat_serde \<Rightarrow> emitter" where
  "chat_emit_sse_event C E event st =
     (let (frames, st1) = chat_emit_frames E event st
      in Inr (map (\<lambda>fr. format_sse_data (chat_frame_text C fr)) frames, st1))"

interpretation chat_emitter: stream_emitter "chat_emit_sse_event C" OpenAIChat for C
  by unfold_locales
    (auto simp: chat_emit_sse_event_def chat_emit_frames_def Let_def split: option.splits prod.splits)

section \<open>What the client reads\<close>

definition chat_sse :: "chat_serde \<Rightarrow> chat_frame \<Rightarrow> SseEvent" where
  "chat_sse C fr = \<lparr>sse_event = None, sse_data = chat_frame_text C fr\<rparr>"

definition chat_frames :: "chat_serde \<Rightarrow> SseEvent framer" where
  "chat_frames C E ev st = apfst (map (chat_sse C)) (chat_emit_frames E ev st)"

interpretation chat_writer: sse_writer "chat_emit_sse_event C" "chat_frames C" for C
  by unfold_locales
    (simp add: chat_emit_sse_event_def chat_frames_def chat_sse_def format_sse_def split: prod.splits)

text \<open>This emitter accepts every event, whatever its index.\<close>

interpretation chat_accepts: accepting_emitter "chat_emit_sse_event C" OpenAIChat "\<lambda>_. UNIV" for C
  by unfold_locales (simp add: chat_writer.emit_frames)

text \<open>What the stream relies on of \<open>serde_json\<close> at one chunk: it is printed as one line of text that
  parses back.\<close>

definition chat_frame_ok :: "chat_serde \<Rightarrow> chat_frame \<Rightarrow> bool" where
  "chat_frame_ok C fr \<longleftrightarrow>
     (case fr of
        ChunkFrame c \<Rightarrow> one_line (chunk_to_text C c) \<and> chunk_to_text C c \<noteq> ''[DONE]'' \<and>
          from_chunk C (chunk_to_text C c) = Inr c
      | DoneFrame \<Rightarrow> True)"

fun chat_parse_frames :: "chat_frame list \<Rightarrow> StreamState \<Rightarrow> CanonicalStreamEvent list \<times> StreamState" where
  "chat_parse_frames [] st = ([], st)"
| "chat_parse_frames (fr # frs) st =
     (let (evs, st1) = (case fr of ChunkFrame c \<Rightarrow> chat_parse_chunk c st | DoneFrame \<Rightarrow> chat_parse_done st);
          (evs', st2) = chat_parse_frames frs st1 in (evs @ evs', st2))"

lemma chat_done_line: "one_line ''[DONE]''"
  by (simp add: one_line_def visible_def)

lemma chat_frame_wf: "chat_frame_ok C fr \<Longrightarrow> wf_sse (chat_sse C fr)"
  by (auto simp: chat_frame_ok_def wf_sse_def chat_sse_def chat_frame_text_def chat_done_line
      split: chat_frame.splits)

lemma chat_parse_all_frames:
  "list_all (chat_frame_ok C) frs \<Longrightarrow>
     parse_all (chat_parse_sse_event C) E (map (chat_sse C) frs) st = Inr (chat_parse_frames frs st)"
proof (induction frs arbitrary: E st)
  case (Cons fr frs)
  then show ?case
    by (cases fr)
      (auto simp: chat_parse_sse_event_def chat_sse_def chat_frame_text_def chat_frame_ok_def
        is_openai_done_def trim_one_line chat_done_line split: prod.splits)
qed simp

lemma chat_parse_frames_append:
  "chat_parse_frames (xs @ ys) st =
     (let (evs, st1) = chat_parse_frames xs st; (evs', st2) = chat_parse_frames ys st1 in (evs @ evs', st2))"
  by (induction xs arbitrary: st) (auto split: prod.splits)

text \<open>The events between start and end that chat has a field for.\<close>

definition chat_body_ok :: "CanonicalStreamEvent \<Rightarrow> bool" where
  "chat_body_ok ev \<longleftrightarrow>
     (case ev of
        TextDelta t \<Rightarrow> t \<noteq> []
      | ThinkingDelta t \<Rightarrow> t \<noteq> []
      | ToolCallStart n i name s \<Rightarrow> s = None
      | ToolCallDelta n a \<Rightarrow> a \<noteq> []
      | _ \<Rightarrow> False)"

lemmas chat_emit_defs = chat_emit_frames_def chat_delta_chunk_def make_stream_chunk_def empty_delta_def
  chat_stream_ids_def

lemmas chat_parse_defs = chat_parse_chunk_def chat_parse_choice_def chat_tool_call_events_def

lemma phase_self [simp]: "\<exists>ph. st = st\<lparr>phase := ph\<rparr>"
  by (rule exI [of _ "phase st"]) simp

lemma chat_body_step:
  assumes "chat_body_ok ev" and "response_id st \<noteq> None"
  shows "\<exists>c ph. chat_emit_frames E ev est = ([ChunkFrame c], est) \<and>
    chat_parse_chunk c st = ([ev], st\<lparr>phase := ph\<rparr>)"
  using assms by (cases ev) (auto simp: chat_body_ok_def chat_emit_defs chat_parse_defs)

lemma chat_body_frames:
  assumes "list_all chat_body_ok body" and "response_id st \<noteq> None"
  shows "\<exists>frs ph. frames_all chat_emit_frames E body est = (frs, est) \<and>
    chat_parse_frames frs st = (body, st\<lparr>phase := ph\<rparr>)"
  using assms
proof (induction body arbitrary: E st)
  case Nil
  then show ?case by auto
next
  case (Cons ev body)
  then obtain c ph where step: "chat_emit_frames (E 0) ev est = ([ChunkFrame c], est)"
      "chat_parse_chunk c st = ([ev], st\<lparr>phase := ph\<rparr>)"
    using chat_body_step [of ev st "E 0" est] by auto
  moreover obtain frs ph' where "frames_all chat_emit_frames (E \<circ> Suc) body est = (frs, est)"
      "chat_parse_frames frs (st\<lparr>phase := ph\<rparr>) = (body, st\<lparr>phase := ph'\<rparr>)"
    using Cons.IH [of "st\<lparr>phase := ph\<rparr>" "E \<circ> Suc"] Cons.prems by (auto simp: comp_def)
  ultimately show ?case by auto
qed

definition chat_seen_usage :: "Usage \<Rightarrow> Usage" where
  "chat_seen_usage u = usage_default\<lparr>us_input_tokens := us_input_tokens u,
     us_output_tokens := us_output_tokens u\<rparr>"

lemma chat_stream_frames:
  assumes "list_all chat_body_ok body"
  shows "fst (chat_parse_frames (fst (frames_all chat_emit_frames E (Start i m # body @ [Done r u]) est))
    stream_state_new) = Start i m # body @ [Done (norm_stop OpenAIChat r) (map_option chat_seen_usage u)]"
proof -
  let ?st = "stream_state_new\<lparr>response_id := Some i, st_model := Some m\<rparr>"
  let ?est = "est\<lparr>response_id := Some i, st_model := Some m\<rparr>"
  obtain frs ph where "frames_all chat_emit_frames (E \<circ> Suc) body ?est = (frs, ?est)"
      "chat_parse_frames frs ?st = (body, ?st\<lparr>phase := ph\<rparr>)"
    using chat_body_frames [OF assms, of ?st "E \<circ> Suc" ?est] by auto
  moreover have "(if to_openai_chat r = ''stop'' then EndTurn
      else if to_openai_chat r = ''length'' then MaxTokens
      else if to_openai_chat r = ''tool_calls'' then ToolUse
      else if to_openai_chat r = ''content_filter'' then ContentFilter else EndTurn) =
      norm_stop OpenAIChat r"
    by (cases r) simp_all
  ultimately show ?thesis
    by (cases u)
      (simp_all add: frames_all_append chat_parse_frames_append chat_emit_defs chat_parse_defs
        chat_parse_done_def stream_state_new_def chat_seen_usage_def
        usage_default_def)
qed


section \<open>Chunk ids\<close>

definition chat_frame_ids :: "chat_frame list \<Rightarrow> string list" where
  "chat_frame_ids frs = List.map_filter (\<lambda>fr. case fr of ChunkFrame c \<Rightarrow> Some (ck_id c) | DoneFrame \<Rightarrow> None) frs"

lemma chat_body_ids:
  assumes "list_all chat_body_ok body" and "response_id est = Some i" "i \<noteq> []"
  shows "\<exists>frs. frames_all chat_emit_frames E body est = (frs, est) \<and>
    set (chat_frame_ids frs) \<subseteq> {normalize_id_to_chat [] i}"
  using assms(1)
proof (induction body arbitrary: E)
  case (Cons ev body)
  have "normalize_id_to_chat v i = normalize_id_to_chat [] i" for v
    using assms(3) by (simp add: normalize_id_to_chat_def)
  then have "\<exists>c. chat_emit_frames (E 0) ev est = ([ChunkFrame c], est) \<and> ck_id c = normalize_id_to_chat [] i"
    using Cons.prems assms(2) by (cases ev) (auto simp: chat_body_ok_def chat_emit_defs)
  moreover obtain frs where "frames_all chat_emit_frames (E \<circ> Suc) body est = (frs, est)"
      "set (chat_frame_ids frs) \<subseteq> {normalize_id_to_chat [] i}"
    using Cons by (auto simp: comp_def)
  ultimately show ?case by (auto simp: chat_frame_ids_def)
qed (simp add: chat_frame_ids_def)

text \<open>Within one chat stream only the first chunk carries the upstream id as it came; every later
  chunk carries the chat form of it.  A stream from Claude or Responses therefore changes its id after the
  first chunk, and one with a chat id keeps a single id throughout.\<close>

lemma chat_stream_chunk_ids:
  assumes "list_all chat_body_ok body" and "i \<noteq> []"
  shows "\<exists>ids. chat_frame_ids (fst (frames_all chat_emit_frames E (Start i m # body @ [Done r u]) st)) = i # ids \<and>
    ids \<noteq> [] \<and> set ids = {normalize_id_to_chat [] i}"
proof -
  let ?est = "st\<lparr>response_id := Some i, st_model := Some m\<rparr>"
  obtain frs where "frames_all chat_emit_frames (E \<circ> Suc) body ?est = (frs, ?est)"
      "set (chat_frame_ids frs) \<subseteq> {normalize_id_to_chat [] i}"
    using chat_body_ids [OF assms(1), of ?est i "E \<circ> Suc"] assms(2) by auto
  moreover have "normalize_id_to_chat (env_uuid (E (Suc (length body))) 0) i = normalize_id_to_chat [] i"
    using assms(2) by (simp add: normalize_id_to_chat_def)
  ultimately show ?thesis
    by (cases u) (auto simp: frames_all_append chat_emit_defs chat_frame_ids_def Let_def)
qed

lemma chat_stream_chunk_ids_witness:
  "\<exists>ids. chat_frame_ids (fst (frames_all chat_emit_frames (\<lambda>n. \<lparr>env_now = 0, env_uuid = (\<lambda>k. ''u'')\<rparr>)
      (Start ''msg_1'' ''m'' # [TextDelta ''hi''] @ [Done EndTurn None]) stream_state_new)) = ''msg_1'' # ids \<and>
    ids \<noteq> [] \<and> set ids = {normalize_id_to_chat [] ''msg_1''}"
  by (rule chat_stream_chunk_ids) (simp_all add: chat_body_ok_def)

section \<open>A concrete codec\<close>

definition chat_demo_env :: "nat \<Rightarrow> env" where
  "chat_demo_env n = \<lparr>env_now = 0, env_uuid = (\<lambda>k. ''u'')\<rparr>"

text \<open>A printer and parser of the two chunks of an empty reply.\<close>

definition chat_demo_stream_codec :: chat_serde where
  "chat_demo_stream_codec =
     (let first = make_stream_chunk (chat_demo_env 0) ''chatcmpl-1'' ''m''
            (empty_delta\<lparr>de_role := Some ''assistant''\<rparr>) None None;
          final = make_stream_chunk (chat_demo_env 1) ''chatcmpl-1'' ''m'' empty_delta (Some ''stop'') None
      in \<lparr>stream_options_to_value = (\<lambda>x. None), stream_options_from_value = (\<lambda>v. None),
          from_chunk = (\<lambda>s. if s = ''{a}'' then Inr first else Inr final),
          chunk_to_text = (\<lambda>c. if sc_finish_reason (hd (ck_choices c)) = None then ''{a}'' else ''{b}'')\<rparr>)"


end
