(* ===== verification/Gemini_Wire.thy ===== *)
theory Gemini_Wire
  imports Stream_Adapter
begin

text \<open>
  The wire structs of the Gemini API and the constructors of \<open>GeminiPart\<close>:
  \<open>crates/core/src/formats/gemini/types.rs\<close>.  \<open>serde_json\<close> at \<open>GeminiResponse\<close> is the parameter record
  \<open>gemini_serde\<close>; writing such a struct cannot fail, since all its map keys are strings.
\<close>

record GeminiInlineData =
  gi_mime_type :: string
  gi_data :: string

record GeminiFunctionCall =
  gf_name :: string
  gf_args :: "value"
  gf_id :: "string option"

record GeminiFunctionResponse =
  gr_name :: string
  gr_response :: "value"
  gr_id :: "string option"

record GeminiPart =
  gp_text :: "string option"
  gp_thought :: "bool option"
  gp_thought_signature :: "string option"
  gp_inline_data :: "GeminiInlineData option"
  gp_function_call :: "GeminiFunctionCall option"
  gp_function_response :: "GeminiFunctionResponse option"

record GeminiContent =
  gc_role :: "string option"
  gc_parts :: "GeminiPart list"

record GeminiGenerationConfig =
  gg_temperature :: "f32 option"
  gg_top_p :: "f32 option"
  gg_top_k :: "u32 option"
  gg_max_output_tokens :: "u32 option"
  gg_stop_sequences :: "string list option"
  gg_seed :: "i64 option"
  gg_response_mime_type :: "string option"
  gg_response_schema :: "value option"

record GeminiFunctionDeclaration =
  gd_name :: string
  gd_description :: "string option"
  gd_parameters :: "value option"

record GeminiToolDeclaration =
  gt_function_declarations :: "GeminiFunctionDeclaration list"

record GeminiRequest =
  gq_model :: "string option"
  gq_contents :: "GeminiContent list"
  gq_system_instruction :: "GeminiContent option"
  gq_generation_config :: "GeminiGenerationConfig option"
  gq_tools :: "GeminiToolDeclaration list option"
  gq_tool_config :: "value option"

record GeminiCandidate =
  ga_content :: GeminiContent
  ga_finish_reason :: "string option"
  ga_index :: "u32 option"

record GeminiUsageMetadata =
  gu_prompt_token_count :: "u64 option"
  gu_candidates_token_count :: "u64 option"
  gu_total_token_count :: "u64 option"

record GeminiResponse =
  gs_candidates :: "GeminiCandidate list"
  gs_usage_metadata :: "GeminiUsageMetadata option"
  gs_model_version :: "string option"

record gemini_serde =
  from_gemini_text :: "string \<Rightarrow> string + GeminiResponse"
  gemini_to_text :: "GeminiResponse \<Rightarrow> string"

section \<open>Constructors of parts\<close>

definition gemini_text :: "string \<Rightarrow> GeminiPart" where
  "gemini_text t = \<lparr>gp_text = Some t, gp_thought = None, gp_thought_signature = None,
     gp_inline_data = None, gp_function_call = None, gp_function_response = None\<rparr>"

definition gemini_thinking :: "string \<Rightarrow> GeminiPart" where
  "gemini_thinking t = (gemini_text t)\<lparr>gp_thought := Some True\<rparr>"

definition with_thought_signature :: "string option \<Rightarrow> GeminiPart \<Rightarrow> GeminiPart" where
  "with_thought_signature s p = p\<lparr>gp_thought_signature := s\<rparr>"

definition gemini_inline_data :: "string \<Rightarrow> string \<Rightarrow> GeminiPart" where
  "gemini_inline_data mime_type data = \<lparr>gp_text = None, gp_thought = None, gp_thought_signature = None,
     gp_inline_data = Some \<lparr>gi_mime_type = mime_type, gi_data = data\<rparr>, gp_function_call = None,
     gp_function_response = None\<rparr>"

definition gemini_function_call :: "string \<Rightarrow> value \<Rightarrow> GeminiPart" where
  "gemini_function_call name args = \<lparr>gp_text = None, gp_thought = None, gp_thought_signature = None,
     gp_inline_data = None, gp_function_call = Some \<lparr>gf_name = name, gf_args = args, gf_id = None\<rparr>,
     gp_function_response = None\<rparr>"

definition gemini_function_call_with_id :: "string \<Rightarrow> value \<Rightarrow> string \<Rightarrow> GeminiPart" where
  "gemini_function_call_with_id name args i = \<lparr>gp_text = None, gp_thought = None,
     gp_thought_signature = None, gp_inline_data = None,
     gp_function_call = Some \<lparr>gf_name = name, gf_args = args, gf_id = Some i\<rparr>,
     gp_function_response = None\<rparr>"

definition gemini_function_response :: "string \<Rightarrow> value \<Rightarrow> GeminiPart" where
  "gemini_function_response name response = \<lparr>gp_text = None, gp_thought = None,
     gp_thought_signature = None, gp_inline_data = None, gp_function_call = None,
     gp_function_response = Some \<lparr>gr_name = name, gr_response = response, gr_id = None\<rparr>\<rparr>"

definition gemini_function_response_with_id :: "string \<Rightarrow> value \<Rightarrow> string \<Rightarrow> GeminiPart" where
  "gemini_function_response_with_id name response i = \<lparr>gp_text = None, gp_thought = None,
     gp_thought_signature = None, gp_inline_data = None, gp_function_call = None,
     gp_function_response = Some \<lparr>gr_name = name, gr_response = response, gr_id = Some i\<rparr>\<rparr>"

lemmas gemini_part_defs = gemini_text_def gemini_thinking_def with_thought_signature_def
  gemini_inline_data_def gemini_function_call_with_id_def gemini_function_response_with_id_def

end
