(* ===== verification/Gemini_Read.thy ===== *)
theory Gemini_Read
  imports Gemini_Wire
begin

text \<open>
  Gemini to IR: \<open>crates/core/src/formats/gemini/read.rs\<close>.  \<open>new_uuid\<close> draws the next identifier of the
  supply \<open>U\<close>; a counter is passed along the loops.
\<close>

type_synonym id_supply = "nat \<Rightarrow> string"

definition draw_or :: "id_supply \<Rightarrow> string option \<Rightarrow> nat \<Rightarrow> string \<times> nat" where
  "draw_or U x k = (case x of Some i \<Rightarrow> (i, k) | None \<Rightarrow> (U k, Suc k))"

definition gemini_read_system :: "GeminiContent \<Rightarrow> IrPart list" where
  "gemini_read_system content =
     (let text = join [] (List.map_filter gp_text (gc_parts content))
      in if text = [] then [] else [Text text None])"

definition gemini_read_tool :: "GeminiFunctionDeclaration \<Rightarrow> IrTool" where
  "gemini_read_tool fd =
     \<lparr>it_name = gd_name fd, it_description = unwrap_or [] (gd_description fd),
      it_schema = unwrap_or (jobj [(''type'', JString ''object'')]) (gd_parameters fd),
      it_strict = None\<rparr>"

definition gemini_read_tool_choice :: "value \<Rightarrow> IrToolChoice" where
  "gemini_read_tool_choice config =
     (case jget config ''functionCallingConfig'' of
        None \<Rightarrow> ChoiceAuto
      | Some fcc \<Rightarrow>
          let allowed = unwrap_or [] (map_option (List.map_filter as_str)
                (Option.bind (jget fcc ''allowedFunctionNames'') as_array))
          in case allowed of
               [name] \<Rightarrow> ChoiceNamed name
             | _ \<Rightarrow>
                 (case jget_str fcc ''mode'' of
                    Some mode \<Rightarrow>
                      if mode = ''NONE'' then ChoiceNone
                      else if mode = ''ANY'' then ChoiceRequired
                      else ChoiceAuto
                  | None \<Rightarrow> ChoiceAuto))"

definition gemini_signed :: "string option \<Rightarrow> Signature option" where
  "gemini_signed s = map_option (\<lambda>v. \<lparr>sig_by = Gemini, sig_value = v\<rparr>) s"

text \<open>The text of a part, as thinking or as content, and its function call.\<close>

definition gemini_text_part :: "GeminiPart \<Rightarrow> IrPart list" where
  "gemini_text_part part =
     (case gp_text part of
        Some text \<Rightarrow>
          if text \<noteq> [] then
            [if gp_thought part = Some True then Thinking text (gemini_signed (gp_thought_signature part))
             else Text text (gemini_signed (gp_thought_signature part))]
          else []
      | None \<Rightarrow> [])"

definition gemini_call_part :: "id_supply \<Rightarrow> GeminiPart \<Rightarrow> nat \<Rightarrow> IrPart list \<times> nat" where
  "gemini_call_part U part k =
     (case gp_function_call part of
        Some fc \<Rightarrow>
          (let (i, k1) = draw_or U (gf_id fc) k
           in ([ToolCall i (gf_name fc) (gf_args fc) (gemini_signed (gp_thought_signature part))], k1))
      | None \<Rightarrow> ([], k))"

text \<open>One turn of the loop over \<open>content.parts\<close>: the parts, the hoisted results and the counter.\<close>

definition gemini_read_part ::
  "serde \<Rightarrow> id_supply \<Rightarrow> Role \<Rightarrow> GeminiPart \<Rightarrow> IrPart list \<times> IrPart list \<times> nat \<Rightarrow>
     IrPart list \<times> IrPart list \<times> nat" where
  "gemini_read_part S U role part acc =
     (case acc of (parts, results, k) \<Rightarrow>
        (case gp_function_response part of
           Some fr \<Rightarrow>
             if role = User then
               (let (i, k1) = draw_or U (gr_id fr) k;
                    is_error = (case jget (gr_response fr) ''error'' of
                                  Some e \<Rightarrow> \<not> is_null e | None \<Rightarrow> False)
                in (parts,
                    results @ [ToolResult i is_error
                      [Text (extract_function_response_text S (gr_response fr)) None]], k1))
             else (parts, results, k)
         | None \<Rightarrow>
             let parts1 = parts @ gemini_text_part part
             in if role = Assistant then
                  (let (calls, k1) = gemini_call_part U part k in (parts1 @ calls, results, k1))
                else
                  (case gp_inline_data part of
                     Some inline \<Rightarrow>
                       (parts1 @ [Image (''data:'' @ gi_mime_type inline @ '';base64,'' @ gi_data inline)
                          (gi_mime_type inline) (Some (gi_data inline)) None], results, k)
                   | None \<Rightarrow> (parts1, results, k))))"

definition gemini_read_message ::
  "serde \<Rightarrow> id_supply \<Rightarrow> GeminiContent \<Rightarrow> nat \<Rightarrow> IrMessage option \<times> nat" where
  "gemini_read_message S U content k =
     (let role = (if gc_role content = Some ''model'' then Assistant else User);
          (parts, results, k1) = fold (gemini_read_part S U role) (gc_parts content) ([], [], k);
          all = results @ parts
      in (then_some (all \<noteq> []) \<lparr>im_role = role, im_parts = all\<rparr>, k1))"

fun gemini_read_messages :: "serde \<Rightarrow> id_supply \<Rightarrow> GeminiContent list \<Rightarrow> nat \<Rightarrow> IrMessage list" where
  "gemini_read_messages S U [] k = []"
| "gemini_read_messages S U (c # cs) k =
     (let (m, k1) = gemini_read_message S U c k
      in (case m of Some msg \<Rightarrow> [msg] | None \<Rightarrow> []) @ gemini_read_messages S U cs k1)"

definition gemini_read_extra ::
  "i64 option \<Rightarrow> string option \<Rightarrow> value option \<Rightarrow> NamespacedExtra" where
  "gemini_read_extra seed mime schema =
     extra_put_opt Gemini ''responseSchema'' schema
       (extra_put_opt Gemini ''responseMimeType'' (map_option JString mime)
         (extra_put_opt Gemini ''seed'' (map_option json_i64 seed) []))"

definition gemini_read :: "serde \<Rightarrow> id_supply \<Rightarrow> GeminiRequest \<Rightarrow> IrRequest" where
  "gemini_read S U req =
     (let (sampling, extra) =
        (case gq_generation_config req of
           Some g \<Rightarrow>
             (\<lparr>sa_max_tokens = gg_max_output_tokens g, sa_temperature = gg_temperature g,
               sa_top_p = gg_top_p g, sa_top_k = gg_top_k g,
               sa_stop = unwrap_or [] (gg_stop_sequences g)\<rparr>,
              gemini_read_extra (gg_seed g) (gg_response_mime_type g) (gg_response_schema g))
         | None \<Rightarrow>
             (\<lparr>sa_max_tokens = None, sa_temperature = None, sa_top_p = None, sa_top_k = None,
               sa_stop = []\<rparr>, []))
      in \<lparr>ir_model = unwrap_or [] (gq_model req),
          ir_system = unwrap_or [] (map_option gemini_read_system (gq_system_instruction req)),
          ir_messages = gemini_read_messages S U (gq_contents req) 0,
          ir_tools = map gemini_read_tool
            (concat (map gt_function_declarations (unwrap_or [] (gq_tools req)))),
          ir_tool_choice = map_option gemini_read_tool_choice (gq_tool_config req),
          ir_sampling = sampling,
          ir_stream = False,
          ir_reasoning = ReasoningOff,
          ir_extra = extra\<rparr>)"

definition gemini_reply_part :: "id_supply \<Rightarrow> GeminiPart \<Rightarrow> IrPart list \<times> nat \<Rightarrow> IrPart list \<times> nat" where
  "gemini_reply_part U part acc =
     (case acc of (parts, k) \<Rightarrow>
        let (calls, k1) = gemini_call_part U part k
        in (parts @ gemini_text_part part @ calls, k1))"

definition gemini_read_response :: "id_supply \<Rightarrow> GeminiResponse \<Rightarrow> IrResponse" where
  "gemini_read_response U resp =
     (let (parts, stop_reason) =
        (case gs_candidates resp of
           candidate # rest \<Rightarrow>
             (fst (fold (gemini_reply_part U) (gc_parts (ga_content candidate)) ([], 0)),
              unwrap_or EndTurn (map_option from_gemini (ga_finish_reason candidate)))
         | [] \<Rightarrow> ([], EndTurn));
          usage =
        (case gs_usage_metadata resp of
           Some u \<Rightarrow> usage_default\<lparr>us_input_tokens := unwrap_or 0 (gu_prompt_token_count u),
             us_output_tokens := unwrap_or 0 (gu_candidates_token_count u)\<rparr>
         | None \<Rightarrow> usage_default)
      in \<lparr>re_id = None, re_model = unwrap_or [] (gs_model_version resp), re_parts = parts,
          re_stop_reason = stop_reason, re_stop_sequence = None, re_usage = usage\<rparr>)"

end
