(* ===== verification/Gemini_Build.thy ===== *)
theory Gemini_Build
  imports Gemini_Read
begin

text \<open>
  IR to Gemini: \<open>crates/core/src/formats/gemini/build.rs\<close>, and the proof that the builder keeps the
  isolation contract between vendors.
\<close>

section \<open>Operations\<close>

definition gemini_signature :: "Signature option \<Rightarrow> string option" where
  "gemini_signature s =
     (case s of Some sg \<Rightarrow> if sig_by sg = Gemini then Some (sig_value sg) else None | None \<Rightarrow> None)"

definition gemini_push_part :: "IrPart \<Rightarrow> GeminiPart list \<Rightarrow> GeminiPart list" where
  "gemini_push_part part out =
     (case part of
        Text text signature \<Rightarrow>
          if text \<noteq> [] then out @ [with_thought_signature (gemini_signature signature) (gemini_text text)]
          else out
      | Image url media_type data detail \<Rightarrow>
          out @ [case parse_data_url url of
                   Some (mime_type, d) \<Rightarrow> gemini_inline_data mime_type d
                 | None \<Rightarrow> gemini_text url]
      | ToolCall i name args signature \<Rightarrow>
          out @ [with_thought_signature (gemini_signature signature)
                   (gemini_function_call_with_id name args i)]
      | ToolResult cid is_error content \<Rightarrow>
          (let text = join [] (List.map_filter part_text_opt content)
           in out @ [gemini_function_response_with_id ''function'' (jobj [(''result'', JString text)]) cid])
      | Thinking text signature \<Rightarrow>
          if text \<noteq> [] then
            (case gemini_signature signature of
               Some sg \<Rightarrow> out @ [with_thought_signature (Some sg) (gemini_thinking text)]
             | None \<Rightarrow> out @ [gemini_text text])
          else out
      | Sealed by raw \<Rightarrow> out)"

definition gemini_build_parts :: "IrPart list \<Rightarrow> GeminiPart list" where
  "gemini_build_parts parts = fold gemini_push_part parts []"

definition gemini_take_field :: "string \<times> value \<Rightarrow> GeminiGenerationConfig \<Rightarrow> GeminiGenerationConfig" where
  "gemini_take_field kv config =
     (case kv of (name, v) \<Rightarrow>
        if name = ''seed'' then config\<lparr>gg_seed := as_i64 v\<rparr>
        else if name = ''responseMimeType'' then config\<lparr>gg_response_mime_type := as_str v\<rparr>
        else if name = ''responseSchema'' then config\<lparr>gg_response_schema := Some v\<rparr>
        else config)"

definition gemini_build_generation_config ::
  "Sampling \<Rightarrow> (string \<times> value) list \<Rightarrow> GeminiGenerationConfig option" where
  "gemini_build_generation_config sampling extra =
     (let config0 = \<lparr>gg_temperature = sa_temperature sampling, gg_top_p = sa_top_p sampling,
            gg_top_k = sa_top_k sampling, gg_max_output_tokens = sa_max_tokens sampling,
            gg_stop_sequences = then_some (sa_stop sampling \<noteq> []) (sa_stop sampling),
            gg_seed = None, gg_response_mime_type = None, gg_response_schema = None\<rparr>;
          config = fold gemini_take_field extra config0;
          emp = (gg_temperature config = None \<and> gg_top_p config = None \<and> gg_top_k config = None \<and>
            gg_max_output_tokens config = None \<and> gg_stop_sequences config = None \<and>
            gg_seed config = None \<and> gg_response_mime_type config = None \<and> gg_response_schema config = None)
      in then_some (\<not> emp) config)"

definition gemini_build_tools :: "IrTool list \<Rightarrow> GeminiToolDeclaration list option" where
  "gemini_build_tools tools =
     (if tools = [] then None
      else Some [\<lparr>gt_function_declarations =
        map (\<lambda>t. \<lparr>gd_name = it_name t, gd_description = then_some (it_description t \<noteq> []) (it_description t),
                   gd_parameters = Some (it_schema t)\<rparr>) tools\<rparr>])"

definition gemini_build_tool_config :: "IrToolChoice option \<Rightarrow> bool \<Rightarrow> value option" where
  "gemini_build_tool_config choice has_tools =
     Option.bind choice (\<lambda>c.
       map_option (\<lambda>config. jobj [(''functionCallingConfig'', config)])
         (case c of
            ChoiceAuto \<Rightarrow> if has_tools then Some (jobj [(''mode'', JString ''AUTO'')]) else None
          | ChoiceNone \<Rightarrow> Some (jobj [(''mode'', JString ''NONE'')])
          | ChoiceRequired \<Rightarrow> Some (jobj [(''mode'', JString ''ANY'')])
          | ChoiceNamed name \<Rightarrow>
              Some (jobj [(''mode'', JString ''ANY''),
                          (''allowedFunctionNames'', JArray [JString name])])))"

definition gemini_system_part :: "IrPart \<Rightarrow> GeminiPart option" where
  "gemini_system_part part =
     (case part of Text text s \<Rightarrow> if text \<noteq> [] then Some (gemini_text text) else None | _ \<Rightarrow> None)"

definition gemini_build_content :: "IrMessage \<Rightarrow> GeminiContent" where
  "gemini_build_content msg =
     \<lparr>gc_role = Some (case im_role msg of User \<Rightarrow> ''user'' | Assistant \<Rightarrow> ''model''),
      gc_parts = gemini_build_parts (im_parts msg)\<rparr>"

definition gemini_build :: "IrRequest \<Rightarrow> GeminiRequest" where
  "gemini_build ir =
     (let config_extra = fst (extra_take Gemini (ir_extra ir));
          parts = List.map_filter gemini_system_part (ir_system ir);
          tools = gemini_build_tools (ir_tools ir)
      in \<lparr>gq_model = Some (ir_model ir),
          gq_contents = map gemini_build_content (ir_messages ir),
          gq_system_instruction = then_some (parts \<noteq> []) \<lparr>gc_role = None, gc_parts = parts\<rparr>,
          gq_generation_config = gemini_build_generation_config (ir_sampling ir) config_extra,
          gq_tools = tools,
          gq_tool_config = gemini_build_tool_config (ir_tool_choice ir) (tools \<noteq> None)\<rparr>)"

definition gemini_reply_kept :: "IrPart \<Rightarrow> bool" where
  "gemini_reply_kept part \<longleftrightarrow>
     (case part of
        Text t s \<Rightarrow> True | ToolCall i n a s \<Rightarrow> True | Thinking t s \<Rightarrow> True
      | Image u mt d det \<Rightarrow> False | ToolResult c e ps \<Rightarrow> False | Sealed b raw \<Rightarrow> False)"

definition gemini_build_response :: "IrResponse \<Rightarrow> GeminiResponse" where
  "gemini_build_response ir =
     (let parts = fold gemini_push_part (filter gemini_reply_kept (re_parts ir)) [];
          total = total_tokens (re_usage ir)
      in \<lparr>gs_candidates = [\<lparr>ga_content = \<lparr>gc_role = Some ''model'', gc_parts = parts\<rparr>,
            ga_finish_reason = Some (to_gemini (re_stop_reason ir)), ga_index = Some 0\<rparr>],
          gs_usage_metadata = Some \<lparr>gu_prompt_token_count = Some (us_input_tokens (re_usage ir)),
            gu_candidates_token_count = Some (us_output_tokens (re_usage ir)),
            gu_total_token_count = Some total\<rparr>,
          gs_model_version = Some (re_model ir)\<rparr>)"

section \<open>Shape\<close>

definition gemini_wire_part :: "IrPart \<Rightarrow> GeminiPart list" where
  "gemini_wire_part p = gemini_push_part p []"

lemma gemini_push_append: "gemini_push_part p out = out @ gemini_wire_part p"
  by (cases p) (auto simp: gemini_wire_part_def gemini_push_part_def Let_def split: option.splits)

lemma gemini_push_fold: "fold gemini_push_part ps out = out @ concat (map gemini_wire_part ps)"
  by (induction ps arbitrary: out) (simp_all add: gemini_push_append)

section \<open>Vendor isolation\<close>

lemma gemini_signature_mask [simp]: "gemini_signature (mask_sig Gemini s) = gemini_signature s"
  by (cases s) (auto simp: gemini_signature_def mask_sig_def)

lemma gemini_wire_part_mask [simp]: "gemini_wire_part (mask_part Gemini p) = gemini_wire_part p"
  by (cases p) (auto simp: gemini_wire_part_def gemini_push_part_def split: option.splits)

lemma gemini_system_part_mask [simp]: "gemini_system_part (mask_part f p) = gemini_system_part p"
  by (cases p) (auto simp: gemini_system_part_def)

interpretation gemini_builder: request_builder Gemini gemini_build
  by unfold_locales
    (simp add: gemini_build_def Let_def gemini_build_content_def gemini_build_parts_def
      gemini_push_fold comp_def map_filter_map)

end
