(* ===== verification/Gemini_Roundtrip.thy ===== *)
theory Gemini_Roundtrip
  imports Gemini_Build
begin

text \<open>
  What a request or a reply looks like after a trip to the Gemini wire and back.
\<close>

section \<open>Normal form\<close>

definition gemini_sig_ok :: "Signature option \<Rightarrow> bool" where
  "gemini_sig_ok s \<longleftrightarrow> pred_option (\<lambda>sg. sig_by sg = Gemini) s"

definition is_result :: "IrPart \<Rightarrow> bool" where
  "is_result p \<longleftrightarrow> (case p of ToolResult c e ps \<Rightarrow> True | _ \<Rightarrow> False)"

definition gemini_part_ok :: "Role \<Rightarrow> IrPart \<Rightarrow> bool" where
  "gemini_part_ok role p \<longleftrightarrow>
     (case p of
        Text t s \<Rightarrow> t \<noteq> [] \<and> gemini_sig_ok s
      | Thinking t s \<Rightarrow> t \<noteq> [] \<and> s \<noteq> None \<and> gemini_sig_ok s
      | ToolCall i n a s \<Rightarrow> role = Assistant \<and> gemini_sig_ok s
      | Image url mt (Some d) None \<Rightarrow>
          role = User \<and> CHR '';'' \<notin> set mt \<and> url = ''data:'' @ mt @ '';base64,'' @ d
      | ToolResult c e ps \<Rightarrow> role = User
      | _ \<Rightarrow> False)"

definition gemini_message_ok :: "IrMessage \<Rightarrow> bool" where
  "gemini_message_ok m \<longleftrightarrow>
     im_parts m \<noteq> [] \<and> list_all (gemini_part_ok (im_role m)) (im_parts m) \<and>
     im_parts m = filter is_result (im_parts m) @ filter (\<lambda>p. \<not> is_result p) (im_parts m)"

definition gemini_normal :: "IrRequest \<Rightarrow> bool" where
  "gemini_normal ir \<longleftrightarrow>
     (ir_system ir = [] \<or> (\<exists>t. ir_system ir = [Text t None] \<and> t \<noteq> [])) \<and>
     list_all gemini_message_ok (ir_messages ir) \<and>
     list_all (\<lambda>t. it_strict t = None) (ir_tools ir) \<and>
     (ir_tool_choice ir \<noteq> Some ChoiceAuto \<or> ir_tools ir \<noteq> []) \<and>
     \<not> ir_stream ir \<and> ir_reasoning ir = ReasoningOff \<and>
     (\<exists>seed mime schema. ir_extra ir = gemini_read_extra seed mime schema)"

text \<open>
  A tool result is written as \<open>{"result": text}\<close> and read back as the JSON text of that field, so its
  text gains quotes and escapes; the error flag is not written at all.
\<close>

definition gemini_seen_part :: "serde \<Rightarrow> IrPart \<Rightarrow> IrPart" where
  "gemini_seen_part S p =
     (case p of
        ToolResult c e ps \<Rightarrow>
          ToolResult c False [Text (to_text S (JString (concat (List.map_filter part_text_opt ps)))) None]
      | _ \<Rightarrow> p)"

definition gemini_seen_message :: "serde \<Rightarrow> IrMessage \<Rightarrow> IrMessage" where
  "gemini_seen_message S m = m\<lparr>im_parts := map (gemini_seen_part S) (im_parts m)\<rparr>"

section \<open>Parts and messages\<close>

lemma parse_data_url_built:
  "CHR '';'' \<notin> set mt \<Longrightarrow> parse_data_url (''data:'' @ mt @ '';base64,'' @ d) = Some (mt, d)"
proof -
  assume "CHR '';'' \<notin> set mt"
  then have "split_once '';'' (mt @ '';base64,'' @ d) = Some (mt, ''base64,'' @ d)"
    using split_once_char [of "CHR '';''" mt "''base64,'' @ d"] by simp
  moreover have "strip_prefix ''data:'' (''data:'' @ r) = Some r"
    "strip_prefix ''base64,'' (''base64,'' @ r) = Some r" for r
    by (rule strip_prefix_append)+
  ultimately show ?thesis by (simp add: parse_data_url_def)
qed

lemma gemini_sig_built: "gemini_sig_ok s \<Longrightarrow> gemini_signed (gemini_signature s) = s"
  by (cases s) (auto simp: gemini_sig_ok_def gemini_signed_def gemini_signature_def)

lemma gemini_text_built:
  assumes "t \<noteq> []" "gemini_sig_ok s"
  shows "fold (gemini_read_part S U role) (gemini_wire_part (Text t s)) (parts, results, k) =
    (parts @ [Text t s], results, k)"
  using assms gemini_sig_built [OF assms(2)]
  by (cases role)
    (simp_all add: gemini_wire_part_def gemini_push_part_def gemini_part_defs gemini_read_part_def
      gemini_text_part_def gemini_call_part_def)

lemma gemini_thinking_built:
  assumes "t \<noteq> []" "gemini_sig_ok s" "s \<noteq> None"
  shows "fold (gemini_read_part S U role) (gemini_wire_part (Thinking t s)) (parts, results, k) =
    (parts @ [Thinking t s], results, k)"
proof -
  obtain sg where s: "s = Some sg" "sig_by sg = Gemini"
    using assms(2,3) by (auto simp: gemini_sig_ok_def)
  then have "gemini_signature s = Some (sig_value sg)" "gemini_signed (Some (sig_value sg)) = s"
    by (auto simp: gemini_signature_def gemini_signed_def)
  with assms(1) show ?thesis
    by (cases role)
      (simp_all add: gemini_wire_part_def gemini_push_part_def gemini_part_defs gemini_read_part_def
        gemini_text_part_def gemini_call_part_def)
qed

lemma gemini_call_built:
  assumes "gemini_sig_ok s"
  shows "fold (gemini_read_part S U Assistant) (gemini_wire_part (ToolCall i n a s)) (parts, results, k) =
    (parts @ [ToolCall i n a s], results, k)"
  using gemini_sig_built [OF assms]
  by (simp add: gemini_wire_part_def gemini_push_part_def gemini_part_defs gemini_read_part_def
      gemini_text_part_def gemini_call_part_def draw_or_def)

lemma gemini_image_built:
  assumes "CHR '';'' \<notin> set mt" "url = ''data:'' @ mt @ '';base64,'' @ d"
  shows "fold (gemini_read_part S U User) (gemini_wire_part (Image url mt (Some d) None)) (parts, results, k) =
    (parts @ [Image url mt (Some d) None], results, k)"
  using parse_data_url_built [OF assms(1), of d] assms(2)
  by (simp add: gemini_wire_part_def gemini_push_part_def gemini_part_defs gemini_read_part_def
      gemini_text_part_def)

lemma gemini_result_built:
  "fold (gemini_read_part S U User) (gemini_wire_part (ToolResult c e ps)) (parts, results, k) =
    (parts, results @ [gemini_seen_part S (ToolResult c e ps)], k)"
  by (simp add: gemini_wire_part_def gemini_push_part_def gemini_part_defs gemini_read_part_def
      gemini_seen_part_def extract_function_response_text_def draw_or_def Let_def)

lemma gemini_part_built:
  assumes "gemini_part_ok role p"
  shows "fold (gemini_read_part S U role) (gemini_wire_part p) (parts, results, k) =
    (if is_result p then (parts, results @ [gemini_seen_part S p], k) else (parts @ [p], results, k))"
proof (cases p)
  case (Image url mt d det)
  with assms show ?thesis
    by (cases d; cases det)
      (auto simp: gemini_part_ok_def is_result_def simp del: append.simps intro!: gemini_image_built)
qed (use assms in \<open>auto simp: gemini_part_ok_def is_result_def gemini_text_built gemini_thinking_built
    gemini_call_built gemini_result_built\<close>)

lemma gemini_parts_built:
  "list_all (gemini_part_ok role) ps \<Longrightarrow>
     fold (gemini_read_part S U role) (concat (map gemini_wire_part ps)) (parts, results, k) =
       (parts @ filter (\<lambda>p. \<not> is_result p) ps,
        results @ map (gemini_seen_part S) (filter is_result ps), k)"
  by (induction ps arbitrary: parts results) (simp_all add: gemini_part_built)

lemma gemini_seen_other: "\<not> is_result p \<Longrightarrow> gemini_seen_part S p = p"
  by (cases p) (auto simp: gemini_seen_part_def is_result_def)

lemma gemini_message_built:
  assumes "gemini_message_ok m"
  shows "gemini_read_message S U (gemini_build_content m) k = (Some (gemini_seen_message S m), k)"
proof -
  let ?ps = "im_parts m"
  have ok: "?ps \<noteq> []" "list_all (gemini_part_ok (im_role m)) ?ps"
    and ord: "?ps = filter is_result ?ps @ filter (\<lambda>p. \<not> is_result p) ?ps"
    using assms by (auto simp: gemini_message_ok_def)
  have "map (gemini_seen_part S) (filter (\<lambda>p. \<not> is_result p) ?ps) = filter (\<lambda>p. \<not> is_result p) ?ps"
    by (intro map_idI) (simp add: gemini_seen_other)
  then have all: "map (gemini_seen_part S) (filter is_result ?ps) @ filter (\<lambda>p. \<not> is_result p) ?ps =
      map (gemini_seen_part S) ?ps"
    by (metis map_append ord)
  have "fold (gemini_read_part S U (im_role m)) (gc_parts (gemini_build_content m)) ([], [], k) =
      (filter (\<lambda>p. \<not> is_result p) ?ps, map (gemini_seen_part S) (filter is_result ?ps), k)"
    using gemini_parts_built [OF ok(2), of S U "[]" "[]" k]
    by (simp add: gemini_build_content_def gemini_build_parts_def gemini_push_fold)
  moreover have "(if gc_role (gemini_build_content m) = Some ''model'' then Assistant else User) = im_role m"
    by (cases "im_role m") (simp_all add: gemini_build_content_def)
  ultimately show ?thesis
    using ok(1) ord by (auto simp: gemini_read_message_def all gemini_seen_message_def)
qed

lemma gemini_messages_built:
  "list_all gemini_message_ok ms \<Longrightarrow>
     gemini_read_messages S U (map gemini_build_content ms) k = map (gemini_seen_message S) ms"
  by (induction ms) (simp_all add: gemini_message_built)

section \<open>Requests\<close>

lemma gemini_config_built:
  assumes "extra = gemini_read_extra seed mime schema"
  shows "(case gemini_build_generation_config sa (fst (extra_take Gemini extra)) of
      Some g \<Rightarrow>
        (\<lparr>sa_max_tokens = gg_max_output_tokens g, sa_temperature = gg_temperature g,
          sa_top_p = gg_top_p g, sa_top_k = gg_top_k g, sa_stop = unwrap_or [] (gg_stop_sequences g)\<rparr>,
         gemini_read_extra (gg_seed g) (gg_response_mime_type g) (gg_response_schema g))
    | None \<Rightarrow>
        (\<lparr>sa_max_tokens = None, sa_temperature = None, sa_top_p = None, sa_top_k = None, sa_stop = []\<rparr>, [])) =
    (sa, extra)"
proof -
  let ?c = "\<lparr>gg_temperature = sa_temperature sa, gg_top_p = sa_top_p sa, gg_top_k = sa_top_k sa,
    gg_max_output_tokens = sa_max_tokens sa, gg_stop_sequences = then_some (sa_stop sa \<noteq> []) (sa_stop sa),
    gg_seed = seed, gg_response_mime_type = mime, gg_response_schema = schema\<rparr>"
  have "fold gemini_take_field (fst (extra_take Gemini extra))
      (?c\<lparr>gg_seed := None, gg_response_mime_type := None, gg_response_schema := None\<rparr>) = ?c"
    unfolding assms
    by (cases seed; cases mime; cases schema;
        simp add: gemini_read_extra_def extra_put_opt_def extra_take_def extra_takes_def gemini_take_field_def)
  then show ?thesis
    by (cases sa) (auto simp: gemini_build_generation_config_def Let_def then_some_def assms
        gemini_read_extra_def extra_put_opt_def)
qed

lemma gemini_tools_built:
  "list_all (\<lambda>t. it_strict t = None) ts \<Longrightarrow>
     map gemini_read_tool (concat (map gt_function_declarations (unwrap_or [] (gemini_build_tools ts)))) = ts"
  by (auto simp: gemini_build_tools_def gemini_read_tool_def list_all_iff then_some_def intro!: map_idI)

lemma gemini_tool_config_built:
  "c \<noteq> Some ChoiceAuto \<or> b \<Longrightarrow> map_option gemini_read_tool_choice (gemini_build_tool_config c b) = c"
  by (cases c)
    (auto simp: gemini_build_tool_config_def gemini_read_tool_choice_def get_str_def
      split: IrToolChoice.splits)

text \<open>C6: A request in Gemini normal form comes back from the Gemini wire unchanged but for its tool
  results: their text comes back as the JSON text of itself (quoted and escaped) and their error flag is
  lost.\<close>

theorem gemini_request_roundtrip:
  assumes "gemini_normal ir"
  shows "gemini_read S U (gemini_build ir) =
    ir\<lparr>ir_messages := map (gemini_seen_message S) (ir_messages ir)\<rparr>"
proof -
  note n = assms [unfolded gemini_normal_def]
  obtain seed mime schema where ex: "ir_extra ir = gemini_read_extra seed mime schema"
    using n by auto
  have sys: "unwrap_or [] (map_option gemini_read_system (gq_system_instruction (gemini_build ir))) = ir_system ir"
    using n by (auto simp: gemini_build_def Let_def gemini_system_part_def gemini_read_system_def
        gemini_text_def)
  have tools: "gq_tools (gemini_build ir) = gemini_build_tools (ir_tools ir)"
    by (simp add: gemini_build_def Let_def)
  have choice: "map_option gemini_read_tool_choice (gq_tool_config (gemini_build ir)) = ir_tool_choice ir"
    using n by (simp add: gemini_build_def Let_def gemini_tool_config_built gemini_build_tools_def)
  have msgs: "gemini_read_messages S U (gq_contents (gemini_build ir)) 0 =
      map (gemini_seen_message S) (ir_messages ir)"
    using n by (simp add: gemini_build_def Let_def gemini_messages_built)
  have conf: "gq_generation_config (gemini_build ir) =
      gemini_build_generation_config (ir_sampling ir) (fst (extra_take Gemini (ir_extra ir)))"
    by (simp add: gemini_build_def Let_def)
  show ?thesis
    unfolding gemini_read_def conf gemini_config_built [OF ex] sys tools choice msgs
    using n by (simp add: gemini_tools_built) (simp add: gemini_build_def Let_def)
qed

definition gemini_demo_request :: IrRequest where
  "gemini_demo_request =
     \<lparr>ir_model = ''m'', ir_system = [Text ''be brief'' None],
      ir_messages =
        [\<lparr>im_role = Assistant, im_parts = [Thinking ''hm'' (Some \<lparr>sig_by = Gemini, sig_value = ''s''\<rparr>),
            ToolCall ''t1'' ''f'' (jobj []) None]\<rparr>,
         \<lparr>im_role = User, im_parts = [ToolResult ''t1'' True [Text ''ok'' None], Text ''go on'' None]\<rparr>],
      ir_tools = [], ir_tool_choice = None,
      ir_sampling = \<lparr>sa_max_tokens = Some 100, sa_temperature = None, sa_top_p = None,
        sa_top_k = Some 4, sa_stop = []\<rparr>,
      ir_stream = False, ir_reasoning = ReasoningOff,
      ir_extra = gemini_read_extra (Some 7) None None\<rparr>"

theorem gemini_request_roundtrip_witness:
  "gemini_read \<lparr>from_text = (\<lambda>s. Inl s), to_text = (\<lambda>v. ''\"ok\"'')\<rparr> (\<lambda>n. []) (gemini_build gemini_demo_request) =
   gemini_demo_request\<lparr>ir_messages :=
     map (gemini_seen_message \<lparr>from_text = (\<lambda>s. Inl s), to_text = (\<lambda>v. ''\"ok\"'')\<rparr>)
       (ir_messages gemini_demo_request)\<rparr>"
proof (rule gemini_request_roundtrip)
  show "gemini_normal gemini_demo_request"
    unfolding gemini_normal_def gemini_demo_request_def
    by (auto simp: gemini_message_ok_def gemini_part_ok_def gemini_sig_ok_def is_result_def)
qed

section \<open>Replies\<close>

definition gemini_reply_ok :: "IrPart \<Rightarrow> bool" where
  "gemini_reply_ok p \<longleftrightarrow> gemini_part_ok Assistant p"

lemma gemini_reply_part_built:
  assumes "gemini_reply_ok p"
  shows "gemini_reply_kept p" "fold (gemini_reply_part U) (gemini_wire_part p) (parts, k) = (parts @ [p], k)"
proof -
  have kind: "gemini_reply_kept p \<and> \<not> is_result p \<and> (\<forall>w \<in> set (gemini_wire_part p). gp_function_response w = None)"
    using assms
    by (cases p)
      (auto simp: gemini_reply_ok_def gemini_part_ok_def gemini_reply_kept_def is_result_def
        gemini_wire_part_def gemini_push_part_def gemini_part_defs split: option.splits)
  have "fst (fold (gemini_read_part S U Assistant) ws (parts, results, k)) = fst (fold (gemini_reply_part U) ws (parts, k)) \<and>
      snd (snd (fold (gemini_read_part S U Assistant) ws (parts, results, k))) = snd (fold (gemini_reply_part U) ws (parts, k))"
    if "\<forall>w \<in> set ws. gp_function_response w = None" for ws S results
    using that
    by (induction ws arbitrary: parts k)
      (auto simp: gemini_read_part_def gemini_reply_part_def split: prod.splits)
  from this [of "gemini_wire_part p" undefined "[]"] gemini_part_built [of Assistant p undefined U parts "[]" k] kind assms
  show "gemini_reply_kept p" "fold (gemini_reply_part U) (gemini_wire_part p) (parts, k) = (parts @ [p], k)"
    by (simp_all add: gemini_reply_ok_def prod_eq_iff)
qed

lemma gemini_reply_parts_built:
  "list_all gemini_reply_ok ps \<Longrightarrow>
     fold (gemini_reply_part U) (concat (map gemini_wire_part (filter gemini_reply_kept ps))) (parts, k) =
       (parts @ ps, k)"
  by (induction ps arbitrary: parts) (simp_all add: gemini_reply_part_built)

text \<open>A reply of Gemini-signed or unsigned text, Gemini-signed thinking and tool calls comes back from
  the Gemini wire with the same parts, model and token counts; a tool-use or stop-sequence end comes back
  as a plain end of turn, since Gemini calls all three \<open>STOP\<close>.\<close>

lemma gemini_reply_roundtrip:
  assumes "list_all gemini_reply_ok (re_parts ir)"
    and "re_id ir = None" "re_stop_sequence ir = None"
    and "us_cache_read_tokens (re_usage ir) = None" "us_cache_write_tokens (re_usage ir) = None"
      "us_cache_write_1h (re_usage ir) = None" "us_reasoning_tokens (re_usage ir) = None"
  shows "gemini_read_response U (gemini_build_response ir) =
    ir\<lparr>re_stop_reason := norm_stop Gemini (re_stop_reason ir)\<rparr>"
  using assms gemini_reply_parts_built [OF assms(1), of U "[]" 0]
  by (simp add: gemini_read_response_def gemini_build_response_def Let_def gemini_push_fold usage_default_def)

lemma gemini_reply_roundtrip_witness:
  "gemini_read_response (\<lambda>n. []) (gemini_build_response
     \<lparr>re_id = None, re_model = ''m'',
      re_parts = [Thinking ''hm'' (Some \<lparr>sig_by = Gemini, sig_value = ''s''\<rparr>), ToolCall ''t1'' ''f'' (jobj []) None],
      re_stop_reason = ToolUse, re_stop_sequence = None, re_usage = usage_default\<rparr>) =
   \<lparr>re_id = None, re_model = ''m'',
      re_parts = [Thinking ''hm'' (Some \<lparr>sig_by = Gemini, sig_value = ''s''\<rparr>), ToolCall ''t1'' ''f'' (jobj []) None],
      re_stop_reason = ToolUse, re_stop_sequence = None, re_usage = usage_default\<rparr>
   \<lparr>re_stop_reason := norm_stop Gemini ToolUse\<rparr>"
  using gemini_reply_roundtrip [of "\<lparr>re_id = None, re_model = ''m'',
      re_parts = [Thinking ''hm'' (Some \<lparr>sig_by = Gemini, sig_value = ''s''\<rparr>), ToolCall ''t1'' ''f'' (jobj []) None],
      re_stop_reason = ToolUse, re_stop_sequence = None, re_usage = usage_default\<rparr>" "\<lambda>n. []"]
  by (simp add: gemini_reply_ok_def gemini_part_ok_def gemini_sig_ok_def usage_default_def)

end
