(* ===== verification/Gemini_Stream.thy ===== *)
theory Gemini_Stream
  imports Gemini_Build
begin

text \<open>
  The Gemini stream adapter: \<open>crates/core/src/formats/gemini/stream.rs\<close>.
\<close>

section \<open>Parsing\<close>

text \<open>One turn of the loop over the parts: events, state and the number of identifiers drawn.\<close>

definition gemini_parse_part ::
  "serde \<Rightarrow> env \<Rightarrow> GeminiPart \<Rightarrow> CanonicalStreamEvent list \<times> StreamState \<times> nat \<Rightarrow>
     CanonicalStreamEvent list \<times> StreamState \<times> nat" where
  "gemini_parse_part S E part acc =
     (case acc of (events, st, k) \<Rightarrow>
        let has_text = (case gp_text part of Some t \<Rightarrow> t \<noteq> [] | None \<Rightarrow> False);
            text = unwrap_or [] (gp_text part)
        in if has_text \<and> gp_thought part = Some True then
             (events @ [ThinkingDelta text] @
                (case gp_thought_signature part of
                   Some sg \<Rightarrow> [ThinkingSignature Gemini sg] | None \<Rightarrow> []), st, k)
           else
             (let (events1, st1) =
                (if has_text then (events @ [TextDelta text], st\<lparr>phase := PhaseContent\<rparr>) else (events, st))
              in case gp_function_call part of
                   Some fc \<Rightarrow>
                     (let (index, st2) = next_tool_call_index (st1\<lparr>phase := PhaseToolCalls\<rparr>);
                          (i, k1) = draw_or (env_uuid E) (gf_id fc) k
                      in (events1 @ [ToolCallStart index i (gf_name fc) (gp_thought_signature part)] @
                            (if \<not> is_null (gf_args fc) \<and> gf_args fc \<noteq> jobj []
                             then [ToolCallDelta index (to_text S (gf_args fc))] else []), st2, k1))
                 | None \<Rightarrow> (events1, st1, k)))"

definition gemini_parse_chunk ::
  "serde \<Rightarrow> env \<Rightarrow> GeminiResponse \<Rightarrow> StreamState \<Rightarrow> CanonicalStreamEvent list \<times> StreamState" where
  "gemini_parse_chunk S E chunk st =
     (let (events, st1, k) =
        (if response_id st = None
         then (let i = env_uuid E 0; model = unwrap_or ''gemini'' (gs_model_version chunk)
               in ([Start i model], st\<lparr>response_id := Some i, st_model := Some model\<rparr>, 1))
         else ([], st, 0));
          st2 =
        (case gs_usage_metadata chunk of
           Some usage \<Rightarrow> st1\<lparr>accumulated_usage := Some (usage_default
             \<lparr>us_input_tokens := unwrap_or 0 (gu_prompt_token_count usage),
              us_output_tokens := unwrap_or 0 (gu_candidates_token_count usage)\<rparr>)\<rparr>
         | None \<Rightarrow> st1)
      in case gs_candidates chunk of
           [] \<Rightarrow> (events, st2)
         | candidate # rest \<Rightarrow>
             (let (events1, st3, k1) =
                fold (gemini_parse_part S E) (gc_parts (ga_content candidate)) (events, st2, k)
              in case ga_finish_reason candidate of
                   Some fr \<Rightarrow>
                     (events1 @ [Done (from_gemini fr) (accumulated_usage st3)],
                      st3\<lparr>st_done := True, phase := PhaseDone\<rparr>)
                 | None \<Rightarrow> (events1, st3)))"

definition gemini_parse_sse_event :: "serde \<Rightarrow> gemini_serde \<Rightarrow> parser" where
  "gemini_parse_sse_event S G E event st =
     (case from_gemini_text G (sse_data event) of
        Inl e \<Rightarrow> Inl (SseParse e)
      | Inr chunk \<Rightarrow> Inr (gemini_parse_chunk S E chunk st))"

section \<open>Emitting\<close>

definition make_stream_response ::
  "StreamState \<Rightarrow> GeminiPart list \<Rightarrow> string option \<Rightarrow> GeminiUsageMetadata option \<Rightarrow> GeminiResponse" where
  "make_stream_response st parts fr usage_metadata =
     \<lparr>gs_candidates = [\<lparr>ga_content = \<lparr>gc_role = Some ''model'', gc_parts = parts\<rparr>,
        ga_finish_reason = fr, ga_index = Some 0\<rparr>],
      gs_usage_metadata = usage_metadata, gs_model_version = st_model st\<rparr>"

text \<open>\<open>iter_mut().find(|tc| tc.index == *index)\<close> and \<open>entry.arguments.push_str(..)\<close>: the entry after the
  push and the list with it in place.\<close>

fun push_arguments ::
  "u32 \<Rightarrow> string \<Rightarrow> AccumulatedToolCall list \<Rightarrow> (AccumulatedToolCall \<times> AccumulatedToolCall list) option" where
  "push_arguments index delta [] = None"
| "push_arguments index delta (tc # tcs) =
     (if tc_index tc = index
      then let tc' = tc\<lparr>tc_arguments := tc_arguments tc @ delta\<rparr> in Some (tc', tc' # tcs)
      else map_option (\<lambda>(e, es). (e, tc # es)) (push_arguments index delta tcs))"

definition gemini_emit_frames ::
  "serde \<Rightarrow> env \<Rightarrow> CanonicalStreamEvent \<Rightarrow> StreamState \<Rightarrow> GeminiResponse list \<times> StreamState" where
  "gemini_emit_frames S E event st =
     (case event of
        SealedThinking f raw \<Rightarrow> ([], st)
      | Start i model \<Rightarrow> ([], st\<lparr>response_id := Some i, st_model := Some model\<rparr>)
      | TextDelta t \<Rightarrow> ([make_stream_response st [gemini_text t] None None], st)
      | ToolCallStart index i name signature \<Rightarrow>
          (let st1 = st\<lparr>accumulated_tool_calls := accumulated_tool_calls st @
                 [\<lparr>tc_index = index, tc_id = i, tc_name = name, tc_arguments = []\<rparr>]\<rparr>
           in ([make_stream_response st1
                  [with_thought_signature signature (gemini_function_call_with_id name (jobj []) i)] None None], st1))
      | ToolCallDelta index arguments_delta \<Rightarrow>
          (case push_arguments index arguments_delta (accumulated_tool_calls st) of
             None \<Rightarrow> ([], st)
           | Some (entry, calls) \<Rightarrow>
               let st1 = st\<lparr>accumulated_tool_calls := calls\<rparr>
               in (case from_text S (tc_arguments entry) of
                     Inl e \<Rightarrow> ([], st1)
                   | Inr args \<Rightarrow>
                       ([make_stream_response st1
                           [gemini_function_call_with_id (tc_name entry) args (tc_id entry)] None None], st1)))
      | ThinkingDelta t \<Rightarrow> ([], st\<lparr>accumulated_text := accumulated_text st @ t\<rparr>)
      | ThinkingSignature f delta \<Rightarrow>
          if f = Gemini then
            (let t = accumulated_text st; st1 = st\<lparr>accumulated_text := []\<rparr>
             in ([make_stream_response st1
                    [with_thought_signature (Some delta) (gemini_thinking t)] None None], st1))
          else ([], st)
      | Done stop_reason usage \<Rightarrow>
          (let st1 = st\<lparr>st_done := True, phase := PhaseDone\<rparr>;
               st2 = (case usage of Some u \<Rightarrow> st1\<lparr>accumulated_usage := Some u\<rparr> | None \<Rightarrow> st1);
               usage_metadata = map_option (\<lambda>u. \<lparr>gu_prompt_token_count = Some (us_input_tokens u),
                 gu_candidates_token_count = Some (us_output_tokens u),
                 gu_total_token_count = Some (us_input_tokens u + us_output_tokens u)\<rparr>) usage
           in ([make_stream_response st2 [] (Some (to_gemini stop_reason)) usage_metadata], st2)))"

definition gemini_emit_sse_event :: "serde \<Rightarrow> gemini_serde \<Rightarrow> emitter" where
  "gemini_emit_sse_event S G E event st =
     (let (frames, st1) = gemini_emit_frames S E event st
      in Inr (map (\<lambda>r. format_sse_data (gemini_to_text G r)) frames, st1))"

definition gemini_sse :: "gemini_serde \<Rightarrow> GeminiResponse \<Rightarrow> SseEvent" where
  "gemini_sse G r = \<lparr>sse_event = None, sse_data = gemini_to_text G r\<rparr>"

definition gemini_frames :: "serde \<Rightarrow> gemini_serde \<Rightarrow> SseEvent framer" where
  "gemini_frames S G E ev st = apfst (map (gemini_sse G)) (gemini_emit_frames S E ev st)"

interpretation gemini_emitter: stream_emitter "gemini_emit_sse_event S G" Gemini for S G
  by unfold_locales
    (auto simp: gemini_emit_sse_event_def gemini_emit_frames_def Let_def split: option.splits)

interpretation gemini_writer: sse_writer "gemini_emit_sse_event S G" "gemini_frames S G" for S G
  by unfold_locales
    (simp add: gemini_emit_sse_event_def gemini_frames_def gemini_sse_def format_sse_def split: prod.splits)

text \<open>This emitter accepts every event, whatever its index.\<close>

interpretation gemini_accepts: accepting_emitter "gemini_emit_sse_event S G" Gemini "\<lambda>_. UNIV" for S G
  by unfold_locales (simp add: gemini_writer.emit_frames)

section \<open>Text and signed thinking\<close>

text \<open>A reply as runs of text and of thinking that Gemini signed.\<close>

datatype gemini_run = RunText string | RunThought string string

fun run_events :: "gemini_run \<Rightarrow> CanonicalStreamEvent list" where
  "run_events (RunText t) = [TextDelta t]"
| "run_events (RunThought t sg) = [ThinkingDelta t, ThinkingSignature Gemini sg]"

definition run_ok :: "gemini_run \<Rightarrow> bool" where
  "run_ok r \<longleftrightarrow> (case r of RunText t \<Rightarrow> t \<noteq> [] | RunThought t sg \<Rightarrow> t \<noteq> [])"

definition gemini_frame_ok :: "gemini_serde \<Rightarrow> GeminiResponse \<Rightarrow> bool" where
  "gemini_frame_ok G r \<longleftrightarrow> one_line (gemini_to_text G r) \<and> from_gemini_text G (gemini_to_text G r) = Inr r"

fun gemini_parse_frames ::
  "serde \<Rightarrow> (nat \<Rightarrow> env) \<Rightarrow> GeminiResponse list \<Rightarrow> StreamState \<Rightarrow> CanonicalStreamEvent list \<times> StreamState" where
  "gemini_parse_frames S E [] st = ([], st)"
| "gemini_parse_frames S E (r # rs) st =
     (let (evs, st1) = gemini_parse_chunk S (E 0) r st;
          (evs', st2) = gemini_parse_frames S (E \<circ> Suc) rs st1 in (evs @ evs', st2))"

lemma gemini_parse_all_frames:
  "list_all (gemini_frame_ok G) rs \<Longrightarrow>
     parse_all (gemini_parse_sse_event S G) E (map (gemini_sse G) rs) st = Inr (gemini_parse_frames S E rs st)"
  by (induction rs arbitrary: E st)
    (auto simp: gemini_parse_sse_event_def gemini_sse_def gemini_frame_ok_def split: prod.splits)

lemmas gemini_emit_defs = gemini_emit_frames_def make_stream_response_def gemini_part_defs

lemmas gemini_parse_defs = gemini_parse_chunk_def gemini_parse_part_def

definition run_part :: "gemini_run \<Rightarrow> GeminiPart" where
  "run_part r =
     (case r of
        RunText t \<Rightarrow> gemini_text t
      | RunThought t sg \<Rightarrow> with_thought_signature (Some sg) (gemini_thinking t))"

definition run_state :: "gemini_run \<Rightarrow> StreamState \<Rightarrow> StreamState" where
  "run_state r st = (case r of RunText t \<Rightarrow> st\<lparr>phase := PhaseContent\<rparr> | RunThought t sg \<Rightarrow> st)"

lemma run_state_simps [simp]:
  "response_id (run_state r st) = response_id st" "accumulated_usage (run_state r st) = accumulated_usage st"
  by (simp_all add: run_state_def split: gemini_run.splits)

lemma gemini_run_emitted:
  assumes "accumulated_text est = []"
  shows "frames_all (gemini_emit_frames S) E (run_events r) est =
    ([make_stream_response est [run_part r] None None], est)"
proof -
  have "est\<lparr>accumulated_text := []\<rparr> = est" using assms by simp
  with assms show ?thesis
    by (cases r) (simp_all add: gemini_emit_frames_def run_part_def Let_def make_stream_response_def)
qed

lemma gemini_runs_emitted:
  assumes "accumulated_text est = []"
  shows "frames_all (gemini_emit_frames S) E (concat (map run_events rs)) est =
    (map (\<lambda>r. make_stream_response est [run_part r] None None) rs, est)"
  by (induction rs arbitrary: E) (simp_all add: frames_all_append gemini_run_emitted assms)

lemma gemini_run_parsed:
  "run_ok r \<Longrightarrow> gemini_parse_part S E (run_part r) (evs, st, k) = (evs @ run_events r, run_state r st, k)"
  by (cases r) (simp_all add: run_ok_def gemini_parse_part_def run_part_def gemini_part_defs run_state_def)

lemma gemini_chunk_parsed:
  assumes "run_ok r" "response_id st \<noteq> None"
  shows "gemini_parse_chunk S E (make_stream_response est [run_part r] None None) st =
    (run_events r, run_state r st)"
  using assms by (auto simp: gemini_parse_chunk_def make_stream_response_def gemini_run_parsed)

lemma gemini_first_chunk_parsed:
  assumes "run_ok r" "response_id st = None" "st_model est = Some m"
  shows "gemini_parse_chunk S E (make_stream_response est [run_part r] None None) st =
    (Start (env_uuid E 0) m # run_events r,
     run_state r (st\<lparr>response_id := Some (env_uuid E 0), st_model := Some m\<rparr>))"
  using assms
  by (simp add: gemini_parse_chunk_def make_stream_response_def gemini_run_parsed Let_def)

lemma gemini_runs_parsed:
  assumes "list_all run_ok rs" "response_id st \<noteq> None"
  shows "\<exists>st'. gemini_parse_frames S E (map (\<lambda>r. make_stream_response est [run_part r] None None) rs @ fs) st =
      (let (evs, st2) = gemini_parse_frames S (\<lambda>n. E (length rs + n)) fs st'
       in (concat (map run_events rs) @ evs, st2)) \<and>
    response_id st' \<noteq> None \<and> accumulated_usage st' = accumulated_usage st"
  using assms
proof (induction rs arbitrary: E st)
  case Nil
  then show ?case by auto
next
  case (Cons r rs)
  then have "gemini_parse_chunk S (E 0) (make_stream_response est [run_part r] None None) st =
      (run_events r, run_state r st)"
    by (auto intro!: gemini_chunk_parsed)
  moreover obtain st' where
      "gemini_parse_frames S (E \<circ> Suc) (map (\<lambda>r. make_stream_response est [run_part r] None None) rs @ fs) (run_state r st) =
      (let (evs, st2) = gemini_parse_frames S (\<lambda>n. (E \<circ> Suc) (length rs + n)) fs st'
       in (concat (map run_events rs) @ evs, st2))"
      "response_id st' \<noteq> None" "accumulated_usage st' = accumulated_usage (run_state r st)"
    using Cons.IH [of "run_state r st" "E \<circ> Suc"] Cons.prems by (auto simp: comp_def)
  ultimately show ?case
    by (intro exI [of _ st']) (auto simp: comp_def split: prod.splits)
qed

definition gemini_seen_usage :: "Usage \<Rightarrow> Usage" where
  "gemini_seen_usage u = usage_default\<lparr>us_input_tokens := us_input_tokens u,
     us_output_tokens := us_output_tokens u\<rparr>"

definition gemini_final :: "StreamState \<Rightarrow> StopReason \<Rightarrow> Usage option \<Rightarrow> GeminiResponse" where
  "gemini_final st r u = make_stream_response st [] (Some (to_gemini r))
     (map_option (\<lambda>u. \<lparr>gu_prompt_token_count = Some (us_input_tokens u),
        gu_candidates_token_count = Some (us_output_tokens u),
        gu_total_token_count = Some (us_input_tokens u + us_output_tokens u)\<rparr>) u)"

lemma gemini_final_parsed:
  assumes "accumulated_usage st = None"
  shows "response_id st \<noteq> None \<Longrightarrow>
      fst (gemini_parse_chunk S E (gemini_final est r u) st) =
        [Done (norm_stop Gemini r) (map_option gemini_seen_usage u)]"
    "response_id st = None \<Longrightarrow> st_model est = Some m \<Longrightarrow>
      fst (gemini_parse_chunk S E (gemini_final est r u) st) =
        [Start (env_uuid E 0) m, Done (norm_stop Gemini r) (map_option gemini_seen_usage u)]"
  using assms
  by (cases u; simp add: gemini_parse_chunk_def gemini_final_def make_stream_response_def
      gemini_seen_usage_def Let_def)+

lemma gemini_stream_frames:
  assumes "list_all run_ok rs" "st_model est = Some m" and final: "st_model est' = Some m"
  shows "fst (gemini_parse_frames S E (map (\<lambda>r. make_stream_response est [run_part r] None None) rs @
      [gemini_final est' r u]) stream_state_new) =
    Start (env_uuid (E 0) 0) m # concat (map run_events rs) @
      [Done (norm_stop Gemini r) (map_option gemini_seen_usage u)]"
proof (cases rs)
  case Nil
  then show ?thesis
    using final gemini_final_parsed(2) [of stream_state_new est' m S "E 0" r u]
    by (simp add: stream_state_new_def split: prod.splits)
next
  case (Cons x xs)
  let ?st = "run_state x (stream_state_new\<lparr>response_id := Some (env_uuid (E 0) 0), st_model := Some m\<rparr>)"
  have first: "gemini_parse_chunk S (E 0) (make_stream_response est [run_part x] None None) stream_state_new =
      (Start (env_uuid (E 0) 0) m # run_events x, ?st)"
    using assms Cons by (intro gemini_first_chunk_parsed) (auto simp: stream_state_new_def)
  obtain st' where rest:
      "gemini_parse_frames S (E \<circ> Suc) (map (\<lambda>r. make_stream_response est [run_part r] None None) xs @
         [gemini_final est' r u]) ?st =
      (let (evs, st2) = gemini_parse_frames S (\<lambda>n. (E \<circ> Suc) (length xs + n)) [gemini_final est' r u] st'
       in (concat (map run_events xs) @ evs, st2))"
      "response_id st' \<noteq> None" "accumulated_usage st' = accumulated_usage ?st"
    using gemini_runs_parsed [of xs ?st S "E \<circ> Suc" est "[gemini_final est' r u]"] assms Cons by auto
  have "accumulated_usage st' = None"
    using rest(3) by (simp add: stream_state_new_def)
  from gemini_final_parsed(1) [OF this rest(2), of S "(E \<circ> Suc) (length xs)" est' r u]
  show ?thesis
    using first rest(1) Cons by (auto simp: comp_def split: prod.splits)
qed

lemma gemini_stream_emitted:
  "\<exists>est est'. fst (frames_all (gemini_emit_frames S) E
       (Start i m # concat (map run_events rs) @ [Done r u]) (st\<lparr>accumulated_text := []\<rparr>)) =
     map (\<lambda>r. make_stream_response est [run_part r] None None) rs @ [gemini_final est' r u] \<and>
     st_model est = Some m \<and> st_model est' = Some m"
proof -
  let ?est = "st\<lparr>accumulated_text := [], response_id := Some i, st_model := Some m\<rparr>"
  have "frames_all (gemini_emit_frames S) (E \<circ> Suc) (concat (map run_events rs)) ?est =
      (map (\<lambda>r. make_stream_response ?est [run_part r] None None) rs, ?est)"
    by (rule gemini_runs_emitted) simp
  then show ?thesis
    by (cases u; intro exI [of _ ?est] exI)
      (auto simp: frames_all_append gemini_emit_frames_def gemini_final_def Let_def)
qed

text \<open>A stream of text and of thinking that Gemini signed, written by the Gemini adapter, cut into
  blocks and read by the Gemini adapter, is the same stream: every fragment and every signature in order
  after one start, then one end.  Only the response id is replaced, since the Gemini wire has none.\<close>

lemma gemini_stream_roundtrip:
  assumes "list_all run_ok rs"
    and "evs = Start i m # concat (map run_events rs) @ [Done r u]"
    and "list_all (gemini_frame_ok G)
      (fst (frames_all (gemini_emit_frames S) E evs (st\<lparr>accumulated_text := []\<rparr>)))"
  shows "\<exists>ls st' st''.
    emit_all (gemini_emit_sse_event S G) E evs (st\<lparr>accumulated_text := []\<rparr>) = Inr (ls, st') \<and>
    parse_all (gemini_parse_sse_event S G) E' (client_events ls) stream_state_new =
      Inr (Start (env_uuid (E' 0) 0) m # concat (map run_events rs) @
        [Done (norm_stop Gemini r) (map_option gemini_seen_usage u)], st'')"
proof -
  let ?st = "st\<lparr>accumulated_text := []\<rparr>"
  let ?frs = "fst (frames_all (gemini_emit_frames S) E evs ?st)"
  have map: "fst (frames_all (gemini_frames S G) E evs ?st) = map (gemini_sse G) ?frs"
    by (subst frames_all_map [where g = "gemini_sse G" and fr = "gemini_emit_frames S"])
      (simp_all add: gemini_frames_def)
  then have "list_all wf_sse (fst (frames_all (gemini_frames S G) E evs ?st))"
    using assms(3) by (auto simp: list_all_iff gemini_frame_ok_def wf_sse_def gemini_sse_def)
  from gemini_writer.client_sees_frames [OF this] obtain ls st'
    where "emit_all (gemini_emit_sse_event S G) E evs ?st = Inr (ls, st')"
      "client_events ls = map (gemini_sse G) ?frs"
    unfolding map by auto
  moreover obtain est est' where "?frs = map (\<lambda>r. make_stream_response est [run_part r] None None) rs @ [gemini_final est' r u]"
      "st_model est = Some m" "st_model est' = Some m"
    using gemini_stream_emitted [of S E i m rs r u st] assms(2) by auto
  ultimately show ?thesis
    using gemini_parse_all_frames [OF assms(3), of S E' stream_state_new]
      gemini_stream_frames [OF assms(1), of est m est' S E' r u]
    by (metis prod.collapse)
qed

text \<open>A printer and parser of the two chunks of a one-word reply.\<close>

definition gemini_demo_codec :: gemini_serde where
  "gemini_demo_codec =
     \<lparr>from_gemini_text = (\<lambda>s. Inr (if s = ''{a}''
          then make_stream_response (stream_state_new\<lparr>st_model := Some ''m''\<rparr>) [gemini_text ''hi''] None None
          else gemini_final (stream_state_new\<lparr>st_model := Some ''m''\<rparr>) EndTurn None)),
      gemini_to_text = (\<lambda>r. if ga_finish_reason (hd (gs_candidates r)) = None then ''{a}'' else ''{b}'')\<rparr>"

lemma gemini_stream_roundtrip_witness:
  "\<exists>ls st' st''.
    emit_all (gemini_emit_sse_event \<lparr>from_text = (\<lambda>s. Inl s), to_text = (\<lambda>v. [])\<rparr> gemini_demo_codec)
      (\<lambda>n. \<lparr>env_now = 0, env_uuid = (\<lambda>k. ''u'')\<rparr>)
      (Start ''msg_1'' ''m'' # concat (map run_events [RunText ''hi'']) @ [Done EndTurn None])
      (stream_state_new\<lparr>accumulated_text := []\<rparr>) = Inr (ls, st') \<and>
    parse_all (gemini_parse_sse_event \<lparr>from_text = (\<lambda>s. Inl s), to_text = (\<lambda>v. [])\<rparr> gemini_demo_codec)
      (\<lambda>n. \<lparr>env_now = 0, env_uuid = (\<lambda>k. ''u'')\<rparr>) (client_events ls) stream_state_new =
      Inr (Start (env_uuid \<lparr>env_now = 0, env_uuid = (\<lambda>k. ''u'')\<rparr> 0) ''m'' # concat (map run_events [RunText ''hi'']) @
        [Done (norm_stop Gemini EndTurn) (map_option gemini_seen_usage None)], st'')"
  by (rule gemini_stream_roundtrip [OF _ refl])
    (simp_all add: run_ok_def gemini_emit_defs gemini_frame_ok_def gemini_demo_codec_def gemini_final_def
      one_line_def visible_def)

section \<open>Thinking that Gemini did not sign\<close>

definition is_thinking_delta :: "CanonicalStreamEvent \<Rightarrow> bool" where
  "is_thinking_delta ev \<longleftrightarrow> (case ev of ThinkingDelta t \<Rightarrow> True | _ \<Rightarrow> False)"

definition gemini_signs :: "CanonicalStreamEvent \<Rightarrow> bool" where
  "gemini_signs ev \<longleftrightarrow> (case ev of ThinkingSignature f d \<Rightarrow> f = Gemini | _ \<Rightarrow> False)"

lemma gemini_emit_text_irrelevant:
  assumes "\<not> gemini_signs ev" "\<not> is_thinking_delta ev"
  shows "\<exists>frs st'. gemini_emit_frames S E ev st = (frs, st') \<and>
    gemini_emit_frames S E ev (st\<lparr>accumulated_text := t\<rparr>) = (frs, st'\<lparr>accumulated_text := t\<rparr>)"
  using assms
  by (cases ev)
    (auto simp: gemini_signs_def is_thinking_delta_def gemini_emit_frames_def make_stream_response_def Let_def
      split: option.splits sum.splits)

text \<open>In a stream without Gemini signatures, every thinking fragment is lost on the way to a Gemini
  client: what is written is what would be written had the fragments not been there.\<close>

lemma gemini_unsigned_thinking_lost:
  assumes "list_all (\<lambda>ev. \<not> gemini_signs ev) evs"
  shows "fst (frames_all (gemini_emit_frames S) (\<lambda>n. e) evs st) =
    fst (frames_all (gemini_emit_frames S) (\<lambda>n. e) (filter (\<lambda>ev. \<not> is_thinking_delta ev) evs) st)"
proof -
  have "fst (frames_all (gemini_emit_frames S) (\<lambda>n. e) evs (st\<lparr>accumulated_text := t\<rparr>)) =
      fst (frames_all (gemini_emit_frames S) (\<lambda>n. e) (filter (\<lambda>ev. \<not> is_thinking_delta ev) evs) st)" for t
    using assms
  proof (induction evs arbitrary: st t)
    case (Cons ev evs)
    show ?case
    proof (cases "is_thinking_delta ev")
      case True
      with Cons show ?thesis
        by (cases ev) (auto simp: is_thinking_delta_def gemini_emit_frames_def comp_def frames_all_Cons
            simp del: frames_all.simps)
    next
      case False
      then obtain frs st' where "gemini_emit_frames S e ev st = (frs, st')"
          "gemini_emit_frames S e ev (st\<lparr>accumulated_text := t\<rparr>) = (frs, st'\<lparr>accumulated_text := t\<rparr>)"
        using gemini_emit_text_irrelevant [of ev S e st t] Cons.prems by auto
      with Cons False show ?thesis
        by (simp add: comp_def frames_all_Cons del: frames_all.simps)
    qed
  qed simp
  from this [of "accumulated_text st"] show ?thesis by simp
qed

lemma gemini_unsigned_thinking_lost_witness:
  "fst (frames_all (gemini_emit_frames \<lparr>from_text = (\<lambda>s. Inl s), to_text = (\<lambda>v. [])\<rparr>)
     (\<lambda>n. \<lparr>env_now = 0, env_uuid = (\<lambda>k. [])\<rparr>) [ThinkingDelta ''hm'', ThinkingSignature Claude ''s''] stream_state_new) = []"
  by (subst gemini_unsigned_thinking_lost)
    (simp_all add: gemini_signs_def is_thinking_delta_def gemini_emit_frames_def)

section \<open>Tool calls\<close>

definition frame_calls :: "GeminiResponse list \<Rightarrow> (string option \<times> string \<times> value) list" where
  "frame_calls rs = List.map_filter (\<lambda>p. map_option (\<lambda>fc. (gf_id fc, gf_name fc, gf_args fc)) (gp_function_call p))
     (concat (map (\<lambda>r. concat (map (\<lambda>c. gc_parts (ga_content c)) (gs_candidates r))) rs))"

text \<open>A tool call whose arguments arrive after its start reaches a Gemini client as two function calls
  with the same id: the first with empty arguments, the second with the arguments, once the fragments
  received so far parse as JSON.\<close>

lemma gemini_call_sent_twice:
  assumes "from_text S args = Inr v" and "accumulated_tool_calls st = []"
  shows "frame_calls (fst (frames_all (gemini_emit_frames S) E
      [ToolCallStart n i name s, ToolCallDelta n args] st)) = [(Some i, name, jobj []), (Some i, name, v)]"
  using assms
  by (simp add: gemini_emit_defs frame_calls_def Let_def)

lemma gemini_call_sent_twice_witness:
  "frame_calls (fst (frames_all
      (gemini_emit_frames \<lparr>from_text = (\<lambda>s. Inr (JString s)), to_text = (\<lambda>v. [])\<rparr>)
      (\<lambda>n. \<lparr>env_now = 0, env_uuid = (\<lambda>k. [])\<rparr>)
      [ToolCallStart 0 ''t1'' ''f'' None, ToolCallDelta 0 ''x''] stream_state_new)) =
    [(Some ''t1'', ''f'', jobj []), (Some ''t1'', ''f'', JString ''x'')]"
  by (rule gemini_call_sent_twice) (simp_all add: stream_state_new_def)

end
