(* ===== verification/Base64.thy ===== *)
theory Base64
  imports Prelude
begin

text \<open>
  The base64 codec of \<open>crates/core/src/formats/openai_resp/build.rs\<close> and its round trip, at the word
  level: the encoder packs three bytes into the low 24 bits of a \<open>u32\<close>, the decoder shifts sextets through a
  \<open>u32\<close> accumulator that it never clears.
\<close>

unbundle bit_operations_syntax

definition BASE64 :: string where
  "BASE64 = ''ABCDEFGHIJKLMNOPQRSTUVWXYZabcdefghijklmnopqrstuvwxyz0123456789+/''"

section \<open>Operations\<close>

definition base64_pack :: "u8 list \<Rightarrow> u32" where
  "base64_pack chunk =
     fold (\<lambda>(i, b) n. n OR push_bit (16 - 8 * i) (ucast b)) (List.enumerate 0 chunk) 0"

definition base64_chunk :: "u8 list \<Rightarrow> string" where
  "base64_chunk chunk =
     map (\<lambda>i. if i \<le> length chunk
              then BASE64 ! unat (drop_bit (18 - 6 * i) (base64_pack chunk) AND 63)
              else CHR ''='') [0, 1, 2, 3]"

fun base64_encode :: "u8 list \<Rightarrow> string" where
  "base64_encode (a # b # c # rest) = base64_chunk [a, b, c] @ base64_encode rest"
| "base64_encode [] = []"
| "base64_encode chunk = base64_chunk chunk"

text \<open>The value of a digit, a \<open>u8\<close> below 64 in the source.\<close>

definition base64_value :: "char \<Rightarrow> nat option" where
  "base64_value c =
     (let n = (of_char c :: nat)
      in if 65 \<le> n \<and> n \<le> 90 then Some (n - 65)
         else if 97 \<le> n \<and> n \<le> 122 then Some (n - 97 + 26)
         else if 48 \<le> n \<and> n \<le> 57 then Some (n - 48 + 52)
         else if c = CHR ''+'' then Some 62
         else if c = CHR ''/'' then Some 63
         else None)"

definition trim_pad :: "string \<Rightarrow> string" where
  "trim_pad s = rev (dropWhile (\<lambda>c. c = CHR ''='') (rev s))"

fun base64_loop :: "string \<Rightarrow> u32 \<Rightarrow> nat \<Rightarrow> u8 list \<Rightarrow> u8 list option" where
  "base64_loop [] acc bits out = Some out"
| "base64_loop (c # cs) acc bits out =
     (case base64_value c of
        None \<Rightarrow> None
      | Some v \<Rightarrow>
          let acc' = push_bit 6 acc OR of_nat v; bits' = bits + 6
          in if bits' \<ge> 8 then base64_loop cs acc' (bits' - 8) (out @ [ucast (drop_bit (bits' - 8) acc')])
             else base64_loop cs acc' bits' out)"

definition base64_decode :: "string \<Rightarrow> u8 list option" where
  "base64_decode s = base64_loop (trim_pad s) 0 0 []"

section \<open>Digits\<close>

lemma base64_digits:
  "list_all (\<lambda>k. base64_value (BASE64 ! k) = Some k \<and> BASE64 ! k \<noteq> CHR ''='') [0..<64]"
  by (simp add: BASE64_def base64_value_def upt_conv_Cons)

definition sextet :: "u8 list \<Rightarrow> nat \<Rightarrow> u32" where
  "sextet chunk i = drop_bit (18 - 6 * i) (base64_pack chunk) AND 63"

lemma sextet_take: "sextet chunk i = take_bit 6 (drop_bit (18 - 6 * i) (base64_pack chunk))"
  by (simp add: sextet_def take_bit_eq_mask mask_eq_exp_minus_1)

lemma sextet_bound: "unat (sextet chunk i) < 64"
proof -
  have "unat (sextet chunk i) < 2 ^ 6"
    unfolding sextet_take unsigned_take_bit_eq by (rule take_bit_nat_less_exp)
  then show ?thesis by simp
qed

lemma sextet_digit:
  "base64_value (BASE64 ! unat (sextet chunk i)) = Some (unat (sextet chunk i))"
  "BASE64 ! unat (sextet chunk i) \<noteq> CHR ''=''"
proof -
  have "unat (sextet chunk i) \<in> set [0..<64]"
    using sextet_bound by simp
  with base64_digits show "base64_value (BASE64 ! unat (sextet chunk i)) = Some (unat (sextet chunk i))"
      and "BASE64 ! unat (sextet chunk i) \<noteq> CHR ''=''"
    unfolding list_all_iff by blast+
qed

lemma base64_chunk_digits:
  "base64_chunk [a] = [BASE64 ! unat (sextet [a] 0), BASE64 ! unat (sextet [a] 1), CHR ''='', CHR ''='']"
  "base64_chunk [a, b] = [BASE64 ! unat (sextet [a, b] 0), BASE64 ! unat (sextet [a, b] 1),
     BASE64 ! unat (sextet [a, b] 2), CHR ''='']"
  "base64_chunk [a, b, c] = [BASE64 ! unat (sextet [a, b, c] 0), BASE64 ! unat (sextet [a, b, c] 1),
     BASE64 ! unat (sextet [a, b, c] 2), BASE64 ! unat (sextet [a, b, c] 3)]"
  by (simp_all add: base64_chunk_def sextet_def)

section \<open>Bytes\<close>

lemma bit_byte_bound: "bit (a :: u8) n \<Longrightarrow> n < 8"
  using bit_imp_le_length [of a n] by simp

lemma bit_pack:
  "bit (base64_pack [a]) n \<longleftrightarrow> 16 \<le> n \<and> n < 24 \<and> bit a (n - 16)"
  "bit (base64_pack [a, b]) n \<longleftrightarrow>
     (if n < 16 then 8 \<le> n \<and> bit b (n - 8) else n < 24 \<and> bit a (n - 16))"
  "bit (base64_pack [a, b, c]) n \<longleftrightarrow>
     (if n < 8 then bit c n else if n < 16 then bit b (n - 8) else n < 24 \<and> bit a (n - 16))"
  by (auto simp: base64_pack_def bit_simps dest: bit_byte_bound)

lemma nat_lt_8_cases: "n < (8 :: nat) \<Longrightarrow> n = 0 \<or> n = 1 \<or> n = 2 \<or> n = 3 \<or> n = 4 \<or> n = 5 \<or> n = 6 \<or> n = 7"
  by auto

lemma byte_eqI:
  "(\<And>n. n < 8 \<Longrightarrow> bit (x :: u32) n = bit (a :: u8) n) \<Longrightarrow> ucast x = a"
  by (rule bit_word_eqI) (auto simp: bit_simps)

lemma byte_a:
  assumes "\<And>n. n < 8 \<Longrightarrow> bit (base64_pack chunk) (16 + n) = bit (a :: u8) n"
  shows "ucast (drop_bit 4 (push_bit 6 (push_bit 6 acc OR sextet chunk 0) OR sextet chunk 1)) = a"
proof (rule byte_eqI)
  fix n :: nat assume "n < 8"
  then show "bit (drop_bit 4 (push_bit 6 (push_bit 6 acc OR sextet chunk 0) OR sextet chunk 1)) n = bit a n"
    using assms [of n] nat_lt_8_cases [of n] by (auto simp: bit_simps sextet_take)
qed

lemma byte_b:
  assumes "\<And>n. n < 8 \<Longrightarrow> bit (base64_pack chunk) (8 + n) = bit (b :: u8) n"
  shows "ucast (drop_bit 2 (push_bit 6 (push_bit 6 acc OR sextet chunk 1) OR sextet chunk 2)) = b"
proof (rule byte_eqI)
  fix n :: nat assume "n < 8"
  then show "bit (drop_bit 2 (push_bit 6 (push_bit 6 acc OR sextet chunk 1) OR sextet chunk 2)) n = bit b n"
    using assms [of n] nat_lt_8_cases [of n] by (auto simp: bit_simps sextet_take)
qed

lemma byte_c:
  assumes "\<And>n. n < 8 \<Longrightarrow> bit (base64_pack chunk) n = bit (c :: u8) n"
  shows "ucast (push_bit 6 (push_bit 6 acc OR sextet chunk 2) OR sextet chunk 3) = c"
proof (rule byte_eqI)
  fix n :: nat assume "n < 8"
  then show "bit (push_bit 6 (push_bit 6 acc OR sextet chunk 2) OR sextet chunk 3) n = bit c n"
    using assms [of n] nat_lt_8_cases [of n] by (auto simp: bit_simps sextet_take)
qed

section \<open>Round trip\<close>

lemma loop_digit:
  "base64_loop (BASE64 ! unat (sextet chunk i) # cs) acc 0 out =
     base64_loop cs (push_bit 6 acc OR sextet chunk i) 6 out"
  "base64_loop (BASE64 ! unat (sextet chunk i) # cs) acc 6 out =
     base64_loop cs (push_bit 6 acc OR sextet chunk i) 4
       (out @ [ucast (drop_bit 4 (push_bit 6 acc OR sextet chunk i))])"
  "base64_loop (BASE64 ! unat (sextet chunk i) # cs) acc 4 out =
     base64_loop cs (push_bit 6 acc OR sextet chunk i) 2
       (out @ [ucast (drop_bit 2 (push_bit 6 acc OR sextet chunk i))])"
  "base64_loop (BASE64 ! unat (sextet chunk i) # cs) acc 2 out =
     base64_loop cs (push_bit 6 acc OR sextet chunk i) 0 (out @ [ucast (push_bit 6 acc OR sextet chunk i)])"
  by (simp_all add: sextet_digit Let_def)

lemma chunk_bytes:
  "ucast (drop_bit 4 (push_bit 6 (push_bit 6 acc OR sextet [a] 0) OR sextet [a] 1)) = a"
  "ucast (drop_bit 4 (push_bit 6 (push_bit 6 acc OR sextet [a, b] 0) OR sextet [a, b] 1)) = a"
  "ucast (drop_bit 2 (push_bit 6 (push_bit 6 acc OR sextet [a, b] 1) OR sextet [a, b] 2)) = b"
  "ucast (drop_bit 4 (push_bit 6 (push_bit 6 acc OR sextet [a, b, c] 0) OR sextet [a, b, c] 1)) = a"
  "ucast (drop_bit 2 (push_bit 6 (push_bit 6 acc OR sextet [a, b, c] 1) OR sextet [a, b, c] 2)) = b"
  "ucast (push_bit 6 (push_bit 6 acc OR sextet [a, b, c] 2) OR sextet [a, b, c] 3) = c"
  by (rule byte_a byte_b byte_c, simp add: bit_pack)+

lemmas decode_steps = base64_chunk_digits append.simps loop_digit chunk_bytes append_assoc

lemma loop_chunk3:
  "\<exists>acc'. base64_loop (base64_chunk [a, b, c] @ cs) acc 0 out = base64_loop cs acc' 0 (out @ [a, b, c])"
  unfolding decode_steps by blast

lemma trim_pad_append:
  assumes "CHR ''='' \<notin> set xs"
  shows "trim_pad (xs @ ys) = xs @ trim_pad ys"
proof (cases "\<forall>c \<in> set (rev ys). c = CHR ''=''")
  case True
  have "dropWhile (\<lambda>c. c = CHR ''='') (rev xs) = rev xs"
    using assms by (cases xs rule: rev_cases) auto
  moreover have "dropWhile (\<lambda>c. c = CHR ''='') (rev ys @ rev xs) = dropWhile (\<lambda>c. c = CHR ''='') (rev xs)"
    using True by (intro dropWhile_append2) auto
  moreover have "dropWhile (\<lambda>c. c = CHR ''='') (rev ys) = []"
    using True by (simp add: dropWhile_eq_Nil_conv)
  ultimately show ?thesis by (simp only: trim_pad_def rev_append) simp
next
  case False
  then obtain c where "c \<in> set (rev ys)" "c \<noteq> CHR ''=''" by auto
  then show ?thesis
    by (simp only: trim_pad_def rev_append dropWhile_append1) simp
qed

lemma trim_pad_simps [simp]: "trim_pad [] = []" "trim_pad ''='' = []" "trim_pad ''=='' = []"
  by (simp_all add: trim_pad_def)

lemma chunk3_no_pad: "CHR ''='' \<notin> set (base64_chunk [a, b, c])"
  unfolding base64_chunk_digits using sextet_digit(2) by (metis empty_iff list.set(1) set_ConsD)

lemma base64_loop_encode:
  "base64_loop (trim_pad (base64_encode bytes)) acc 0 out = Some (out @ bytes)"
proof (induction bytes arbitrary: acc out rule: base64_encode.induct [case_names three none one two])
  case (three a b c rest)
  obtain acc' where "base64_loop (base64_chunk [a, b, c] @ trim_pad (base64_encode rest)) acc 0 out =
      base64_loop (trim_pad (base64_encode rest)) acc' 0 (out @ [a, b, c])"
    using loop_chunk3 by blast
  then show ?case by (simp add: trim_pad_append [OF chunk3_no_pad] three)
next
  case (one a)
  let ?ds = "[BASE64 ! unat (sextet [a] 0), BASE64 ! unat (sextet [a] 1)]"
  have "CHR ''='' \<notin> set ?ds"
    using sextet_digit(2) by (metis empty_iff list.set(1) set_ConsD)
  from trim_pad_append [OF this, of "''==''"] have "trim_pad (base64_chunk [a]) = ?ds"
    by (simp only: base64_chunk_digits append.simps trim_pad_simps append_Nil2)
  then show ?case
    by (simp only: base64_encode.simps decode_steps base64_loop.simps(1))
next
  case (two a b)
  let ?ds = "[BASE64 ! unat (sextet [a, b] 0), BASE64 ! unat (sextet [a, b] 1), BASE64 ! unat (sextet [a, b] 2)]"
  have "CHR ''='' \<notin> set ?ds"
    using sextet_digit(2) by (metis empty_iff list.set(1) set_ConsD)
  from trim_pad_append [OF this, of "''=''"] have "trim_pad (base64_chunk [a, b]) = ?ds"
    by (simp only: base64_chunk_digits append.simps trim_pad_simps append_Nil2)
  then show ?case
    by (simp only: base64_encode.simps decode_steps base64_loop.simps(1))
qed simp

lemma base64_decode_encode: "base64_decode (base64_encode bytes) = Some bytes"
  by (simp add: base64_decode_def base64_loop_encode)

end
