(* ===== verification/Resp_Wire.thy ===== *)
theory Resp_Wire
  imports Stream_Adapter Base64
begin

text \<open>
  The wire structs of the OpenAI Responses API (\<open>crates/core/src/formats/openai_resp/types.rs\<close>) and the
  seal that carries a Claude block inside \<open>encrypted_content\<close> (\<open>build.rs\<close>, section claudeseal).
\<close>

record InputTokensDetails =
  itd_cached_tokens :: "u64 option"

record ResponsesUsage =
  ru_input_tokens :: u64
  ru_output_tokens :: u64
  ru_total_tokens :: "u64 option"
  ru_input_tokens_details :: "InputTokensDetails option"

record OpenAIResponsesRequest =
  rq_model :: string
  rq_input :: "value option"
  rq_instructions :: "string option"
  rq_max_output_tokens :: "u32 option"
  rq_temperature :: "f32 option"
  rq_top_p :: "f32 option"
  rq_stream :: "bool option"
  rq_tools :: "value list option"
  rq_tool_choice :: "value option"
  rq_text :: "value option"
  rq_reasoning :: "value option"
  rq_previous_response_id :: "string option"
  rq_store :: "bool option"
  rq_extra :: obj

record OpenAIResponsesResponse =
  rp_id :: string
  rp_object :: string
  rp_created_at :: u64
  rp_model :: string
  rp_status :: string
  rp_output :: "value list"
  rp_usage :: "ResponsesUsage option"

definition ITEM_TYPE_REASONING :: string where "ITEM_TYPE_REASONING = ''reasoning''"
definition ITEM_TYPE_SUMMARY_TEXT :: string where "ITEM_TYPE_SUMMARY_TEXT = ''summary_text''"

lemmas resp_item_types = item_types ITEM_TYPE_REASONING_def ITEM_TYPE_SUMMARY_TEXT_def

section \<open>claudeseal\<close>

definition CLAUDE_SEAL_MARK :: string where "CLAUDE_SEAL_MARK = ''magpie-claude1:''"

definition as_bytes :: "string \<Rightarrow> u8 list" where
  "as_bytes s = map (\<lambda>c. of_nat (of_char c)) s"

definition of_bytes :: "u8 list \<Rightarrow> string" where
  "of_bytes bs = map (\<lambda>b. char_of (unat b)) bs"

definition seal :: "u8 list \<Rightarrow> string" where
  "seal block = CLAUDE_SEAL_MARK @ base64_encode block"

definition seal_thinking :: "serde \<Rightarrow> string \<Rightarrow> string \<Rightarrow> string" where
  "seal_thinking S thinking signature =
     seal (as_bytes (''{\"type\":\"thinking\",\"thinking\":'' @ to_text S (JString thinking) @
       '',\"signature\":'' @ to_text S (JString signature) @ ''}''))"

definition seal_block :: "serde \<Rightarrow> value \<Rightarrow> string" where
  "seal_block S raw = seal (as_bytes (to_text S raw))"

definition open_seal :: "serde \<Rightarrow> string \<Rightarrow> value option" where
  "open_seal S encrypted =
     Option.bind (strip_prefix CLAUDE_SEAL_MARK encrypted) (\<lambda>b64.
       Option.bind (base64_decode b64) (\<lambda>bytes.
         case from_text S (of_bytes bytes) of Inl e \<Rightarrow> None | Inr v \<Rightarrow> Some v))"

definition is_sealed :: "string \<Rightarrow> bool" where
  "is_sealed encrypted \<longleftrightarrow> starts_with CLAUDE_SEAL_MARK encrypted"

lemma of_bytes_as_bytes: "of_bytes (as_bytes s) = s"
proof -
  have "unat (word_of_nat (of_char c) :: u8) = of_char c" for c
    by (simp add: unat_of_nat)
  then show ?thesis by (simp add: of_bytes_def as_bytes_def comp_def)
qed

lemma open_seal_text: "open_seal S (seal (as_bytes s)) = (case from_text S s of Inl e \<Rightarrow> None | Inr v \<Rightarrow> Some v)"
  by (simp add: open_seal_def seal_def base64_decode_encode of_bytes_as_bytes)

lemma is_sealed_seal [simp]: "is_sealed (seal b)"
  by (simp add: is_sealed_def seal_def)

end
