(* ===== verification/Resp_Read.thy ===== *)
theory Resp_Read
  imports Resp_Wire
begin

text \<open>
  Responses to IR: \<open>crates/core/src/formats/openai_resp/read.rs\<close>.  The reader moves strings out of the
  items it consumes; each key is taken at most once, so \<open>take_string\<close> is a lookup here.
\<close>

definition resp_take_string :: "obj \<Rightarrow> string \<Rightarrow> string" where
  "resp_take_string m key = (case fmlookup m key of Some (JString v) \<Rightarrow> v | _ \<Rightarrow> [])"

definition resp_take_opt_string :: "obj \<Rightarrow> string \<Rightarrow> string option" where
  "resp_take_opt_string m key = (case fmlookup m key of Some (JString v) \<Rightarrow> Some v | _ \<Rightarrow> None)"

definition resp_take_image_url :: "obj \<Rightarrow> string" where
  "resp_take_image_url part =
     (case fmlookup part ''image_url'' of
        Some (JString url) \<Rightarrow> url
      | Some (JObject img) \<Rightarrow> resp_take_string img ''url''
      | _ \<Rightarrow> [])"

section \<open>Request input\<close>

datatype ItemKind = KindMessage | KindFunctionCall | KindFunctionCallOutput | KindReasoning | KindOther

definition resp_input_item_kind :: "obj \<Rightarrow> ItemKind" where
  "resp_input_item_kind item =
     (case get_str item ''type'' of
        Some t \<Rightarrow>
          if t = ITEM_TYPE_MESSAGE then KindMessage
          else if t = ITEM_TYPE_FUNCTION_CALL then KindFunctionCall
          else if t = ITEM_TYPE_FUNCTION_CALL_OUTPUT then KindFunctionCallOutput
          else if t = ITEM_TYPE_REASONING then KindReasoning
          else KindOther
      | None \<Rightarrow> if fmlookup item ''role'' \<noteq> None then KindMessage else KindOther)"

definition resp_push_message :: "Role \<Rightarrow> IrPart list \<Rightarrow> IrMessage list \<Rightarrow> IrMessage list" where
  "resp_push_message role parts messages =
     (if parts = [] then messages
      else if messages \<noteq> [] \<and> im_role (last messages) = role
      then butlast messages @ [(last messages)\<lparr>im_parts := im_parts (last messages) @ parts\<rparr>]
      else messages @ [\<lparr>im_role = role, im_parts = parts\<rparr>])"

definition resp_is_text :: "obj \<Rightarrow> bool" where
  "resp_is_text part \<longleftrightarrow>
     get_str part ''type'' \<in> {Some ITEM_TYPE_INPUT_TEXT, Some ITEM_TYPE_OUTPUT_TEXT, Some ''text''}"

definition resp_part_from_value :: "value \<Rightarrow> IrPart option" where
  "resp_part_from_value v =
     (case v of
        JObject part \<Rightarrow>
          if resp_is_text part then Some (Text (resp_take_string part ''text'') None)
          else if get_str part ''type'' = Some ITEM_TYPE_INPUT_IMAGE then
            (let url = resp_take_image_url part
             in if url = [] then None
                else let (media_type, data) =
                       (case parse_data_url url of
                          Some (media_type, data) \<Rightarrow> (media_type, Some data)
                        | None \<Rightarrow> ([], None))
                     in Some (Image url media_type data (resp_take_opt_string part ''detail'')))
          else None
      | _ \<Rightarrow> None)"

definition resp_content_to_parts :: "value \<Rightarrow> IrPart list" where
  "resp_content_to_parts content =
     (case content of
        JString text \<Rightarrow> [Text text None]
      | JArray items \<Rightarrow> List.map_filter resp_part_from_value items
      | _ \<Rightarrow> [])"

definition resp_take_message_text :: "obj \<Rightarrow> string" where
  "resp_take_message_text item =
     (case fmlookup item ''content'' of
        Some (JString text) \<Rightarrow> text
      | Some (JArray parts) \<Rightarrow>
          join [nl] (List.map_filter (\<lambda>v. case v of
            JObject part \<Rightarrow> then_some (resp_is_text part) (resp_take_string part ''text'')
          | _ \<Rightarrow> None) parts)
      | _ \<Rightarrow> [])"

definition resp_take_reasoning_text :: "obj \<Rightarrow> string" where
  "resp_take_reasoning_text item =
     (case fmlookup item ''summary'' of
        Some (JArray items) \<Rightarrow>
          join [] (List.map_filter (\<lambda>v. case v of
            JObject summary \<Rightarrow>
              then_some (get_str summary ''type'' = Some ITEM_TYPE_SUMMARY_TEXT)
                (resp_take_string summary ''text'')
          | _ \<Rightarrow> None) items)
      | _ \<Rightarrow> [])"

definition resp_claude_sealed_part :: "serde \<Rightarrow> string \<Rightarrow> IrPart option" where
  "resp_claude_sealed_part S encrypted =
     Option.bind (open_seal S encrypted) (\<lambda>block.
       let text = (\<lambda>key. unwrap_or [] (jget_str block key))
       in case jget_str block ''type'' of
            Some t \<Rightarrow>
              if t = ''thinking'' \<and> text ''signature'' \<noteq> [] then
                Some (Thinking (text ''thinking'') (Some \<lparr>sig_by = Claude, sig_value = text ''signature''\<rparr>))
              else if t = ''redacted_thinking'' \<and> text ''data'' \<noteq> [] then Some (Sealed Claude block)
              else None
          | None \<Rightarrow> None)"

definition resp_read_reasoning_item :: "serde \<Rightarrow> obj \<Rightarrow> IrPart" where
  "resp_read_reasoning_item S item =
     (let encrypted = unwrap_or [] (get_str item ''encrypted_content'');
          summary = Thinking (resp_take_reasoning_text item) None
      in if encrypted \<noteq> [] then
           (case resp_claude_sealed_part S encrypted of
              Some part \<Rightarrow> part
            | None \<Rightarrow> if \<not> is_sealed encrypted then Sealed OpenAIResponses (JObject item) else summary)
         else summary)"

definition resp_read_input_item ::
  "serde \<Rightarrow> value \<Rightarrow> string list \<times> IrMessage list \<Rightarrow> string list \<times> IrMessage list" where
  "resp_read_input_item S v acc =
     (case acc of (system_texts, messages) \<Rightarrow>
        (case v of
           JObject item \<Rightarrow>
             (case resp_input_item_kind item of
                KindMessage \<Rightarrow>
                  if get_str item ''role'' \<in> {Some ''developer'', Some ''system''} then
                    (let text = resp_take_message_text item
                     in (if text \<noteq> [] then system_texts @ [text] else system_texts, messages))
                  else
                    (case (if get_str item ''role'' = Some ''user'' then Some User
                           else if get_str item ''role'' = Some ''assistant'' then Some Assistant
                           else None) of
                       None \<Rightarrow> (system_texts, messages)
                     | Some role \<Rightarrow>
                         let parts = (case fmlookup item ''content'' of
                                        Some content \<Rightarrow> resp_content_to_parts content | None \<Rightarrow> [])
                         in (system_texts, resp_push_message role parts messages))
              | KindFunctionCall \<Rightarrow>
                  (let cid = resp_take_string item ''call_id''; name = resp_take_string item ''name''
                   in if name = [] then (system_texts, messages)
                      else (system_texts, resp_push_message Assistant
                             [ToolCall cid name (parse_arguments S (resp_take_string item ''arguments'')) None]
                             messages))
              | KindFunctionCallOutput \<Rightarrow>
                  (system_texts, resp_push_message User
                     [ToolResult (resp_take_string item ''call_id'') False
                        [Text (resp_take_string item ''output'') None]] messages)
              | KindReasoning \<Rightarrow>
                  (system_texts, resp_push_message Assistant [resp_read_reasoning_item S item] messages)
              | KindOther \<Rightarrow> (system_texts, messages))
         | _ \<Rightarrow> (system_texts, messages)))"

definition resp_read_input :: "serde \<Rightarrow> value option \<Rightarrow> string list \<times> IrMessage list" where
  "resp_read_input S input =
     (case input of
        Some (JString text) \<Rightarrow> ([], resp_push_message User [Text text None] [])
      | Some (JArray items) \<Rightarrow> fold (resp_read_input_item S) items ([], [])
      | _ \<Rightarrow> ([], []))"

section \<open>Tools\<close>

type_synonym ns_names = "(string, string) fmap"

definition resp_function_tool :: "obj \<Rightarrow> IrTool option" where
  "resp_function_tool tool =
     (let name = resp_take_string tool ''name''
      in then_some (name \<noteq> [])
           \<lparr>it_name = name, it_description = resp_take_string tool ''description'',
            it_schema = unwrap_or (jobj [(''type'', JString ''object'')]) (fmlookup tool ''parameters''),
            it_strict = (case fmlookup tool ''strict'' of Some (JBool b) \<Rightarrow> Some b | _ \<Rightarrow> None)\<rparr>)"

definition resp_read_child ::
  "string \<Rightarrow> string option \<Rightarrow> value \<Rightarrow> IrTool list \<times> ns_names \<Rightarrow> IrTool list \<times> ns_names" where
  "resp_read_child namespace ns_description v acc =
     (case acc of (out, ns) \<Rightarrow>
        (case v of
           JObject child \<Rightarrow>
             if get_str child ''type'' \<noteq> Some ''function'' then (out, ns)
             else
               (let short_name = unwrap_or [] (get_str child ''name'');
                    (name, ns1) =
                      (if namespace = [] then (short_name, ns)
                       else let qualified = namespace @ ''__'' @ short_name
                            in (qualified, fmupd short_name qualified ns))
                in case resp_function_tool child of
                     Some t \<Rightarrow>
                       (out @ [t\<lparr>it_name := name,
                          it_description := (if it_description t = [] then unwrap_or [] ns_description
                                             else it_description t)\<rparr>], ns1)
                   | None \<Rightarrow> (out, ns1))
         | _ \<Rightarrow> (out, ns)))"

definition resp_read_one_tool :: "value \<Rightarrow> IrTool list \<times> ns_names \<Rightarrow> IrTool list \<times> ns_names" where
  "resp_read_one_tool v acc =
     (case acc of (out, ns) \<Rightarrow>
        (case v of
           JObject tool \<Rightarrow>
             if get_str tool ''type'' = Some ''function'' then
               (case resp_function_tool tool of Some t \<Rightarrow> (out @ [t], ns) | None \<Rightarrow> (out, ns))
             else if get_str tool ''type'' = Some ''namespace'' then
               (case fmlookup tool ''tools'' of
                  Some (JArray children) \<Rightarrow>
                    fold (resp_read_child (resp_take_string tool ''name'')
                            (resp_take_opt_string tool ''description'')) children (out, ns)
                | _ \<Rightarrow> (out, ns))
             else (out, ns)
         | _ \<Rightarrow> (out, ns)))"

definition resp_read_tools :: "value list option \<Rightarrow> IrTool list \<times> ns_names" where
  "resp_read_tools tools =
     (case tools of None \<Rightarrow> ([], fmempty) | Some ts \<Rightarrow> fold resp_read_one_tool ts ([], fmempty))"

definition resp_read_tool_choice :: "value option \<Rightarrow> ns_names \<Rightarrow> IrToolChoice option" where
  "resp_read_tool_choice choice ns =
     map_option (\<lambda>c.
       (case c of
          JString s \<Rightarrow>
            if s = ''none'' then ChoiceNone
            else if s = ''required'' then ChoiceRequired
            else ChoiceAuto
        | JObject m \<Rightarrow>
            if get_str m ''type'' \<noteq> Some ''function'' then ChoiceAuto
            else
              (let name = (case fmlookup m ''name'' of
                             Some (JString n) \<Rightarrow> n
                           | _ \<Rightarrow> (case fmlookup m ''function'' of
                                     Some (JObject f) \<Rightarrow> resp_take_string f ''name''
                                   | _ \<Rightarrow> []))
               in ChoiceNamed (unwrap_or name (fmlookup ns name)))
        | _ \<Rightarrow> ChoiceAuto)) choice"

section \<open>Requests and replies\<close>

text \<open>The catch-all is a \<open>BTreeMap\<close>, walked in key order.\<close>

definition resp_read_extra ::
  "obj \<Rightarrow> value option \<Rightarrow> value option \<Rightarrow> string option \<Rightarrow> bool option \<Rightarrow> NamespacedExtra" where
  "resp_read_extra extra text reasoning prev store =
     extra_put_opt OpenAIResponses ''store'' (map_option JBool store)
       (extra_put_opt OpenAIResponses ''previous_response_id'' (map_option JString prev)
         (extra_put_opt OpenAIResponses ''reasoning'' reasoning
           (extra_put_opt OpenAIResponses ''text'' text
             (fold (\<lambda>(name, v). extra_put OpenAIResponses name v) (sorted_list_of_fmap extra) []))))"

definition resp_read :: "serde \<Rightarrow> OpenAIResponsesRequest \<Rightarrow> IrRequest" where
  "resp_read S req =
     (let (input_texts, messages) = resp_read_input S (rq_input req);
          system_texts = input_texts @ (case rq_instructions req of Some i \<Rightarrow> [i] | None \<Rightarrow> []);
          system = (if system_texts = [] then [] else [Text (join [nl, nl] system_texts) None]);
          effort = Option.bind (rq_reasoning req) (\<lambda>v. jget_str v ''effort'');
          (tools, ns) = resp_read_tools (rq_tools req)
      in \<lparr>ir_model = rq_model req,
          ir_system = system,
          ir_messages = messages,
          ir_tools = tools,
          ir_tool_choice = resp_read_tool_choice (rq_tool_choice req) ns,
          ir_sampling = \<lparr>sa_max_tokens = rq_max_output_tokens req, sa_temperature = rq_temperature req,
            sa_top_p = rq_top_p req, sa_top_k = None, sa_stop = []\<rparr>,
          ir_stream = unwrap_or False (rq_stream req),
          ir_reasoning = unwrap_or ReasoningOff (map_option Effort effort),
          ir_extra = resp_read_extra (rq_extra req) (rq_text req) (rq_reasoning req)
            (rq_previous_response_id req) (rq_store req)\<rparr>)"

definition resp_output_text :: "value \<Rightarrow> IrPart option" where
  "resp_output_text v =
     (case v of
        JObject part \<Rightarrow>
          if get_str part ''type'' \<noteq> Some ITEM_TYPE_OUTPUT_TEXT then None
          else (let text = resp_take_string part ''text'' in then_some (text \<noteq> []) (Text text None))
      | _ \<Rightarrow> None)"

definition resp_read_output_item :: "serde \<Rightarrow> value \<Rightarrow> IrPart list \<Rightarrow> IrPart list" where
  "resp_read_output_item S v parts =
     (case v of
        JObject item \<Rightarrow>
          (case get_str item ''type'' of
             Some t \<Rightarrow>
               if t = ITEM_TYPE_MESSAGE then
                 (case fmlookup item ''content'' of
                    Some (JArray content) \<Rightarrow> parts @ List.map_filter resp_output_text content
                  | _ \<Rightarrow> parts)
               else if t = ITEM_TYPE_FUNCTION_CALL then
                 (let name = resp_take_string item ''name''
                  in if name = [] then parts
                     else parts @ [ToolCall (resp_take_string item ''call_id'') name
                            (parse_arguments S (resp_take_string item ''arguments'')) None])
               else if t = ITEM_TYPE_REASONING then
                 parts @ [Thinking (resp_take_reasoning_text item) None]
               else parts
           | None \<Rightarrow> parts)
      | _ \<Rightarrow> parts)"

definition resp_usage_to_ir :: "ResponsesUsage \<Rightarrow> Usage" where
  "resp_usage_to_ir usage =
     usage_default\<lparr>us_input_tokens := ru_input_tokens usage, us_output_tokens := ru_output_tokens usage,
       us_cache_read_tokens := Option.bind (ru_input_tokens_details usage) itd_cached_tokens\<rparr>"

definition resp_read_response :: "serde \<Rightarrow> string \<Rightarrow> OpenAIResponsesResponse \<Rightarrow> IrResponse" where
  "resp_read_response S uuid resp =
     \<lparr>re_id = Some (if rp_id resp = [] then new_resp_id uuid else rp_id resp),
      re_model = rp_model resp,
      re_parts = fold (resp_read_output_item S) (rp_output resp) [],
      re_stop_reason =
        (if rp_status resp = ''incomplete'' then MaxTokens else from_openai_resp (rp_status resp)),
      re_stop_sequence = None,
      re_usage = unwrap_or usage_default (map_option resp_usage_to_ir (rp_usage resp))\<rparr>"

end
