(* ===== verification/Resp_Build.thy ===== *)
theory Resp_Build
  imports Resp_Read
begin

text \<open>
  IR to Responses: \<open>crates/core/src/formats/openai_resp/build.rs\<close>, and the proof that the request builder
  keeps the isolation contract between vendors.
\<close>

section \<open>Operations\<close>

definition resp_system_to_instructions :: "IrPart list \<Rightarrow> string option" where
  "resp_system_to_instructions system =
     (let texts = List.map_filter part_text_opt system
      in then_some (texts \<noteq> []) (join [nl, nl] texts))"

definition resp_text_part_type :: "Role \<Rightarrow> string" where
  "resp_text_part_type role =
     (case role of User \<Rightarrow> ITEM_TYPE_INPUT_TEXT | Assistant \<Rightarrow> ITEM_TYPE_OUTPUT_TEXT)"

definition resp_role_str :: "Role \<Rightarrow> string" where
  "resp_role_str role = (case role of User \<Rightarrow> ''user'' | Assistant \<Rightarrow> ''assistant'')"

definition resp_flush_input :: "Role \<Rightarrow> value list \<times> value list \<Rightarrow> value list \<times> value list" where
  "resp_flush_input role acc =
     (case acc of (items, content) \<Rightarrow>
        if content = [] then (items, content)
        else (items @ [jobj [(''type'', JString ITEM_TYPE_MESSAGE), (''role'', JString (resp_role_str role)),
                             (''content'', JArray content)]], []))"

definition resp_parts_to_text :: "IrPart list \<Rightarrow> string" where
  "resp_parts_to_text parts = concat (List.map_filter part_text_opt parts)"

definition resp_call_item :: "serde \<Rightarrow> string \<Rightarrow> string \<Rightarrow> value \<Rightarrow> value" where
  "resp_call_item S i name args =
     jobj [(''type'', JString ITEM_TYPE_FUNCTION_CALL), (''call_id'', JString i), (''name'', JString name),
           (''arguments'', JString (to_text S args))]"

definition resp_image_value :: "string \<Rightarrow> string option \<Rightarrow> value" where
  "resp_image_value url detail =
     (let part = obj_of [(''type'', JString ITEM_TYPE_INPUT_IMAGE), (''image_url'', JString url)]
      in JObject (case detail of Some d \<Rightarrow> fmupd ''detail'' (JString d) part | None \<Rightarrow> part))"

text \<open>One turn of the loop over a message's parts: the items written and the content collected.\<close>

definition resp_input_part ::
  "serde \<Rightarrow> Role \<Rightarrow> IrPart \<Rightarrow> value list \<times> value list \<Rightarrow> value list \<times> value list" where
  "resp_input_part S role part acc =
     (case part of
        Text text s \<Rightarrow>
          (fst acc, snd acc @ [jobj [(''type'', JString (resp_text_part_type role)), (''text'', JString text)]])
      | Image url media_type data detail \<Rightarrow> (fst acc, snd acc @ [resp_image_value url detail])
      | ToolCall i name args s \<Rightarrow>
          (let (items, content) = resp_flush_input role acc in (items @ [resp_call_item S i name args], content))
      | ToolResult cid is_error result \<Rightarrow>
          (let (items, content) = resp_flush_input role acc
           in (items @ [jobj [(''type'', JString ITEM_TYPE_FUNCTION_CALL_OUTPUT), (''call_id'', JString cid),
                              (''output'', JString (resp_parts_to_text result))]], content))
      | Thinking t s \<Rightarrow> acc
      | Sealed b raw \<Rightarrow> acc)"

definition resp_input_message :: "serde \<Rightarrow> IrMessage \<Rightarrow> value list \<Rightarrow> value list" where
  "resp_input_message S msg items =
     fst (resp_flush_input (im_role msg)
       (fold (resp_input_part S (im_role msg)) (im_parts msg) (items, [])))"

definition resp_messages_to_input :: "serde \<Rightarrow> IrMessage list \<Rightarrow> value option" where
  "resp_messages_to_input S messages =
     (let items = fold (resp_input_message S) messages []
      in then_some (items \<noteq> []) (JArray items))"

definition resp_tool_to_value :: "IrTool \<Rightarrow> value" where
  "resp_tool_to_value tool =
     (let v0 = obj_of [(''type'', JString ''function''), (''name'', JString (it_name tool)),
                       (''parameters'', it_schema tool)];
          v1 = fmupd ''strict'' (JBool (unwrap_or True (it_strict tool))) v0;
          v2 = (if it_description tool \<noteq> [] then fmupd ''description'' (JString (it_description tool)) v1 else v1)
      in JObject v2)"

definition resp_tool_choice_to_value :: "IrToolChoice \<Rightarrow> value" where
  "resp_tool_choice_to_value choice =
     (case choice of
        ChoiceAuto \<Rightarrow> JString ''auto''
      | ChoiceNone \<Rightarrow> JString ''none''
      | ChoiceRequired \<Rightarrow> JString ''required''
      | ChoiceNamed name \<Rightarrow> jobj [(''type'', JString ''function''), (''name'', JString name)])"

definition resp_reasoning_to_value :: "Reasoning \<Rightarrow> value option" where
  "resp_reasoning_to_value reasoning =
     (case reasoning of
        ReasoningOff \<Rightarrow> None
      | Effort effort \<Rightarrow> Some (jobj [(''effort'', JString effort)])
      | Budget budget \<Rightarrow>
          thinking_to_reasoning_json \<lparr>tk_type = ''enabled'', tk_budget_tokens = budget\<rparr>)"

text \<open>The locals the loop over \<open>extra.take(OpenAIResponses)\<close> assigns.\<close>

record resp_extra =
  rx_text :: "value option"
  rx_previous_response_id :: "string option"
  rx_store :: "bool option"
  rx_reasoning :: "value option"
  rx_rest :: obj

definition resp_take_field :: "string \<times> value \<Rightarrow> resp_extra \<Rightarrow> resp_extra" where
  "resp_take_field kv rx =
     (case kv of (name, v) \<Rightarrow>
        if name = ''text'' then rx\<lparr>rx_text := Some v\<rparr>
        else if name = ''previous_response_id'' then rx\<lparr>rx_previous_response_id := as_str v\<rparr>
        else if name = ''store'' then rx\<lparr>rx_store := as_bool v\<rparr>
        else if name = ''reasoning'' then rx\<lparr>rx_reasoning := Some v\<rparr>
        else rx\<lparr>rx_rest := fmupd name v (rx_rest rx)\<rparr>)"

definition resp_take_extra :: "NamespacedExtra \<Rightarrow> resp_extra" where
  "resp_take_extra extra =
     fold resp_take_field (fst (extra_take OpenAIResponses extra))
       \<lparr>rx_text = None, rx_previous_response_id = None, rx_store = None, rx_reasoning = None, rx_rest = fmempty\<rparr>"

definition resp_build :: "serde \<Rightarrow> IrRequest \<Rightarrow> OpenAIResponsesRequest" where
  "resp_build S ir =
     (let rx = resp_take_extra (ir_extra ir)
      in \<lparr>rq_model = ir_model ir,
          rq_input = resp_messages_to_input S (ir_messages ir),
          rq_instructions = resp_system_to_instructions (ir_system ir),
          rq_max_output_tokens = sa_max_tokens (ir_sampling ir),
          rq_temperature = sa_temperature (ir_sampling ir),
          rq_top_p = sa_top_p (ir_sampling ir),
          rq_stream = then_some (ir_stream ir) True,
          rq_tools = then_some (ir_tools ir \<noteq> []) (map resp_tool_to_value (ir_tools ir)),
          rq_tool_choice = map_option resp_tool_choice_to_value (ir_tool_choice ir),
          rq_text = rx_text rx,
          rq_reasoning = or_else (rx_reasoning rx) (resp_reasoning_to_value (ir_reasoning ir)),
          rq_previous_response_id = rx_previous_response_id rx,
          rq_store = rx_store rx,
          rq_extra = rx_rest rx\<rparr>)"

section \<open>Replies\<close>

definition resp_flush_text :: "value list \<times> value list \<Rightarrow> value list \<times> value list" where
  "resp_flush_text acc =
     (case acc of (output, content) \<Rightarrow>
        if content = [] then (output, content)
        else (output @ [jobj [(''type'', JString ITEM_TYPE_MESSAGE), (''role'', JString ''assistant''),
                              (''content'', JArray content)]], []))"

definition resp_reasoning_item :: "serde \<Rightarrow> string \<Rightarrow> string \<Rightarrow> Signature option \<Rightarrow> value" where
  "resp_reasoning_item S uuid thinking claude_signature =
     (let item = obj_of [(''type'', JString ITEM_TYPE_REASONING), (''id'', JString (''rs_'' @ uuid)),
            (''summary'', JArray [jobj [(''type'', JString ITEM_TYPE_SUMMARY_TEXT), (''text'', JString thinking)]])]
      in JObject (case claude_signature of
           Some sg \<Rightarrow> fmupd ''encrypted_content'' (JString (seal_thinking S thinking (sig_value sg))) item
         | None \<Rightarrow> item))"

definition resp_sealed_reasoning_item :: "serde \<Rightarrow> string \<Rightarrow> value \<Rightarrow> value" where
  "resp_sealed_reasoning_item S uuid raw =
     jobj [(''type'', JString ITEM_TYPE_REASONING), (''id'', JString (''rs_'' @ uuid)),
           (''summary'', JArray []), (''encrypted_content'', JString (seal_block S raw))]"

text \<open>The loop of \<open>build_response\<close>: output, pending text content, identifiers drawn.\<close>

definition resp_output_part ::
  "serde \<Rightarrow> (nat \<Rightarrow> string) \<Rightarrow> IrPart \<Rightarrow> (value list \<times> value list) \<times> nat \<Rightarrow> (value list \<times> value list) \<times> nat" where
  "resp_output_part S U part acc =
     (case acc of (oc, k) \<Rightarrow>
        (case part of
           Text text s \<Rightarrow>
             ((fst oc, snd oc @ [jobj [(''type'', JString ITEM_TYPE_OUTPUT_TEXT), (''text'', JString text)]]), k)
         | ToolCall i name args s \<Rightarrow>
             (let (output, content) = resp_flush_text oc in ((output @ [resp_call_item S i name args], content), k))
         | Thinking text signature \<Rightarrow>
             (let (output, content) = resp_flush_text oc;
                  claude = opt_filter (\<lambda>s. sig_by s = Claude) signature
              in ((output @ [resp_reasoning_item S (U k) text claude], content), Suc k))
         | Sealed by raw \<Rightarrow>
             if by = Claude then
               (let (output, content) = resp_flush_text oc
                in ((output @ [resp_sealed_reasoning_item S (U k) raw], content), Suc k))
             else (oc, k)
         | _ \<Rightarrow> (oc, k)))"

definition resp_build_response :: "serde \<Rightarrow> env \<Rightarrow> IrResponse \<Rightarrow> OpenAIResponsesResponse" where
  "resp_build_response S E ir =
     (let (oc, k) = fold (resp_output_part S (env_uuid E)) (re_parts ir) (([], []), 0);
          output = fst (resp_flush_text oc)
      in \<lparr>rp_id = normalize_id_to_resp (env_uuid E k) (unwrap_or [] (re_id ir)),
          rp_object = ''response'',
          rp_created_at = env_now E,
          rp_model = re_model ir,
          rp_status = (if re_stop_reason ir = MaxTokens then ''incomplete'' else ''completed''),
          rp_output = output,
          rp_usage = Some \<lparr>ru_input_tokens = us_input_tokens (re_usage ir),
            ru_output_tokens = us_output_tokens (re_usage ir),
            ru_total_tokens = Some (us_input_tokens (re_usage ir) + us_output_tokens (re_usage ir)),
            ru_input_tokens_details =
              map_option (\<lambda>cached. \<lparr>itd_cached_tokens = Some cached\<rparr>) (us_cache_read_tokens (re_usage ir))\<rparr>\<rparr>)"

section \<open>Vendor isolation\<close>

lemma resp_input_part_mask [simp]: "resp_input_part S role (mask_part f p) = resp_input_part S role p"
  by (rule ext, cases p) (simp_all add: resp_input_part_def resp_parts_to_text_def)

lemma resp_input_message_mask [simp]: "resp_input_message S (mask_message f m) = resp_input_message S m"
  by (rule ext) (simp add: resp_input_message_def fold_map comp_def)

interpretation resp_builder: request_builder OpenAIResponses "resp_build S" for S
  by unfold_locales
    (simp add: resp_build_def Let_def resp_messages_to_input_def resp_system_to_instructions_def
      resp_take_extra_def fold_map comp_def)

end
