(* ===== verification/Resp_Stream.thy ===== *)
theory Resp_Stream
  imports Resp_Build
begin

text \<open>
  The Responses stream adapter: \<open>crates/core/src/formats/openai_resp/stream.rs\<close>.  Unlike the others this
  emitter can fail: an argument fragment for a call it has not seen is an error.
\<close>

section \<open>The thinking accumulator\<close>

definition THINKING_TEXT_END :: char where "THINKING_TEXT_END = CHR 0x00"

definition thinking_parts :: "StreamState \<Rightarrow> string \<times> string" where
  "thinking_parts st =
     (case rsplit_once THINKING_TEXT_END (thinking_signature st) of
        Some (t, s) \<Rightarrow> (t, s)
      | None \<Rightarrow> (thinking_signature st, []))"

definition signed_by_claude :: "StreamState \<Rightarrow> bool" where
  "signed_by_claude st \<longleftrightarrow>
     thinking_signature_by st = Some Claude \<and>
     (case rsplit_once THINKING_TEXT_END (thinking_signature st) of
        Some (t, s) \<Rightarrow> s \<noteq> [] | None \<Rightarrow> False)"

definition reasoning_prefix :: "StreamState \<Rightarrow> u32" where
  "reasoning_prefix st = (if signed_by_claude st then 1 else 0)"

section \<open>Status\<close>

definition status_to_stop_reason :: "string \<Rightarrow> StopReason" where
  "status_to_stop_reason status =
     (if status = ''completed'' then EndTurn
      else if status = ''incomplete'' then MaxTokens
      else if status = ''failed'' then ContentFilter
      else EndTurn)"

definition stop_reason_to_status :: "StopReason \<Rightarrow> string" where
  "stop_reason_to_status reason =
     (case reason of MaxTokens \<Rightarrow> ''incomplete'' | ContentFilter \<Rightarrow> ''failed'' | _ \<Rightarrow> ''completed'')"

section \<open>Parsing\<close>

definition resp_stream_usage :: "value \<Rightarrow> Usage" where
  "resp_stream_usage u =
     usage_default
       \<lparr>us_input_tokens := unwrap_or 0 (Option.bind (jget u ''input_tokens'') as_u64),
        us_output_tokens := unwrap_or 0 (Option.bind (jget u ''output_tokens'') as_u64),
        us_cache_read_tokens :=
          Option.bind (Option.bind (jget u ''input_tokens_details'') (\<lambda>d. jget d ''cached_tokens'')) as_u64\<rparr>"

definition resp_parse_created :: "value \<Rightarrow> StreamState \<Rightarrow> (CanonicalStreamEvent list \<times> StreamState) result" where
  "resp_parse_created data st =
     try_bind (ok_or (MissingField ''response'') (jget data ''response'')) (\<lambda>response.
       try_bind (ok_or (MissingField ''response.id'') (jget_str response ''id'')) (\<lambda>i.
         let model = unwrap_or [] (jget_str response ''model'');
             st1 = (case jget response ''usage'' of
                      Some u \<Rightarrow> st\<lparr>accumulated_usage := Some (resp_stream_usage u)\<rparr> | None \<Rightarrow> st)
         in Inr ([Start i model],
                 st1\<lparr>response_id := Some i, st_model := Some model, phase := PhaseContent\<rparr>)))"

definition resp_parse_item_added :: "value \<Rightarrow> StreamState \<Rightarrow> (CanonicalStreamEvent list \<times> StreamState) result" where
  "resp_parse_item_added data st =
     (let item = unwrap_or data (jget data ''item'')
      in if jget_str item ''type'' = Some ''function_call'' then
           (let i = unwrap_or [] (jget_str item ''call_id'');
                name = unwrap_or [] (jget_str item ''name'');
                (index, st1) = next_tool_call_index st
            in Inr ([ToolCallStart index i name None], st1\<lparr>phase := PhaseToolCalls\<rparr>))
         else Inr ([], st))"

definition resp_parse_completed :: "value \<Rightarrow> StreamState \<Rightarrow> (CanonicalStreamEvent list \<times> StreamState) result" where
  "resp_parse_completed data st =
     try_bind (ok_or (MissingField ''response'') (jget data ''response'')) (\<lambda>response.
       let status = unwrap_or ''completed'' (jget_str response ''status'');
           stop_reason = status_to_stop_reason status;
           usage = map_option resp_stream_usage (jget response ''usage'')
       in Inr ([Done stop_reason usage],
               st\<lparr>st_done := True, phase := PhaseDone, accumulated_usage := usage\<rparr>))"

definition resp_parse_sse_event :: "serde \<Rightarrow> parser" where
  "resp_parse_sse_event S E event st =
     (case from_text S (sse_data event) of
        Inl e \<Rightarrow> Inl (SseParse e)
      | Inr data \<Rightarrow>
          try_bind (ok_or (SseParse ''missing event type'') (or_else (sse_event event) (jget_str data ''type'')))
            (\<lambda>event_type.
              if event_type = ''response.created'' then resp_parse_created data st
              else if event_type = ''response.output_text.delta'' then
                Inr ([TextDelta (unwrap_or [] (jget_str data ''delta''))], st)
              else if event_type = ''response.function_call_arguments.delta'' then
                Inr ([ToolCallDelta
                        (ucast (unwrap_or (ucast (tool_call_index st) :: u64)
                           (Option.bind (jget data ''output_index'') as_u64)))
                        (unwrap_or [] (jget_str data ''delta''))], st)
              else if event_type = ''response.output_item.added'' then resp_parse_item_added data st
              else if event_type = ''response.completed'' then resp_parse_completed data st
              else Inr ([], st)))"

section \<open>Emitting\<close>

definition resp_emit_signature :: "Format \<Rightarrow> string \<Rightarrow> StreamState \<Rightarrow> frame list \<times> StreamState" where
  "resp_emit_signature by delta st =
     (if by \<noteq> Claude \<or> delta = [] then ([], st)
      else let st1 = (if thinking_signature_by st \<noteq> Some by
                      then st\<lparr>thinking_signature_by := Some by,
                              thinking_signature := thinking_signature st @ [THINKING_TEXT_END]\<rparr>
                      else st)
           in ([], st1\<lparr>thinking_signature := thinking_signature st1 @ delta\<rparr>))"

definition resp_text_offset :: "StreamState \<Rightarrow> u32" where
  "resp_text_offset st = (if accumulated_text st = [] then 0 else 1)"

definition resp_emit_sealed :: "serde \<Rightarrow> string \<Rightarrow> value \<Rightarrow> StreamState \<Rightarrow> frame list \<times> StreamState" where
  "resp_emit_sealed S uuid raw st =
     (let (bi, st1) = next_block_index st;
          index = resp_text_offset st + of_nat (length (accumulated_tool_calls st)) + bi;
          i = ''rs_'' @ uuid;
          added = jobj [(''type'', JString ''response.output_item.added''), (''output_index'', json_u32 index),
            (''item'', jobj [(''id'', JString i), (''type'', JString ITEM_TYPE_REASONING),
                             (''status'', JString ''in_progress''), (''summary'', JArray [])])];
          item = jobj [(''id'', JString i), (''type'', JString ITEM_TYPE_REASONING),
                       (''status'', JString ''completed''), (''summary'', JArray []),
                       (''encrypted_content'', JString (seal_block S raw))];
          finished = jobj [(''type'', JString ''response.output_item.done''), (''output_index'', json_u32 index),
                           (''item'', item)]
      in ([(''response.output_item.added'', added), (''response.output_item.done'', finished)], st1))"

definition resp_emit_start :: "env \<Rightarrow> string \<Rightarrow> string \<Rightarrow> StreamState \<Rightarrow> frame list \<times> StreamState" where
  "resp_emit_start E i model st =
     (let normalized_id = normalize_id_to_resp (env_uuid E 0) i;
          st1 = st\<lparr>response_id := Some normalized_id, st_model := Some model, phase := PhaseContent\<rparr>;
          response = jobj [(''id'', JString normalized_id), (''object'', JString ''response''),
            (''created_at'', json_u64 (env_now E)), (''model'', JString model),
            (''status'', JString ''in_progress''), (''output'', JArray [])]
      in ([(''response.created'', jobj [(''type'', JString ''response.created''), (''response'', response)]),
           (''response.in_progress'', jobj [(''type'', JString ''response.in_progress''), (''response'', response)])],
          st1))"

definition resp_emit_text :: "env \<Rightarrow> string \<Rightarrow> StreamState \<Rightarrow> frame list \<times> StreamState" where
  "resp_emit_text E t st =
     (let item_id = unwrap_or (''resp_'' @ env_uuid E 0) (map_option (\<lambda>i. i @ ''_msg_0'') (response_id st));
          output_index = reasoning_prefix st;
          opening =
            (if accumulated_text st = [] then
               [(''response.output_item.added'',
                 jobj [(''type'', JString ''response.output_item.added''), (''output_index'', json_u32 output_index),
                   (''item'', jobj [(''type'', JString ''message''), (''id'', JString item_id),
                      (''role'', JString ''assistant''), (''status'', JString ''in_progress''),
                      (''content'', JArray [])])]),
                (''response.content_part.added'',
                 jobj [(''type'', JString ''response.content_part.added''), (''item_id'', JString item_id),
                   (''output_index'', json_u32 output_index), (''content_index'', json_u32 0),
                   (''part'', jobj [(''type'', JString ''output_text''), (''text'', JString [])])])]
             else [])
      in (opening @
            [(''response.output_text.delta'',
              jobj [(''type'', JString ''response.output_text.delta''), (''item_id'', JString item_id),
                (''output_index'', json_u32 output_index), (''content_index'', json_u32 0),
                (''delta'', JString t)])],
          st\<lparr>accumulated_text := accumulated_text st @ t\<rparr>))"

definition resp_emit_call_start ::
  "u32 \<Rightarrow> string \<Rightarrow> string \<Rightarrow> StreamState \<Rightarrow> frame list \<times> StreamState" where
  "resp_emit_call_start index i name st =
     (let item_id = ''fc_'' @ i;
          output_index = index + resp_text_offset st + reasoning_prefix st
      in ([(''response.output_item.added'',
            jobj [(''type'', JString ''response.output_item.added''), (''output_index'', json_u32 output_index),
              (''item'', jobj [(''id'', JString item_id), (''type'', JString ''function_call''),
                 (''status'', JString ''in_progress''), (''call_id'', JString i), (''name'', JString name),
                 (''arguments'', JString [])])])],
          st\<lparr>accumulated_tool_calls := accumulated_tool_calls st @
               [\<lparr>tc_index = index, tc_id = i, tc_name = name, tc_arguments = []\<rparr>]\<rparr>))"

text \<open>\<open>find(|tc| tc.index == *index)\<close> and \<open>arguments.push_str(..)\<close>: the id found and the list after.\<close>

fun resp_push_arguments ::
  "u32 \<Rightarrow> string \<Rightarrow> AccumulatedToolCall list \<Rightarrow> (string \<times> AccumulatedToolCall list) option" where
  "resp_push_arguments index delta [] = None"
| "resp_push_arguments index delta (tc # tcs) =
     (if tc_index tc = index
      then Some (tc_id tc, tc\<lparr>tc_arguments := tc_arguments tc @ delta\<rparr> # tcs)
      else map_option (\<lambda>(i, es). (i, tc # es)) (resp_push_arguments index delta tcs))"

fun dec_digits :: "nat \<Rightarrow> string" where
  "dec_digits n = (if n < 10 then [char_of (48 + n)] else dec_digits (n div 10) @ [char_of (48 + n mod 10)])"

declare dec_digits.simps [simp del]

definition resp_emit_call_delta ::
  "u32 \<Rightarrow> string \<Rightarrow> StreamState \<Rightarrow> (frame list \<times> StreamState) result" where
  "resp_emit_call_delta index arguments_delta st =
     (case resp_push_arguments index arguments_delta (accumulated_tool_calls st) of
        None \<Rightarrow> Inl (StreamStateError (''tool call index '' @ dec_digits (unat index) @ '' not found in state''))
      | Some (i, calls) \<Rightarrow>
          Inr ([(''response.function_call_arguments.delta'',
                 jobj [(''type'', JString ''response.function_call_arguments.delta''),
                   (''item_id'', JString (''fc_'' @ i)),
                   (''output_index'', json_u32 (index + resp_text_offset st + reasoning_prefix st)),
                   (''delta'', JString arguments_delta)])],
               st\<lparr>accumulated_tool_calls := calls\<rparr>))"

definition resp_message_item :: "string \<Rightarrow> string \<Rightarrow> value" where
  "resp_message_item item_id t =
     jobj [(''type'', JString ''message''), (''id'', JString item_id), (''role'', JString ''assistant''),
       (''status'', JString ''completed''),
       (''content'', JArray [jobj [(''type'', JString ''output_text''), (''text'', JString t)]])]"

definition resp_call_done_item :: "AccumulatedToolCall \<Rightarrow> value" where
  "resp_call_done_item tc =
     jobj [(''id'', JString (''fc_'' @ tc_id tc)), (''type'', JString ''function_call''),
       (''status'', JString ''completed''), (''call_id'', JString (tc_id tc)), (''name'', JString (tc_name tc)),
       (''arguments'', JString (tc_arguments tc))]"

definition resp_thinking_item :: "serde \<Rightarrow> string \<Rightarrow> string \<Rightarrow> string \<Rightarrow> value" where
  "resp_thinking_item S i t sg =
     jobj [(''id'', JString i), (''type'', JString ITEM_TYPE_REASONING), (''status'', JString ''completed''),
       (''summary'', JArray (if t \<noteq> [] then [jobj [(''type'', JString ITEM_TYPE_SUMMARY_TEXT), (''text'', JString t)]] else [])),
       (''encrypted_content'', JString (seal_thinking S t sg))]"

definition resp_done_thinking :: "serde \<Rightarrow> string \<Rightarrow> StreamState \<Rightarrow> frame list \<times> value list" where
  "resp_done_thinking S uuid st =
     (let (t, sg) = thinking_parts st
      in if signed_by_claude st then
           (let i = ''rs_'' @ uuid; item = resp_thinking_item S i t sg
            in ([(''response.output_item.added'',
                  jobj [(''type'', JString ''response.output_item.added''), (''output_index'', json_u32 0),
                    (''item'', jobj [(''id'', JString i), (''type'', JString ITEM_TYPE_REASONING),
                       (''status'', JString ''in_progress''), (''summary'', JArray [])])]),
                 (''response.output_item.done'',
                  jobj [(''type'', JString ''response.output_item.done''), (''output_index'', json_u32 0),
                    (''item'', item)])], [item]))
         else ([], []))"

definition resp_done_text :: "string \<Rightarrow> StreamState \<Rightarrow> frame list \<times> value list" where
  "resp_done_text item_id st =
     (if accumulated_text st = [] then ([], [])
      else let t = accumulated_text st; index = json_u32 (reasoning_prefix st);
               item = resp_message_item item_id t
           in ([(''response.output_text.done'',
                 jobj [(''type'', JString ''response.output_text.done''), (''item_id'', JString item_id),
                   (''output_index'', index), (''content_index'', json_u32 0), (''text'', JString t)]),
                (''response.content_part.done'',
                 jobj [(''type'', JString ''response.content_part.done''), (''item_id'', JString item_id),
                   (''output_index'', index), (''content_index'', json_u32 0),
                   (''part'', jobj [(''type'', JString ''output_text''), (''text'', JString t)])]),
                (''response.output_item.done'',
                 jobj [(''type'', JString ''response.output_item.done''), (''output_index'', index),
                   (''item'', item)])], [item]))"

definition resp_done_call :: "StreamState \<Rightarrow> AccumulatedToolCall \<Rightarrow> frame list" where
  "resp_done_call st tc =
     (let index = json_u32 (tc_index tc + resp_text_offset st + reasoning_prefix st)
      in [(''response.function_call_arguments.done'',
           jobj [(''type'', JString ''response.function_call_arguments.done''),
             (''item_id'', JString (''fc_'' @ tc_id tc)), (''output_index'', index),
             (''arguments'', JString (tc_arguments tc))]),
          (''response.output_item.done'',
           jobj [(''type'', JString ''response.output_item.done''), (''output_index'', index),
             (''item'', resp_call_done_item tc)])])"

text \<open>The items of the final response; an empty reply is one empty message.\<close>

definition resp_output_items :: "serde \<Rightarrow> string \<Rightarrow> string \<Rightarrow> StreamState \<Rightarrow> value list" where
  "resp_output_items S uuid item_id st =
     (let items = snd (resp_done_thinking S uuid st) @ snd (resp_done_text item_id st) @
            map resp_call_done_item (accumulated_tool_calls st)
      in if items = [] then [resp_message_item item_id []] else items)"

text \<open>\<open>state.response_id\<close> or a fresh id, and the number of identifiers drawn.\<close>

definition draw_or_new :: "env \<Rightarrow> string option \<Rightarrow> string \<times> nat" where
  "draw_or_new E x = (case x of Some i \<Rightarrow> (i, 0) | None \<Rightarrow> (''resp_'' @ env_uuid E 0, 1))"

definition resp_emit_done ::
  "serde \<Rightarrow> env \<Rightarrow> StopReason \<Rightarrow> Usage option \<Rightarrow> StreamState \<Rightarrow> frame list \<times> StreamState" where
  "resp_emit_done S E stop_reason usage st =
     (let (rid, k) = draw_or_new E (response_id st);
          model = unwrap_or [] (st_model st);
          item_id = rid @ ''_msg_0'';
          r0 = obj_of [(''id'', JString rid), (''object'', JString ''response''),
            (''created_at'', json_u64 (env_now E)), (''model'', JString model),
            (''status'', JString (stop_reason_to_status stop_reason)),
            (''output'', JArray (resp_output_items S (env_uuid E k) item_id st))];
          response = (case usage of
             Some u \<Rightarrow> fmupd ''usage'' (jobj [(''input_tokens'', json_u64 (us_input_tokens u)),
               (''output_tokens'', json_u64 (us_output_tokens u)), (''total_tokens'', json_u64 (total_tokens u))]) r0
           | None \<Rightarrow> r0)
      in (fst (resp_done_thinking S (env_uuid E k) st) @ fst (resp_done_text item_id st) @
            concat (map (resp_done_call st) (accumulated_tool_calls st)) @
            [(''response.completed'',
              jobj [(''type'', JString ''response.completed''), (''response'', JObject response)])],
          st\<lparr>st_done := True, phase := PhaseDone\<rparr>))"

definition resp_emit_thinking :: "string \<Rightarrow> StreamState \<Rightarrow> frame list \<times> StreamState" where
  "resp_emit_thinking delta st =
     ([], st\<lparr>thinking_signature :=
        (case rsplit_once THINKING_TEXT_END (thinking_signature st) of
           Some (t, s) \<Rightarrow>
             take (length t) (thinking_signature st) @ delta @ drop (length t) (thinking_signature st)
         | None \<Rightarrow> thinking_signature st @ delta)\<rparr>)"

definition resp_emit_frames ::
  "serde \<Rightarrow> env \<Rightarrow> CanonicalStreamEvent \<Rightarrow> StreamState \<Rightarrow> (frame list \<times> StreamState) result" where
  "resp_emit_frames S E event st =
     (case event of
        ThinkingSignature by delta \<Rightarrow> Inr (resp_emit_signature by delta st)
      | SealedThinking by raw \<Rightarrow>
          Inr (if by = Claude then resp_emit_sealed S (env_uuid E 0) raw st else ([], st))
      | Start i model \<Rightarrow> Inr (resp_emit_start E i model st)
      | TextDelta t \<Rightarrow> Inr (resp_emit_text E t st)
      | ToolCallStart index i name s \<Rightarrow> Inr (resp_emit_call_start index i name st)
      | ToolCallDelta index arguments_delta \<Rightarrow> resp_emit_call_delta index arguments_delta st
      | Done stop_reason usage \<Rightarrow> Inr (resp_emit_done S E stop_reason usage st)
      | ThinkingDelta delta \<Rightarrow> Inr (resp_emit_thinking delta st))"

definition resp_emit_sse_event :: "serde \<Rightarrow> emitter" where
  "resp_emit_sse_event S E event st =
     try_bind (resp_emit_frames S E event st) (\<lambda>(frames, st1). Inr (map (render S) frames, st1))"

lemmas resp_emit_defs = resp_emit_signature_def resp_emit_sealed_def resp_emit_start_def resp_emit_text_def
  resp_emit_call_start_def resp_emit_call_delta_def resp_emit_done_def resp_emit_thinking_def

interpretation resp_emitter: stream_emitter "resp_emit_sse_event S" OpenAIResponses for S
  by unfold_locales
    (auto simp: resp_emit_sse_event_def resp_emit_frames_def resp_emit_defs Let_def split: prod.splits)

end
