(* ===== verification/Resp_Roundtrip.thy ===== *)
theory Resp_Roundtrip
  imports Resp_Build
begin

text \<open>
  What a request or a reply looks like after a trip to the Responses wire and back, and how Claude's signed
  and redacted thinking survives it inside \<open>encrypted_content\<close>.
\<close>

section \<open>Sealed thinking\<close>

text \<open>The JSON object \<open>seal_thinking\<close> writes by hand, as \<open>serde_json\<close> is documented to parse it.\<close>

definition seal_text :: "serde \<Rightarrow> string \<Rightarrow> string \<Rightarrow> string" where
  "seal_text S thinking signature =
     ''{\"type\":\"thinking\",\"thinking\":'' @ to_text S (JString thinking) @
       '',\"signature\":'' @ to_text S (JString signature) @ ''}''"

definition sealed_thinking_value :: "string \<Rightarrow> string \<Rightarrow> value" where
  "sealed_thinking_value thinking signature =
     jobj [(''type'', JString ''thinking''), (''thinking'', JString thinking), (''signature'', JString signature)]"

lemma seal_nonempty: "seal b \<noteq> []"
  by (simp add: seal_def CLAUDE_SEAL_MARK_def)

text \<open>Claude's thinking, written into a Responses reply as a reasoning item, comes back from the next
  request's input as the same thinking with the same signature, still marked as Claude's, provided
  \<open>serde_json\<close> parses the JSON object the seal is made of.\<close>

lemma resp_thinking_seal_roundtrip:
  assumes "from_text S (seal_text S t (sig_value sg)) = Inr (sealed_thinking_value t (sig_value sg))"
    and "sig_by sg = Claude" "sig_value sg \<noteq> []"
  shows "\<exists>item. resp_reasoning_item S uuid t (Some sg) = JObject item \<and>
    resp_input_item_kind item = KindReasoning \<and> resp_read_reasoning_item S item = Thinking t (Some sg)"
proof -
  have "open_seal S (seal_thinking S t (sig_value sg)) = Some (sealed_thinking_value t (sig_value sg))"
    using assms(1) unfolding seal_thinking_def seal_text_def open_seal_text by simp
  then have part: "resp_claude_sealed_part S (seal_thinking S t (sig_value sg)) = Some (Thinking t (Some sg))"
    using assms(2,3) by (cases sg) (simp add: resp_claude_sealed_part_def sealed_thinking_value_def get_str_def)
  have "seal_thinking S t (sig_value sg) \<noteq> []"
    by (simp add: seal_thinking_def seal_nonempty)
  with part show ?thesis
    by (simp add: resp_reasoning_item_def Let_def resp_input_item_kind_def get_str_def resp_item_types
        resp_read_reasoning_item_def)
qed

definition seal_demo_serde :: serde where
  "seal_demo_serde = \<lparr>from_text = (\<lambda>s. Inr (sealed_thinking_value ''hm'' ''sig'')), to_text = (\<lambda>v. ''x'')\<rparr>"

lemma resp_thinking_seal_roundtrip_witness:
  "\<exists>item. resp_reasoning_item seal_demo_serde ''u'' ''hm'' (Some \<lparr>sig_by = Claude, sig_value = ''sig''\<rparr>) = JObject item \<and>
    resp_input_item_kind item = KindReasoning \<and>
    resp_read_reasoning_item seal_demo_serde item = Thinking ''hm'' (Some \<lparr>sig_by = Claude, sig_value = ''sig''\<rparr>)"
  by (rule resp_thinking_seal_roundtrip) (simp_all add: seal_demo_serde_def)

text \<open>A redacted thinking block of Claude's, written into a Responses reply, comes back from the next
  request's input byte for byte, provided \<open>serde_json\<close> prints and parses the block.\<close>

lemma resp_redacted_seal_roundtrip:
  assumes "from_text S (to_text S raw) = Inr raw"
    and "jget_str raw ''type'' = Some ''redacted_thinking''"
    and "jget_str raw ''data'' = Some d" "d \<noteq> []"
  shows "\<exists>item. resp_sealed_reasoning_item S uuid raw = JObject item \<and>
    resp_input_item_kind item = KindReasoning \<and> resp_read_reasoning_item S item = Sealed Claude raw"
proof -
  have "open_seal S (seal_block S raw) = Some raw"
    using assms(1) by (simp add: seal_block_def open_seal_text)
  then have "resp_claude_sealed_part S (seal_block S raw) = Some (Sealed Claude raw)"
    using assms(2-4) by (simp add: resp_claude_sealed_part_def)
  moreover have "seal_block S raw \<noteq> []"
    by (simp add: seal_block_def seal_nonempty)
  ultimately show ?thesis
    by (simp add: resp_sealed_reasoning_item_def resp_input_item_kind_def get_str_def resp_item_types
        resp_read_reasoning_item_def)
qed

lemma resp_redacted_seal_roundtrip_witness:
  "\<exists>item. resp_sealed_reasoning_item
      \<lparr>from_text = (\<lambda>s. Inr (jobj [(''type'', JString ''redacted_thinking''), (''data'', JString ''zz'')])), to_text = (\<lambda>v. ''x'')\<rparr>
      ''u'' (jobj [(''type'', JString ''redacted_thinking''), (''data'', JString ''zz'')]) = JObject item \<and>
    resp_input_item_kind item = KindReasoning \<and>
    resp_read_reasoning_item
      \<lparr>from_text = (\<lambda>s. Inr (jobj [(''type'', JString ''redacted_thinking''), (''data'', JString ''zz'')])), to_text = (\<lambda>v. ''x'')\<rparr>
      item = Sealed Claude (jobj [(''type'', JString ''redacted_thinking''), (''data'', JString ''zz'')])"
  by (rule resp_redacted_seal_roundtrip [where d = "''zz''"]) (simp_all add: get_str_def)

section \<open>Messages\<close>

definition resp_part_ok :: "serde \<Rightarrow> Role \<Rightarrow> IrPart \<Rightarrow> bool" where
  "resp_part_ok S role p \<longleftrightarrow>
     (case p of
        Text t s \<Rightarrow> s = None
      | Image url mt d det \<Rightarrow>
          url \<noteq> [] \<and> (case parse_data_url url of Some (m, x) \<Rightarrow> mt = m \<and> d = Some x | None \<Rightarrow> mt = [] \<and> d = None)
      | ToolCall i n a s \<Rightarrow> role = Assistant \<and> n \<noteq> [] \<and> s = None \<and> parse_arguments S (to_text S a) = a
      | ToolResult c e ps \<Rightarrow> role = User \<and> \<not> e \<and> ps = [Text (part_text (hd ps)) None]
      | _ \<Rightarrow> False)"

lemma resp_push_push: "resp_push_message r b (resp_push_message r a ms) = resp_push_message r (a @ b) ms"
  by (cases ms rule: rev_cases) (auto simp: resp_push_message_def butlast_append)

lemma resp_push_Nil [simp]: "resp_push_message r [] ms = ms"
  by (simp add: resp_push_message_def)

definition is_item_part :: "IrPart \<Rightarrow> bool" where
  "is_item_part p \<longleftrightarrow> (case p of ToolCall i n a s \<Rightarrow> True | ToolResult c e ps \<Rightarrow> True | _ \<Rightarrow> False)"

lemma resp_content_built:
  assumes "resp_part_ok S role p" "\<not> is_item_part p"
  shows "\<exists>v. resp_input_part S role p (items, content) = (items, content @ [v]) \<and> resp_part_from_value v = Some p"
proof (cases p)
  case (Text t s)
  with assms show ?thesis
    by (cases role) (simp_all add: resp_input_part_def resp_part_from_value_def resp_is_text_def get_str_def
        resp_text_part_type_def resp_take_string_def resp_part_ok_def)
next
  case (Image url mt d det)
  with assms(1) have "(case parse_data_url url of Some (m, x) \<Rightarrow> (m, Some x) | None \<Rightarrow> ([], None)) = (mt, d)" "url \<noteq> []"
    by (auto simp: resp_part_ok_def split: option.splits)
  with Image show ?thesis
    by (cases det)
      (simp_all add: resp_input_part_def resp_image_value_def resp_part_from_value_def resp_is_text_def get_str_def
        resp_item_types resp_take_image_url_def resp_take_opt_string_def)
qed (use assms in \<open>auto simp: resp_part_ok_def is_item_part_def\<close>)

lemma resp_flush_built:
  "fold (resp_read_input_item S) (fst (resp_flush_input role ([], content))) (sys, ms) =
     (sys, resp_push_message role (List.map_filter resp_part_from_value content) ms)"
  by (cases role)
    (auto simp: resp_flush_input_def resp_read_input_item_def resp_input_item_kind_def get_str_def
      resp_item_types resp_role_str_def resp_content_to_parts_def)

lemma resp_flush_items: "resp_flush_input role (items, content) = (items @ fst (resp_flush_input role ([], content)), [])"
  by (simp add: resp_flush_input_def)

lemma resp_read_call_item:
  "n \<noteq> [] \<Longrightarrow> resp_read_input_item S (resp_call_item S i n a) (sys, ms) =
     (sys, resp_push_message Assistant [ToolCall i n (parse_arguments S (to_text S a)) None] ms)"
  by (simp add: resp_call_item_def resp_read_input_item_def resp_input_item_kind_def get_str_def
      resp_item_types resp_take_string_def)

definition resp_output_item :: "string \<Rightarrow> string \<Rightarrow> value" where
  "resp_output_item c t = jobj [(''type'', JString ITEM_TYPE_FUNCTION_CALL_OUTPUT), (''call_id'', JString c),
     (''output'', JString t)]"

lemma resp_read_result_item:
  "resp_read_input_item S (resp_output_item c t) (sys, ms) =
     (sys, resp_push_message User [ToolResult c False [Text t None]] ms)"
  by (simp add: resp_output_item_def resp_read_input_item_def resp_input_item_kind_def get_str_def
      resp_item_types resp_take_string_def)

lemma resp_item_built:
  assumes "resp_part_ok S role p" "is_item_part p"
  shows "\<exists>v. resp_input_part S role p (items, content) =
      (items @ fst (resp_flush_input role ([], content)) @ [v], []) \<and>
    (\<forall>sys ms. resp_read_input_item S v (sys, ms) = (sys, resp_push_message role [p] ms))"
proof (cases p)
  case (ToolCall i n a s)
  with assms show ?thesis
    by (intro exI [of _ "resp_call_item S i n a"])
      (simp add: resp_input_part_def resp_part_ok_def resp_flush_items [of _ items content]
        resp_read_call_item)
next
  case (ToolResult c e ps)
  then obtain t where "ps = [Text t None]"
    using assms(1) by (auto simp: resp_part_ok_def)
  with ToolResult assms show ?thesis
    by (intro exI [of _ "resp_output_item c t"])
      (simp add: resp_input_part_def resp_part_ok_def resp_flush_items [of _ items content]
        resp_read_result_item, simp add: resp_output_item_def resp_parts_to_text_def)
qed (use assms in \<open>auto simp: is_item_part_def\<close>)

lemma resp_parts_built:
  assumes "list_all (resp_part_ok S role) ps"
  shows "\<exists>new content' seen pend'.
    fold (resp_input_part S role) ps (items, content) = (items @ new, content') \<and>
    List.map_filter resp_part_from_value content @ ps = seen @ pend' \<and>
    List.map_filter resp_part_from_value content' = pend' \<and>
    (\<forall>sys. fold (resp_read_input_item S) new (sys, ms) = (sys, resp_push_message role seen ms))"
  using assms
proof (induction ps arbitrary: items content ms)
  case Nil
  then show ?case by force
next
  case (Cons p ps)
  let ?pend = "List.map_filter resp_part_from_value content"
  show ?case
  proof (cases "is_item_part p")
    case False
    then obtain v where v: "resp_input_part S role p (items, content) = (items, content @ [v])"
        "resp_part_from_value v = Some p"
      using resp_content_built Cons.prems by force
    with Cons.IH [of items "content @ [v]" ms] Cons.prems show ?thesis by simp
  next
    case True
    then obtain v where v: "resp_input_part S role p (items, content) =
          (items @ fst (resp_flush_input role ([], content)) @ [v], [])"
        "\<And>sys ms. resp_read_input_item S v (sys, ms) = (sys, resp_push_message role [p] ms)"
      using resp_item_built [of S role p items content] Cons.prems by force
    let ?new0 = "fst (resp_flush_input role ([], content)) @ [v]"
    obtain new content' seen pend' where ih:
        "fold (resp_input_part S role) ps (items @ ?new0, []) = ((items @ ?new0) @ new, content')"
        "ps = seen @ pend'" "List.map_filter resp_part_from_value content' = pend'"
        "\<And>sys. fold (resp_read_input_item S) new (sys, resp_push_message role (?pend @ [p]) ms) =
          (sys, resp_push_message role seen (resp_push_message role (?pend @ [p]) ms))"
      using Cons.IH [of "items @ ?new0" "[]" "resp_push_message role (?pend @ [p]) ms"] Cons.prems by auto
    show ?thesis
      using v ih
      by (intro exI [of _ "?new0 @ new"] exI [of _ content'] exI [of _ "?pend @ p # seen"] exI [of _ pend'])
        (simp add: resp_flush_built resp_push_push)
  qed
qed

lemma resp_message_built:
  assumes "list_all (resp_part_ok S (im_role m)) (im_parts m)"
  shows "\<exists>new. resp_input_message S m items = items @ new \<and>
    (\<forall>sys. fold (resp_read_input_item S) new (sys, ms) = (sys, resp_push_message (im_role m) (im_parts m) ms))"
proof -
  obtain new content' seen pend' where loop:
      "fold (resp_input_part S (im_role m)) (im_parts m) (items, []) = (items @ new, content')"
      "im_parts m = seen @ pend'" "List.map_filter resp_part_from_value content' = pend'"
      "\<And>sys. fold (resp_read_input_item S) new (sys, ms) = (sys, resp_push_message (im_role m) seen ms)"
    using resp_parts_built [OF assms, of items "[]" ms] by auto
  then show ?thesis
    by (intro exI [of _ "new @ fst (resp_flush_input (im_role m) ([], content'))"])
      (simp add: resp_input_message_def resp_flush_items [of "im_role m" "items @ new"] resp_flush_built
        resp_push_push)
qed

definition resp_message_ok :: "serde \<Rightarrow> IrMessage \<Rightarrow> bool" where
  "resp_message_ok S m \<longleftrightarrow> im_parts m \<noteq> [] \<and> list_all (resp_part_ok S (im_role m)) (im_parts m)"

lemma resp_messages_built:
  assumes "list_all (resp_message_ok S) ms" "distinct_adj (map im_role (pre @ ms))"
  shows "\<exists>new. fold (resp_input_message S) ms items = items @ new \<and>
    (\<forall>sys. fold (resp_read_input_item S) new (sys, pre) = (sys, pre @ ms))"
  using assms
proof (induction ms arbitrary: items "pre")
  case (Cons m ms)
  obtain new where new: "resp_input_message S m items = items @ new"
      "\<And>sys. fold (resp_read_input_item S) new (sys, pre) = (sys, resp_push_message (im_role m) (im_parts m) pre)"
    using resp_message_built [of S m items "pre"] Cons.prems by (auto simp: resp_message_ok_def)
  have "resp_push_message (im_role m) (im_parts m) pre = pre @ [m]"
    using Cons.prems by (cases m)
      (auto simp: resp_push_message_def resp_message_ok_def distinct_adj_append_iff last_map)
  moreover obtain new' where "fold (resp_input_message S) ms (items @ new) = (items @ new) @ new'"
      "\<And>sys. fold (resp_read_input_item S) new' (sys, pre @ [m]) = (sys, (pre @ [m]) @ ms)"
    using Cons.IH [of "pre @ [m]" "items @ new"] Cons.prems by auto
  ultimately show ?case
    using new by (intro exI [of _ "new @ new'"]) simp
qed simp

lemma resp_input_built:
  assumes "list_all (resp_message_ok S) ms" "distinct_adj (map im_role ms)"
  shows "resp_read_input S (resp_messages_to_input S ms) = ([], ms)"
proof -
  obtain items where "fold (resp_input_message S) ms [] = items"
      "fold (resp_read_input_item S) items ([], []) = ([], ms)"
    using resp_messages_built [OF assms(1), of "[]" "[]"] assms(2) by auto
  then show ?thesis
    by (cases "items = []") (auto simp: resp_read_input_def resp_messages_to_input_def)
qed

section \<open>Fields outside the IR\<close>

definition resp_reserved :: "string set" where
  "resp_reserved = {''text'', ''reasoning'', ''previous_response_id'', ''store''}"

lemma extra_put_fresh: "(f, k) \<notin> set (extra_dropped es) \<Longrightarrow> extra_put f k v es = es @ [(f, k, v)]"
  by (induction f k v es rule: extra_put.induct) (auto simp: extra_dropped_def)

definition own_fields :: "(string \<times> value) list \<Rightarrow> NamespacedExtra" where
  "own_fields kvs = map (\<lambda>(k, v). (OpenAIResponses, k, v)) kvs"

lemma own_fields_dropped: "set (extra_dropped (own_fields kvs)) = Pair OpenAIResponses ` fst ` set kvs"
  by (force simp: extra_dropped_def own_fields_def)

lemma own_fields_take: "fst (extra_take OpenAIResponses (own_fields kvs)) = kvs"
  by (induction kvs) (auto simp: extra_take_def own_fields_def extra_takes_def)

lemma own_fields_put:
  "k \<notin> fst ` set kvs \<Longrightarrow> extra_put OpenAIResponses k v (own_fields kvs) = own_fields (kvs @ [(k, v)])"
  by (subst extra_put_fresh) (auto simp: own_fields_dropped, simp add: own_fields_def)

lemma own_fields_put_opt:
  "k \<notin> fst ` set kvs \<Longrightarrow> extra_put_opt OpenAIResponses k v (own_fields kvs) =
     own_fields (kvs @ (case v of Some w \<Rightarrow> [(k, w)] | None \<Rightarrow> []))"
  by (auto simp: extra_put_opt_def own_fields_put split: option.splits)

lemma own_fields_put_all:
  "distinct (map fst (done @ kvs)) \<Longrightarrow>
     fold (\<lambda>(k, v). extra_put OpenAIResponses k v) kvs (own_fields done) = own_fields (done @ kvs)"
proof (induction kvs arbitrary: "done")
  case (Cons kv kvs)
  obtain k v where kv: "kv = (k, v)" by (cases kv)
  with Cons.prems have "extra_put OpenAIResponses k v (own_fields done) = own_fields (done @ [(k, v)])"
    by (intro own_fields_put) force
  with Cons kv show ?case by simp
qed simp

lemma sorted_fields:
  "distinct (map fst (sorted_list_of_fmap m))" "fst ` set (sorted_list_of_fmap m) = fmdom' m"
proof -
  have "distinct (sorted_list_of_fset (fmdom m))"
    by (simp add: sorted_list_of_fset.rep_eq)
  then show "distinct (map fst (sorted_list_of_fmap m))"
    by (simp add: sorted_list_of_fmap_def comp_def)
  show "fst ` set (sorted_list_of_fmap m) = fmdom' m"
    by (simp add: sorted_list_of_fmap_def image_comp comp_def fmdom'_alt_def)
qed

definition resp_fields ::
  "obj \<Rightarrow> value option \<Rightarrow> value option \<Rightarrow> string option \<Rightarrow> bool option \<Rightarrow> (string \<times> value) list" where
  "resp_fields ex tx rs pv st =
     sorted_list_of_fmap ex @
     (case tx of Some w \<Rightarrow> [(''text'', w)] | None \<Rightarrow> []) @
     (case rs of Some w \<Rightarrow> [(''reasoning'', w)] | None \<Rightarrow> []) @
     (case pv of Some w \<Rightarrow> [(''previous_response_id'', JString w)] | None \<Rightarrow> []) @
     (case st of Some w \<Rightarrow> [(''store'', JBool w)] | None \<Rightarrow> [])"

lemma resp_read_extra_fields:
  assumes "fmdom' ex \<inter> resp_reserved = {}"
  shows "resp_read_extra ex tx rs pv st = own_fields (resp_fields ex tx rs pv st)"
proof -
  have ex: "fold (\<lambda>(k, v). extra_put OpenAIResponses k v) (sorted_list_of_fmap ex) [] =
      own_fields (sorted_list_of_fmap ex)"
    using own_fields_put_all [of "[]" "sorted_list_of_fmap ex", unfolded append_Nil, OF sorted_fields(1)]
    by (simp add: own_fields_def [of "[]"])
  have "k \<notin> fst ` set (sorted_list_of_fmap ex)" if "k \<in> resp_reserved" for k
    using assms that by (auto simp: sorted_fields(2))
  then have "''text'' \<notin> fst ` set (sorted_list_of_fmap ex)" "''reasoning'' \<notin> fst ` set (sorted_list_of_fmap ex)"
    "''previous_response_id'' \<notin> fst ` set (sorted_list_of_fmap ex)" "''store'' \<notin> fst ` set (sorted_list_of_fmap ex)"
    by (simp_all add: resp_reserved_def)
  then show ?thesis
    unfolding resp_read_extra_def resp_fields_def ex
    by (cases tx; cases rs; cases pv; cases st)
      (simp_all add: own_fields_put_opt image_Un)
qed

lemma resp_take_rest:
  assumes "distinct (map fst kvs)" "fst ` set kvs \<inter> resp_reserved = {}"
  shows "fold resp_take_field kvs rx = rx\<lparr>rx_rest := rx_rest rx ++\<^sub>f fmap_of_list kvs\<rparr>"
  using assms
proof (induction kvs arbitrary: rx)
  case (Cons kv kvs)
  obtain k v where kv: "kv = (k, v)" by (cases kv)
  have "resp_take_field kv rx = rx\<lparr>rx_rest := fmupd k v (rx_rest rx)\<rparr>"
    using Cons.prems(2) by (auto simp: kv resp_take_field_def resp_reserved_def)
  moreover have "fmupd k v (rx_rest rx) ++\<^sub>f fmap_of_list kvs = rx_rest rx ++\<^sub>f fmupd k v (fmap_of_list kvs)"
    using Cons.prems(1) kv by (intro fmap_ext) (auto simp: fset_of_list_elem image_iff)
  ultimately show ?case
    using Cons kv by simp
qed simp

lemma resp_extra_built:
  assumes "fmdom' ex \<inter> resp_reserved = {}"
  shows "resp_take_extra (resp_read_extra ex tx rs pv st) =
    \<lparr>rx_text = tx, rx_previous_response_id = pv, rx_store = st, rx_reasoning = rs, rx_rest = ex\<rparr>"
proof -
  have "fmap_of_list (sorted_list_of_fmap ex) = ex"
    by (rule fmap_ext) (simp add: fmlookup_of_list)
  moreover have "fst ` set (sorted_list_of_fmap ex) \<inter> resp_reserved = {}"
    using assms by (simp add: sorted_fields(2))
  ultimately show ?thesis
    unfolding resp_take_extra_def resp_read_extra_fields [OF assms] own_fields_take resp_fields_def fold_append comp_def
    by (subst resp_take_rest [OF sorted_fields(1)])
      (auto simp: resp_take_field_def split: option.splits)
qed

section \<open>Requests\<close>

definition resp_normal :: "serde \<Rightarrow> IrRequest \<Rightarrow> bool" where
  "resp_normal S ir \<longleftrightarrow>
     (ir_system ir = [] \<or> (\<exists>t. ir_system ir = [Text t None])) \<and>
     list_all (resp_message_ok S) (ir_messages ir) \<and>
     distinct_adj (map im_role (ir_messages ir)) \<and>
     list_all (\<lambda>t. it_name t \<noteq> [] \<and> it_strict t \<noteq> None) (ir_tools ir) \<and>
     sa_top_k (ir_sampling ir) = None \<and> sa_stop (ir_sampling ir) = [] \<and>
     (\<exists>ex tx rs pv st. fmdom' ex \<inter> resp_reserved = {} \<and> ir_extra ir = resp_read_extra ex tx rs pv st \<and>
        ir_reasoning ir = unwrap_or ReasoningOff (map_option Effort (Option.bind rs (\<lambda>v. jget_str v ''effort''))))"

lemma resp_tool_built:
  assumes "it_name t \<noteq> []" "it_strict t \<noteq> None"
  shows "resp_read_one_tool (resp_tool_to_value t) (out, ns) = (out @ [t], ns)"
proof -
  obtain b where "it_strict t = Some b" using assms(2) by auto
  with assms(1) show ?thesis
    by (cases "it_description t = []")
      (simp_all add: resp_read_one_tool_def resp_tool_to_value_def get_str_def resp_function_tool_def
        resp_take_string_def Let_def then_some_def)
qed

lemma resp_tools_built:
  "list_all (\<lambda>t. it_name t \<noteq> [] \<and> it_strict t \<noteq> None) ts \<Longrightarrow>
     resp_read_tools (then_some (ts \<noteq> []) (map resp_tool_to_value ts)) = (ts, fmempty)"
proof -
  assume ok: "list_all (\<lambda>t. it_name t \<noteq> [] \<and> it_strict t \<noteq> None) ts"
  then have "fold resp_read_one_tool (map resp_tool_to_value ts) (out, ns) = (out @ ts, ns)" for out ns
    by (induction ts arbitrary: out) (simp_all add: resp_tool_built)
  then show ?thesis by (simp add: resp_read_tools_def then_some_def)
qed

lemma resp_tool_choice_built:
  "resp_read_tool_choice (map_option resp_tool_choice_to_value c) fmempty = c"
  by (auto simp: resp_read_tool_choice_def resp_tool_choice_to_value_def get_str_def
      option.map_comp comp_def intro!: option.map_ident_strong split: IrToolChoice.splits)

text \<open>C5: \<open>read(build(ir)) = ir\<close> for every request of the hub in Responses normal form: one instructions
  text or none, alternating non-empty turns of text, images, tool calls and tool results, named tools with an
  explicit \<open>strict\<close>, any tool choice, and any Responses-owned fields, unknown ones included.\<close>

theorem resp_request_roundtrip:
  assumes "resp_normal S ir"
  shows "resp_read S (resp_build S ir) = ir"
proof -
  note n = assms [unfolded resp_normal_def]
  obtain ex tx rs pv st where ex: "fmdom' ex \<inter> resp_reserved = {}" "ir_extra ir = resp_read_extra ex tx rs pv st"
      "ir_reasoning ir = unwrap_or ReasoningOff (map_option Effort (Option.bind rs (\<lambda>v. jget_str v ''effort'')))"
    using n by auto
  have input: "resp_read_input S (rq_input (resp_build S ir)) = ([], ir_messages ir)"
    using n by (simp add: resp_build_def Let_def resp_input_built)
  have tools: "resp_read_tools (rq_tools (resp_build S ir)) = (ir_tools ir, fmempty)"
    using n by (simp add: resp_build_def Let_def resp_tools_built)
  have choice: "resp_read_tool_choice (rq_tool_choice (resp_build S ir)) fmempty = ir_tool_choice ir"
    by (simp add: resp_build_def Let_def resp_tool_choice_built)
  note rx = resp_extra_built [OF ex(1)]
  have reason: "rq_reasoning (resp_build S ir) = rs"
    using ex(3) by (cases rs) (simp_all add: resp_build_def Let_def ex(2) rx resp_reasoning_to_value_def)
  have sys: "(case rq_instructions (resp_build S ir) of Some i \<Rightarrow> [i] | None \<Rightarrow> []) = map part_text (ir_system ir)"
    using n by (auto simp: resp_build_def Let_def resp_system_to_instructions_def)
  show ?thesis
    unfolding resp_read_def input tools choice reason sys case_prod_conv Let_def append_Nil
    using n ex
    by (intro IrRequest.equality Sampling.equality) (auto simp: resp_build_def Let_def rx)
qed

definition resp_demo_serde :: serde where
  "resp_demo_serde = \<lparr>from_text = (\<lambda>s. Inr (jobj [])), to_text = (\<lambda>v. ''{}'')\<rparr>"

definition resp_demo_request :: IrRequest where
  "resp_demo_request =
     \<lparr>ir_model = ''m'', ir_system = [Text ''be brief'' None],
      ir_messages =
        [\<lparr>im_role = User, im_parts = [Text ''look'' None, Image ''http://x'' [] None (Some ''low'')]\<rparr>,
         \<lparr>im_role = Assistant, im_parts = [Text ''calling'' None, ToolCall ''t1'' ''f'' (jobj []) None]\<rparr>,
         \<lparr>im_role = User, im_parts = [ToolResult ''t1'' False [Text ''ok'' None], Text ''go on'' None]\<rparr>],
      ir_tools = [\<lparr>it_name = ''f'', it_description = [], it_schema = JNull, it_strict = Some False\<rparr>],
      ir_tool_choice = Some (ChoiceNamed ''f''),
      ir_sampling = \<lparr>sa_max_tokens = Some 100, sa_temperature = None, sa_top_p = None,
        sa_top_k = None, sa_stop = []\<rparr>,
      ir_stream = True, ir_reasoning = Effort ''low'',
      ir_extra = resp_read_extra fmempty None (Some (jobj [(''effort'', JString ''low'')])) None (Some False)\<rparr>"

theorem resp_request_roundtrip_witness:
  "resp_read resp_demo_serde (resp_build resp_demo_serde resp_demo_request) = resp_demo_request"
proof (rule resp_request_roundtrip)
  have "parse_data_url ''http://x'' = None"
    by (simp add: parse_data_url_def strip_prefix_def starts_with_def)
  then have msgs: "list_all (resp_message_ok resp_demo_serde) (ir_messages resp_demo_request)"
    by (simp add: resp_demo_request_def resp_message_ok_def resp_part_ok_def resp_demo_serde_def parse_arguments_def)
  have "Effort ''low'' = unwrap_or ReasoningOff (map_option Effort
      (Option.bind (Some (jobj [(''effort'', JString ''low'')])) (\<lambda>v. jget_str v ''effort'')))"
    by (simp add: get_str_def)
  then have extra: "\<exists>ex tx rs pv st. fmdom' ex \<inter> resp_reserved = {} \<and>
      ir_extra resp_demo_request = resp_read_extra ex tx rs pv st \<and>
      ir_reasoning resp_demo_request =
        unwrap_or ReasoningOff (map_option Effort (Option.bind rs (\<lambda>v. jget_str v ''effort'')))"
    by (intro exI [of _ fmempty] exI [of _ None] exI [of _ "Some (jobj [(''effort'', JString ''low'')])"]
        exI [of _ "Some False"] conjI) (simp_all add: resp_demo_request_def)
  have "list_all (\<lambda>t. it_name t \<noteq> [] \<and> it_strict t \<noteq> None) (ir_tools resp_demo_request)"
    by (auto simp: resp_demo_request_def)
  with msgs extra show "resp_normal resp_demo_serde resp_demo_request"
    unfolding resp_normal_def by (simp add: resp_demo_request_def)
qed

section \<open>Replies\<close>

definition resp_reply_ok :: "serde \<Rightarrow> IrPart \<Rightarrow> bool" where
  "resp_reply_ok S p \<longleftrightarrow>
     (case p of
        Text t s \<Rightarrow> t \<noteq> [] \<and> s = None
      | ToolCall i n a s \<Rightarrow> n \<noteq> [] \<and> s = None \<and> parse_arguments S (to_text S a) = a
      | Thinking t s \<Rightarrow> s = None
      | _ \<Rightarrow> False)"

lemma resp_flush_text_items: "resp_flush_text (output, content) = (output @ fst (resp_flush_text ([], content)), [])"
  by (simp add: resp_flush_text_def)

lemma resp_flush_text_read:
  "fold (resp_read_output_item S) (fst (resp_flush_text ([], content))) parts =
     parts @ List.map_filter resp_output_text content"
  by (auto simp: resp_flush_text_def resp_read_output_item_def get_str_def resp_item_types)

lemma resp_reply_call_read:
  "n \<noteq> [] \<Longrightarrow> resp_read_output_item S (resp_call_item S i n a) parts =
     parts @ [ToolCall i n (parse_arguments S (to_text S a)) None]"
  by (simp add: resp_call_item_def resp_read_output_item_def get_str_def resp_item_types resp_take_string_def)

lemma resp_reply_reasoning_read:
  "resp_read_output_item S (resp_reasoning_item S u t sg) parts = parts @ [Thinking t None]"
  by (cases sg)
    (simp_all add: resp_reasoning_item_def resp_read_output_item_def get_str_def resp_item_types
      resp_take_reasoning_text_def resp_take_string_def Let_def)

lemma resp_reply_parts_built:
  assumes "list_all (resp_reply_ok S) ps"
  shows "\<exists>new content' k'. fold (resp_output_part S U) ps ((outp, content), k) = ((outp @ new, content'), k') \<and>
    (\<forall>parts. fold (resp_read_output_item S) (new @ fst (resp_flush_text ([], content'))) parts =
      parts @ List.map_filter resp_output_text content @ ps)"
  using assms
proof (induction ps arbitrary: outp content k)
  case Nil
  then show ?case by (auto simp: resp_flush_text_read)
next
  case (Cons p ps)
  let ?pend = "List.map_filter resp_output_text content"
  let ?fl = "fst (resp_flush_text ([], content))"
  have item: ?case
    if "resp_output_part S U p ((outp, content), k) = ((outp @ ?fl @ [v], []), k1)"
      "\<And>parts. resp_read_output_item S v parts = parts @ [p]" for v k1
  proof -
    obtain new content' k' where ih:
        "fold (resp_output_part S U) ps ((outp @ ?fl @ [v], []), k1) = (((outp @ ?fl @ [v]) @ new, content'), k')"
        "\<And>parts. fold (resp_read_output_item S) (new @ fst (resp_flush_text ([], content'))) parts = parts @ ps"
      using Cons.IH [of "outp @ ?fl @ [v]" "[]" k1] Cons.prems by auto
    show ?thesis
      using that ih by (intro exI [of _ "?fl @ [v] @ new"] exI [of _ content'] exI [of _ k'])
        (simp add: resp_flush_text_read)
  qed
  show ?case
  proof (cases p)
    case (Text t s)
    let ?v = "jobj [(''type'', JString ITEM_TYPE_OUTPUT_TEXT), (''text'', JString t)]"
    have "resp_output_text ?v = Some p"
      using Text Cons.prems by (simp add: resp_output_text_def get_str_def resp_take_string_def resp_reply_ok_def)
    moreover have "resp_output_part S U p ((outp, content), k) = ((outp, content @ [?v]), k)"
      using Text by (simp add: resp_output_part_def)
    ultimately show ?thesis
      using Cons.IH [of outp "content @ [?v]" k] Cons.prems by simp
  next
    case (ToolCall i n a s)
    then show ?thesis
      using Cons.prems
      by (intro item [of "resp_call_item S i n a" k])
        (simp_all add: resp_output_part_def resp_flush_text_items [of outp] resp_reply_call_read resp_reply_ok_def)
  next
    case (Thinking t s)
    then show ?thesis
      using Cons.prems
      by (intro item [of "resp_reasoning_item S (U k) t None" "Suc k"])
        (simp_all add: resp_output_part_def resp_flush_text_items [of outp] resp_reply_reasoning_read
          resp_reply_ok_def)
  qed (use Cons.prems in \<open>simp_all add: resp_reply_ok_def\<close>)
qed

text \<open>A reply of text, tool calls and unsigned thinking, in any order, comes back from the Responses wire
  with the same parts, id, model and token counts; of the stop reasons only \<open>max_tokens\<close> survives, every other
  one comes back as a plain end of turn.\<close>

lemma resp_reply_roundtrip:
  assumes "re_id ir = Some (''resp_'' @ b)"
    and "list_all (resp_reply_ok S) (re_parts ir)"
    and "re_stop_sequence ir = None" "us_cache_write_tokens (re_usage ir) = None"
      "us_cache_write_1h (re_usage ir) = None" "us_reasoning_tokens (re_usage ir) = None"
  shows "resp_read_response S uuid (resp_build_response S E ir) =
    ir\<lparr>re_stop_reason := if re_stop_reason ir = MaxTokens then MaxTokens else EndTurn\<rparr>"
proof -
  obtain new content' k' where loop:
      "fold (resp_output_part S (env_uuid E)) (re_parts ir) (([], []), 0) = ((new, content'), k')"
      "fold (resp_read_output_item S) (new @ fst (resp_flush_text ([], content'))) [] = re_parts ir"
    using resp_reply_parts_built [OF assms(2), of "env_uuid E" "[]" "[]" 0] by auto
  have "normalize_id_to_resp u (''resp_'' @ b) = ''resp_'' @ b" for u
    by (rule resp_id.norm_prefixed [OF resp_id.own_prefix])
  with assms loop show ?thesis
    by (cases "us_cache_read_tokens (re_usage ir)")
      (simp_all add: resp_read_response_def resp_build_response_def resp_flush_text_items [of new]
        resp_usage_to_ir_def usage_default_def from_openai_resp_def)
qed

lemma resp_reply_roundtrip_witness:
  "resp_read_response resp_demo_serde ''u'' (resp_build_response resp_demo_serde
     \<lparr>env_now = 0, env_uuid = (\<lambda>n. [])\<rparr>
     \<lparr>re_id = Some (''resp_'' @ ''1''), re_model = ''m'',
      re_parts = [Text ''a'' None, Text ''b'' None, ToolCall ''t1'' ''f'' (jobj []) None, Thinking ''hm'' None],
      re_stop_reason = ToolUse, re_stop_sequence = None, re_usage = usage_default\<rparr>) =
   \<lparr>re_id = Some (''resp_'' @ ''1''), re_model = ''m'',
      re_parts = [Text ''a'' None, Text ''b'' None, ToolCall ''t1'' ''f'' (jobj []) None, Thinking ''hm'' None],
      re_stop_reason = ToolUse, re_stop_sequence = None, re_usage = usage_default\<rparr>
   \<lparr>re_stop_reason := if ToolUse = MaxTokens then MaxTokens else EndTurn\<rparr>"
  using resp_reply_roundtrip [of "\<lparr>re_id = Some (''resp_'' @ ''1''), re_model = ''m'',
      re_parts = [Text ''a'' None, Text ''b'' None, ToolCall ''t1'' ''f'' (jobj []) None, Thinking ''hm'' None],
      re_stop_reason = ToolUse, re_stop_sequence = None, re_usage = usage_default\<rparr>" "''1''" resp_demo_serde "''u''"
      "\<lparr>env_now = 0, env_uuid = (\<lambda>n. [])\<rparr>"]
  by (simp add: resp_reply_ok_def resp_demo_serde_def parse_arguments_def usage_default_def)

end
