(* ===== verification/Resp_Stream_Props.thy ===== *)
theory Resp_Stream_Props
  imports Resp_Stream Resp_Roundtrip
begin

text \<open>
  What the Responses emitter promises on whole streams: the final response repeats everything that was
  streamed, signed thinking comes back sealed, and an argument fragment is accepted exactly for the calls
  that were opened.
\<close>

section \<open>What a stream says\<close>

definition stream_text :: "CanonicalStreamEvent list \<Rightarrow> string" where
  "stream_text evs = concat (List.map_filter (\<lambda>ev. case ev of TextDelta t \<Rightarrow> Some t | _ \<Rightarrow> None) evs)"

definition call_arguments :: "u32 \<Rightarrow> CanonicalStreamEvent list \<Rightarrow> string" where
  "call_arguments n evs =
     concat (List.map_filter (\<lambda>ev. case ev of ToolCallDelta m a \<Rightarrow> then_some (m = n) a | _ \<Rightarrow> None) evs)"

definition call_start :: "CanonicalStreamEvent \<Rightarrow> (u32 \<times> string \<times> string) option" where
  "call_start ev = (case ev of ToolCallStart n i nm s \<Rightarrow> Some (n, i, nm) | _ \<Rightarrow> None)"

definition stream_calls :: "CanonicalStreamEvent list \<Rightarrow> AccumulatedToolCall list" where
  "stream_calls evs =
     map (\<lambda>(n, i, nm). \<lparr>tc_index = n, tc_id = i, tc_name = nm, tc_arguments = call_arguments n evs\<rparr>)
       (List.map_filter call_start evs)"

definition call_indices :: "CanonicalStreamEvent list \<Rightarrow> u32 list" where
  "call_indices evs = map fst (List.map_filter call_start evs)"

lemma call_arguments_simps [simp]:
  "call_arguments n [] = []"
  "call_arguments n (ToolCallDelta m a # evs) = (if m = n then a else []) @ call_arguments n evs"
  by (auto simp: call_arguments_def then_some_def)

lemma call_arguments_other: "(\<And>m a. ev \<noteq> ToolCallDelta m a) \<Longrightarrow> call_arguments n (ev # evs) = call_arguments n evs"
  by (cases ev) (auto simp: call_arguments_def)

lemma stream_calls_cong:
  "(\<And>n. n \<in> set (call_indices evs) \<Longrightarrow> call_arguments n (ev # evs) = call_arguments n evs) \<Longrightarrow> call_start ev = None \<Longrightarrow>
     stream_calls (ev # evs) = stream_calls evs"
  by (force simp: stream_calls_def call_indices_def)

section \<open>Accumulated calls\<close>

lemma push_arguments_map:
  assumes "distinct (map tc_index cs)" "resp_push_arguments n a cs = Some (i, cs')"
  shows "n \<in> set (map tc_index cs) \<and>
    cs' = map (\<lambda>c. c\<lparr>tc_arguments := tc_arguments c @ (if tc_index c = n then a else [])\<rparr>) cs"
  using assms
proof (induction n a cs arbitrary: cs' rule: resp_push_arguments.induct)
  case (2 n a tc tcs)
  show ?case
  proof (cases "tc_index tc = n")
    case True
    with "2.prems" have "tc_index c \<noteq> n" if "c \<in> set tcs" for c
      using that by (auto simp: image_iff)
    then have "map (\<lambda>c. c\<lparr>tc_arguments := tc_arguments c @ (if tc_index c = n then a else [])\<rparr>) tcs = tcs"
      by (intro map_idI) auto
    with True "2.prems" show ?thesis by auto
  next
    case False
    with 2 show ?thesis by auto
  qed
qed simp

lemma push_arguments_None: "resp_push_arguments n a cs = None \<longleftrightarrow> n \<notin> set (map tc_index cs)"
  by (induction n a cs rule: resp_push_arguments.induct) auto

lemma resp_step_calls:
  assumes "resp_emit_frames S E ev st = Inr (frs, st')" "\<And>n i nm s. ev \<noteq> ToolCallStart n i nm s"
    "\<And>n a. ev \<noteq> ToolCallDelta n a"
  shows "accumulated_tool_calls st' = accumulated_tool_calls st"
  using assms
  by (cases ev)
    (auto simp: resp_emit_frames_def resp_emit_defs Let_def next_block_index_def
      split: if_splits option.splits prod.splits)

lemma resp_step_text:
  assumes "resp_emit_frames S E ev st = Inr (frs, st')"
  shows "accumulated_text st' = accumulated_text st @ stream_text [ev]"
  using assms
  by (cases ev)
    (auto simp: resp_emit_frames_def resp_emit_defs Let_def next_block_index_def stream_text_def
      split: if_splits option.splits prod.splits)

lemma resp_emit_Inr:
  "resp_emit_sse_event S E ev st = Inr (ls, st') \<Longrightarrow> \<exists>frs. resp_emit_frames S E ev st = Inr (frs, st')"
  by (auto simp: resp_emit_sse_event_def)

lemma resp_emit_all_ConsE:
  assumes "emit_all (resp_emit_sse_event S) E (ev # evs) st = Inr (ls, st')"
  obtains frs st1 ls2 where "resp_emit_frames S (E 0) ev st = Inr (frs, st1)"
    "emit_all (resp_emit_sse_event S) (E \<circ> Suc) evs st1 = Inr (ls2, st')"
proof -
  obtain ls1 st1 ls2 where "resp_emit_sse_event S (E 0) ev st = Inr (ls1, st1)"
      and "emit_all (resp_emit_sse_event S) (E \<circ> Suc) evs st1 = Inr (ls2, st')"
    using assms by auto
  with resp_emit_Inr that show thesis by blast
qed

lemma stream_text_Cons: "stream_text (ev # evs) = stream_text [ev] @ stream_text evs"
  by (simp add: stream_text_def split: option.splits)

lemma resp_accumulates_text:
  "emit_all (resp_emit_sse_event S) E evs st = Inr (ls, st') \<Longrightarrow>
     accumulated_text st' = accumulated_text st @ stream_text evs"
proof (induction evs arbitrary: E st ls)
  case (Cons ev evs)
  from Cons.prems obtain frs st1 ls2 where "resp_emit_frames S (E 0) ev st = Inr (frs, st1)"
      "emit_all (resp_emit_sse_event S) (E \<circ> Suc) evs st1 = Inr (ls2, st')"
    by (rule resp_emit_all_ConsE)
  with Cons.IH [OF this(2)] resp_step_text [OF this(1)] show ?case
    by (simp add: stream_text_Cons [of ev evs])
qed (simp add: stream_text_def)

lemma resp_accumulates_calls:
  assumes "emit_all (resp_emit_sse_event S) E evs st = Inr (ls, st')"
    and "distinct (map tc_index (accumulated_tool_calls st) @ call_indices evs)"
  shows "accumulated_tool_calls st' =
    map (\<lambda>c. c\<lparr>tc_arguments := tc_arguments c @ call_arguments (tc_index c) evs\<rparr>) (accumulated_tool_calls st) @
    stream_calls evs"
  using assms
proof (induction evs arbitrary: E st ls)
  case Nil
  then show ?case by (simp add: stream_calls_def)
next
  case (Cons ev evs)
  from Cons.prems(1) obtain frs st1 ls2 where step: "resp_emit_frames S (E 0) ev st = Inr (frs, st1)"
      "emit_all (resp_emit_sse_event S) (E \<circ> Suc) evs st1 = Inr (ls2, st')"
    by (rule resp_emit_all_ConsE)
  let ?cs = "accumulated_tool_calls st"
  consider (delta) n a where "ev = ToolCallDelta n a" | (start) n i nm s where "ev = ToolCallStart n i nm s"
    | (other) "\<And>n a. ev \<noteq> ToolCallDelta n a" "\<And>n i nm s. ev \<noteq> ToolCallStart n i nm s"
    by (cases ev) auto
  then show ?case
  proof cases
    case delta
    have idx: "call_indices (ev # evs) = call_indices evs" and st: "call_start ev = None"
      by (simp_all add: delta call_indices_def call_start_def)
    obtain i cs' where "resp_push_arguments n a ?cs = Some (i, cs')" "accumulated_tool_calls st1 = cs'"
      using step(1) by (auto simp: delta resp_emit_frames_def resp_emit_call_delta_def split: option.splits)
    with push_arguments_map Cons.prems(2) have n: "n \<in> set (map tc_index ?cs)"
      and cs1: "accumulated_tool_calls st1 =
        map (\<lambda>c. c\<lparr>tc_arguments := tc_arguments c @ (if tc_index c = n then a else [])\<rparr>) ?cs"
      by auto
    have "n \<notin> set (call_indices evs)"
      using n Cons.prems(2) unfolding idx by auto
    then have same: "stream_calls (ev # evs) = stream_calls evs"
      using st by (intro stream_calls_cong) (auto simp: delta)
    have "distinct (map tc_index (accumulated_tool_calls st1) @ call_indices evs)"
      using Cons.prems(2) by (simp add: cs1 idx comp_def)
    from Cons.IH [OF step(2) this] show ?thesis
      unfolding same by (simp add: cs1 delta comp_def)
  next
    case start
    have cs1: "accumulated_tool_calls st1 = ?cs @ [\<lparr>tc_index = n, tc_id = i, tc_name = nm, tc_arguments = []\<rparr>]"
      using step(1) by (auto simp: start resp_emit_frames_def resp_emit_call_start_def Let_def)
    have "distinct (map tc_index (accumulated_tool_calls st1) @ call_indices evs)"
      using Cons.prems(2) by (simp add: cs1 start call_indices_def call_start_def)
    from Cons.IH [OF step(2) this] show ?thesis
      by (simp add: cs1 start stream_calls_def call_start_def call_arguments_other)
  next
    case other
    have "accumulated_tool_calls st1 = ?cs"
      using resp_step_calls [OF step(1)] other by blast
    moreover have "call_start ev = None" "\<And>n. call_arguments n (ev # evs) = call_arguments n evs"
      using other by (cases ev; simp add: call_start_def call_arguments_other)+
    ultimately show ?thesis
      using Cons.IH [OF step(2)] Cons.prems(2)
      by (simp add: call_indices_def stream_calls_def)
  qed
qed

section \<open>The final response\<close>

lemma resp_message_item_read:
  "resp_read_output_item S (resp_message_item i t) parts = parts @ (if t \<noteq> [] then [Text t None] else [])"
  by (simp add: resp_message_item_def resp_read_output_item_def get_str_def resp_item_types resp_output_text_def
      resp_take_string_def)

lemma resp_call_done_read:
  "tc_name c \<noteq> [] \<Longrightarrow> resp_read_output_item S (resp_call_done_item c) parts =
     parts @ [ToolCall (tc_id c) (tc_name c) (parse_arguments S (tc_arguments c)) None]"
  by (simp add: resp_call_done_item_def resp_read_output_item_def get_str_def resp_item_types resp_take_string_def)

lemma resp_calls_done_read:
  "list_all (\<lambda>c. tc_name c \<noteq> []) cs \<Longrightarrow>
     fold (resp_read_output_item S) (map resp_call_done_item cs) parts =
       parts @ map (\<lambda>c. ToolCall (tc_id c) (tc_name c) (parse_arguments S (tc_arguments c)) None) cs"
  by (induction cs arbitrary: parts) (simp_all add: resp_call_done_read)

lemma resp_output_items_read:
  assumes "\<not> signed_by_claude st" "list_all (\<lambda>c. tc_name c \<noteq> []) (accumulated_tool_calls st)"
  shows "fold (resp_read_output_item S) (resp_output_items S u i st) [] =
    (if accumulated_text st = [] then [] else [Text (accumulated_text st) None]) @
    map (\<lambda>c. ToolCall (tc_id c) (tc_name c) (parse_arguments S (tc_arguments c)) None) (accumulated_tool_calls st)"
  using assms
  by (auto simp: resp_output_items_def resp_done_thinking_def resp_done_text_def Let_def
      resp_message_item_read resp_calls_done_read split: prod.splits)

definition completed_output :: "frame list \<Rightarrow> value list" where
  "completed_output frs =
     unwrap_or [] (Option.bind (Option.bind (jget (snd (last frs)) ''response'') (\<lambda>r. jget r ''output'')) as_array)"

lemma resp_done_completed:
  "\<exists>u i. fst (last (fst (resp_emit_done S E r us st))) = ''response.completed'' \<and>
     completed_output (fst (resp_emit_done S E r us st)) = resp_output_items S u i st"
  by (auto simp: resp_emit_done_def completed_output_def Let_def split: prod.splits option.splits)

lemma thinking_untouched:
  assumes "resp_emit_frames S E ev st = Inr (frs, st')" "\<And>d. ev \<noteq> ThinkingSignature Claude d"
  shows "thinking_signature_by st' = thinking_signature_by st"
  using assms
  by (cases ev)
    (auto simp: resp_emit_frames_def resp_emit_defs Let_def next_block_index_def
      split: if_splits option.splits prod.splits)

lemma thinking_untouched_all:
  assumes "emit_all (resp_emit_sse_event S) E evs st = Inr (ls, st')"
    and "list_all (\<lambda>ev. \<forall>d. ev \<noteq> ThinkingSignature Claude d) evs"
  shows "thinking_signature_by st' = thinking_signature_by st"
  using assms
proof (induction evs arbitrary: E st ls)
  case (Cons ev evs)
  from Cons.prems(1) obtain frs st1 ls2 where step: "resp_emit_frames S (E 0) ev st = Inr (frs, st1)"
      "emit_all (resp_emit_sse_event S) (E \<circ> Suc) evs st1 = Inr (ls2, st')"
    by (rule resp_emit_all_ConsE)
  have "thinking_signature_by st1 = thinking_signature_by st"
    using thinking_untouched [OF step(1)] Cons.prems(2) by auto
  with Cons.IH [OF step(2)] Cons.prems(2) show ?case by simp
qed simp

text \<open>C11: The closing \<open>response.completed\<close> event of a Responses stream repeats the whole reply: read as a
  non-streaming response it gives one text part with all the text deltas in order, and every tool call that
  was opened with its id, its name and all of its argument fragments, in the order the calls were opened.\<close>

theorem resp_stream_completed:
  assumes "emit_all (resp_emit_sse_event S) E (Start i m # body) stream_state_new = Inr (ls, st)"
    and "distinct (call_indices body)" and "list_all (\<lambda>c. tc_name c \<noteq> []) (stream_calls body)"
    and "list_all (\<lambda>ev. \<forall>d. ev \<noteq> ThinkingSignature Claude d) body"
  shows "\<exists>frs st'. resp_emit_frames S e (Done r u) st = Inr (frs, st') \<and>
    fst (last frs) = ''response.completed'' \<and>
    fold (resp_read_output_item S) (completed_output frs) [] =
      (if stream_text body = [] then [] else [Text (stream_text body) None]) @
      map (\<lambda>c. ToolCall (tc_id c) (tc_name c) (parse_arguments S (tc_arguments c)) None) (stream_calls body)"
proof -
  have whole: "accumulated_text st = stream_text body"
    using resp_accumulates_text [OF assms(1)] by (simp add: stream_text_def stream_state_new_def)
  have "stream_calls (Start i m # body) = stream_calls body" "call_indices (Start i m # body) = call_indices body"
    by (simp_all add: stream_calls_def call_indices_def call_start_def call_arguments_other)
  then have calls: "accumulated_tool_calls st = stream_calls body"
    using resp_accumulates_calls [OF assms(1)] assms(2) by (simp add: stream_state_new_def)
  have "thinking_signature_by st = None"
    using thinking_untouched_all [OF assms(1)] assms(4) by (simp add: stream_state_new_def)
  then have "\<not> signed_by_claude st" by (simp add: signed_by_claude_def)
  from resp_output_items_read [OF this] assms(3) calls whole resp_done_completed [of S e r u st]
  show ?thesis
    by (intro exI [of _ "fst (resp_emit_done S e r u st)"] exI [of _ "snd (resp_emit_done S e r u st)"])
      (auto simp: resp_emit_frames_def)
qed

theorem resp_stream_completed_witness:
  "\<exists>st frs st'. resp_emit_frames resp_demo_serde \<lparr>env_now = 0, env_uuid = (\<lambda>n. ''u'')\<rparr> (Done ToolUse None) st = Inr (frs, st') \<and>
    fst (last frs) = ''response.completed'' \<and>
    fold (resp_read_output_item resp_demo_serde) (completed_output frs) [] =
      [Text ''hi'' None, ToolCall ''t1'' ''f'' (jobj []) None]"
proof -
  let ?E = "\<lambda>n :: nat. \<lparr>env_now = 0, env_uuid = (\<lambda>n. ''u'')\<rparr>"
  let ?body = "[TextDelta ''hi'', ToolCallStart 0 ''t1'' ''f'' None, ToolCallDelta 0 ''{}'']"
  have "\<exists>ls st. emit_all (resp_emit_sse_event resp_demo_serde) ?E (Start ''resp_1'' ''m'' # ?body) stream_state_new = Inr (ls, st)"
    by (simp add: resp_emit_sse_event_def resp_emit_frames_def resp_emit_start_def resp_emit_text_def
        resp_emit_call_start_def resp_emit_call_delta_def stream_state_new_def Let_def)
  then obtain ls st where run: "emit_all (resp_emit_sse_event resp_demo_serde) ?E (Start ''resp_1'' ''m'' # ?body)
      stream_state_new = Inr (ls, st)"
    by blast
  have "stream_text ?body = ''hi''" "stream_calls ?body = [\<lparr>tc_index = 0, tc_id = ''t1'', tc_name = ''f'', tc_arguments = ''{}''\<rparr>]"
    "call_indices ?body = [0]"
    by (simp_all add: stream_text_def stream_calls_def call_indices_def call_start_def call_arguments_other)
  with resp_stream_completed [OF run, of "?E 0" ToolUse None] show ?thesis
    by (fastforce simp: resp_demo_serde_def parse_arguments_def)
qed

section \<open>Signed thinking\<close>

lemma thinking_text_accumulates:
  assumes "thinking_signature_by st \<noteq> Some Claude" "THINKING_TEXT_END \<notin> set (thinking_signature st)"
    "THINKING_TEXT_END \<notin> set d"
  shows "resp_emit_thinking d st = ([], st\<lparr>thinking_signature := thinking_signature st @ d\<rparr>)"
proof -
  have "rsplit_once THINKING_TEXT_END (thinking_signature st) = None"
    using assms(2) by simp
  then show ?thesis by (simp add: resp_emit_thinking_def del: rsplit_once_None)
qed

fun thinking_fold :: "CanonicalStreamEvent list \<Rightarrow> StreamState \<Rightarrow> StreamState" where
  "thinking_fold [] st = st"
| "thinking_fold (ThinkingDelta d # evs) st = thinking_fold evs (snd (resp_emit_thinking d st))"
| "thinking_fold (ThinkingSignature f d # evs) st = thinking_fold evs (snd (resp_emit_signature f d st))"
| "thinking_fold (_ # evs) st = thinking_fold evs st"

lemma thinking_fold_emit:
  "list_all (\<lambda>ev. (\<exists>d. ev = ThinkingDelta d) \<or> (\<exists>f d. ev = ThinkingSignature f d)) evs \<Longrightarrow>
     emit_all (resp_emit_sse_event S) E evs st = Inr ([], thinking_fold evs st)"
proof (induction evs arbitrary: E st)
  case (Cons ev evs)
  have "fst (resp_emit_thinking d st) = []" "fst (resp_emit_signature f d st) = []" for d f
    by (simp_all add: resp_emit_thinking_def resp_emit_signature_def Let_def)
  then have "resp_emit_sse_event S (E 0) (ThinkingDelta d) st = Inr ([], snd (resp_emit_thinking d st))"
    "resp_emit_sse_event S (E 0) (ThinkingSignature f d) st = Inr ([], snd (resp_emit_signature f d st))" for d f
    by (simp_all add: resp_emit_sse_event_def resp_emit_frames_def case_prod_beta)
  with Cons show ?case by (cases ev) auto
qed simp

lemma thinking_fold_texts:
  assumes "thinking_signature_by st \<noteq> Some Claude" "THINKING_TEXT_END \<notin> set (thinking_signature st)"
    "list_all (\<lambda>t. THINKING_TEXT_END \<notin> set t) ts"
  shows "thinking_fold (map ThinkingDelta ts) st = st\<lparr>thinking_signature := thinking_signature st @ concat ts\<rparr>"
  using assms
  by (induction ts arbitrary: st) (simp_all add: thinking_text_accumulates)

lemma thinking_fold_signatures:
  assumes "thinking_signature_by st = Some Claude"
  shows "thinking_fold (map (ThinkingSignature Claude) ds) st =
    st\<lparr>thinking_signature := thinking_signature st @ concat ds\<rparr>"
  using assms
  by (induction ds arbitrary: st) (simp_all add: resp_emit_signature_def)

lemma thinking_fold_append: "thinking_fold (xs @ ys) st = thinking_fold ys (thinking_fold xs st)"
  by (induction xs st rule: thinking_fold.induct) simp_all

text \<open>However Claude's thinking and its signature are cut into fragments, the Responses stream keeps them
  apart and whole: at the end the accumulator splits into exactly the thinking text and exactly the signature,
  and the reply's first item carries both, sealed.\<close>

lemma resp_stream_thinking:
  assumes "list_all (\<lambda>t. THINKING_TEXT_END \<notin> set t) ts" "list_all (\<lambda>d. THINKING_TEXT_END \<notin> set d) ds"
    and "d \<noteq> []" "THINKING_TEXT_END \<notin> set d"
    and "emit_all (resp_emit_sse_event S) E
      (map ThinkingDelta ts @ ThinkingSignature Claude d # map (ThinkingSignature Claude) ds) stream_state_new = Inr (ls, st)"
  shows "ls = [] \<and> signed_by_claude st \<and> thinking_parts st = (concat ts, d @ concat ds) \<and>
    hd (resp_output_items S uuid i st) = resp_thinking_item S (''rs_'' @ uuid) (concat ts) (d @ concat ds)"
proof -
  let ?evs = "map ThinkingDelta ts @ ThinkingSignature Claude d # map (ThinkingSignature Claude) ds"
  have "list_all (\<lambda>ev. (\<exists>d. ev = ThinkingDelta d) \<or> (\<exists>f d. ev = ThinkingSignature f d)) ?evs"
    by (auto simp: list_all_iff)
  from thinking_fold_emit [OF this] assms(5) have ls: "ls = []" and st: "st = thinking_fold ?evs stream_state_new"
    by auto
  let ?st1 = "stream_state_new\<lparr>thinking_signature := concat ts\<rparr>"
  have st1: "thinking_fold (map ThinkingDelta ts) stream_state_new = ?st1"
    using thinking_fold_texts [OF _ _ assms(1), of stream_state_new] by (simp add: stream_state_new_def)
  have "snd (resp_emit_signature Claude d ?st1) =
      ?st1\<lparr>thinking_signature_by := Some Claude, thinking_signature := concat ts @ [THINKING_TEXT_END] @ d\<rparr>"
    using assms(3) by (simp add: resp_emit_signature_def stream_state_new_def)
  then have st': "st = ?st1\<lparr>thinking_signature_by := Some Claude,
      thinking_signature := concat ts @ THINKING_TEXT_END # (d @ concat ds)\<rparr>"
    unfolding st thinking_fold_append st1 by (simp add: thinking_fold_signatures)
  have "THINKING_TEXT_END \<notin> set (d @ concat ds)"
    using assms(2,4) by (auto simp: list_all_iff)
  then have split: "rsplit_once THINKING_TEXT_END (concat ts @ THINKING_TEXT_END # (d @ concat ds)) =
      Some (concat ts, d @ concat ds)"
    by (rule rsplit_once_Some_conv)
  then have signed: "signed_by_claude st" and parts: "thinking_parts st = (concat ts, d @ concat ds)"
    using assms(3) by (simp_all add: st' signed_by_claude_def thinking_parts_def)
  then show ?thesis
    using ls by (simp add: resp_output_items_def resp_done_thinking_def Let_def)
qed

lemma resp_stream_thinking_witness:
  "\<exists>st. signed_by_claude st \<and> thinking_parts st = (''let me think'', ''sig'')"
proof -
  let ?evs = "map ThinkingDelta [''let me '', ''think''] @ ThinkingSignature Claude ''s'' # map (ThinkingSignature Claude) [''ig'']"
  have "\<exists>ls st. emit_all (resp_emit_sse_event resp_demo_serde) (\<lambda>n. \<lparr>env_now = 0, env_uuid = (\<lambda>n. ''u'')\<rparr>) ?evs stream_state_new = Inr (ls, st)"
    by (subst thinking_fold_emit) auto
  then obtain ls st where run: "emit_all (resp_emit_sse_event resp_demo_serde) (\<lambda>n. \<lparr>env_now = 0, env_uuid = (\<lambda>n. ''u'')\<rparr>) ?evs stream_state_new = Inr (ls, st)"
    by blast
  from resp_stream_thinking [OF _ _ _ _ run] show ?thesis
    by (auto simp: THINKING_TEXT_END_def)
qed

section \<open>Argument fragments\<close>

lemma resp_push_indices:
  "resp_push_arguments n a cs = Some (i, cs') \<Longrightarrow> map tc_index cs' = map tc_index cs"
  by (induction n a cs arbitrary: cs' rule: resp_push_arguments.induct) (auto split: if_splits)

lemma resp_accepts_event:
  assumes "needs_call ev \<subseteq> set (map tc_index (accumulated_tool_calls st))"
  shows "\<exists>ls st'. resp_emit_sse_event S E ev st = Inr (ls, st') \<and>
    starts_call ev \<union> set (map tc_index (accumulated_tool_calls st)) \<subseteq>
      set (map tc_index (accumulated_tool_calls st'))"
proof (cases "\<exists>n a. ev = ToolCallDelta n a")
  case True
  then obtain n a where ev: "ev = ToolCallDelta n a" by blast
  with assms push_arguments_None [of n a "accumulated_tool_calls st"]
  obtain i cs where push: "resp_push_arguments n a (accumulated_tool_calls st) = Some (i, cs)"
    by (auto simp: needs_call_def)
  have "set (map tc_index (accumulated_tool_calls st)) \<subseteq> set (map tc_index cs)"
    using resp_push_indices [OF push] by simp
  with push show ?thesis
    by (simp add: ev resp_emit_sse_event_def resp_emit_frames_def resp_emit_call_delta_def starts_call_def)
next
  case False
  then show ?thesis
    by (cases ev)
      (auto simp: resp_emit_sse_event_def resp_emit_frames_def resp_emit_defs Let_def starts_call_def
        next_block_index_def split: prod.splits if_splits)
qed

text \<open>This emitter takes fragments for the calls it has opened.\<close>

interpretation resp_accepts: accepting_emitter "resp_emit_sse_event S" OpenAIResponses
  "\<lambda>st. set (map tc_index (accumulated_tool_calls st))" for S
  by unfold_locales (rule resp_accepts_event)

text \<open>The emitter accepts an argument fragment exactly when a call with that index was opened before;
  otherwise it fails with a stream-state error.\<close>

lemma resp_call_delta_accepted:
  "(\<exists>r. resp_emit_frames S E (ToolCallDelta n a) st = Inr r) \<longleftrightarrow>
     n \<in> set (map tc_index (accumulated_tool_calls st))"
  using push_arguments_None [of n a "accumulated_tool_calls st"]
  by (auto simp: resp_emit_frames_def resp_emit_call_delta_def split: option.splits)

end
