(* ===== verification/Hub.thy ===== *)
theory Hub
  imports Claude_Stream_Props Claude_Roundtrip Chat_Roundtrip Chat_Stream Gemini_Roundtrip Gemini_Stream
    Resp_Stream_Props
begin

text \<open>
  The hub: \<open>crates/core/src/converters/mod.rs\<close> (the dispatch over formats and \<open>get_converter\<close>) and the entry
  points of \<open>crates/core/src/convert.rs\<close>.  \<open>serde_json::from_slice\<close> and \<open>to_vec\<close> at the eight wire structs are
  the parameters of \<open>hub_serde\<close>.
\<close>

section \<open>Parameters\<close>

record hub_serde =
  hs_serde :: serde
  hs_claude :: claude_serde
  hs_chat :: chat_serde
  hs_gemini :: gemini_serde
  claude_request_in :: "string \<Rightarrow> string + ClaudeRequest"
  claude_request_out :: "ClaudeRequest \<Rightarrow> string + string"
  claude_response_in :: "string \<Rightarrow> string + ClaudeResponse"
  claude_response_out :: "ClaudeResponse \<Rightarrow> string + string"
  chat_request_in :: "string \<Rightarrow> string + OpenAIChatRequest"
  chat_request_out :: "OpenAIChatRequest \<Rightarrow> string + string"
  chat_response_in :: "string \<Rightarrow> string + OpenAIChatResponse"
  chat_response_out :: "OpenAIChatResponse \<Rightarrow> string + string"
  resp_request_in :: "string \<Rightarrow> string + OpenAIResponsesRequest"
  resp_request_out :: "OpenAIResponsesRequest \<Rightarrow> string + string"
  resp_response_in :: "string \<Rightarrow> string + OpenAIResponsesResponse"
  resp_response_out :: "OpenAIResponsesResponse \<Rightarrow> string + string"
  gemini_request_in :: "string \<Rightarrow> string + GeminiRequest"
  gemini_request_out :: "GeminiRequest \<Rightarrow> string + string"
  gemini_response_in :: "string \<Rightarrow> string + GeminiResponse"
  gemini_response_out :: "GeminiResponse \<Rightarrow> string + string"

text \<open>\<open>impl From<serde_json::Error> for ConvertError\<close>, as the \<open>?\<close> operator applies it.\<close>

definition json :: "string + 'a \<Rightarrow> 'a result" where
  "json x = (case x of Inl e \<Rightarrow> Inl (JsonError e) | Inr v \<Rightarrow> Inr v)"

lemma json_simps [simp]: "json (Inl e) = Inl (JsonError e)" "json (Inr v) = Inr v"
  by (simp_all add: json_def)

section \<open>Dispatch\<close>

definition read_request :: "hub_serde \<Rightarrow> env \<Rightarrow> Format \<Rightarrow> string \<Rightarrow> IrRequest result" where
  "read_request H E from body =
     (case from of
        Claude \<Rightarrow> try_bind (json (claude_request_in H body)) (\<lambda>r. Inr (claude_read r))
      | OpenAIChat \<Rightarrow> try_bind (json (chat_request_in H body)) (\<lambda>r. Inr (chat_read (hs_serde H) (hs_chat H) r))
      | OpenAIResponses \<Rightarrow> try_bind (json (resp_request_in H body)) (\<lambda>r. Inr (resp_read (hs_serde H) r))
      | Gemini \<Rightarrow> try_bind (json (gemini_request_in H body)) (\<lambda>r. Inr (gemini_read (hs_serde H) (env_uuid E) r)))"

definition build_request :: "hub_serde \<Rightarrow> Format \<Rightarrow> IrRequest \<Rightarrow> string result" where
  "build_request H to ir =
     (case to of
        Claude \<Rightarrow> json (claude_request_out H (claude_build ir))
      | OpenAIChat \<Rightarrow> json (chat_request_out H (chat_build (hs_serde H) (hs_chat H) ir))
      | OpenAIResponses \<Rightarrow> json (resp_request_out H (resp_build (hs_serde H) ir))
      | Gemini \<Rightarrow> json (gemini_request_out H (gemini_build ir)))"

definition read_response :: "hub_serde \<Rightarrow> env \<Rightarrow> Format \<Rightarrow> string \<Rightarrow> IrResponse result" where
  "read_response H E from body =
     (case from of
        Claude \<Rightarrow> try_bind (json (claude_response_in H body)) (\<lambda>r. Inr (claude_read_response r))
      | OpenAIChat \<Rightarrow> try_bind (json (chat_response_in H body)) (\<lambda>r. Inr (chat_read_response (hs_serde H) r))
      | OpenAIResponses \<Rightarrow>
          try_bind (json (resp_response_in H body)) (\<lambda>r. Inr (resp_read_response (hs_serde H) (env_uuid E 0) r))
      | Gemini \<Rightarrow> try_bind (json (gemini_response_in H body)) (\<lambda>r. Inr (gemini_read_response (env_uuid E) r)))"

definition build_response :: "hub_serde \<Rightarrow> env \<Rightarrow> Format \<Rightarrow> IrResponse \<Rightarrow> string result" where
  "build_response H E to ir =
     (case to of
        Claude \<Rightarrow> json (claude_response_out H (claude_build_response (env_uuid E 0) ir))
      | OpenAIChat \<Rightarrow> json (chat_response_out H (chat_build_response (hs_serde H) E ir))
      | OpenAIResponses \<Rightarrow> json (resp_response_out H (resp_build_response (hs_serde H) E ir))
      | Gemini \<Rightarrow> json (gemini_response_out H (gemini_build_response ir)))"

definition parse_stream :: "hub_serde \<Rightarrow> Format \<Rightarrow> parser" where
  "parse_stream H from =
     (case from of
        Claude \<Rightarrow> claude_parse_sse_event (hs_serde H) (hs_claude H)
      | OpenAIChat \<Rightarrow> chat_parse_sse_event (hs_chat H)
      | OpenAIResponses \<Rightarrow> resp_parse_sse_event (hs_serde H)
      | Gemini \<Rightarrow> gemini_parse_sse_event (hs_serde H) (hs_gemini H))"

definition emit_stream :: "hub_serde \<Rightarrow> Format \<Rightarrow> emitter" where
  "emit_stream H to =
     (case to of
        Claude \<Rightarrow> claude_emit_sse_event (hs_serde H)
      | OpenAIChat \<Rightarrow> chat_emit_sse_event (hs_chat H)
      | OpenAIResponses \<Rightarrow> resp_emit_sse_event (hs_serde H)
      | Gemini \<Rightarrow> gemini_emit_sse_event (hs_serde H) (hs_gemini H))"

section \<open>The converters\<close>

record HubConverter =
  hc_from :: Format
  hc_to :: Format

definition hub_convert_request :: "hub_serde \<Rightarrow> env \<Rightarrow> HubConverter \<Rightarrow> string \<Rightarrow> string result" where
  "hub_convert_request H E hc input =
     try_bind (read_request H E (hc_from hc) input) (build_request H (hc_to hc))"

definition hub_convert_response :: "hub_serde \<Rightarrow> env \<Rightarrow> env \<Rightarrow> HubConverter \<Rightarrow> string \<Rightarrow> string result" where
  "hub_convert_response H E E' hc input =
     try_bind (read_response H E (hc_from hc) input) (build_response H E' (hc_to hc))"

text \<open>
  \<open>convert_stream_event\<close> parses one event of the input stream and runs the emitter over the canonical events it
  gives, collecting the lines; both states advance.  An error, of the parser or of the emitter at any of the
  events, is returned at once; the states a failed call leaves behind are not part of its value here.
\<close>

definition hub_convert_stream_event ::
  "hub_serde \<Rightarrow> env \<Rightarrow> (nat \<Rightarrow> env) \<Rightarrow> HubConverter \<Rightarrow> SseEvent \<Rightarrow> StreamState \<Rightarrow> StreamState \<Rightarrow>
     (string list \<times> StreamState \<times> StreamState) result" where
  "hub_convert_stream_event H E E' hc event state_in state_out =
     try_bind (parse_stream H (hc_from hc) E event state_in) (\<lambda>(canonical, state_in').
       try_bind (emit_all (emit_stream H (hc_to hc)) E' canonical state_out) (\<lambda>(lines, state_out').
         Inr (lines, state_in', state_out')))"

definition get_converter :: "Format \<Rightarrow> Format \<Rightarrow> HubConverter option" where
  "get_converter from to =
     (case (from, to) of
        (Claude, OpenAIChat) \<Rightarrow> Some \<lparr>hc_from = Claude, hc_to = OpenAIChat\<rparr>
      | (Claude, OpenAIResponses) \<Rightarrow> Some \<lparr>hc_from = Claude, hc_to = OpenAIResponses\<rparr>
      | (Claude, Gemini) \<Rightarrow> Some \<lparr>hc_from = Claude, hc_to = Gemini\<rparr>
      | (OpenAIChat, Claude) \<Rightarrow> Some \<lparr>hc_from = OpenAIChat, hc_to = Claude\<rparr>
      | (OpenAIChat, OpenAIResponses) \<Rightarrow> Some \<lparr>hc_from = OpenAIChat, hc_to = OpenAIResponses\<rparr>
      | (OpenAIChat, Gemini) \<Rightarrow> Some \<lparr>hc_from = OpenAIChat, hc_to = Gemini\<rparr>
      | (OpenAIResponses, Claude) \<Rightarrow> Some \<lparr>hc_from = OpenAIResponses, hc_to = Claude\<rparr>
      | (OpenAIResponses, OpenAIChat) \<Rightarrow> Some \<lparr>hc_from = OpenAIResponses, hc_to = OpenAIChat\<rparr>
      | (OpenAIResponses, Gemini) \<Rightarrow> Some \<lparr>hc_from = OpenAIResponses, hc_to = Gemini\<rparr>
      | (Gemini, Claude) \<Rightarrow> Some \<lparr>hc_from = Gemini, hc_to = Claude\<rparr>
      | (Gemini, OpenAIChat) \<Rightarrow> Some \<lparr>hc_from = Gemini, hc_to = OpenAIChat\<rparr>
      | (Gemini, OpenAIResponses) \<Rightarrow> Some \<lparr>hc_from = Gemini, hc_to = OpenAIResponses\<rparr>
      | _ \<Rightarrow> None)"

section \<open>Entry points\<close>

definition convert_request :: "hub_serde \<Rightarrow> env \<Rightarrow> string \<Rightarrow> Format \<Rightarrow> Format \<Rightarrow> string result" where
  "convert_request H E input from to =
     (if from = to then Inr input
      else case get_converter from to of
             Some converter \<Rightarrow> hub_convert_request H E converter input
           | None \<Rightarrow> Inl (UnsupportedConversion (format_as_str from) (format_as_str to)))"

definition convert_response :: "hub_serde \<Rightarrow> env \<Rightarrow> env \<Rightarrow> string \<Rightarrow> Format \<Rightarrow> Format \<Rightarrow> string result" where
  "convert_response H E E' input from to =
     (if from = to then Inr input
      else case get_converter from to of
             Some converter \<Rightarrow> hub_convert_response H E E' converter input
           | None \<Rightarrow> Inl (UnsupportedConversion (format_as_str from) (format_as_str to)))"

definition convert_stream_event ::
  "hub_serde \<Rightarrow> env \<Rightarrow> (nat \<Rightarrow> env) \<Rightarrow> SseEvent \<Rightarrow> Format \<Rightarrow> Format \<Rightarrow> StreamState \<Rightarrow> StreamState \<Rightarrow>
     (string list \<times> StreamState \<times> StreamState) result" where
  "convert_stream_event H E E' event from to state_in state_out =
     (if from = to then
        Inr ([case sse_event event of
                Some evt \<Rightarrow> format_sse_event evt (sse_data event)
              | None \<Rightarrow> format_sse_data (sse_data event)], state_in, state_out)
      else case get_converter from to of
             Some converter \<Rightarrow> hub_convert_stream_event H E E' converter event state_in state_out
           | None \<Rightarrow> Inl (UnsupportedConversion (format_as_str from) (format_as_str to)))"

section \<open>Helper lemmas\<close>

lemma get_converter_eq:
  "get_converter from to = (if from = to then None else Some \<lparr>hc_from = from, hc_to = to\<rparr>)"
  by (cases "from"; cases "to") (simp_all add: get_converter_def)

end
