(* ===== verification/Wire.thy ===== *)
theory Wire
  imports Auth Hub
begin

text \<open>
  Bodies and addresses on their way upstream and back: \<open>crates/server/src/wire.rs\<close> (the Code Assist envelope),
  \<open>model.rs\<close>, \<open>namespace.rs\<close>, the URL builders of \<open>proxy.rs\<close>, \<open>router.rs\<close> (which API a path speaks),
  \<open>handlers/stream.rs\<close> and \<open>handlers/respond.rs\<close>.  \<open>serde_json\<close> is the parameter \<open>serde\<close>; \<open>to_vec\<close> of a value
  does not fail.
\<close>

section \<open>Addresses\<close>

definition build_upstream_url :: "Format \<Rightarrow> string \<Rightarrow> string \<Rightarrow> bool \<Rightarrow> string" where
  "build_upstream_url format burl model streaming =
     (let base = trim_end_char CHR ''/'' burl
      in case format of
           OpenAIChat \<Rightarrow> base @ ''/v1/chat/completions''
         | Claude \<Rightarrow> base @ ''/v1/messages''
         | OpenAIResponses \<Rightarrow> base @ ''/v1/responses''
         | Gemini \<Rightarrow>
             if streaming then base @ ''/v1beta/models/'' @ model @ '':streamGenerateContent''
             else base @ ''/v1beta/models/'' @ model @ '':generateContent'')"

definition join_base_and_path :: "string \<Rightarrow> string \<Rightarrow> string" where
  "join_base_and_path burl path =
     (if starts_with ''http://'' path \<or> starts_with ''https://'' path then path
      else let base = trim_end_char CHR ''/'' burl
           in if starts_with ''/'' path then base @ path else base @ ''/'' @ path)"

definition build_upstream_url_for_provider :: "ProviderConfig \<Rightarrow> string \<Rightarrow> bool \<Rightarrow> string" where
  "build_upstream_url_for_provider p model streaming =
     (let custom_path =
            (if streaming then or_else (stream_path (endpoints p)) (ep_path (endpoints p)) else ep_path (endpoints p))
      in case custom_path of
           Some path \<Rightarrow> join_base_and_path (base_url p) (str_replace ''{model}'' model path)
         | None \<Rightarrow> build_upstream_url (pformat p) (base_url p) model streaming)"

definition wire_build_url :: "UpstreamApi \<Rightarrow> string \<Rightarrow> string \<Rightarrow> bool \<Rightarrow> string" where
  "wire_build_url api burl model streaming = trim_end_char CHR ''/'' burl @ api_path api model streaming"

text \<open>The two URL builders agree: for every API but Code Assist, the address built from the API's path table is
  byte for byte the one built for the API's format.\<close>

lemma wire_url_matches_proxy:
  assumes "api \<noteq> ApiCodeAssist"
  shows "wire_build_url api base model streaming = build_upstream_url (to_format api) base model streaming"
  using assms by (cases api) (simp_all add: wire_build_url_def build_upstream_url_def Let_def)

lemma wire_url_matches_proxy_witness:
  "wire_build_url ApiGemini ''https://h/'' ''m'' True = build_upstream_url Gemini ''https://h/'' ''m'' True"
  using wire_url_matches_proxy [of ApiGemini "''https://h/''" "''m''" True] by simp

section \<open>Which API a path speaks\<close>

record RouteInfo =
  client_format :: Format
  path_streaming :: bool

definition parse_gemini_path :: "string \<Rightarrow> RouteInfo option" where
  "parse_gemini_path path =
     (case strip_prefix ''/v1beta/models/'' path of
        None \<Rightarrow> None
      | Some rest \<Rightarrow>
          if ends_with '':streamGenerateContent'' rest then Some \<lparr>client_format = Gemini, path_streaming = True\<rparr>
          else if ends_with '':generateContent'' rest then Some \<lparr>client_format = Gemini, path_streaming = False\<rparr>
          else None)"

definition detect_format_from_path :: "string \<Rightarrow> RouteInfo option" where
  "detect_format_from_path path =
     (if path = ''/v1/chat/completions'' \<or> path = ''/chat/completions''
      then Some \<lparr>client_format = OpenAIChat, path_streaming = False\<rparr>
      else if path = ''/v1/messages'' \<or> path = ''/messages''
      then Some \<lparr>client_format = Claude, path_streaming = False\<rparr>
      else if path = ''/v1/responses'' \<or> path = ''/responses''
      then Some \<lparr>client_format = OpenAIResponses, path_streaming = False\<rparr>
      else if starts_with ''/v1beta/models/'' path then parse_gemini_path path
      else None)"

definition parse_gemini_model_action :: "string \<Rightarrow> (string \<times> bool) option" where
  "parse_gemini_model_action model_action =
     (case strip_suffix '':streamGenerateContent'' model_action of
        Some model \<Rightarrow> Some (model, True)
      | None \<Rightarrow> map_option (\<lambda>model. (model, False)) (strip_suffix '':generateContent'' model_action))"

definition extract_gemini_model :: "string \<Rightarrow> string option" where
  "extract_gemini_model path =
     (case strip_prefix ''/v1beta/models/'' path of
        None \<Rightarrow> None
      | Some rest \<Rightarrow>
          (case strip_suffix '':streamGenerateContent'' rest of
             Some model \<Rightarrow> Some model
           | None \<Rightarrow> strip_suffix '':generateContent'' rest))"

definition path_for_route :: "RouteInfo \<Rightarrow> string \<Rightarrow> string" where
  "path_for_route route model =
     (case client_format route of
        OpenAIChat \<Rightarrow> ''/v1/chat/completions''
      | Claude \<Rightarrow> ''/v1/messages''
      | OpenAIResponses \<Rightarrow> ''/v1/responses''
      | Gemini \<Rightarrow>
          if path_streaming route then ''/v1beta/models/'' @ model @ '':streamGenerateContent''
          else ''/v1beta/models/'' @ model @ '':generateContent'')"

section \<open>Bodies\<close>

definition model_strip_private_fields :: "serde \<Rightarrow> string \<Rightarrow> string" where
  "model_strip_private_fields S body =
     (case from_text S body of
        Inr val \<Rightarrow>
          to_text S (case as_object val of
             Some m \<Rightarrow> JObject (fmfilter (\<lambda>k. \<not> starts_with ''_'' k) m)
           | None \<Rightarrow> val)
      | Inl _ \<Rightarrow> body)"

definition extract_model_from_body :: "serde \<Rightarrow> string \<Rightarrow> string option" where
  "extract_model_from_body S body =
     (case from_text S body of Inr v \<Rightarrow> jget_str v ''model'' | Inl _ \<Rightarrow> None)"

text \<open>\<open>value["model"] = ...\<close>: on an object the entry is set, \<open>null\<close> becomes an object, anything else panics.\<close>

fun index_set :: "value \<Rightarrow> string \<Rightarrow> value \<Rightarrow> value option" where
  "index_set (JObject m) k v = Some (JObject (fmupd k v m))"
| "index_set JNull k v = Some (jobj [(k, v)])"
| "index_set _ k v = None"

text \<open>\<open>patch_model_in_body\<close>: \<open>None\<close> is the panic, \<open>Inl\<close> the JSON error.\<close>

definition patch_model_in_body :: "serde \<Rightarrow> string \<Rightarrow> Format \<Rightarrow> string \<Rightarrow> (string + string) option" where
  "patch_model_in_body S body format model =
     (case from_text S body of
        Inl e \<Rightarrow> Some (Inl e)
      | Inr val \<Rightarrow>
          if format = Gemini \<and> jget val ''model'' = None then Some (Inr (to_text S val))
          else map_option (\<lambda>v. Inr (to_text S v)) (index_set val ''model'' (JString model)))"

definition is_streaming_request :: "serde \<Rightarrow> string \<Rightarrow> RouteInfo \<Rightarrow> bool" where
  "is_streaming_request S body route =
     (if path_streaming route then True
      else case from_text S body of
             Inr v \<Rightarrow> unwrap_or False (Option.bind (jget v ''stream'') as_bool)
           | Inl _ \<Rightarrow> False)"

definition wrap_code_assist :: "serde \<Rightarrow> string \<Rightarrow> string \<Rightarrow> string + string" where
  "wrap_code_assist S gemini_body model =
     (case from_text S gemini_body of
        Inl e \<Rightarrow> Inl (''request body is not valid JSON: '' @ e)
      | Inr request \<Rightarrow> Inr (to_text S (jobj [(''model'', JString model), (''request'', request)])))"

definition unwrap_code_assist :: "serde \<Rightarrow> string \<Rightarrow> string" where
  "unwrap_code_assist S payload =
     (case from_text S payload of
        Inl _ \<Rightarrow> payload
      | Inr val \<Rightarrow> (case jget val ''response'' of None \<Rightarrow> payload | Some inner \<Rightarrow> to_text S inner))"

section \<open>Tool namespaces\<close>

text \<open>The map from qualified tool names is a hash map: an association list with the newest entry first.\<close>

type_synonym ns_map = "(string \<times> string \<times> string) list"

fun ns_children :: "string \<Rightarrow> value list \<Rightarrow> ns_map \<Rightarrow> ns_map" where
  "ns_children ns [] nm = nm"
| "ns_children ns (child # cs) nm =
     ns_children ns cs
       (case jget_str child ''name'' of
          Some name \<Rightarrow> (ns @ ''__'' @ name, ns, name) # nm
        | None \<Rightarrow> nm)"

definition ns_tool :: "value \<Rightarrow> ns_map \<Rightarrow> ns_map" where
  "ns_tool tool nm =
     (if jget_str tool ''type'' \<noteq> Some ''namespace'' then nm
      else let ns = unwrap_or [] (jget_str tool ''name'')
           in if ns = [] then nm
              else case Option.bind (jget tool ''tools'') as_array of
                     None \<Rightarrow> nm
                   | Some children \<Rightarrow> ns_children ns children nm)"

definition extract_namespace_map :: "serde \<Rightarrow> string \<Rightarrow> Format \<Rightarrow> ns_map" where
  "extract_namespace_map S body format =
     (if format \<noteq> OpenAIResponses then []
      else case from_text S body of
             Inl _ \<Rightarrow> []
           | Inr v \<Rightarrow>
               (case Option.bind (jget v ''tools'') as_array of
                  None \<Rightarrow> []
                | Some tools \<Rightarrow> fold ns_tool tools []))"

text \<open>One item: the short name and the namespace of a qualified function call; \<open>None\<close> when nothing changes.\<close>

definition patch_item :: "ns_map \<Rightarrow> value \<Rightarrow> value option" where
  "patch_item nm item =
     (if jget_str item ''type'' \<noteq> Some ''function_call'' then None
      else case jget_str item ''name'' of
             None \<Rightarrow> None
           | Some name \<Rightarrow>
               (case map_of nm name of
                  None \<Rightarrow> None
                | Some (ns, short) \<Rightarrow>
                    (case item of
                       JObject m \<Rightarrow> Some (JObject (fmupd ''namespace'' (JString ns) (fmupd ''name'' (JString short) m)))
                     | _ \<Rightarrow> None)))"

definition patch_function_call_items :: "ns_map \<Rightarrow> value list \<Rightarrow> value list \<times> bool" where
  "patch_function_call_items nm items =
     (map (\<lambda>i. unwrap_or i (patch_item nm i)) items, list_ex (\<lambda>i. patch_item nm i \<noteq> None) items)"

text \<open>\<open>value.get_mut("output").and_then(as_array_mut)\<close>, patched in place.\<close>

definition patch_output :: "ns_map \<Rightarrow> value \<Rightarrow> value \<times> bool" where
  "patch_output nm v =
     (case v of
        JObject m \<Rightarrow>
          (case Option.bind (fmlookup m ''output'') as_array of
             Some items \<Rightarrow>
               (case patch_function_call_items nm items of
                  (items', p) \<Rightarrow> (JObject (fmupd ''output'' (JArray items') m), p))
           | None \<Rightarrow> (v, False))
      | _ \<Rightarrow> (v, False))"

definition patch_response_namespaces :: "serde \<Rightarrow> string \<Rightarrow> ns_map \<Rightarrow> string" where
  "patch_response_namespaces S body nm =
     (if nm = [] then body
      else case from_text S body of
             Inl _ \<Rightarrow> body
           | Inr v \<Rightarrow> (case patch_output nm v of (v', patched) \<Rightarrow> if patched then to_text S v' else body))"

section \<open>Namespaces come back\<close>

definition ns_entry_ok :: "string \<times> string \<times> string \<Rightarrow> bool" where
  "ns_entry_ok = (\<lambda>(q, ns, short). q = ns @ ''__'' @ short)"

lemma ns_children_ok: "list_all ns_entry_ok nm \<Longrightarrow> list_all ns_entry_ok (ns_children ns cs nm)"
  by (induction ns cs nm rule: ns_children.induct) (auto simp: ns_entry_ok_def split: option.splits)

lemma ns_children_mono: "set (map fst nm) \<subseteq> set (map fst (ns_children ns cs nm))"
  by (induction ns cs nm rule: ns_children.induct) (auto split: option.splits)

lemma ns_children_mem:
  "child \<in> set cs \<Longrightarrow> jget_str child ''name'' = Some short \<Longrightarrow>
   ns @ ''__'' @ short \<in> set (map fst (ns_children ns cs nm))"
proof (induction cs arbitrary: nm)
  case (Cons c cs)
  show ?case
  proof (cases "child = c")
    case True
    with Cons.prems show ?thesis
      using ns_children_mono [of "(ns @ ''__'' @ short, ns, short) # nm" ns cs] by auto
  next
    case False
    with Cons show ?thesis by simp
  qed
qed simp

lemma ns_tool_ok: "list_all ns_entry_ok nm \<Longrightarrow> list_all ns_entry_ok (ns_tool tool nm)"
  by (simp add: ns_tool_def Let_def ns_children_ok split: option.split)

lemma ns_tool_mono: "set (map fst nm) \<subseteq> set (map fst (ns_tool tool nm))"
  using ns_children_mono by (auto simp: ns_tool_def Let_def split: option.split)

lemma ns_fold_ok: "list_all ns_entry_ok nm \<Longrightarrow> list_all ns_entry_ok (fold ns_tool tools nm)"
  by (induction tools arbitrary: nm) (simp_all add: ns_tool_ok)

lemma ns_fold_mono: "set (map fst nm) \<subseteq> set (map fst (fold ns_tool tools nm))"
proof (induction tools arbitrary: nm)
  case (Cons t ts)
  from ns_tool_mono [of nm t] Cons.IH [of "ns_tool t nm"] show ?case by simp
qed simp

lemma ns_fold_mem:
  assumes "tool \<in> set tools" and mono: "\<And>nm. q \<in> set (map fst (ns_tool tool nm))"
  shows "q \<in> set (map fst (fold ns_tool tools nm))"
  using assms(1)
proof (induction tools arbitrary: nm)
  case (Cons t ts)
  show ?case
  proof (cases "tool = t")
    case True
    with mono [of nm] ns_fold_mono [of "ns_tool t nm" ts] show ?thesis by auto
  qed (use Cons in simp)
qed simp

text \<open>A tool call comes back in the client's own terms: for a Responses request, a call the upstream makes to
  any tool of any namespace the request declares, under the qualified name the reader gave it, is rewritten to a
  namespace and a short name that make up that qualified name.\<close>

lemma namespace_calls_restored:
  assumes "from_text S body = Inr v" and "jget v ''tools'' = Some (JArray tools)"
    and "tool \<in> set tools" and "jget_str tool ''type'' = Some ''namespace''"
    and "jget_str tool ''name'' = Some ns" and "ns \<noteq> []" and "jget tool ''tools'' = Some (JArray children)"
    and "child \<in> set children" and "jget_str child ''name'' = Some short"
    and "get_str call ''type'' = Some ''function_call''" and "get_str call ''name'' = Some (ns @ ''__'' @ short)"
  shows "\<exists>call' ns' short'. patch_item (extract_namespace_map S body OpenAIResponses) (JObject call) = Some (JObject call') \<and>
           get_str call' ''namespace'' = Some ns' \<and> get_str call' ''name'' = Some short' \<and>
           ns' @ ''__'' @ short' = ns @ ''__'' @ short"
proof -
  let ?nm = "fold ns_tool tools []" and ?q = "ns @ ''__'' @ short"
  have nm: "extract_namespace_map S body OpenAIResponses = ?nm"
    using assms(1,2) by (simp add: extract_namespace_map_def)
  have "?q \<in> set (map fst (ns_tool tool nm))" for nm
    unfolding ns_tool_def Let_def using assms(4-9) ns_children_mem [of child children short ns nm] by simp
  then have "?q \<in> set (map fst ?nm)" using assms(3) by (intro ns_fold_mem)
  then obtain e where e: "map_of ?nm ?q = Some e"
    by (metis map_of_eq_None_iff not_None_eq set_map)
  obtain ns' short' where e': "e = (ns', short')" by fastforce
  have "ns_entry_ok (?q, ns', short')"
    using map_of_SomeD [OF e] e' ns_fold_ok [of "[]" tools] by (auto simp: list_all_iff)
  then have "ns' @ ''__'' @ short' = ?q" unfolding ns_entry_ok_def by simp
  then show ?thesis
    unfolding nm using assms(10,11) e e'
    by (auto simp: patch_item_def get_str_def)
qed

text \<open>A request with one namespace of one tool.\<close>

definition sample_child :: "value" where
  "sample_child = jobj [(''type'', JString ''function''), (''name'', JString ''shell'')]"

definition sample_tool :: "value" where
  "sample_tool = jobj [(''type'', JString ''namespace''), (''name'', JString ''mcp''), (''tools'', JArray [sample_child])]"

lemma namespace_calls_restored_witness:
  "\<exists>call' ns' short'.
     patch_item (extract_namespace_map
         \<lparr>from_text = (\<lambda>_. Inr (jobj [(''tools'', JArray [sample_tool])])), to_text = (\<lambda>_. [])\<rparr> [] OpenAIResponses)
       (jobj [(''type'', JString ''function_call''), (''name'', JString ''mcp__shell'')]) = Some (JObject call') \<and>
     get_str call' ''namespace'' = Some ns' \<and> get_str call' ''name'' = Some short' \<and>
     ns' @ ''__'' @ short' = ''mcp'' @ ''__'' @ ''shell''"
  by (rule namespace_calls_restored [where v = "jobj [(''tools'', JArray [sample_tool])]" and tools = "[sample_tool]"
        and tool = sample_tool and children = "[sample_child]" and child = sample_child])
    (simp_all add: sample_tool_def sample_child_def get_str_def)

section \<open>What the addresses and bodies get wrong\<close>

text \<open>The address ignores an explicit \<open>api\<close>: a provider whose \<open>api\<close> is Claude and whose \<open>format\<close> was left at its
  default gets a Claude body at the Chat Completions address.\<close>

lemma url_ignores_explicit_api:
  assumes "papi p = Some ApiClaude" and "account_ids p = []" and "pformat p = OpenAIChat"
    and "ep_path (endpoints p) = None" and "stream_path (endpoints p) = None"
  shows "to_format (api_for p model) = Claude \<and>
         build_upstream_url_for_provider p model streaming =
           trim_end_char CHR ''/'' (base_url p) @ ''/v1/chat/completions''"
  using assms
  by (simp add: api_for_def is_copilot_account_def first_prefix_def effective_api_def
      build_upstream_url_for_provider_def build_upstream_url_def Let_def or_else_def)

lemma url_ignores_explicit_api_witness:
  "build_upstream_url_for_provider (sample_provider\<lparr>papi := Some ApiClaude, pformat := OpenAIChat\<rparr>) ''m'' False =
     trim_end_char CHR ''/'' ''https://api.anthropic.com'' @ ''/v1/chat/completions''"
proof -
  let ?p = "sample_provider\<lparr>papi := Some ApiClaude, pformat := OpenAIChat\<rparr>"
  have "account_ids ?p = []" by (simp add: sample_provider_def account_ids_def)
  then show ?thesis using url_ignores_explicit_api [of ?p "''m''" False] by (simp add: sample_provider_def)
qed

text \<open>Setting the model on a body that is JSON but not an object or null panics.\<close>

lemma patch_model_panics:
  "from_text S body = Inr (JArray vs) \<Longrightarrow> format \<noteq> Gemini \<Longrightarrow> patch_model_in_body S body format model = None"
  by (simp add: patch_model_in_body_def)

end
