(* ===== verification/Hub_Props.thy ===== *)
theory Hub_Props
  imports Hub Base64
begin

text \<open>
  Properties that span the components: the dispatch, the errors of the entry points, isolation between vendors for
  every target, what every emitter accepts and how it ends, and the places where two components that
  are each consistent with themselves do not fit together.
\<close>

section \<open>Dispatch and errors\<close>

lemma read_request_errors:
  "read_request H E from body \<noteq> Inl (UnsupportedConversion a b)"
  "read_response H E from body \<noteq> Inl (UnsupportedConversion a b)"
  "build_request H to ir \<noteq> Inl (UnsupportedConversion a b)"
  "build_response H E to re \<noteq> Inl (UnsupportedConversion a b)"
  by (cases "from"; cases "to";
      simp add: read_request_def read_response_def build_request_def build_response_def json_def try_bind_def
        split: sum.splits)+

text \<open>C1: The dispatch table is complete: \<open>get_converter\<close> has a converter for every ordered pair of different
  formats and none for equal ones, the converter it returns is the one for that pair, a conversion to the same
  format returns the bytes untouched, every other conversion is the reader of the source followed by the builder
  of the target, and no conversion is ever refused as unsupported.\<close>

theorem hub_dispatch:
  "get_converter from to = (if from = to then None else Some \<lparr>hc_from = from, hc_to = to\<rparr>) \<and>
   convert_request H E input from to =
     (if from = to then Inr input else try_bind (read_request H E from input) (build_request H to)) \<and>
   convert_response H E E' input from to =
     (if from = to then Inr input else try_bind (read_response H E from input) (build_response H E' to)) \<and>
   convert_request H E input from to \<noteq> Inl (UnsupportedConversion a b) \<and>
   convert_response H E E' input from to \<noteq> Inl (UnsupportedConversion a b)"
  using read_request_errors
  by (auto simp: get_converter_eq convert_request_def convert_response_def hub_convert_request_def
      hub_convert_response_def try_bind_def split: sum.splits)

text \<open>Every format's name is read back as that format, and a string names at most one format.\<close>

lemma format_name_roundtrip:
  "format_parse (format_as_str f) = Inr f \<and> (format_as_str f = format_as_str g \<longleftrightarrow> f = g)"
  by (cases f; cases g) (simp_all add: format_parse_def)

section \<open>Isolation between vendors\<close>

lemma build_request_mask: "build_request H to (mask_request to ir) = build_request H to ir"
  by (cases "to")
    (simp_all add: build_request_def claude_builder.build_mask chat_builder.build_mask
      resp_builder.build_mask gemini_builder.build_mask)

text \<open>C2: Noninterference between vendors, for every target: two requests that agree up to what other
  vendors signed, sealed or own (\<open>mask_request\<close> removes exactly that) are written as the same bytes, so no
  builder can use or leak another vendor's signature, encrypted reasoning or private field.\<close>

theorem hub_vendor_isolation:
  assumes "mask_request to a = mask_request to b"
  shows "build_request H to a = build_request H to b"
  by (metis assms build_request_mask)

theorem hub_vendor_isolation_witness:
  "\<forall>H. build_request H Gemini (resp_demo_request\<lparr>ir_extra := [(Claude, ''metadata'', JNull)]\<rparr>) =
     build_request H Gemini (resp_demo_request\<lparr>ir_extra := []\<rparr>)"
  using hub_vendor_isolation [of Gemini "resp_demo_request\<lparr>ir_extra := [(Claude, ''metadata'', JNull)]\<rparr>"
      "resp_demo_request\<lparr>ir_extra := []\<rparr>"]
  by (simp add: mask_request_def extra_takes_def PASSLIST_def)

section \<open>Streams\<close>

lemma emit_stream_simps:
  "emit_stream H Claude = claude_emit_sse_event (hs_serde H)"
  "emit_stream H OpenAIChat = chat_emit_sse_event (hs_chat H)"
  "emit_stream H OpenAIResponses = resp_emit_sse_event (hs_serde H)"
  "emit_stream H Gemini = gemini_emit_sse_event (hs_serde H) (hs_gemini H)"
  by (simp_all add: emit_stream_def fun_eq_iff)

text \<open>The calls an emitter takes fragments for: all, except that the Responses emitter must have opened them.\<close>

definition known_calls :: "Format \<Rightarrow> StreamState \<Rightarrow> u32 set" where
  "known_calls to st =
     (if to = OpenAIResponses then set (map tc_index (accumulated_tool_calls st)) else UNIV)"

text \<open>The dispatching emitter keeps the emitter's contract at every target.\<close>

interpretation hub_emitter: accepting_emitter "emit_stream H to" "to" "known_calls to" for H "to"
proof (cases "to")
  case OpenAIChat
  have "known_calls to = (\<lambda>_. UNIV)" by (simp add: known_calls_def OpenAIChat fun_eq_iff)
  then show "accepting_emitter (emit_stream H to) to (known_calls to)"
    using chat_accepts.accepting_emitter_axioms by (simp add: OpenAIChat emit_stream_simps)
next
  case Claude
  have "known_calls to = (\<lambda>_. UNIV)" by (simp add: known_calls_def Claude fun_eq_iff)
  then show "accepting_emitter (emit_stream H to) to (known_calls to)"
    using claude_accepts.accepting_emitter_axioms by (simp add: Claude emit_stream_simps)
next
  case OpenAIResponses
  have "known_calls to = (\<lambda>st. set (map tc_index (accumulated_tool_calls st)))"
    by (simp add: known_calls_def OpenAIResponses fun_eq_iff)
  then show "accepting_emitter (emit_stream H to) to (known_calls to)"
    using resp_accepts.accepting_emitter_axioms by (simp add: OpenAIResponses emit_stream_simps)
next
  case Gemini
  have "known_calls to = (\<lambda>_. UNIV)" by (simp add: known_calls_def Gemini fun_eq_iff)
  then show "accepting_emitter (emit_stream H to) to (known_calls to)"
    using gemini_accepts.accepting_emitter_axioms by (simp add: Gemini emit_stream_simps)
qed



text \<open>Isolation between vendors in streams: for every target, a canonical stream and the same stream
  without the signatures and sealed blocks of vendors the target does not carry (\<open>foreign_to\<close>) are written
  as the same lines and leave the same state, each call drawing one of the same clocks and identifier supplies.\<close>

lemma hub_stream_isolation:
  "\<exists>E'. range E' \<subseteq> range E \<and>
     emit_all (emit_stream H to) E evs st =
     emit_all (emit_stream H to) E' (filter (\<lambda>ev. \<not> foreign_to to ev) evs) st"
  by (rule hub_emitter.emit_all_foreign)

section \<open>Gemini streams\<close>

lemma gemini_part_events:
  assumes "well_indexed {} events"
  shows "well_indexed {} (fst (gemini_parse_part S E part (events, st, k)))"
proof -
  have "\<exists>evs. fst (gemini_parse_part S E part (events, st, k)) = events @ evs \<and> well_indexed {} evs"
    by (auto simp: gemini_parse_part_def Let_def next_tool_call_index_def draw_or_def
        split: option.splits prod.splits)
  then show ?thesis
    using assms by (auto simp: well_indexed_append intro: well_indexed_mono)
qed

lemma gemini_parts_events:
  "well_indexed {} events \<Longrightarrow> well_indexed {} (fst (fold (gemini_parse_part S E) parts (events, st, k)))"
proof (induction parts arbitrary: events st k)
  case (Cons p ps)
  obtain events1 st1 k1 where step: "gemini_parse_part S E p (events, st, k) = (events1, st1, k1)"
    by (metis prod_cases3)
  with gemini_part_events [OF Cons.prems, of S E p st k] have "well_indexed {} events1"
    by simp
  with Cons.IH step show ?case by simp
qed simp

lemma gemini_chunk_shape:
  "\<exists>events st1 k. well_indexed {} events \<and>
     gemini_parse_chunk S E chunk st =
       (case gs_candidates chunk of
          [] \<Rightarrow> (events, st1)
        | c # cs \<Rightarrow>
            (let (events1, st3, k1) = fold (gemini_parse_part S E) (gc_parts (ga_content c)) (events, st1, k)
             in case ga_finish_reason c of
                  Some fr \<Rightarrow> (events1 @ [Done (from_gemini fr) (accumulated_usage st3)],
                              st3\<lparr>st_done := True, phase := PhaseDone\<rparr>)
                | None \<Rightarrow> (events1, st3)))"
proof -
  obtain events st0 k where init:
      "(if response_id st = None
        then (let i = env_uuid E 0; model = unwrap_or ''gemini'' (gs_model_version chunk)
              in ([Start i model], st\<lparr>response_id := Some i, st_model := Some model\<rparr>, 1 :: nat))
        else ([], st, 0)) = (events, st0, k)"
    by (metis prod_cases3)
  from init have "well_indexed {} events"
    by (auto simp: Let_def split: if_splits)
  moreover obtain st1 where usage: "(case gs_usage_metadata chunk of
           Some usage \<Rightarrow> st0\<lparr>accumulated_usage := Some (usage_default
             \<lparr>us_input_tokens := unwrap_or 0 (gu_prompt_token_count usage),
              us_output_tokens := unwrap_or 0 (gu_candidates_token_count usage)\<rparr>)\<rparr>
         | None \<Rightarrow> st0) = st1"
    by blast
  ultimately show ?thesis
    unfolding gemini_parse_chunk_def init
    by (intro exI [of _ events] exI [of _ st1] exI [of _ k]) (simp only: Let_def prod.case usage simp_thms)
qed

lemma gemini_chunk_events:
  assumes "gemini_parse_chunk S E chunk st = (evs, st')"
  shows "well_indexed {} evs"
    and "gs_candidates chunk = c # cs \<Longrightarrow> ga_finish_reason c = Some fr \<Longrightarrow>
      st_done st' \<and> (\<exists>evs0 u. evs = evs0 @ [Done (from_gemini fr) u] \<and> well_indexed {} evs0)"
proof -
  from gemini_chunk_shape [of S E chunk st, unfolded assms] obtain events st1 k where ev: "well_indexed {} events"
    and shape: "(evs, st') =
       (case gs_candidates chunk of
          [] \<Rightarrow> (events, st1)
        | c # cs \<Rightarrow>
            (let (events1, st3, k1) = fold (gemini_parse_part S E) (gc_parts (ga_content c)) (events, st1, k)
             in case ga_finish_reason c of
                  Some fr \<Rightarrow> (events1 @ [Done (from_gemini fr) (accumulated_usage st3)],
                              st3\<lparr>st_done := True, phase := PhaseDone\<rparr>)
                | None \<Rightarrow> (events1, st3)))"
    by blast
  have parts: "well_indexed {} events1"
    if "fold (gemini_parse_part S E) ps (events, st1, k) = (events1, st3, k1)" for ps events1 st3 k1
    using gemini_parts_events [OF ev, of S E ps st1 k] that by simp
  show "well_indexed {} evs"
    using shape ev parts
    by (cases "gs_candidates chunk") (auto simp: well_indexed_append split: prod.splits option.splits)
  show "gs_candidates chunk = c # cs \<Longrightarrow> ga_finish_reason c = Some fr \<Longrightarrow>
      st_done st' \<and> (\<exists>evs0 u. evs = evs0 @ [Done (from_gemini fr) u] \<and> well_indexed {} evs0)"
    using shape parts by (auto split: prod.splits)
qed

text \<open>Every event of a Gemini stream whose payload parses is converted without an error to every other
  format, from any pair of states, and the chunk that carries the finish reason produces output and closes both
  states; a payload that does not parse is reported as a parse error.\<close>

lemma gemini_stream_converts:
  assumes "to \<noteq> Gemini"
  shows "case from_gemini_text (hs_gemini H) (sse_data event) of
           Inr chunk \<Rightarrow>
             \<exists>ls st_in' st_out'.
               convert_stream_event H E E' event Gemini to st_in st_out = Inr (ls, st_in', st_out') \<and>
               (\<forall>c cs fr. gs_candidates chunk = c # cs \<and> ga_finish_reason c = Some fr \<longrightarrow>
                  ls \<noteq> [] \<and> st_done st_in' \<and> st_done st_out')
         | Inl e \<Rightarrow> convert_stream_event H E E' event Gemini to st_in st_out = Inl (SseParse e)"
proof (cases "from_gemini_text (hs_gemini H) (sse_data event)")
  case (Inl e)
  with assms show ?thesis
    by (simp add: convert_stream_event_def get_converter_eq hub_convert_stream_event_def parse_stream_def
        gemini_parse_sse_event_def)
next
  case (Inr chunk)
  obtain evs st1 where chunk: "gemini_parse_chunk (hs_serde H) E chunk st_in = (evs, st1)" by fastforce
  from gemini_chunk_events(1) [OF chunk] have "well_indexed (known_calls to st_out) evs"
    by (rule well_indexed_mono) simp
  then obtain ls st2 where run: "emit_all (emit_stream H to) E' evs st_out = Inr (ls, st2)"
    using hub_emitter.emit_all_accepts by blast
  have conv: "convert_stream_event H E E' event Gemini to st_in st_out = Inr (ls, st1, st2)"
    using assms Inr chunk run
    by (simp add: convert_stream_event_def get_converter_eq hub_convert_stream_event_def parse_stream_def
        gemini_parse_sse_event_def)
  have "ls \<noteq> [] \<and> st_done st1 \<and> st_done st2"
    if c: "gs_candidates chunk = c # cs" "ga_finish_reason c = Some fr" for c cs fr
  proof -
    from gemini_chunk_events(2) [OF chunk c] obtain evs0 u where st1: "st_done st1"
      and evs: "evs = evs0 @ [Done (from_gemini fr) u]" and "well_indexed {} evs0"
      by blast
    then have "well_indexed (known_calls to st_out) evs0"
      by (auto intro: well_indexed_mono)
    from hub_emitter.emit_all_accepts_done [OF this, of H E' "from_gemini fr" u] run evs st1
    show ?thesis by auto
  qed
  with Inr conv show ?thesis by auto
qed

lemma gemini_stream_converts_witness:
  "\<exists>H. from_gemini_text (hs_gemini H) ''{b}'' = Inr (gemini_final stream_state_new EndTurn None) \<and>
     (\<exists>ls st_in' st_out'.
        convert_stream_event H \<lparr>env_now = 0, env_uuid = (\<lambda>k. ''u'')\<rparr> (\<lambda>n. \<lparr>env_now = 0, env_uuid = (\<lambda>k. ''u'')\<rparr>)
          \<lparr>sse_event = None, sse_data = ''{b}''\<rparr> Gemini Claude stream_state_new stream_state_new =
        Inr (ls, st_in', st_out') \<and> ls \<noteq> [] \<and> st_done st_in' \<and> st_done st_out')"
proof -
  obtain H :: hub_serde where H: "hs_gemini H =
      \<lparr>from_gemini_text = (\<lambda>s. Inr (gemini_final stream_state_new EndTurn None)), gemini_to_text = (\<lambda>r. ''{b}'')\<rparr>"
    by (metis hub_serde.select_convs(4))
  with gemini_stream_converts [where to = Claude and H = H
      and event = "\<lparr>sse_event = None, sse_data = ''{b}''\<rparr>"
      and E = "\<lparr>env_now = 0, env_uuid = (\<lambda>k. ''u'')\<rparr>" and E' = "\<lambda>n. \<lparr>env_now = 0, env_uuid = (\<lambda>k. ''u'')\<rparr>"
      and st_in = stream_state_new and st_out = stream_state_new]
  show ?thesis
    by (intro exI [of _ H]) (auto simp: gemini_final_def make_stream_response_def)
qed

section \<open>Where components do not fit\<close>

text \<open>An inline image of a Chat Completions request (\<open>data:<type>;base64,<data>\<close>) reaches Claude whole,
  but is lost on the way to Gemini, which gets an empty text part, and to Responses, which gets an image with an
  empty URL: the reader moves the data out of \<open>url\<close> and those two builders look at \<open>url\<close> only.\<close>

lemma chat_inline_image_lost:
  assumes "iu_url u = ''data:'' @ media_type @ '';base64,'' @ data"
    and "split_once '';base64,'' (media_type @ '';base64,'' @ data) = Some (media_type, data)"
  shows "gemini_push_part (chat_image_part u) out = out @ [gemini_text []] \<and>
    resp_input_part S role (chat_image_part u) acc = (fst acc, snd acc @ [resp_image_value [] (iu_detail u)]) \<and>
    claude_build_part (chat_image_part u) =
      Some (jobj [(''type'', JString ''image''),
        (''source'', jobj [(''type'', JString ''base64''), (''media_type'', JString media_type),
                           (''data'', JString data)])])"
proof -
  have "strip_prefix ''data:'' (iu_url u) = Some (media_type @ '';base64,'' @ data)"
    by (simp add: assms(1) strip_prefix_def starts_with_def)
  then have img: "chat_image_part u = Image [] media_type (Some data) (iu_detail u)"
    using assms(2) by (simp add: chat_image_part_def)
  have "parse_data_url [] = None"
    by (simp add: parse_data_url_def strip_prefix_def starts_with_def)
  then show ?thesis
    by (simp add: img gemini_push_part_def resp_input_part_def)
qed

lemma chat_inline_image_lost_witness:
  "gemini_push_part (chat_image_part \<lparr>iu_url = ''data:image/png;base64,iVBO'', iu_detail = None\<rparr>) [] = [gemini_text []]"
  using chat_inline_image_lost [of "\<lparr>iu_url = ''data:image/png;base64,iVBO'', iu_detail = None\<rparr>"
      "''image/png''" "''iVBO''" "[]"]
  by (simp add: starts_with_def)

text \<open>Text that Gemini signed (a part with \<open>thoughtSignature\<close>) is missing from the Claude reply built from
  that response, though the same text unsigned is kept.\<close>

lemma gemini_signed_text_lost_in_claude:
  assumes "t \<noteq> []" and "gp_function_call p = None"
  shows "cp_content (claude_build_response u (ir\<lparr>re_parts :=
      fst (gemini_reply_part U (p\<lparr>gp_text := Some t, gp_thought := None, gp_thought_signature := Some sg\<rparr>) ([], k))\<rparr>)) = [] \<and>
    cp_content (claude_build_response u (ir\<lparr>re_parts :=
      fst (gemini_reply_part U (p\<lparr>gp_text := Some t, gp_thought := None, gp_thought_signature := None\<rparr>) ([], k))\<rparr>)) =
      [CB_Text t]"
  using assms
  by (simp add: gemini_reply_part_def gemini_call_part_def gemini_text_part_def gemini_signed_def
      claude_build_response_def claude_build_response_block_def)

lemma gemini_signed_text_lost_in_claude_witness:
  "cp_content (claude_build_response ''u'' (\<lparr>re_id = None, re_model = ''m'', re_parts = [], re_stop_reason = EndTurn,
      re_stop_sequence = None, re_usage = usage_default\<rparr>\<lparr>re_parts :=
        fst (gemini_reply_part (\<lambda>n. ''u'') ((gemini_text ''hi'')\<lparr>gp_thought_signature := Some ''sg''\<rparr>) ([], 0))\<rparr>)) = []"
  using gemini_signed_text_lost_in_claude [where t = "''hi''" and p = "gemini_text ''hi''" and u = "''u''"
      and ir = "\<lparr>re_id = None, re_model = ''m'', re_parts = [], re_stop_reason = EndTurn,
        re_stop_sequence = None, re_usage = usage_default\<rparr>" and U = "\<lambda>n. ''u''" and sg = "''sg''" and k = 0]
  by (simp add: gemini_text_def)

text \<open>In a Responses stream the arguments of a tool call that is not the first output item are lost on the
  way to Gemini.  The parser numbers a call by a counter of calls and its argument fragments by the item's
  \<open>output_index\<close>; when a message or a reasoning item came first the two differ, the Gemini emitter finds
  no call for the fragment and writes nothing.\<close>

lemma resp_call_arguments_lost:
  assumes "from_text (hs_serde H) d =
      Inr (jobj [(''type'', JString ''response.function_call_arguments.delta''),
                 (''output_index'', json_u32 n), (''delta'', JString a)])"
    and "from_text (hs_serde H) da =
      Inr (jobj [(''type'', JString ''response.output_item.added''), (''output_index'', json_u32 n),
                 (''item'', jobj [(''type'', JString ''function_call''), (''call_id'', JString c),
                                  (''name'', JString name)])])"
    and "tool_call_index st_in = 0" and "accumulated_tool_calls st_out = []" and "n \<noteq> 0"
  shows "\<exists>ls st_in1 st_out1.
    convert_stream_event H Ea Ea' \<lparr>sse_event = None, sse_data = da\<rparr> OpenAIResponses Gemini st_in st_out =
      Inr (ls, st_in1, st_out1) \<and> length ls = 1 \<and>
    convert_stream_event H Eb Eb' \<lparr>sse_event = None, sse_data = d\<rparr> OpenAIResponses Gemini st_in1 st_out1 =
      Inr ([], st_in1, st_out1)"
  using assms
  by (simp add: convert_stream_event_def get_converter_eq hub_convert_stream_event_def parse_stream_def
      resp_parse_sse_event_def get_str_def or_else_def ok_or_def resp_parse_item_added_def
      next_tool_call_index_def emit_stream_simps gemini_emit_sse_event_def gemini_emit_frames_def Let_def)

lemma resp_call_arguments_lost_witness:
  "\<exists>H ls st_in1 st_out1.
    convert_stream_event H \<lparr>env_now = 0, env_uuid = (\<lambda>k. ''u'')\<rparr> (\<lambda>n. \<lparr>env_now = 0, env_uuid = (\<lambda>k. ''u'')\<rparr>)
      \<lparr>sse_event = None, sse_data = ''{a}''\<rparr> OpenAIResponses Gemini stream_state_new stream_state_new =
      Inr (ls, st_in1, st_out1) \<and>
    convert_stream_event H \<lparr>env_now = 0, env_uuid = (\<lambda>k. ''u'')\<rparr> (\<lambda>n. \<lparr>env_now = 0, env_uuid = (\<lambda>k. ''u'')\<rparr>)
      \<lparr>sse_event = None, sse_data = ''{b}''\<rparr> OpenAIResponses Gemini st_in1 st_out1 = Inr ([], st_in1, st_out1)"
proof -
  obtain H :: hub_serde where H: "hs_serde H =
      \<lparr>from_text = (\<lambda>s. Inr (if s = ''{a}''
          then jobj [(''type'', JString ''response.output_item.added''), (''output_index'', json_u32 1),
                 (''item'', jobj [(''type'', JString ''function_call''), (''call_id'', JString ''c''),
                                  (''name'', JString ''f'')])]
          else jobj [(''type'', JString ''response.function_call_arguments.delta''),
                 (''output_index'', json_u32 1), (''delta'', JString ''x'')])),
       to_text = (\<lambda>v. ''{}'')\<rparr>"
    by (metis hub_serde.select_convs(1))
  from resp_call_arguments_lost [where H = H and d = "''{b}''" and da = "''{a}''" and n = 1 and a = "''x''"
      and c = "''c''" and name = "''f''" and st_in = stream_state_new and st_out = stream_state_new
      and Ea = "\<lparr>env_now = 0, env_uuid = (\<lambda>k. ''u'')\<rparr>" and Ea' = "\<lambda>n. \<lparr>env_now = 0, env_uuid = (\<lambda>k. ''u'')\<rparr>"
      and Eb = "\<lparr>env_now = 0, env_uuid = (\<lambda>k. ''u'')\<rparr>" and Eb' = "\<lambda>n. \<lparr>env_now = 0, env_uuid = (\<lambda>k. ''u'')\<rparr>"]
  show ?thesis
    by (intro exI [of _ H]) (auto simp: H stream_state_new_def)
qed

section \<open>Errors of the entry points\<close>

text \<open>Whether a request body parses, and the error when it does not.\<close>

definition request_error :: "hub_serde \<Rightarrow> Format \<Rightarrow> string \<Rightarrow> string option" where
  "request_error H from body =
     (case from of
        Claude \<Rightarrow> (case claude_request_in H body of Inl e \<Rightarrow> Some e | Inr r \<Rightarrow> None)
      | OpenAIChat \<Rightarrow> (case chat_request_in H body of Inl e \<Rightarrow> Some e | Inr r \<Rightarrow> None)
      | OpenAIResponses \<Rightarrow> (case resp_request_in H body of Inl e \<Rightarrow> Some e | Inr r \<Rightarrow> None)
      | Gemini \<Rightarrow> (case gemini_request_in H body of Inl e \<Rightarrow> Some e | Inr r \<Rightarrow> None))"

text \<open>The documented behaviour of \<open>serde_json::to_vec\<close> the entry points rely on: structs whose maps
  have string keys always serialize.\<close>

definition serializes :: "hub_serde \<Rightarrow> bool" where
  "serializes H \<longleftrightarrow>
     (\<forall>r e. claude_request_out H r \<noteq> Inl e) \<and> (\<forall>r e. chat_request_out H r \<noteq> Inl e) \<and>
     (\<forall>r e. resp_request_out H r \<noteq> Inl e) \<and> (\<forall>r e. gemini_request_out H r \<noteq> Inl e)"

lemma serializes_build: "serializes H \<Longrightarrow> \<exists>out. build_request H to ir = Inr out"
  unfolding serializes_def build_request_def json_def
  by (cases "to") (auto split: sum.splits)

lemma read_request_error:
  "read_request H E from body = Inl e \<longleftrightarrow> (\<exists>m. request_error H from body = Some m \<and> e = JsonError m)"
  by (cases "from") (auto simp: read_request_def request_error_def json_def try_bind_def split: sum.splits)

text \<open>C7: The converters are total on readable requests: with the derived serializers total, converting a
  request between different formats fails exactly when the body does not parse as the source format, and then with
  the JSON error of the parser; no reader and no builder rejects a request.\<close>

theorem convert_request_total:
  assumes "from \<noteq> to" and "serializes H"
  shows "(case request_error H from input of
            Some m \<Rightarrow> convert_request H E input from to = Inl (JsonError m)
          | None \<Rightarrow> \<exists>out. convert_request H E input from to = Inr out)"
proof (cases "read_request H E from input")
  case (Inl e)
  then obtain m where "request_error H from input = Some m" "e = JsonError m"
    by (auto simp: read_request_error)
  with Inl assms show ?thesis
    by (simp add: convert_request_def get_converter_eq hub_convert_request_def)
next
  case (Inr ir)
  then have "request_error H from input = None"
    using read_request_error [of H E "from" input] by (cases "request_error H from input") auto
  with Inr assms serializes_build [OF assms(2), of "to" ir] show ?thesis
    by (simp add: convert_request_def get_converter_eq hub_convert_request_def)
qed

theorem convert_request_total_witness:
  "\<exists>H. convert_request H \<lparr>env_now = 0, env_uuid = (\<lambda>k. ''u'')\<rparr> ''bad'' Claude Gemini = Inl (JsonError ''eof'')"
proof -
  define H where "H = (undefined :: hub_serde)
    \<lparr>claude_request_in := (\<lambda>s. Inl ''eof''), claude_request_out := (\<lambda>r. Inr []), chat_request_out := (\<lambda>r. Inr []),
     resp_request_out := (\<lambda>r. Inr []), gemini_request_out := (\<lambda>r. Inr [])\<rparr>"
  have "serializes H" by (simp add: serializes_def H_def)
  from convert_request_total [of Claude Gemini H "\<lparr>env_now = 0, env_uuid = (\<lambda>k. ''u'')\<rparr>" "''bad''", OF _ this]
  show ?thesis
    by (intro exI [of _ H]) (simp add: request_error_def, simp add: H_def)
qed

end
