(* ===== verification/Proxy.thy ===== *)
theory Proxy
  imports Wire Utf8 Hub_Props
begin

text \<open>
  The streaming half of \<open>crates/server/src/proxy.rs\<close>: bytes arrive in chunks, complete event blocks are cut from
  the buffer, each is converted with the hub's stream converter and rewritten for tool namespaces, and the lines
  go to the client and, within a limit, to the request log.  The randomness and the clock of the \<open>n\<close>-th converted
  block are \<open>envs n\<close>; what a failed conversion leaves in the two stream states is \<open>left_behind\<close>.  The content
  clock is not modelled.
\<close>

section \<open>Blocks\<close>

function take_complete_sse_blocks :: "string \<Rightarrow> string list \<times> string" where
  "take_complete_sse_blocks buffer =
     (case split_once [nl, nl] buffer of
        None \<Rightarrow> ([], buffer)
      | Some (block, rest) \<Rightarrow>
          (case take_complete_sse_blocks rest of
             (blocks, buffer') \<Rightarrow> ((if trim block = [] then blocks else trim block # blocks), buffer')))"
  by pat_completeness auto

termination by (relation "measure length") (auto dest: split_once_shorter)

declare take_complete_sse_blocks.simps [simp del]

fun convert_error_to_string :: "ConvertError \<Rightarrow> string" where
  "convert_error_to_string (JsonError e) = ''JSON serialization error: '' @ e"
| "convert_error_to_string (UnsupportedConversion f t) = ''unsupported format conversion: '' @ f @ '' -> '' @ t"
| "convert_error_to_string (MissingField f) = ''missing required field: '' @ f"
| "convert_error_to_string (InvalidField f r) = ''invalid field value for '' @ [CHR 0x27] @ f @ [CHR 0x27] @ '': '' @ r"
| "convert_error_to_string (UnsupportedContentType t) = ''unsupported content type: '' @ t"
| "convert_error_to_string (SseParse e) = ''SSE parse error: '' @ e"
| "convert_error_to_string (StreamStateError e) = ''stream state error: '' @ e"

type_synonym states = "StreamState \<times> StreamState"

type_synonym left_behind = "SseEvent \<Rightarrow> states \<Rightarrow> states"

definition convert_sse_block ::
    "hub_serde \<Rightarrow> left_behind \<Rightarrow> env \<times> (nat \<Rightarrow> env) \<Rightarrow> Format \<Rightarrow> Format \<Rightarrow> UpstreamApi \<Rightarrow> string \<Rightarrow> states \<Rightarrow>
       string list \<times> states" where
  "convert_sse_block H left E from to api block st =
     (case parse_sse_block block of
        None \<Rightarrow> ([], st)
      | Some event0 \<Rightarrow>
          (let event = (if api = ApiCodeAssist
                        then event0\<lparr>sse_data := from_utf8_lossy (unwrap_code_assist (hs_serde H) (sse_data event0))\<rparr>
                        else event0)
           in if is_openai_done (sse_data event) then ([''data: [DONE]'' @ [nl, nl]], st)
              else case convert_stream_event H (fst E) (snd E) event from to (fst st) (snd st) of
                     Inr (lines, st_in, st_out) \<Rightarrow> (lines, st_in, st_out)
                   | Inl err \<Rightarrow>
                       ([format_sse_event ''error''
                           (to_text (hs_serde H) (jobj [(''error'', JString (convert_error_to_string err))]))],
                        left event st)))"

section \<open>Namespaces in a stream\<close>

definition patch_item_event :: "ns_map \<Rightarrow> value \<Rightarrow> value \<times> bool" where
  "patch_item_event nm v =
     (let event_type = unwrap_or [] (jget_str v ''type'')
      in if event_type = ''response.output_item.added'' \<or> event_type = ''response.output_item.done'' then
           (case v of
              JObject m \<Rightarrow>
                (case Option.bind (fmlookup m ''item'') (patch_item nm) of
                   Some item' \<Rightarrow> (JObject (fmupd ''item'' item' m), True)
                 | None \<Rightarrow> (v, False))
            | _ \<Rightarrow> (v, False))
         else (v, False))"

definition patch_response_field :: "ns_map \<Rightarrow> value \<Rightarrow> value \<times> bool" where
  "patch_response_field nm v =
     (case v of
        JObject m \<Rightarrow>
          (case fmlookup m ''response'' of
             Some resp \<Rightarrow> (case patch_output nm resp of (resp', p) \<Rightarrow> (JObject (fmupd ''response'' resp' m), p))
           | None \<Rightarrow> (v, False))
      | _ \<Rightarrow> (v, False))"

definition patch_sse_value :: "ns_map \<Rightarrow> value \<Rightarrow> value \<times> bool" where
  "patch_sse_value nm v =
     (let (v1, p1) = patch_output nm v;
          (v2, p2) = patch_response_field nm v1;
          (v3, p3) = patch_item_event nm v2
      in (v3, p1 \<or> p2 \<or> p3))"

definition sse_data_split :: "string \<Rightarrow> (string \<times> string) option" where
  "sse_data_split line =
     (case str_find ([nl] @ ''data: '') line of
        Some data_start \<Rightarrow>
          if data_start = 0 then Some ([], drop 6 line)
          else Some (take (data_start + 1) line, drop (data_start + 7) line)
      | None \<Rightarrow> if starts_with ''data: '' line then Some ([], drop 6 line) else None)"

definition patch_sse_namespaces :: "serde \<Rightarrow> string \<Rightarrow> ns_map \<Rightarrow> string" where
  "patch_sse_namespaces S line nm =
     (if nm = [] then line
      else case sse_data_split line of
             None \<Rightarrow> line
           | Some (pre, data_part) \<Rightarrow>
               (let json_str = trim_end data_part
                in if json_str = [] \<or> json_str = ''[DONE]'' then line
                   else case from_text S json_str of
                          Inl _ \<Rightarrow> line
                        | Inr v \<Rightarrow>
                            (case patch_sse_value nm v of
                               (v', patched) \<Rightarrow>
                                 if patched then pre @ ''data: '' @ to_text S v' @ [nl, nl] else line)))"

definition carries_content :: "string \<Rightarrow> bool" where
  "carries_content block =
     list_ex (\<lambda>line. case strip_prefix ''data:'' line of
                       None \<Rightarrow> False
                     | Some data \<Rightarrow> trim data \<noteq> [] \<and> trim data \<noteq> ''[DONE]'') (str_lines block)"

definition content_window :: "u64 option \<Rightarrow> u64 option \<Rightarrow> u64" where
  "content_window first_ms last_ms =
     (case (first_ms, last_ms) of (Some a, Some b) \<Rightarrow> saturating_sub b a | _ \<Rightarrow> 0)"

section \<open>The stream loop\<close>

record proxy_state =
  px_buffer :: string
  px_states :: states
  event_count :: nat
  emitted :: "string list"
  sse_lines :: "string list"
  captured_bytes :: nat
  response_truncated :: bool

definition proxy_init :: proxy_state where
  "proxy_init =
     \<lparr>px_buffer = [], px_states = (stream_state_new, stream_state_new), event_count = 0, emitted = [],
      sse_lines = [], captured_bytes = 0, response_truncated = False\<rparr>"

record proxy_cfg =
  px_serde :: hub_serde
  left_behind :: left_behind
  envs :: "nat \<Rightarrow> env \<times> (nat \<Rightarrow> env)"
  px_from :: Format
  px_to :: Format
  px_api :: UpstreamApi
  px_ns :: ns_map
  should_log :: bool
  max_capture_bytes :: nat

text \<open>One line on its way out: kept for the log while it fits, sent to the client.\<close>

definition send_line :: "proxy_cfg \<Rightarrow> string \<Rightarrow> proxy_state \<Rightarrow> proxy_state" where
  "send_line C line st =
     (let st1 = (if should_log C \<and> \<not> response_truncated st then
                   (if captured_bytes st + length line \<le> max_capture_bytes C
                    then st\<lparr>sse_lines := sse_lines st @ [line], captured_bytes := captured_bytes st + length line\<rparr>
                    else st\<lparr>response_truncated := True\<rparr>)
                 else st)
      in st1\<lparr>emitted := emitted st1 @ [line]\<rparr>)"

definition convert_block :: "proxy_cfg \<Rightarrow> string \<Rightarrow> proxy_state \<Rightarrow> proxy_state" where
  "convert_block C block st =
     (case convert_sse_block (px_serde C) (left_behind C) (envs C (event_count st)) (px_from C) (px_to C) (px_api C)
             block (px_states st) of
        (lines, states') \<Rightarrow>
          fold (\<lambda>line. send_line C (patch_sse_namespaces (hs_serde (px_serde C)) line (px_ns C))) lines
            (st\<lparr>px_states := states', event_count := event_count st + 1\<rparr>))"

text \<open>A chunk that could not be read (\<open>None\<close>) is logged and skipped.\<close>

definition push_chunk :: "proxy_cfg \<Rightarrow> string option \<Rightarrow> proxy_state \<Rightarrow> proxy_state" where
  "push_chunk C chunk st =
     (case chunk of
        None \<Rightarrow> st
      | Some bytes \<Rightarrow>
          (case take_complete_sse_blocks (px_buffer st @ from_utf8_lossy bytes) of
             (blocks, buffer') \<Rightarrow> fold (convert_block C) blocks (st\<lparr>px_buffer := buffer'\<rparr>)))"

definition finish_stream :: "proxy_cfg \<Rightarrow> proxy_state \<Rightarrow> proxy_state" where
  "finish_stream C st =
     (if trim (px_buffer st) = [] then st else convert_block C (trim (px_buffer st)) st)"

definition forward_stream :: "proxy_cfg \<Rightarrow> string option list \<Rightarrow> proxy_state" where
  "forward_stream C chunks = finish_stream C (fold (push_chunk C) chunks proxy_init)"

section \<open>Cutting blocks from a growing buffer\<close>

lemma starts_with_append_left: "starts_with p s \<Longrightarrow> starts_with p (s @ t)"
  by (auto simp: starts_with_iff)

lemma split_once_append:
  assumes "split_once p s = Some (a, b)"
  shows "split_once p (s @ t) = Some (a, b @ t)"
proof -
  have s: "s = a @ p @ b" using split_once_Some [OF assms] .
  then obtain a' b' where ab: "split_once p (s @ t) = Some (a', b')"
    using split_once_None [of p "s @ t"] by (cases "split_once p (s @ t)") auto
  have le: "length a' \<le> length a" using split_once_leftmost [OF ab, of a "b @ t"] s by simp
  have "s @ t = a' @ p @ b'" using split_once_Some [OF ab] .
  then have "a' @ p = take (length a' + length p) s"
    using le s by (metis append.assoc append_eq_conv_conj length_append take_append add_le_mono1 diff_is_0_eq
        length_append le_add1 order_trans take_0 append_Nil2)
  then have "s = a' @ p @ drop (length a' + length p) s"
    by (metis append_take_drop_id append.assoc)
  then have "length a \<le> length a'" by (rule split_once_leftmost [OF assms])
  with le have "length a' = length a" by simp
  with \<open>s @ t = a' @ p @ b'\<close> s have "a' = a" "b' = b @ t" by auto
  with ab show ?thesis by simp
qed

lemma take_blocks_append:
  "take_complete_sse_blocks (s @ t) =
     (case take_complete_sse_blocks s of
        (bs, rest) \<Rightarrow> (case take_complete_sse_blocks (rest @ t) of (bs', rest') \<Rightarrow> (bs @ bs', rest')))"
proof (induction s rule: take_complete_sse_blocks.induct)
  case (1 s)
  show ?case
  proof (cases "split_once [nl, nl] s")
    case None
    then show ?thesis by (simp add: take_complete_sse_blocks.simps [of s] split: prod.split)
  next
    case (Some ab)
    obtain a b where ab: "ab = (a, b)" by fastforce
    with Some have sp: "split_once [nl, nl] s = Some (a, b)" by simp
    show ?thesis
      using 1 [OF sp refl] split_once_append [OF sp, of t]
      by (simp add: take_complete_sse_blocks.simps [of s] take_complete_sse_blocks.simps [of "s @ t"] sp
          split: prod.splits)
  qed
qed

lemma take_blocks_rest: "take_complete_sse_blocks s = (bs, rest) \<Longrightarrow> take_complete_sse_blocks rest = ([], rest)"
proof (induction s arbitrary: bs rule: take_complete_sse_blocks.induct)
  case (1 s)
  show ?case
  proof (cases "split_once [nl, nl] s")
    case None
    then have "take_complete_sse_blocks s = ([], s)" by (simp add: take_complete_sse_blocks.simps [of s])
    with 1 show ?thesis by simp
  next
    case (Some ab)
    obtain a b where "ab = (a, b)" by fastforce
    with Some 1 show ?thesis
      by (auto simp: take_complete_sse_blocks.simps [of s] split: prod.splits)
  qed
qed

section \<open>The stream loop does not see the chunks\<close>

lemma send_line_buffer: "send_line C l (st\<lparr>px_buffer := b\<rparr>) = (send_line C l st)\<lparr>px_buffer := b\<rparr>"
  by (simp add: send_line_def Let_def)

lemma fold_send_buffer:
  "fold (\<lambda>l. send_line C (f l)) ls (st\<lparr>px_buffer := b\<rparr>) = (fold (\<lambda>l. send_line C (f l)) ls st)\<lparr>px_buffer := b\<rparr>"
  by (induction ls arbitrary: st) (simp_all add: send_line_buffer)

lemma convert_block_buffer: "convert_block C blk (st\<lparr>px_buffer := b\<rparr>) = (convert_block C blk st)\<lparr>px_buffer := b\<rparr>"
proof -
  have eq: "fold (\<lambda>l. send_line C (f l)) ls (st\<lparr>px_buffer := b, px_states := s, event_count := n\<rparr>) =
      (fold (\<lambda>l. send_line C (f l)) ls (st\<lparr>px_states := s, event_count := n\<rparr>))\<lparr>px_buffer := b\<rparr>" for f ls s n
  proof -
    have "st\<lparr>px_buffer := b, px_states := s, event_count := n\<rparr> = st\<lparr>px_states := s, event_count := n, px_buffer := b\<rparr>"
      by simp
    then show ?thesis using fold_send_buffer [of C f ls b "st\<lparr>px_states := s, event_count := n\<rparr>"] by (simp only:)
  qed
  show ?thesis
    by (auto simp: convert_block_def split: prod.split intro: eq)
qed

lemma fold_convert_buffer:
  "fold (convert_block C) bs (st\<lparr>px_buffer := b\<rparr>) = (fold (convert_block C) bs st)\<lparr>px_buffer := b\<rparr>"
  by (induction bs arbitrary: st) (simp_all add: convert_block_buffer)

lemma push_chunks:
  assumes "take_complete_sse_blocks (px_buffer st) = ([], px_buffer st)"
  shows "fold (push_chunk C) (map Some cs) st =
           (case take_complete_sse_blocks (px_buffer st @ concat (map from_utf8_lossy cs)) of
              (bs, buffer') \<Rightarrow> fold (convert_block C) bs (st\<lparr>px_buffer := buffer'\<rparr>))"
  using assms
proof (induction cs arbitrary: st)
  case (Cons c cs)
  obtain bs rest where br: "take_complete_sse_blocks (px_buffer st @ from_utf8_lossy c) = (bs, rest)" by fastforce
  let ?st = "fold (convert_block C) bs (st\<lparr>px_buffer := rest\<rparr>)"
  have st: "push_chunk C (Some c) st = ?st" by (simp add: push_chunk_def br)
  have buf: "px_buffer ?st = rest" by (simp add: fold_convert_buffer)
  obtain bs' rest' where br': "take_complete_sse_blocks (rest @ concat (map from_utf8_lossy cs)) = (bs', rest')"
    by fastforce
  have "fold (push_chunk C) (map Some cs) ?st = fold (convert_block C) bs' (?st\<lparr>px_buffer := rest'\<rparr>)"
    using Cons.IH [of ?st] take_blocks_rest [OF br] br' buf by simp
  moreover have "take_complete_sse_blocks (px_buffer st @ concat (map from_utf8_lossy (c # cs))) = (bs @ bs', rest')"
    using take_blocks_append [of "px_buffer st @ from_utf8_lossy c" "concat (map from_utf8_lossy cs)"] br br' by simp
  ultimately show ?case by (simp add: st fold_convert_buffer)
qed (simp add: fold_convert_buffer)

text \<open>C16: how the network cuts a stream makes no difference, as long as it does not cut inside a character: for two
  chunkings of the same bytes into whole characters, the client gets the same lines, the log captures the same
  lines and the stream states end the same.\<close>

theorem stream_chunking_irrelevant:
  assumes "list_all utf8_valid cs" and "list_all utf8_valid ds" and "concat cs = concat ds"
  shows "forward_stream C (map Some cs) = forward_stream C (map Some ds)"
proof -
  have init: "take_complete_sse_blocks (px_buffer proxy_init) = ([], px_buffer proxy_init)"
    by (simp add: proxy_init_def take_complete_sse_blocks.simps [of "[]"])
  show ?thesis
    using assms by (simp add: forward_stream_def push_chunks [OF init] from_utf8_lossy_concat)
qed

theorem stream_chunking_irrelevant_witness:
  "\<forall>C. forward_stream C (map Some [''data: a'', [nl], [nl]]) = forward_stream C (map Some [''data: a'' @ [nl, nl]])"
proof -
  have "list_all utf8_valid [''data: a'', [nl], [nl]]" "list_all utf8_valid [''data: a'' @ [nl, nl]]"
    "concat [''data: a'', [nl], [nl]] = concat [''data: a'' @ [nl, nl]]" by code_simp+
  from stream_chunking_irrelevant [OF this] show ?thesis by blast
qed

text \<open>A character cut by a chunk boundary is replaced on both sides of the cut.\<close>

lemma cut_character_lost:
  "utf8_valid [CHR 0xC3, CHR 0xA9] \<and>
   concat (map from_utf8_lossy [[CHR 0xC3], [CHR 0xA9]]) = [CHR 0xEF, CHR 0xBF, CHR 0xBD, CHR 0xEF, CHR 0xBF, CHR 0xBD]"
  by code_simp

text \<open>Blank lines written with carriage returns do not end a block.\<close>

lemma crlf_blocks_not_cut:
  "fst (take_complete_sse_blocks (''data: a'' @ [cr, nl, cr, nl] @ ''data: b'' @ [cr, nl, cr, nl])) = [] \<and>
   length (split_sse_blocks (''data: a'' @ [cr, nl, cr, nl] @ ''data: b'' @ [cr, nl, cr, nl])) = 2"
  by code_simp

section \<open>What is captured for the log\<close>

definition capture_ok :: "proxy_cfg \<Rightarrow> proxy_state \<Rightarrow> bool" where
  "capture_ok C st \<longleftrightarrow>
     captured_bytes st = sum_list (map length (sse_lines st)) \<and> captured_bytes st \<le> max_capture_bytes C \<and>
     (\<exists>rest. emitted st = sse_lines st @ rest \<and> (should_log C \<and> \<not> response_truncated st \<longrightarrow> rest = []))"

lemma send_line_capture: "capture_ok C st \<Longrightarrow> capture_ok C (send_line C l st)"
  by (auto simp: capture_ok_def send_line_def Let_def)

lemma fold_send_capture: "capture_ok C st \<Longrightarrow> capture_ok C (fold (\<lambda>l. send_line C (f l)) ls st)"
  by (induction ls arbitrary: st) (simp_all add: send_line_capture)

lemma capture_ok_update [simp]:
  "capture_ok C (st\<lparr>px_buffer := b\<rparr>) = capture_ok C st"
  "capture_ok C (st\<lparr>px_states := s, event_count := n\<rparr>) = capture_ok C st"
  by (simp_all add: capture_ok_def)

lemma convert_block_capture: "capture_ok C st \<Longrightarrow> capture_ok C (convert_block C blk st)"
  by (simp add: convert_block_def fold_send_capture split: prod.split)

lemma fold_convert_capture: "capture_ok C st \<Longrightarrow> capture_ok C (fold (convert_block C) bs st)"
  by (induction bs arbitrary: st) (simp_all add: convert_block_capture)

lemma push_capture: "capture_ok C st \<Longrightarrow> capture_ok C (push_chunk C c st)"
  by (simp add: push_chunk_def fold_convert_capture split: option.split prod.split)

lemma fold_push_capture: "capture_ok C st \<Longrightarrow> capture_ok C (fold (push_chunk C) cs st)"
  by (induction cs arbitrary: st) (simp_all add: push_capture)

text \<open>C39: whatever a stream brings, read errors included, the lines captured for the log are the first lines the
  client was sent, they never exceed the configured number of bytes, the counter is exact, and a capture that is
  not marked as truncated is the whole stream.\<close>

theorem stream_capture_bounded:
  "capture_ok C (forward_stream C chunks)"
proof -
  have "capture_ok C proxy_init" by (simp add: capture_ok_def proxy_init_def)
  then show ?thesis
    by (simp add: forward_stream_def finish_stream_def convert_block_capture fold_push_capture)
qed

section \<open>The end of a chat stream\<close>

lemma chat_choice_no_done:
  "(\<forall>s u. Done s u \<notin> set (fst acc)) \<Longrightarrow> (\<forall>s u. Done s u \<notin> set (fst (chat_parse_choice choice acc)))"
  by (auto simp: chat_parse_choice_def chat_tool_call_events_def Let_def split: prod.splits option.splits if_splits)

lemma chat_choices_no_done:
  "(\<forall>s u. Done s u \<notin> set (fst acc)) \<Longrightarrow> (\<forall>s u. Done s u \<notin> set (fst (fold chat_parse_choice cs acc)))"
  by (induction cs arbitrary: acc) (simp_all add: chat_choice_no_done)

lemma chat_chunk_no_done: "Done s u \<notin> set (fst (chat_parse_chunk chunk st))"
  unfolding chat_parse_chunk_def Let_def
  by (auto split: prod.splits if_splits) (use chat_choices_no_done in fastforce)+

text \<open>The end of a chat upstream's stream never reaches a client of another API.  The sentinel, the one event
  from which the chat adapter makes the canonical end, is passed on as raw text with both stream states as they
  were, and no other event of the upstream gives a canonical end; so the target's closing event (\<open>message_stop\<close>,
  \<open>response.completed\<close>, the finishing Gemini chunk) is never written.\<close>

lemma chat_upstream_end_lost:
  assumes "parse_sse_block block = Some ev" and "api \<noteq> ApiCodeAssist"
  shows "if is_openai_done (sse_data ev)
         then convert_sse_block H left E OpenAIChat to api block st = ([''data: [DONE]'' @ [nl, nl]], st)
         else \<forall>evs st' s u. parse_stream H OpenAIChat (fst E) ev (fst st) = Inr (evs, st') \<longrightarrow> Done s u \<notin> set evs"
  using assms chat_chunk_no_done
  by (auto simp: convert_sse_block_def parse_stream_def chat_parse_sse_event_def Let_def split: sum.splits)
    (metis fst_conv)

lemma chat_upstream_end_lost_witness:
  "\<forall>H left E st. convert_sse_block H left E OpenAIChat Claude ApiChat ''data: [DONE]'' st = ([''data: [DONE]'' @ [nl, nl]], st)"
proof -
  have "parse_sse_block ''data: [DONE]'' = Some \<lparr>sse_event = None, sse_data = ''[DONE]''\<rparr>" "is_openai_done ''[DONE]''"
    by code_simp+
  then show ?thesis
    using chat_upstream_end_lost [of "''data: [DONE]''" "\<lparr>sse_event = None, sse_data = ''[DONE]''\<rparr>" ApiChat] by simp
qed

end
