(* ===== verification/Pool.thy ===== *)
theory Pool
  imports Config "HOL-Library.Multiset"
begin

text \<open>
  Which seat serves a request: the rotation of providers (\<open>crates/server/src/route_strategy.rs\<close>), the user's
  account order and the quota line (\<open>provider_pool.rs\<close>), and the quota windows themselves
  (\<open>credentials/allowance.rs\<close>).  A percentage is the exact value of its float and is only compared; an instant
  is a number of nanoseconds; the account-order file is the map it holds, \<open>None\<close> when it cannot be read.
\<close>

section \<open>Round robin\<close>

text \<open>The process-wide counter is the last component of the result: \<open>fetch_add\<close> wraps.\<close>

definition order_provider_names :: "string list \<Rightarrow> RouteStrategy \<Rightarrow> u64 \<Rightarrow> string list \<times> u64" where
  "order_provider_names names strat counter =
     (if length names \<le> 1 \<or> strat = Priority then (names, counter)
      else let start = unat counter mod length names in (drop start names @ take start names, counter + 1))"

text \<open>The order of each of \<open>n\<close> requests in turn.\<close>

primrec serve :: "nat \<Rightarrow> string list \<Rightarrow> RouteStrategy \<Rightarrow> u64 \<Rightarrow> string list list" where
  "serve 0 names strat counter = []"
| "serve (Suc n) names strat counter =
     (case order_provider_names names strat counter of (order, counter') \<Rightarrow> order # serve n names strat counter')"

lemma order_provider_names_rotate:
  "fst (order_provider_names names RoundRobin counter) = rotate (unat counter) names"
proof (cases "length names \<le> 1")
  case True
  then have "rotate k names = names" for k
    by (rule rotate_length01)
  with True show ?thesis by (simp add: order_provider_names_def)
next
  case False
  then show ?thesis by (simp add: order_provider_names_def Let_def rotate_drop_take)
qed

lemma serve_nth:
  assumes "1 < length names" "unat counter + n \<le> 2 ^ 64" "k < n"
  shows "serve n names RoundRobin counter ! k = rotate (unat counter + k) names"
  using assms(2,3)
proof (induction n arbitrary: counter k)
  case (Suc n)
  obtain order counter' where oc: "order_provider_names names RoundRobin counter = (order, counter')"
    by fastforce
  have order: "order = rotate (unat counter) names"
    using order_provider_names_rotate [of names counter] oc by simp
  have counter': "counter' = counter + 1"
    using oc assms(1) by (auto simp: order_provider_names_def Let_def)
  show ?case
  proof (cases k)
    case (Suc j)
    with Suc.prems have "unat (counter + 1) = unat counter + 1"
      by (simp add: unat_word_ariths(1))
    with Suc Suc.IH [of counter' j] Suc.prems show ?thesis by (simp add: oc counter')
  qed (simp add: oc order)
qed simp

lemma mset_rotate: "mset (rotate k xs) = mset xs"
  by (simp add: rotate_drop_take) (metis add.commute append_take_drop_id mset_append)

lemma serve_length [simp]: "length (serve n names strat counter) = n"
  by (induction n arbitrary: counter) (auto split: prod.split)



section \<open>Quota windows\<close>

record Limit =
  used :: rat
  resets :: "int option"
  span :: nat
  lmodel :: "string option"

definition limit_counts :: "Limit \<Rightarrow> string \<Rightarrow> bool" where
  "limit_counts l model = (case lmodel l of Some word \<Rightarrow> str_contains word model | None \<Rightarrow> True)"

definition used_now :: "Limit \<Rightarrow> int \<Rightarrow> rat" where
  "used_now l now = (case resets l of Some r \<Rightarrow> if r \<le> now then 0 else used l | None \<Rightarrow> used l)"

type_synonym Allowance = "Limit list"

definition for_model :: "Allowance \<Rightarrow> string \<Rightarrow> int \<Rightarrow> Limit list" where
  "for_model a model now = filter (\<lambda>l. limit_counts l model) a"

definition fullest_used :: "Allowance \<Rightarrow> string \<Rightarrow> int \<Rightarrow> rat" where
  "fullest_used a model now = foldl max 0 (map (\<lambda>l. used_now l now) (for_model a model now))"

definition exhausted :: "Allowance \<Rightarrow> string \<Rightarrow> rat \<Rightarrow> int \<Rightarrow> bool" where
  "exhausted a model share now =
     (for_model a model now \<noteq> [] \<and> list_ex (\<lambda>l. share \<le> used_now l now) (for_model a model now))"

lemma foldl_max_le: "(x :: rat) \<le> foldl max b xs \<longleftrightarrow> x \<le> b \<or> list_ex (\<lambda>y. x \<le> y) xs"
  by (induction xs arbitrary: b) (auto simp: le_max_iff_disj)

text \<open>For a positive line, being past it is the fullest counting window being past it.\<close>

lemma exhausted_iff_fullest:
  "0 < share \<Longrightarrow> exhausted a model share now \<longleftrightarrow> share \<le> fullest_used a model now"
  by (auto simp: exhausted_def fullest_used_def foldl_max_le list_ex_iff)

section \<open>The account order\<close>

type_synonym order_file = "(string \<rightharpoonup> string list) option"

datatype OrderError = NotAnAccountOf string string | ListedTwice string | WriteFailed string

fun check_order :: "string \<Rightarrow> string list \<Rightarrow> string list \<Rightarrow> OrderError option" where
  "check_order provider seen [] = None"
| "check_order provider seen (x # xs) =
     (case split_once '':'' x of
        Some (pre, _) \<Rightarrow>
          if pre \<noteq> provider then Some (NotAnAccountOf x provider)
          else if x \<in> set seen then Some (ListedTwice x)
          else check_order provider (x # seen) xs
      | None \<Rightarrow> Some (NotAnAccountOf x provider))"

text \<open>The write itself is an argument: it may fail, and then the file is as it was.\<close>

definition save_order ::
    "((string \<rightharpoonup> string list) \<Rightarrow> string option) \<Rightarrow> order_file \<Rightarrow> string \<Rightarrow> string list \<Rightarrow> OrderError + order_file" where
  "save_order write file provider ids =
     (case check_order provider [] ids of
        Some e \<Rightarrow> Inl e
      | None \<Rightarrow>
          (let all = (unwrap_or Map.empty file)(provider \<mapsto> ids)
           in case write all of Some e \<Rightarrow> Inl (WriteFailed e) | None \<Rightarrow> Inr (Some all)))"

definition saved_order :: "order_file \<Rightarrow> string \<Rightarrow> string list option" where
  "saved_order file provider = (case file of None \<Rightarrow> None | Some all \<Rightarrow> all provider)"

fun push_missing :: "string list \<Rightarrow> string list \<Rightarrow> string list" where
  "push_missing out [] = out"
| "push_missing out (x # xs) = push_missing (if x \<in> set out then out else out @ [x]) xs"

definition apply_order :: "string list \<Rightarrow> string list option \<Rightarrow> string list" where
  "apply_order ids saved =
     (case saved of
        None \<Rightarrow> ids
      | Some s \<Rightarrow> push_missing (filter (\<lambda>x. x \<in> set ids) s) ids)"

definition account_exhausted :: "(string \<rightharpoonup> Allowance) \<Rightarrow> string \<Rightarrow> rat \<Rightarrow> int \<Rightarrow> string \<Rightarrow> bool" where
  "account_exhausted allowances model share now x =
     (case allowances x of Some a \<Rightarrow> exhausted a model share now | None \<Rightarrow> False)"

fun order_loop :: "(string \<Rightarrow> bool) \<Rightarrow> string list \<Rightarrow> string list \<Rightarrow> string list \<Rightarrow> string list" where
  "order_loop past room spent [] = room @ spent"
| "order_loop past room spent (x # xs) =
     (if past x then order_loop past room (spent @ [x]) xs else order_loop past (room @ [x]) spent xs)"

definition order_accounts ::
    "string list \<Rightarrow> (string \<rightharpoonup> Allowance) \<Rightarrow> string \<Rightarrow> rat \<Rightarrow> int \<Rightarrow> string list" where
  "order_accounts ids allowances model share now =
     order_loop (account_exhausted allowances model share now) [] [] ids"

section \<open>No seat is lost and none is tried twice\<close>

lemma order_loop_filter:
  "order_loop past room spent ids = room @ filter (Not \<circ> past) ids @ spent @ filter past ids"
  by (induction ids arbitrary: room spent) auto

text \<open>Quota only moves seats: \<open>order_accounts\<close> keeps the accounts that have room in the user's order, then
  the ones past their line in the user's order (a stable partition), so with no reading it changes nothing.\<close>

lemma order_accounts_partition:
  "order_accounts ids allowances model share now =
     filter (\<lambda>x. \<not> account_exhausted allowances model share now x) ids @
     filter (account_exhausted allowances model share now) ids \<and>
   order_accounts ids Map.empty model share now = ids"
  by (simp add: order_accounts_def order_loop_filter comp_def account_exhausted_def)

lemma push_missing_filter:
  "distinct ids \<Longrightarrow> push_missing out ids = out @ filter (\<lambda>x. x \<notin> set out) ids"
proof (induction ids arbitrary: out)
  case (Cons x xs)
  then have "filter (\<lambda>y. y \<notin> set (out @ [x])) xs = filter (\<lambda>y. y \<notin> set out) xs"
    by (auto intro: filter_cong)
  with Cons show ?case by simp
qed simp

lemma apply_order_filter:
  "distinct ids \<Longrightarrow>
   apply_order ids (Some s) = filter (\<lambda>x. x \<in> set ids) s @ filter (\<lambda>x. x \<notin> set s) ids"
  by (auto simp: apply_order_def push_missing_filter intro: filter_cong)

lemma apply_order_mset:
  assumes "distinct ids" and "\<And>s. saved = Some s \<Longrightarrow> distinct s"
  shows "mset (apply_order ids saved) = mset ids"
proof (cases saved)
  case (Some s)
  have "distinct (apply_order ids saved)"
    using assms by (auto simp: Some apply_order_filter)
  moreover have "set (apply_order ids saved) = set ids"
    using assms by (auto simp: Some apply_order_filter)
  ultimately show ?thesis
    using assms(1) by (simp add: set_eq_iff_mset_eq_distinct)
qed (simp add: apply_order_def)

lemma check_order_distinct:
  "check_order provider seen ids = None \<Longrightarrow> distinct ids \<and> set ids \<inter> set seen = {}"
proof (induction ids arbitrary: seen)
  case (Cons x xs)
  then have "check_order provider (x # seen) xs = None" "x \<notin> set seen"
    by (auto split: option.splits if_splits)
  with Cons.IH [of "x # seen"] show ?case by auto
qed simp

lemma check_order_owned:
  "check_order provider seen ids = None \<Longrightarrow> list_all (\<lambda>x. account_prefix x = provider) ids"
proof (induction provider seen ids rule: check_order.induct)
  case (2 provider seen x xs)
  then show ?case
    by (auto simp: account_prefix_def str_split.simps [of "'':''" x] split: option.splits if_splits)
qed simp

lemma save_order_Inr:
  "save_order write file provider ids = Inr file' \<Longrightarrow>
     distinct ids \<and> list_all (\<lambda>x. account_prefix x = provider) ids \<and>
     saved_order file' provider = Some ids \<and> (\<forall>q. q \<noteq> provider \<longrightarrow> saved_order file' q = saved_order file q)"
  by (auto simp: save_order_def saved_order_def Let_def dest: check_order_distinct check_order_owned
      split: option.splits)

text \<open>C35: whatever order the user saves, a request tries every account of a provider exactly once: once
  \<open>save_order\<close> has accepted an order, the seats a provider contributes to the plan (its ids in that order, the
  ones past their line last) are a permutation of its account ids, and the orders of other providers are as
  they were.\<close>

theorem saved_order_keeps_seats:
  assumes "save_order write file provider ids = Inr file'"
  shows "mset (order_accounts (apply_order (account_ids p) (saved_order file' provider)) allowances model share now)
           = mset (account_ids p) \<and>
         (\<forall>q. q \<noteq> provider \<longrightarrow> saved_order file' q = saved_order file q)"
proof -
  have "mset (order_accounts xs allowances model share now) = mset xs" for xs
    by (simp add: order_accounts_def order_loop_filter comp_def)
  with save_order_Inr [OF assms] show ?thesis
    using apply_order_mset [of "account_ids p" "Some ids"] by simp
qed

theorem saved_order_keeps_seats_witness:
  "\<exists>file'. save_order (\<lambda>_. None) None ''gemini'' [''gemini:b''] = Inr file' \<and>
     mset (order_accounts
             (apply_order (account_ids (sample_provider\<lparr>accounts := [''gemini:a'', ''gemini:b'']\<rparr>))
                (saved_order file' ''gemini''))
             Map.empty ''gemini-3-flash'' 95 0)
       = {#''gemini:a'', ''gemini:b''#}"
proof -
  have ids: "account_ids (sample_provider\<lparr>accounts := [''gemini:a'', ''gemini:b'']\<rparr>) = [''gemini:a'', ''gemini:b'']"
    by code_simp
  obtain file' where f: "save_order (\<lambda>_. None) None ''gemini'' [''gemini:b''] = Inr file'"
    by (simp add: save_order_def Let_def starts_with_def)
  show ?thesis
    using saved_order_keeps_seats [OF f, where p = "sample_provider\<lparr>accounts := [''gemini:a'', ''gemini:b'']\<rparr>"] f ids
    by auto
qed

text \<open>An order file that did not go through \<open>save_order\<close> is not checked when it is read: a repeated id makes
  the plan try that account twice.\<close>

lemma hand_edited_order_repeats:
  "apply_order [''gemini:a'', ''gemini:b''] (Some [''gemini:a'', ''gemini:a'']) = [''gemini:a'', ''gemini:a'', ''gemini:b'']"
  by code_simp

text \<open>A quota window named after one model also counts for every model whose id contains that name: a spent
  window of \<open>gemini-3-flash\<close> moves an account with all of its \<open>gemini-3-flash-lite\<close> quota to the back.\<close>

lemma quota_window_prefix_counts:
  assumes "0 < share" and "share \<le> 100"
  shows "exhausted [\<lparr>used = 100, resets = None, span = 0, lmodel = Some ''gemini-3-flash''\<rparr>,
                    \<lparr>used = 0, resets = None, span = 0, lmodel = Some ''gemini-3-flash-lite''\<rparr>]
           ''gemini-3-flash-lite'' share now"
  using assms
  by (simp add: exhausted_def for_model_def limit_counts_def used_now_def str_contains_def starts_with_def)

lemma quota_window_prefix_counts_witness:
  "exhausted [\<lparr>used = 100, resets = None, span = 0, lmodel = Some ''gemini-3-flash''\<rparr>,
              \<lparr>used = 0, resets = None, span = 0, lmodel = Some ''gemini-3-flash-lite''\<rparr>]
     ''gemini-3-flash-lite'' 95 0"
  using quota_window_prefix_counts [of 95 0] by simp

end
