(* ===== verification/Token.thy ===== *)
theory Token
  imports Server_Prelude
begin

text \<open>
  The token manager, \<open>crates/server/src/credentials/token.rs\<close>: the refresh cache, the classification of 401
  replies and \<open>TokenManager::current\<close>.  One call is given as a function; concurrent calls as a step relation in which
  any task may move, the mutex is held across the refresh, and the identity provider answers as it likes.  Times are
  seconds on the monotonic clock.
\<close>

section \<open>Tokens and cache\<close>

record OAuthTokens =
  access_token :: string
  refresh_token :: "string option"
  expires_at :: "int option"

type_synonym RefreshCache = "string \<rightharpoonup> OAuthTokens \<times> int"

definition cache_get :: "RefreshCache \<Rightarrow> string \<Rightarrow> OAuthTokens option" where
  "cache_get cache rt = map_option fst (cache rt)"

definition cache_put :: "int \<Rightarrow> string \<Rightarrow> OAuthTokens \<Rightarrow> RefreshCache \<Rightarrow> RefreshCache" where
  "cache_put now rt tokens cache =
     (\<lambda>k. opt_filter (\<lambda>(_, at). now - 3600 < at) (cache k))(rt \<mapsto> (tokens, now))"

datatype AuthErr401 = Expired | Revoked | Unknown

definition classify_401 :: "string \<Rightarrow> AuthErr401" where
  "classify_401 body =
     (let lower = to_ascii_lowercase body in
      if str_contains ''token_revoked'' lower \<or> str_contains ''invalid_grant'' lower
         \<or> str_contains ''refresh_token_reused'' lower then Revoked
      else if str_contains ''token_expired'' lower then Expired
      else Unknown)"

definition is_expired :: "int \<Rightarrow> int \<Rightarrow> OAuthTokens \<Rightarrow> bool" where
  "is_expired margin now tokens = (case expires_at tokens of None \<Rightarrow> False | Some t \<Rightarrow> t \<le> now + margin)"

section \<open>One call\<close>

text \<open>The answer of the refresh function is an argument; it is \<open>None\<close> in the result when it was not called.\<close>

definition NOT_REFRESHABLE :: string where
  "NOT_REFRESHABLE = ''token expired and not refreshable''"

definition current ::
  "int \<Rightarrow> int \<Rightarrow> (string \<Rightarrow> string + OAuthTokens) \<Rightarrow> OAuthTokens \<Rightarrow> RefreshCache \<Rightarrow>
   (string + OAuthTokens) \<times> string option \<times> RefreshCache" where
  "current margin now refresh_fn tokens cache =
     (if \<not> is_expired margin now tokens then (Inr tokens, None, cache)
      else case refresh_token tokens of
             None \<Rightarrow> (Inl NOT_REFRESHABLE, None, cache)
           | Some rt \<Rightarrow>
               (case cache_get cache rt of
                  Some fresh \<Rightarrow> (Inr fresh, None, cache)
                | None \<Rightarrow>
                    (case refresh_fn rt of
                       Inl e \<Rightarrow> (Inl e, Some rt, cache)
                     | Inr fresh \<Rightarrow> (Inr fresh, Some rt, cache_put now rt fresh cache))))"

section \<open>Concurrent calls\<close>

datatype task =
    Starting OAuthTokens
  | Waiting string
  | Refreshing string
  | Finished "string + OAuthTokens"

text \<open>The log lists the successful refreshes, latest first, with the refresh token that was spent.\<close>

record manager =
  tm_tasks :: "task list"
  tm_cache :: RefreshCache
  tm_holder :: "nat option"
  tm_now :: int
  tm_spent :: "(string \<times> int) list"

definition set_task :: "nat \<Rightarrow> task \<Rightarrow> manager \<Rightarrow> manager" where
  "set_task i t m = m\<lparr>tm_tasks := (tm_tasks m)[i := t]\<rparr>"

inductive tm_step :: "int \<Rightarrow> manager \<Rightarrow> manager \<Rightarrow> bool" for margin where
  tick: "0 \<le> dt \<Longrightarrow> tm_step margin m (m\<lparr>tm_now := tm_now m + dt\<rparr>)"
| arrive: "tm_step margin m (m\<lparr>tm_tasks := tm_tasks m @ [Starting tokens]\<rparr>)"
| valid: "i < length (tm_tasks m) \<Longrightarrow> tm_tasks m ! i = Starting tokens \<Longrightarrow> \<not> is_expired margin (tm_now m) tokens \<Longrightarrow>
    tm_step margin m (set_task i (Finished (Inr tokens)) m)"
| stuck: "i < length (tm_tasks m) \<Longrightarrow> tm_tasks m ! i = Starting tokens \<Longrightarrow> is_expired margin (tm_now m) tokens \<Longrightarrow>
    refresh_token tokens = None \<Longrightarrow> tm_step margin m (set_task i (Finished (Inl NOT_REFRESHABLE)) m)"
| queue: "i < length (tm_tasks m) \<Longrightarrow> tm_tasks m ! i = Starting tokens \<Longrightarrow> is_expired margin (tm_now m) tokens \<Longrightarrow>
    refresh_token tokens = Some rt \<Longrightarrow> tm_step margin m (set_task i (Waiting rt) m)"
| hit: "i < length (tm_tasks m) \<Longrightarrow> tm_tasks m ! i = Waiting rt \<Longrightarrow> tm_holder m = None \<Longrightarrow>
    cache_get (tm_cache m) rt = Some fresh \<Longrightarrow> tm_step margin m (set_task i (Finished (Inr fresh)) m)"
| lock: "i < length (tm_tasks m) \<Longrightarrow> tm_tasks m ! i = Waiting rt \<Longrightarrow> tm_holder m = None \<Longrightarrow>
    cache_get (tm_cache m) rt = None \<Longrightarrow>
    tm_step margin m (set_task i (Refreshing rt) (m\<lparr>tm_holder := Some i\<rparr>))"
| refused: "i < length (tm_tasks m) \<Longrightarrow> tm_tasks m ! i = Refreshing rt \<Longrightarrow>
    tm_step margin m (set_task i (Finished (Inl e)) (m\<lparr>tm_holder := None\<rparr>))"
| refreshed: "i < length (tm_tasks m) \<Longrightarrow> tm_tasks m ! i = Refreshing rt \<Longrightarrow>
    tm_step margin m (set_task i (Finished (Inr fresh))
      (m\<lparr>tm_holder := None, tm_cache := cache_put (tm_now m) rt fresh (tm_cache m),
         tm_spent := (rt, tm_now m) # tm_spent m\<rparr>))"

inductive_cases tm_stepE: "tm_step margin m m'"

definition tm_init :: "int \<Rightarrow> manager" where
  "tm_init now = \<lparr>tm_tasks = [], tm_cache = Map.empty, tm_holder = None, tm_now = now, tm_spent = []\<rparr>"

section \<open>A refresh token is spent once an hour at most\<close>

definition spaced :: "(string \<times> int) list \<Rightarrow> bool" where
  "spaced log \<longleftrightarrow>
     (\<forall>i j rt s t. i < j \<longrightarrow> j < length log \<longrightarrow> log ! i = (rt, t) \<longrightarrow> log ! j = (rt, s) \<longrightarrow> s + 3600 \<le> t)"

text \<open>
  The invariant: at most the holder of the mutex is refreshing, its token is not in the cache, and every refresh of
  the last hour is in the cache.
\<close>

definition tm_inv :: "manager \<Rightarrow> bool" where
  "tm_inv m \<longleftrightarrow>
     (\<forall>i rt. i < length (tm_tasks m) \<longrightarrow> tm_tasks m ! i = Refreshing rt \<longrightarrow>
        tm_holder m = Some i \<and> cache_get (tm_cache m) rt = None) \<and>
     (\<forall>rt t. (rt, t) \<in> set (tm_spent m) \<longrightarrow> t \<le> tm_now m \<and>
        (tm_now m - 3600 < t \<longrightarrow> cache_get (tm_cache m) rt \<noteq> None)) \<and>
     (\<forall>rt v at. tm_cache m rt = Some (v, at) \<longrightarrow> (\<forall>t. (rt, t) \<in> set (tm_spent m) \<longrightarrow> t \<le> at)) \<and>
     spaced (tm_spent m)"

lemma tm_init_inv: "tm_inv (tm_init now)"
  by (simp add: tm_inv_def tm_init_def spaced_def)

lemma spaced_Cons:
  assumes "spaced log" and "\<And>s. (rt, s) \<in> set log \<Longrightarrow> s + 3600 \<le> t"
  shows "spaced ((rt, t) # log)"
  unfolding spaced_def
proof (intro allI impI)
  fix i j rt' s' t'
  assume *: "i < j" "j < length ((rt, t) # log)" "((rt, t) # log) ! i = (rt', t')" "((rt, t) # log) ! j = (rt', s')"
  then obtain j' where j: "j = Suc j'" "j' < length log" "log ! j' = (rt', s')"
    by (cases j) auto
  show "s' + 3600 \<le> t'"
  proof (cases i)
    case 0
    then show ?thesis
      using * j assms(2) nth_mem[of j' log] by auto
  next
    case (Suc i')
    then show ?thesis
      using * j assms(1) unfolding spaced_def by fastforce
  qed
qed

lemma cache_get_put [simp]:
  "cache_get (cache_put now rt tokens cache) k =
     (if k = rt then Some tokens
      else map_option fst (opt_filter (\<lambda>(_, at). now - 3600 < at) (cache k)))"
  by (simp add: cache_get_def cache_put_def)

lemma set_task_nth:
  "i < length (tm_tasks m) \<Longrightarrow> tm_tasks (set_task i t m) ! j = (if i = j then t else tm_tasks m ! j)"
  by (simp add: set_task_def)

lemma tm_refreshing:
  assumes "tm_inv m" and "i < length (tm_tasks m)" and "tm_tasks m ! i = Refreshing rt"
  shows "tm_holder m = Some i" and "cache_get (tm_cache m) rt = None"
  using assms unfolding tm_inv_def by blast+

lemma tm_one_refresher:
  assumes "tm_inv m" and "i < length (tm_tasks m)" and "j < length (tm_tasks m)"
    and "tm_tasks m ! i = Refreshing rt" and "tm_tasks m ! j = Refreshing rt'"
  shows "i = j"
  using tm_refreshing(1) [OF assms(1,2,4)] tm_refreshing(1) [OF assms(1,3,5)] by simp

lemma tm_inv_refreshed:
  assumes inv: "tm_inv m" and i: "i < length (tm_tasks m)" "tm_tasks m ! i = Refreshing rt"
  shows "tm_inv (set_task i (Finished (Inr fresh))
           (m\<lparr>tm_holder := None, tm_cache := cache_put (tm_now m) rt fresh (tm_cache m),
              tm_spent := (rt, tm_now m) # tm_spent m\<rparr>))" (is "tm_inv ?m")
proof -
  note own = tm_refreshing [OF inv]
  have others: "tm_tasks ?m ! j \<noteq> Refreshing k" if "j < length (tm_tasks ?m)" for j k
    using that own(1) [OF i] own(1) [of j k] i by (auto simp: set_task_def nth_list_update)
  have past: "t \<le> tm_now m" "tm_now m - 3600 < t \<Longrightarrow> \<exists>v at. tm_cache m k = Some (v, at) \<and> t \<le> at"
    if "(k, t) \<in> set (tm_spent m)" for k t
    using inv that by (fastforce simp: tm_inv_def cache_get_def)+
  have old: "s + 3600 \<le> tm_now m" if "(rt, s) \<in> set (tm_spent m)" for s
    using past(2) [OF that] own(2) [OF i] by (fastforce simp: cache_get_def)
  have kept: "cache_get (cache_put (tm_now m) rt fresh (tm_cache m)) k \<noteq> None"
    if "(k, t) \<in> set (tm_spent m)" "tm_now m - 3600 < t" for k t
    using past(2) [OF that] that by (auto simp: opt_filter_def)
  have latest: "t \<le> at" if "cache_put (tm_now m) rt fresh (tm_cache m) k = Some (v, at)"
      "(k, t) \<in> set (tm_spent m)" for k t v at
    using that past(1) [OF that(2)] inv
    by (fastforce simp: tm_inv_def cache_put_def opt_filter_def split: if_splits option.splits)
  have "spaced ((rt, tm_now m) # tm_spent m)"
    using inv old by (intro spaced_Cons) (auto simp: tm_inv_def)
  with others past(1) kept latest show ?thesis
    unfolding tm_inv_def by (auto simp: set_task_def) (auto simp: cache_put_def split: if_splits)
qed

lemma tm_inv_task:
  assumes "tm_inv m" and "i < length (tm_tasks m)" and "\<And>rt. t \<noteq> Refreshing rt"
  shows "tm_inv (set_task i t m)"
  using assms by (auto simp: tm_inv_def set_task_def nth_list_update split: if_splits)

lemma tm_inv_step:
  assumes "tm_step margin m m'" and "tm_inv m"
  shows "tm_inv m'"
  using assms
proof (cases rule: tm_step.cases)
  case (tick dt)
  then show ?thesis using \<open>tm_inv m\<close> by (fastforce simp: tm_inv_def)
next
  case (arrive tokens)
  then show ?thesis using \<open>tm_inv m\<close> by (auto simp: tm_inv_def nth_append split: if_splits)
next
  case (lock i rt)
  then show ?thesis using \<open>tm_inv m\<close>
    by (auto simp: tm_inv_def set_task_def nth_list_update split: if_splits)
next
  case (refused i rt e)
  have "tm_tasks m' ! j \<noteq> Refreshing k" if "j < length (tm_tasks m')" for j k
    using that refused tm_one_refresher [OF \<open>tm_inv m\<close>, of i j] by (auto simp: set_task_def nth_list_update)
  then show ?thesis using refused \<open>tm_inv m\<close> by (simp add: tm_inv_def set_task_def)
next
  case (refreshed i rt fresh)
  then show ?thesis using tm_inv_refreshed \<open>tm_inv m\<close> by simp
qed (auto intro: tm_inv_task)

lemma tm_reachable_inv:
  assumes "(tm_step margin)\<^sup>*\<^sup>* m m'" and "tm_inv m"
  shows "tm_inv m'"
  using assms by (induction rule: rtranclp_induct) (auto intro: tm_inv_step)

text \<open>The function of one call is a run of the relation, whatever the other tasks are doing, once the mutex is free.\<close>

lemma current_is_a_run:
  assumes "i < length (tm_tasks m)" and "tm_tasks m ! i = Starting tokens" and "tm_holder m = None"
    and "current margin (tm_now m) refresh_fn tokens (tm_cache m) = (r, called, cache')"
  shows "\<exists>m'. (tm_step margin)\<^sup>*\<^sup>* m m' \<and> tm_tasks m' = (tm_tasks m)[i := Finished r] \<and> tm_cache m' = cache' \<and>
    tm_holder m' = None"
proof (cases "is_expired margin (tm_now m) tokens \<and> refresh_token tokens \<noteq> None")
  case False
  let ?m = "set_task i (Finished r) m"
  have "tm_step margin m ?m"
    using assms False tm_step.valid [of i m tokens margin] tm_step.stuck [of i m tokens margin]
    by (auto simp: current_def split: if_splits)
  with assms False show ?thesis
    by (intro exI [of _ ?m]) (auto simp: set_task_def current_def split: if_splits)
next
  case True
  then obtain rt where rt: "refresh_token tokens = Some rt" and exp: "is_expired margin (tm_now m) tokens" by auto
  let ?w = "set_task i (Waiting rt) m"
  have queued: "tm_step margin m ?w" using assms(1,2) exp rt by (rule tm_step.queue)
  have w: "i < length (tm_tasks ?w)" "tm_tasks ?w ! i = Waiting rt" "tm_holder ?w = None" "tm_cache ?w = tm_cache m"
    using assms(1,3) by (simp_all add: set_task_def)
  show ?thesis
  proof (cases "cache_get (tm_cache m) rt")
    case (Some fresh)
    let ?m = "set_task i (Finished (Inr fresh)) ?w"
    have "tm_step margin ?w ?m" using w Some by (intro tm_step.hit) auto
    with queued assms rt exp Some show ?thesis
      by (intro exI [of _ ?m]) (auto simp: set_task_def current_def)
  next
    case None
    let ?l = "set_task i (Refreshing rt) (?w\<lparr>tm_holder := Some i\<rparr>)"
    have locked: "tm_step margin ?w ?l" using w None by (intro tm_step.lock) auto
    have l: "i < length (tm_tasks ?l)" "tm_tasks ?l ! i = Refreshing rt" using assms(1) by (simp_all add: set_task_def)
    show ?thesis
    proof (cases "refresh_fn rt")
      case (Inl e)
      with queued locked tm_step.refused [OF l, of margin e] assms rt exp None show ?thesis
        by (intro exI [of _ "set_task i (Finished (Inl e)) (?l\<lparr>tm_holder := None\<rparr>)"])
          (auto simp: set_task_def current_def intro: rtranclp.rtrancl_into_rtrancl)
    next
      case (Inr fresh)
      with queued locked tm_step.refreshed [OF l, of margin fresh] assms rt exp None show ?thesis
        by (intro exI [of _ "set_task i (Finished (Inr fresh)) (?l\<lparr>tm_holder := None,
               tm_cache := cache_put (tm_now ?l) rt fresh (tm_cache ?l), tm_spent := (rt, tm_now ?l) # tm_spent ?l\<rparr>)"])
          (auto simp: set_task_def current_def intro: rtranclp.rtrancl_into_rtrancl)
    qed
  qed
qed

text \<open>C28: single flight: in every interleaving of calls that share the manager, whatever tokens they hold, however time
  passes and whatever the identity provider answers, two successful refreshes with the same refresh token are at least an
  hour apart, so concurrent callers never spend a rotated refresh token twice; and while one task refreshes, no other
  does.\<close>

theorem token_spent_once:
  assumes "(tm_step margin)\<^sup>*\<^sup>* (tm_init now) m"
  shows "spaced (tm_spent m) \<and>
    (\<forall>i j rt rt'. i < length (tm_tasks m) \<longrightarrow> j < length (tm_tasks m) \<longrightarrow> tm_tasks m ! i = Refreshing rt \<longrightarrow>
       tm_tasks m ! j = Refreshing rt' \<longrightarrow> i = j)"
proof -
  have "tm_inv m" using assms tm_init_inv by (rule tm_reachable_inv)
  then show ?thesis using tm_one_refresher by (auto simp: tm_inv_def)
qed

definition stale_tokens :: OAuthTokens where
  "stale_tokens = \<lparr>access_token = ''old'', refresh_token = Some ''r1'', expires_at = Some 0\<rparr>"

definition fresh_tokens :: OAuthTokens where
  "fresh_tokens = \<lparr>access_token = ''new'', refresh_token = Some ''r2'', expires_at = Some 7200\<rparr>"

text \<open>Two callers with the same stale tokens: the first refreshes while the second waits and then reads the cache.\<close>

lemma two_callers_run:
  "(tm_step 300)\<^sup>*\<^sup>* (tm_init 0)
     \<lparr>tm_tasks = [Finished (Inr fresh_tokens), Finished (Inr fresh_tokens)],
      tm_cache = [''r1'' \<mapsto> (fresh_tokens, 0)], tm_holder = None, tm_now = 0, tm_spent = [(''r1'', 0)]\<rparr>"
proof -
  let ?st = "\<lambda>ts c h sp. \<lparr>tm_tasks = ts, tm_cache = c, tm_holder = h, tm_now = 0, tm_spent = sp\<rparr>"
  let ?S = "tm_step 300"
  have exp: "is_expired 300 0 stale_tokens" "refresh_token stale_tokens = Some ''r1''"
    by (simp_all add: is_expired_def stale_tokens_def)
  have "?S (tm_init 0) (?st [Starting stale_tokens] Map.empty None [])"
    using tm_step.arrive [of 300 "tm_init 0" stale_tokens] by (simp add: tm_init_def)
  moreover have "?S (?st [Starting stale_tokens] Map.empty None [])
      (?st [Starting stale_tokens, Starting stale_tokens] Map.empty None [])"
    using tm_step.arrive [of 300 "?st [Starting stale_tokens] Map.empty None []" stale_tokens] by simp
  moreover have "?S (?st [Starting stale_tokens, Starting stale_tokens] Map.empty None [])
      (?st [Waiting ''r1'', Starting stale_tokens] Map.empty None [])"
    using tm_step.queue [of 0 "?st [Starting stale_tokens, Starting stale_tokens] Map.empty None []"] exp
    by (simp add: set_task_def)
  moreover have "?S (?st [Waiting ''r1'', Starting stale_tokens] Map.empty None [])
      (?st [Waiting ''r1'', Waiting ''r1''] Map.empty None [])"
    using tm_step.queue [of 1 "?st [Waiting ''r1'', Starting stale_tokens] Map.empty None []"] exp
    by (simp add: set_task_def)
  moreover have "?S (?st [Waiting ''r1'', Waiting ''r1''] Map.empty None [])
      (?st [Refreshing ''r1'', Waiting ''r1''] Map.empty (Some 0) [])"
    using tm_step.lock [of 0 "?st [Waiting ''r1'', Waiting ''r1''] Map.empty None []"]
    by (simp add: set_task_def cache_get_def)
  moreover have "?S (?st [Refreshing ''r1'', Waiting ''r1''] Map.empty (Some 0) [])
      (?st [Finished (Inr fresh_tokens), Waiting ''r1''] [''r1'' \<mapsto> (fresh_tokens, 0)] None [(''r1'', 0)])"
    using tm_step.refreshed [of 0 "?st [Refreshing ''r1'', Waiting ''r1''] Map.empty (Some 0) []" "''r1''" 300 fresh_tokens]
    by (simp add: set_task_def cache_put_def opt_filter_def)
  moreover have "?S (?st [Finished (Inr fresh_tokens), Waiting ''r1''] [''r1'' \<mapsto> (fresh_tokens, 0)] None [(''r1'', 0)])
      (?st [Finished (Inr fresh_tokens), Finished (Inr fresh_tokens)] [''r1'' \<mapsto> (fresh_tokens, 0)] None [(''r1'', 0)])"
    using tm_step.hit [of 1 "?st [Finished (Inr fresh_tokens), Waiting ''r1''] [''r1'' \<mapsto> (fresh_tokens, 0)] None [(''r1'', 0)]"]
    by (simp add: set_task_def cache_get_def)
  ultimately show ?thesis
    by (meson converse_rtranclp_into_rtranclp rtranclp.rtrancl_refl)
qed

theorem token_spent_once_witness:
  "spaced [(''r1'', 0 :: int)]"
  using token_spent_once [OF two_callers_run] by simp

text \<open>
  The cache is consulted without a look at the expiry of what it holds: a caller that still has the old tokens gets the
  first refresh of the hour, expired or not.
\<close>

lemma current_serves_expired:
  "\<exists>cache fresh. is_expired 300 3000 fresh \<and>
     current 300 3000 (\<lambda>_. Inl ''down'') stale_tokens cache = (Inr fresh, None, cache)"
proof -
  let ?old = "fresh_tokens\<lparr>expires_at := Some 1800\<rparr>"
  show ?thesis
    by (rule exI [of _ "[''r1'' \<mapsto> (?old, 0)]"], rule exI [of _ ?old])
      (simp add: is_expired_def current_def cache_get_def stale_tokens_def)
qed

end
