(* ===== verification/Gateway.thy ===== *)
theory Gateway
  imports Proxy Pool Token
begin

text \<open>
  One model request: \<open>crates/server/src/handlers/\<close> \<open>respond.rs\<close>, \<open>chat/plan.rs\<close>, \<open>chat/forward.rs\<close>,
  \<open>chat/failover.rs\<close> and \<open>chat/mod.rs\<close> (\<open>process_request\<close>), with \<open>classify_401\<close> of theory \<open>Token\<close>.  The
  account store, the Copilot sessions, the plugin hosts and the HTTP client are the operations of \<open>world\<close> on an
  arbitrary state; the lines the loop logs are returned as events; the request log is not modelled.
\<close>

section \<open>Responses\<close>

record HttpResponse =
  rs_status :: nat
  rs_type :: string
  rs_body :: string

definition api_error_response :: "serde \<Rightarrow> nat \<Rightarrow> string \<Rightarrow> string \<Rightarrow> HttpResponse" where
  "api_error_response S status error_type message =
     \<lparr>rs_status = status, rs_type = ''application/json'',
      rs_body = to_text S (jobj [(''error'', jobj [(''message'', JString message), (''type'', JString error_type),
                                                  (''code'', JString error_type)])])\<rparr>"

fun auth_error_to_string :: "AuthError \<Rightarrow> string" where
  "auth_error_to_string Missing = ''missing or malformed Authorization header''"
| "auth_error_to_string Invalid = ''invalid API key''"

definition auth_error_response :: "serde \<Rightarrow> AuthError \<Rightarrow> HttpResponse" where
  "auth_error_response S err = api_error_response S 401 ''authentication_error'' (auth_error_to_string err)"

definition upstream_error_response :: "serde \<Rightarrow> string \<Rightarrow> HttpResponse" where
  "upstream_error_response S err = api_error_response S 502 ''upstream_error'' err"

datatype HandlerError = Conversion ConvertError | Envelope string

fun handler_error_to_string :: "HandlerError \<Rightarrow> string" where
  "handler_error_to_string (Conversion e) = convert_error_to_string e"
| "handler_error_to_string (Envelope e) = e"

definition conversion_error_response :: "serde \<Rightarrow> HandlerError \<Rightarrow> HttpResponse" where
  "conversion_error_response S err = api_error_response S 500 ''conversion_error'' (handler_error_to_string err)"

text \<open>The conversions under \<open>catch_unwind\<close>; the converters themselves do not panic.\<close>

definition safe_convert_request :: "hub_serde \<Rightarrow> env \<Rightarrow> string \<Rightarrow> Format \<Rightarrow> Format \<Rightarrow> HandlerError + string" where
  "safe_convert_request H E input from to =
     (case convert_request H E input from to of Inr bytes \<Rightarrow> Inr bytes | Inl e \<Rightarrow> Inl (Conversion e))"

definition safe_convert_response ::
    "hub_serde \<Rightarrow> env \<times> env \<Rightarrow> string \<Rightarrow> Format \<Rightarrow> Format \<Rightarrow> HandlerError + string" where
  "safe_convert_response H E input from to =
     (case convert_response H (fst E) (snd E) input from to of Inr bytes \<Rightarrow> Inr bytes | Inl e \<Rightarrow> Inl (Conversion e))"

section \<open>Account answers\<close>

definition is_retryable_status :: "nat \<Rightarrow> bool" where
  "is_retryable_status status \<longleftrightarrow> status \<in> {429, 500, 502, 503, 504, 529}"

definition is_success :: "nat \<Rightarrow> bool" where
  "is_success status \<longleftrightarrow> 200 \<le> status \<and> status < 300"

section \<open>The world outside the loop\<close>

record CopilotSession =
  cs_token :: string
  cs_api_base :: string

datatype CopilotError = Refused string | Exchange string

record UpstreamRequest =
  up_url :: string
  up_headers :: "header list"
  up_body :: string

text \<open>An answer: its status, its content type when readable, its body in chunks (\<open>None\<close> a failed read) and the text of
  the read error.\<close>

record UpstreamReply =
  ur_status :: nat
  ur_type :: "string option"
  ur_chunks :: "string option list"
  ur_read_error :: string

datatype PluginOutcome = Answered HttpResponse nat | PluginFailed string

record 'w world =
  resolve_account :: "string \<Rightarrow> 'w \<Rightarrow> (string + string) \<times> 'w"
  copilot_session :: "string \<Rightarrow> 'w \<Rightarrow> (CopilotError + CopilotSession) \<times> 'w"
  force_refresh :: "string \<Rightarrow> 'w \<Rightarrow> (string + unit) \<times> 'w"
  mark_revoked :: "string \<Rightarrow> string \<Rightarrow> 'w \<Rightarrow> 'w"
  http_send :: "UpstreamRequest \<Rightarrow> 'w \<Rightarrow> (string + UpstreamReply) \<times> 'w"
  plugin_forward :: "ProviderConfig \<Rightarrow> UpstreamApi \<Rightarrow> header list \<Rightarrow> string \<Rightarrow> 'w \<Rightarrow> PluginOutcome \<times> 'w"

record RequestContext =
  ctx_client_model :: string
  ctx_upstream_model :: string
  ctx_ns_map :: ns_map
  ctx_streaming :: bool
  ctx_provider_names :: "string list"
  ctx_strategy :: RouteStrategy

text \<open>What one request carries besides its context: parsers, randomness, the printer of a status, the client's headers and
  the settings.\<close>

record request_env =
  rq_serde :: hub_serde
  rq_envs :: "nat \<Rightarrow> env"
  rq_stream_envs :: "nat \<Rightarrow> env \<times> (nat \<Rightarrow> env)"
  rq_left :: left_behind
  rq_headers :: "client_header list"
  rq_pass :: PassThroughHeadersConfig
  rq_route :: RouteInfo
  rq_show_status :: "nat \<Rightarrow> string"
  rq_log :: bool
  rq_max_capture :: nat

section \<open>From a plan to bytes\<close>

datatype AccountStep = Ready string string "header list" | Unavailable HttpResponse

definition COPILOT_DEFAULT_API_BASE :: string where
  "COPILOT_DEFAULT_API_BASE = ''https://api.githubcopilot.com''"

definition copilot_api_headers :: "string \<Rightarrow> header list" where
  "copilot_api_headers session_token =
     [(''Authorization'', ''Bearer '' @ session_token), (''X-GitHub-Api-Version'', ''2026-01-09''),
      (''Editor-Version'', ''vscode/1.140.0''), (''Editor-Plugin-Version'', ''copilot-chat/0.68.0''),
      (''Copilot-Integration-Id'', ''vscode-chat''), (''User-Agent'', ''GitHubCopilotChat/0.68.0'')]"

text \<open>The converted body: enveloped for Code Assist, else with the model patched in; a body that cannot be patched is
  sent as converted.  Indexing a body that is not an object panics and ends the request (\<open>None\<close>).\<close>

definition convert_body ::
    "request_env \<Rightarrow> RequestContext \<Rightarrow> UpstreamApi \<Rightarrow> string \<Rightarrow> (HttpResponse + string) option" where
  "convert_body R ctx api body =
     (let S = hs_serde (rq_serde R)
      in case safe_convert_request (rq_serde R) (rq_envs R 0) body (client_format (rq_route R)) (to_format api) of
           Inl err \<Rightarrow> Some (Inl (conversion_error_response S err))
         | Inr bytes \<Rightarrow>
             if api = ApiCodeAssist then
               (case wrap_code_assist S bytes (ctx_upstream_model ctx) of
                  Inl err \<Rightarrow> Some (Inl (conversion_error_response S (Envelope err)))
                | Inr wrapped \<Rightarrow> Some (Inr wrapped))
             else
               (case patch_model_in_body S bytes (to_format api) (ctx_upstream_model ctx) of
                  None \<Rightarrow> None
                | Some (Inl _) \<Rightarrow> Some (Inr bytes)
                | Some (Inr patched) \<Rightarrow> Some (Inr patched)))"

definition copilot_url :: "CopilotSession \<Rightarrow> UpstreamApi \<Rightarrow> RequestContext \<Rightarrow> string" where
  "copilot_url session api ctx =
     (let base = (if cs_api_base session = [] then COPILOT_DEFAULT_API_BASE else cs_api_base session);
          path = api_path api (ctx_upstream_model ctx) (ctx_streaming ctx)
      in trim_end_char CHR ''/'' base @ unwrap_or path (strip_prefix ''/v1'' path))"

definition upstream_url :: "ProviderConfig \<Rightarrow> UpstreamApi \<Rightarrow> RequestContext \<Rightarrow> string" where
  "upstream_url p api ctx =
     (if plugin p \<noteq> None then []
      else if api = ApiResponses \<and> (case account_ids p of [] \<Rightarrow> False | x # _ \<Rightarrow> starts_with ''chatgpt-api:'' x)
      then build_upstream_url OpenAIResponses (chatgpt_api_base p) (ctx_upstream_model ctx) (ctx_streaming ctx)
      else if api = ApiCodeAssist
      then wire_build_url ApiCodeAssist (code_assist_base p) (ctx_upstream_model ctx) (ctx_streaming ctx)
      else build_upstream_url_for_provider p (ctx_upstream_model ctx) (ctx_streaming ctx))"

definition account_unavailable :: "serde \<Rightarrow> string \<Rightarrow> string \<Rightarrow> AccountStep" where
  "account_unavailable S acct err =
     Unavailable (api_error_response S 502 ''account_error'' (''account '' @ acct @ '': '' @ err))"

definition ready :: "request_env \<Rightarrow> string \<Rightarrow> string \<Rightarrow> header list \<Rightarrow> AccountStep" where
  "ready R bytes url auths = Ready bytes url (build_upstream_headers (rq_headers R) auths (rq_pass R))"

text \<open>UTF-8 of the Chinese re-login hint in the message for a refused session.\<close>

definition relogin_hint :: string where
  "relogin_hint = [CHR 0xE9, CHR 0x87, CHR 0x8D, CHR 0xE6, CHR 0x96, CHR 0xB0, CHR 0xE7, CHR 0x99, CHR 0xBB, CHR 0xE5,
     CHR 0xBD, CHR 0x95]"

definition build_copilot ::
    "'w world \<Rightarrow> request_env \<Rightarrow> RequestContext \<Rightarrow> ProviderConfig \<Rightarrow> UpstreamApi \<Rightarrow> string \<Rightarrow> 'w \<Rightarrow> AccountStep \<times> 'w" where
  "build_copilot W R ctx p api bytes w =
     (let S = hs_serde (rq_serde R); acct = unwrap_or [] (account p)
      in case resolve_account W acct w of
           (Inl err, w1) \<Rightarrow> (account_unavailable S acct err, w1)
         | (Inr token, w1) \<Rightarrow>
             (case copilot_session W token w1 of
                (Inr session, w2) \<Rightarrow>
                  (ready R bytes (copilot_url session api ctx) (copilot_api_headers (cs_token session)), w2)
              | (Inl (Refused msg), w2) \<Rightarrow>
                  (Unavailable (api_error_response S 502 ''account_error''
                     (''Copilot account '' @ acct @ '': '' @ msg @ ''; please re-login ('' @ relogin_hint @ '')'')), w2)
              | (Inl (Exchange msg), w2) \<Rightarrow>
                  (Unavailable (api_error_response S 502 ''account_error''
                     (''Copilot account '' @ acct @ '': '' @ msg)), w2)))"

definition build_signed ::
    "'w world \<Rightarrow> request_env \<Rightarrow> RequestContext \<Rightarrow> ProviderConfig \<Rightarrow> UpstreamApi \<Rightarrow> string \<Rightarrow> 'w \<Rightarrow> AccountStep \<times> 'w" where
  "build_signed W R ctx p api bytes w =
     (let url = upstream_url p api ctx
      in if plugin p \<noteq> None then (ready R bytes url (auth_extra (auth p)), w)
         else case account p of
                Some acct \<Rightarrow>
                  (case resolve_account W acct w of
                     (Inl err, w1) \<Rightarrow> (account_unavailable (hs_serde (rq_serde R)) acct err, w1)
                   | (Inr token, w1) \<Rightarrow>
                       (ready R bytes url ((''Authorization'', ''Bearer '' @ token) # auth_extra (auth p)), w1))
              | None \<Rightarrow> (ready R bytes url (auth_headers (for_provider p)), w))"

definition convert_and_build_upstream ::
    "'w world \<Rightarrow> request_env \<Rightarrow> RequestContext \<Rightarrow> ProviderConfig \<Rightarrow> UpstreamApi \<Rightarrow> string \<Rightarrow> 'w \<Rightarrow>
       (HttpResponse + AccountStep) option \<times> 'w" where
  "convert_and_build_upstream W R ctx p api body w =
     (case convert_body R ctx api body of
        None \<Rightarrow> (None, w)
      | Some (Inl response) \<Rightarrow> (Some (Inl response), w)
      | Some (Inr bytes) \<Rightarrow>
          (case (if is_copilot_account p then build_copilot W R ctx p api bytes w
                 else build_signed W R ctx p api bytes w) of
             (step, w') \<Rightarrow> (Some (Inr step), w')))"

section \<open>Sending\<close>

definition upstream_request :: "request_env \<Rightarrow> string \<Rightarrow> string \<Rightarrow> header list \<Rightarrow> UpstreamRequest" where
  "upstream_request R url bytes auths =
     \<lparr>up_url = url,
      up_headers = (''content-type'', ''application/json'') # build_upstream_headers (rq_headers R) auths (rq_pass R),
      up_body = bytes\<rparr>"

text \<open>\<open>response.bytes()\<close>: the whole body, or nothing when a read fails.\<close>

fun read_all :: "string option list \<Rightarrow> string option" where
  "read_all [] = Some []"
| "read_all (None # cs) = None"
| "read_all (Some c # cs) = map_option ((@) c) (read_all cs)"

definition forward_non_streaming ::
    "'w world \<Rightarrow> request_env \<Rightarrow> UpstreamApi \<Rightarrow> string \<Rightarrow> string \<Rightarrow> header list \<Rightarrow> 'w \<Rightarrow>
       (string + nat \<times> string) \<times> 'w" where
  "forward_non_streaming W R api url bytes auths w =
     (case http_send W (upstream_request R url bytes auths) w of
        (Inl e, w') \<Rightarrow> (Inl (''upstream request failed: '' @ e), w')
      | (Inr reply, w') \<Rightarrow>
          (case read_all (ur_chunks reply) of
             None \<Rightarrow> (Inl (''failed to read upstream response: '' @ ur_read_error reply), w')
           | Some body \<Rightarrow>
               (Inr (ur_status reply,
                     if api = ApiCodeAssist then unwrap_code_assist (hs_serde (rq_serde R)) body else body), w')))"

definition proxy_cfg_of :: "request_env \<Rightarrow> RequestContext \<Rightarrow> UpstreamApi \<Rightarrow> proxy_cfg" where
  "proxy_cfg_of R ctx api =
     \<lparr>px_serde = rq_serde R, left_behind = rq_left R, envs = rq_stream_envs R, px_from = to_format api,
      px_to = client_format (rq_route R), px_api = api, px_ns = ctx_ns_map ctx, should_log = rq_log R,
      max_capture_bytes = rq_max_capture R\<rparr>"

definition forward_streaming ::
    "'w world \<Rightarrow> request_env \<Rightarrow> RequestContext \<Rightarrow> UpstreamApi \<Rightarrow> string \<Rightarrow> string \<Rightarrow> header list \<Rightarrow> 'w \<Rightarrow>
       (string + HttpResponse \<times> nat) \<times> 'w" where
  "forward_streaming W R ctx api url bytes auths w =
     (case http_send W (upstream_request R url bytes auths) w of
        (Inl e, w') \<Rightarrow> (Inl (''upstream request failed: '' @ e), w')
      | (Inr reply, w') \<Rightarrow>
          if \<not> is_success (ur_status reply) then
            (case read_all (ur_chunks reply) of
               None \<Rightarrow> (Inl (''error body read failed: '' @ ur_read_error reply), w')
             | Some body \<Rightarrow>
                 (Inr (\<lparr>rs_status = ur_status reply, rs_type = unwrap_or ''application/json'' (ur_type reply),
                        rs_body = body\<rparr>, ur_status reply), w'))
          else
            (Inr (\<lparr>rs_status = ur_status reply, rs_type = ''text/event-stream'',
                   rs_body = concat (emitted (forward_stream (proxy_cfg_of R ctx api) (ur_chunks reply)))\<rparr>,
                  ur_status reply), w'))"

definition build_non_streaming_response ::
    "request_env \<Rightarrow> RequestContext \<Rightarrow> string \<Rightarrow> nat \<Rightarrow> Format \<Rightarrow> HandlerError + HttpResponse" where
  "build_non_streaming_response R ctx body status from =
     try_bind (safe_convert_response (rq_serde R) (rq_envs R 1, rq_envs R 2) body from (client_format (rq_route R)))
       (\<lambda>converted. Inr \<lparr>rs_status = status, rs_type = ''application/json'',
          rs_body = patch_response_namespaces (hs_serde (rq_serde R)) converted (ctx_ns_map ctx)\<rparr>)"

section \<open>Failover\<close>

record Failover =
  attempt :: nat
  expired_retried :: "nat option"
  last_error :: "string option"
  plan_len :: nat

definition failover_new :: "nat \<Rightarrow> Failover" where
  "failover_new n = \<lparr>attempt = 0, expired_retried = None, last_error = None, plan_len = n\<rparr>"

definition has_next :: "Failover \<Rightarrow> bool" where
  "has_next fo \<longleftrightarrow> attempt fo + 1 < plan_len fo"

definition retried :: "Failover \<Rightarrow> bool" where
  "retried fo \<longleftrightarrow> expired_retried fo = Some (attempt fo)"

definition next_attempt :: "Failover \<Rightarrow> Failover" where
  "next_attempt fo = fo\<lparr>attempt := attempt fo + 1\<rparr>"

datatype AuthStep = RetrySame | Next | FallThrough

text \<open>The lines the loop logs, with the attempt they belong to.\<close>

datatype event = Forwarding nat | Refreshing nat string | MarkingRevoked nat string

definition revoked_account_response :: "serde \<Rightarrow> string \<Rightarrow> HttpResponse" where
  "revoked_account_response S acct =
     api_error_response S 502 ''account_revoked''
       (''account '' @ acct @ '' was revoked by the upstream provider '' @ [CHR 0xE2, CHR 0x80, CHR 0x94] @
        '' sign in again to continue (`any-converter accounts add`)'')"

text \<open>The judgement when no refresh went through: the response that ends the request, or the step.\<close>

definition judge_401 ::
    "'w world \<Rightarrow> serde \<Rightarrow> ProviderConfig \<Rightarrow> string \<Rightarrow> string \<Rightarrow> string option \<Rightarrow> Failover \<Rightarrow> 'w \<Rightarrow>
       (HttpResponse + AuthStep) \<times> Failover \<times> 'w \<times> event list" where
  "judge_401 W S p acct txt refused fo w =
     (case classify_401 txt of
        Expired \<Rightarrow>
          if retried fo then (Inr FallThrough, fo, w, [])
          else (Inr Next,
                fo\<lparr>last_error := Some (''provider '' @ pname p @ '' account '' @ acct @
                                      '': refresh after token_expired failed'')\<rparr>, w, [])
      | Revoked \<Rightarrow>
          (let w' = mark_revoked W acct txt w;
               fo' = fo\<lparr>last_error := Some (''provider '' @ pname p @ '' account '' @ acct @ '' revoked'' @
                          (case refused of Some why \<Rightarrow> '' ('' @ why @ '')'' | None \<Rightarrow> []))\<rparr>
           in (if has_next fo then Inr Next else Inl (revoked_account_response S acct), fo', w',
               [MarkingRevoked (attempt fo) acct]))
      | Unknown \<Rightarrow>
          (if has_next fo then Inr Next else Inr FallThrough,
           (if refused \<noteq> None
            then fo\<lparr>last_error := Some (''provider '' @ pname p @ '' account '' @ acct @ '': refresh failed'')\<rparr>
            else fo), w, []))"

definition classify_account_auth ::
    "'w world \<Rightarrow> serde \<Rightarrow> ProviderConfig \<Rightarrow> string \<Rightarrow> string \<Rightarrow> nat \<Rightarrow> Failover \<Rightarrow> 'w \<Rightarrow>
       (HttpResponse + AuthStep) \<times> Failover \<times> 'w \<times> event list" where
  "classify_account_auth W S p acct txt status fo w =
     (if \<not> retried fo \<and> status \<noteq> 403 then
        (case force_refresh W acct w of
           (Inr _, w') \<Rightarrow>
             (Inr RetrySame, fo\<lparr>expired_retried := Some (attempt fo)\<rparr>, w', [Refreshing (attempt fo) acct])
         | (Inl why, w') \<Rightarrow>
             (case judge_401 W S p acct txt (Some why) fo w' of
                (r, fo', w'', evs) \<Rightarrow> (r, fo', w'', Refreshing (attempt fo) acct # evs)))
      else judge_401 W S p acct txt None fo w)"

text \<open>What a finished answer leads to: the account rules on a 401 or 403 of an account, then the retry rule, then
  the response \<open>out\<close>.\<close>

definition returned_error :: "request_env \<Rightarrow> ProviderConfig \<Rightarrow> nat \<Rightarrow> string" where
  "returned_error R p status = ''provider '' @ pname p @ '' returned '' @ rq_show_status R status"

definition after_answer ::
    "'w world \<Rightarrow> request_env \<Rightarrow> ProviderConfig \<Rightarrow> nat \<Rightarrow> string \<Rightarrow> HttpResponse \<Rightarrow> Failover \<Rightarrow> 'w \<Rightarrow>
       (HttpResponse option + Failover) \<times> 'w \<times> event list" where
  "after_answer W R p status txt out fo w =
     (let retry = (\<lambda>fo w evs.
            if is_retryable_status status \<and> has_next fo
            then (Inr (next_attempt (fo\<lparr>last_error := Some (returned_error R p status)\<rparr>)), w, evs)
            else (Inl (Some out), w, evs))
      in case account p of
           Some acct \<Rightarrow>
             if status = 401 \<or> status = 403 then
               (case classify_account_auth W (hs_serde (rq_serde R)) p acct txt status fo w of
                  (Inl response, fo', w', evs) \<Rightarrow> (Inl (Some response), w', evs)
                | (Inr RetrySame, fo', w', evs) \<Rightarrow> (Inr fo', w', evs)
                | (Inr Next, fo', w', evs) \<Rightarrow> (Inr (next_attempt fo'), w', evs)
                | (Inr FallThrough, fo', w', evs) \<Rightarrow> retry fo' w' evs)
             else retry fo w []
         | None \<Rightarrow> retry fo w [])"

definition send_attempt ::
    "'w world \<Rightarrow> request_env \<Rightarrow> RequestContext \<Rightarrow> ProviderConfig \<Rightarrow> UpstreamApi \<Rightarrow> string \<Rightarrow> string \<Rightarrow> header list \<Rightarrow>
       Failover \<Rightarrow> 'w \<Rightarrow> (HttpResponse option + Failover) \<times> 'w \<times> event list" where
  "send_attempt W R ctx p api bytes url headers fo w =
     (let S = hs_serde (rq_serde R)
      in if plugin p \<noteq> None then
           (case plugin_forward W p api headers bytes w of
              (Answered response status, w') \<Rightarrow>
                if is_retryable_status status \<and> has_next fo
                then (Inr (next_attempt (fo\<lparr>last_error := Some (returned_error R p status)\<rparr>)), w', [])
                else (Inl (Some response), w', [])
            | (PluginFailed err, w') \<Rightarrow> (Inr (next_attempt (fo\<lparr>last_error := Some err\<rparr>)), w', []))
         else if ctx_streaming ctx then
           (case forward_streaming W R ctx api url bytes headers w of
              (Inr (response, status), w') \<Rightarrow>
                after_answer W R p status (from_utf8_lossy (rs_body response)) response fo w'
            | (Inl err, w') \<Rightarrow> (Inr (next_attempt (fo\<lparr>last_error := Some err\<rparr>)), w', []))
         else
           (case forward_non_streaming W R api url bytes headers w of
              (Inr (status, body), w') \<Rightarrow>
                after_answer W R p status (from_utf8_lossy body)
                  (case build_non_streaming_response R ctx body status (to_format api) of
                     Inr response \<Rightarrow> response
                   | Inl err \<Rightarrow> conversion_error_response S err) fo w'
            | (Inl err, w') \<Rightarrow> (Inr (next_attempt (fo\<lparr>last_error := Some err\<rparr>)), w', [])))"

text \<open>The body of the loop: \<open>Inl\<close> returns (\<open>None\<close> when the handler panicked), \<open>Inr\<close> goes round again.\<close>

definition attempt_step ::
    "'w world \<Rightarrow> request_env \<Rightarrow> RequestContext \<Rightarrow> string \<Rightarrow> (ProviderConfig \<times> UpstreamApi) \<Rightarrow> Failover \<Rightarrow> 'w \<Rightarrow>
       (HttpResponse option + Failover) \<times> 'w \<times> event list" where
  "attempt_step W R ctx body tgt fo w =
     (case tgt of (p, api) \<Rightarrow>
        (case convert_and_build_upstream W R ctx p api body w of
           (None, w1) \<Rightarrow> (Inl None, w1, [])
         | (Some (Inl response), w1) \<Rightarrow> (Inl (Some response), w1, [])
         | (Some (Inr (Unavailable response)), w1) \<Rightarrow>
             if has_next fo
             then (Inr (next_attempt (fo\<lparr>last_error := Some (''provider '' @ pname p @ '' account '' @
                                          unwrap_or [] (account p) @ '' unavailable'')\<rparr>)), w1, [])
             else (Inl (Some response), w1, [])
         | (Some (Inr (Ready bytes url headers)), w1) \<Rightarrow>
             (case send_attempt W R ctx p api bytes url headers fo w1 of
                (r, w2, evs) \<Rightarrow> (r, w2, Forwarding (attempt fo) # evs))))"

section \<open>The loop\<close>

text \<open>Each turn moves to the next target or spends the one retry of this one.\<close>

definition progress :: "Failover \<Rightarrow> Failover \<Rightarrow> bool" where
  "progress fo fo' \<longleftrightarrow>
     plan_len fo' = plan_len fo \<and>
     (attempt fo' = attempt fo + 1 \<and> expired_retried fo' = expired_retried fo \<or>
      attempt fo' = attempt fo \<and> \<not> retried fo \<and> retried fo')"

lemma judge_401_failover:
  "judge_401 W S p acct txt refused fo w = (r, fo', w', evs) \<Longrightarrow>
     attempt fo' = attempt fo \<and> expired_retried fo' = expired_retried fo \<and> plan_len fo' = plan_len fo \<and> r \<noteq> Inr RetrySame"
  by (auto simp: judge_401_def Let_def split: AuthErr401.splits if_splits)

lemma classify_failover:
  "classify_account_auth W S p acct txt status fo w = (r, fo', w', evs) \<Longrightarrow>
     attempt fo' = attempt fo \<and> plan_len fo' = plan_len fo \<and>
     (if r = Inr RetrySame then \<not> retried fo \<and> retried fo' else expired_retried fo' = expired_retried fo)"
  by (auto simp: classify_account_auth_def retried_def split: if_splits prod.splits sum.splits
      dest!: judge_401_failover)

lemma after_answer_progress:
  "after_answer W R p status txt out fo w = (Inr fo', w', evs) \<Longrightarrow> progress fo fo'"
  by (auto simp: after_answer_def progress_def next_attempt_def retried_def Let_def
      split: option.splits if_splits prod.splits sum.splits AuthStep.splits dest!: classify_failover)

lemma send_attempt_progress:
  "send_attempt W R ctx p api bytes url headers fo w = (Inr fo', w', evs) \<Longrightarrow> progress fo fo'"
  by (auto simp: send_attempt_def Let_def progress_def next_attempt_def [of "fo\<lparr>last_error := _\<rparr>"]
      split: if_splits prod.splits sum.splits PluginOutcome.splits dest!: after_answer_progress)

lemma attempt_step_progress:
  "attempt_step W R ctx body tgt fo w = (Inr fo', w', evs) \<Longrightarrow> progress fo fo'"
  by (auto simp: attempt_step_def progress_def next_attempt_def
      split: if_splits prod.splits sum.splits option.splits AccountStep.splits dest!: send_attempt_progress)

definition turns_left :: "nat \<Rightarrow> Failover \<Rightarrow> nat" where
  "turns_left n fo = 2 * (n - attempt fo) - (if retried fo then 1 else 0)"

lemma progress_turns: "progress fo fo' \<Longrightarrow> attempt fo < n \<Longrightarrow> turns_left n fo' < turns_left n fo"
  by (auto simp: progress_def turns_left_def retried_def)

function failover_loop ::
    "'w world \<Rightarrow> request_env \<Rightarrow> RequestContext \<Rightarrow> string \<Rightarrow> (ProviderConfig \<times> UpstreamApi) list \<Rightarrow> Failover \<Rightarrow> 'w \<Rightarrow>
       HttpResponse option \<times> 'w \<times> event list" where
  "failover_loop W R ctx body plan fo w =
     (if attempt fo < length plan then
        (case attempt_step W R ctx body (plan ! attempt fo) fo w of
           (Inl response, w', evs) \<Rightarrow> (response, w', evs)
         | (Inr fo', w', evs) \<Rightarrow>
             (case failover_loop W R ctx body plan fo' w' of
                (response, w'', evs') \<Rightarrow> (response, w'', evs @ evs')))
      else (Some (upstream_error_response (hs_serde (rq_serde R)) (unwrap_or ''all providers failed'' (last_error fo))), w, []))"
  by pat_completeness auto

termination
  by (relation "measure (\<lambda>(W, R, ctx, body, plan, fo, w). turns_left (length plan) fo)")
    (auto intro!: progress_turns dest!: attempt_step_progress [OF sym])

declare failover_loop.simps [simp del]

end
