(* ===== verification/Request.thy ===== *)
theory Request
  imports Gateway
begin

text \<open>
  A model request from its arrival to its answer: \<open>prepare_request\<close>, \<open>resolve_upstream_api\<close>
  (\<open>crates/server/src/handlers/chat/plan.rs\<close>), \<open>build_plan\<close> and \<open>process_request\<close> (\<open>chat/mod.rs\<close>), and what
  holds of every request: who is let in, which seats are tried, how often, and what the client is told.
\<close>

section \<open>From a request to a context\<close>

text \<open>\<open>headers.get(header::AUTHORIZATION).and_then(to_str)\<close>: the first value, when it is text.\<close>

definition auth_header_of :: "client_header list \<Rightarrow> string option" where
  "auth_header_of headers = Option.bind (map_of headers ''authorization'') id"

record app_state =
  config :: ServerConfig
  agent_keys :: "string list"
  rr_counter :: u64
  order_file :: order_file
  cached_allowance :: "ProviderConfig \<Rightarrow> string \<Rightarrow> Allowance option"
  is_revoked :: "string \<Rightarrow> bool"
  plugin_models :: "PluginRef \<Rightarrow> string \<Rightarrow> string + (string \<times> string \<times> string) list"
  clock_now :: int

definition prepare_request ::
    "app_state \<Rightarrow> request_env \<Rightarrow> string \<Rightarrow> string option \<Rightarrow> HttpResponse + RequestContext \<times> string" where
  "prepare_request A R body gemini_model =
     (let S = hs_serde (rq_serde R)
      in case validate_client_keys (server_api_key (server (config A))) (agent_keys A) (auth_header_of (rq_headers R)) of
           Inl err \<Rightarrow> Inl (auth_error_response S err)
         | Inr _ \<Rightarrow>
             (let client_model = unwrap_or [] (or_else (extract_model_from_body S body) gemini_model);
                  stripped = model_strip_private_fields S body
              in case resolve_provider (config A) client_model of
                   None \<Rightarrow>
                     Inl (api_error_response S 404 ''route_not_found''
                       (''no route configured for model '' @ [CHR 0x22] @ client_model @ [CHR 0x22] @ '' (format: '' @
                        format_as_str (client_format (rq_route R)) @ '')''))
                 | Some resolved \<Rightarrow>
                     Inr (\<lparr>ctx_client_model = client_model, ctx_upstream_model = upstream_model resolved,
                           ctx_ns_map = extract_namespace_map S stripped (client_format (rq_route R)),
                           ctx_streaming = is_streaming_request S stripped (rq_route R),
                           ctx_provider_names = provider_names resolved, ctx_strategy = strategy resolved\<rparr>, stripped)))"

section \<open>The plan\<close>

definition resolve_upstream_api ::
    "app_state \<Rightarrow> serde \<Rightarrow> ProviderConfig \<Rightarrow> string \<Rightarrow> HttpResponse + UpstreamApi" where
  "resolve_upstream_api A S p model =
     (case plugin p of
        None \<Rightarrow> Inr (api_for p model)
      | Some plug \<Rightarrow>
          (case plugin_models A plug (unwrap_or [] (account p)) of
             Inl err \<Rightarrow> Inl (api_error_response S 502 ''plugin_error'' (''plugin models: '' @ err))
           | Inr models \<Rightarrow>
               (case List.find (\<lambda>(mid, api_id, npm). mid = model \<or> (api_id \<noteq> [] \<and> api_id = model)) models of
                  Some (_, _, npm) \<Rightarrow> Inr (from_npm npm)
                | None \<Rightarrow> Inr ApiChat)))"

definition QUOTA_SHARE :: rat where "QUOTA_SHARE = 95"

text \<open>The accounts a provider contributes: its ids in the saved order, the exhausted ones last; an api-key slot when
  it has none.\<close>

definition provider_candidates :: "app_state \<Rightarrow> string \<Rightarrow> ProviderConfig \<Rightarrow> string option list" where
  "provider_candidates A model p =
     (let ids = apply_order (account_ids p) (saved_order (order_file A) (unwrap_or [] (first_prefix p)));
          allowances = (\<lambda>x. if 1 < length ids \<and> x \<in> set ids then cached_allowance A p x else None)
      in if ids = [] then [None] else map Some (order_accounts ids allowances model QUOTA_SHARE (clock_now A)))"

fun plan_seats ::
    "app_state \<Rightarrow> serde \<Rightarrow> string \<Rightarrow> ProviderConfig \<Rightarrow> string option list \<Rightarrow> (ProviderConfig \<times> UpstreamApi) list \<Rightarrow>
       HttpResponse + (ProviderConfig \<times> UpstreamApi) list" where
  "plan_seats A S model p [] plan = Inr plan"
| "plan_seats A S model p (acct # rest) plan =
     (if (case acct of Some x \<Rightarrow> is_revoked A x | None \<Rightarrow> False) then plan_seats A S model p rest plan
      else case resolve_upstream_api A S (p\<lparr>account := acct\<rparr>) model of
             Inl response \<Rightarrow> Inl response
           | Inr api \<Rightarrow> plan_seats A S model p rest (plan @ [(p\<lparr>account := acct\<rparr>, api)]))"

fun build_plan_loop ::
    "app_state \<Rightarrow> serde \<Rightarrow> string \<Rightarrow> string list \<Rightarrow> (ProviderConfig \<times> UpstreamApi) list \<Rightarrow> string option \<Rightarrow>
       HttpResponse + (ProviderConfig \<times> UpstreamApi) list \<times> string option" where
  "build_plan_loop A S model [] plan err = Inr (plan, err)"
| "build_plan_loop A S model (name # names) plan err =
     (case find_provider (config A) name of
        None \<Rightarrow> build_plan_loop A S model names plan (Some (''provider not found: '' @ name))
      | Some p \<Rightarrow>
          (case plan_seats A S model p (provider_candidates A model p) plan of
             Inl response \<Rightarrow> Inl response
           | Inr plan' \<Rightarrow> build_plan_loop A S model names plan' err))"

definition build_plan ::
    "app_state \<Rightarrow> serde \<Rightarrow> RequestContext \<Rightarrow> string list \<Rightarrow>
       HttpResponse + (ProviderConfig \<times> UpstreamApi) list \<times> string option" where
  "build_plan A S ctx names = build_plan_loop A S (ctx_upstream_model ctx) names [] None"

section \<open>The request\<close>

text \<open>\<open>AgentRegistry::authenticate\<close> refuses what \<open>prepare_request\<close> refuses; noting which agent's key was used and the
  background sync are not modelled.\<close>

definition authenticate :: "app_state \<Rightarrow> string option \<Rightarrow> AuthError + unit" where
  "authenticate A header = validate_client_keys (server_api_key (server (config A))) (agent_keys A) header"

definition process_request ::
    "'w world \<Rightarrow> app_state \<Rightarrow> request_env \<Rightarrow> string \<Rightarrow> string option \<Rightarrow> 'w \<Rightarrow>
       HttpResponse option \<times> app_state \<times> 'w \<times> event list" where
  "process_request W A R body gemini_model w =
     (let S = hs_serde (rq_serde R)
      in case authenticate A (auth_header_of (rq_headers R)) of
           Inl err \<Rightarrow> (Some (auth_error_response S err), A, w, [])
         | Inr _ \<Rightarrow>
             (case prepare_request A R body gemini_model of
                Inl response \<Rightarrow> (Some response, A, w, [])
              | Inr (ctx, stripped) \<Rightarrow>
                  (case order_provider_names (ctx_provider_names ctx) (ctx_strategy ctx) (rr_counter A) of
                     (names, counter) \<Rightarrow>
                       (let A' = A\<lparr>rr_counter := counter\<rparr>
                        in case build_plan A' S ctx names of
                             Inl response \<Rightarrow> (Some response, A', w, [])
                           | Inr (plan, err) \<Rightarrow>
                               (case failover_loop W R ctx stripped plan ((failover_new (length plan))\<lparr>last_error := err\<rparr>) w of
                                  (response, w', evs) \<Rightarrow> (response, A', w', evs))))))"

section \<open>How often a target is tried\<close>

fun ev_attempt :: "event \<Rightarrow> nat" where
  "ev_attempt (Forwarding i) = i"
| "ev_attempt (Refreshing i x) = i"
| "ev_attempt (MarkingRevoked i x) = i"

definition sends :: "nat \<Rightarrow> event list \<Rightarrow> nat" where
  "sends i evs = length (filter (\<lambda>e. e = Forwarding i) evs)"

definition refreshes :: "nat \<Rightarrow> event list \<Rightarrow> nat" where
  "refreshes i evs = length (filter (\<lambda>e. case e of Refreshing j _ \<Rightarrow> j = i | _ \<Rightarrow> False) evs)"

lemma counts_simps [simp]:
  "sends i [] = 0" "refreshes i [] = 0"
  "sends i (e # evs) = (if e = Forwarding i then 1 else 0) + sends i evs"
  "refreshes i (e # evs) = (case e of Refreshing j _ \<Rightarrow> if j = i then 1 else 0 | _ \<Rightarrow> 0) + refreshes i evs"
  "sends i (evs @ evs') = sends i evs + sends i evs'"
  "refreshes i (evs @ evs') = refreshes i evs + refreshes i evs'"
  by (auto simp: sends_def refreshes_def split: event.split)

text \<open>The events of one turn: all of this attempt, one send at most, and a refresh only if the retry is unspent.\<close>

definition turn_ok :: "nat \<Rightarrow> nat \<Rightarrow> Failover \<Rightarrow> event list \<Rightarrow> bool" where
  "turn_ok a b fo evs \<longleftrightarrow>
     list_all (\<lambda>e. ev_attempt e = attempt fo) evs \<and> sends (attempt fo) evs \<le> a \<and> refreshes (attempt fo) evs \<le> b"

lemma turn_ok_Nil [simp]: "turn_ok a b fo []"
  by (simp add: turn_ok_def)

lemma judge_401_turn: "judge_401 W S p acct txt refused fo w = (r, fo', w', evs) \<Longrightarrow> turn_ok 0 0 fo evs"
  by (auto simp: judge_401_def turn_ok_def Let_def split: AuthErr401.splits if_splits)

lemma classify_turn:
  "classify_account_auth W S p acct txt status fo w = (r, fo', w', evs) \<Longrightarrow>
     turn_ok 0 (if retried fo then 0 else 1) fo evs"
proof -
  assume c: "classify_account_auth W S p acct txt status fo w = (r, fo', w', evs)"
  show ?thesis
  proof (cases "\<not> retried fo \<and> status \<noteq> 403")
    case True
    obtain res w1 where fr: "force_refresh W acct w = (res, w1)" by fastforce
    show ?thesis
    proof (cases res)
      case (Inl why)
      obtain r' fo'' w'' evs' where j: "judge_401 W S p acct txt (Some why) fo w1 = (r', fo'', w'', evs')"
        by (metis prod_cases4)
      with c True fr Inl have "evs = Refreshing (attempt fo) acct # evs'" by (auto simp: classify_account_auth_def)
      with judge_401_turn [OF j] True show ?thesis by (simp add: turn_ok_def)
    qed (use c True fr in \<open>auto simp: classify_account_auth_def turn_ok_def\<close>)
  next
    case False
    with c judge_401_turn have "turn_ok 0 0 fo evs" by (auto simp: classify_account_auth_def)
    then show ?thesis by (auto simp: turn_ok_def)
  qed
qed

lemma after_answer_turn:
  "after_answer W R p status txt out fo w = (r, w', evs) \<Longrightarrow> turn_ok 0 (if retried fo then 0 else 1) fo evs"
  by (auto simp: after_answer_def Let_def split: option.splits if_splits prod.splits sum.splits AuthStep.splits
      dest!: classify_turn)

lemma send_attempt_turn:
  "send_attempt W R ctx p api bytes url headers fo w = (r, w', evs) \<Longrightarrow> turn_ok 0 (if retried fo then 0 else 1) fo evs"
  by (auto simp: send_attempt_def Let_def split: if_splits prod.splits sum.splits PluginOutcome.splits
      dest!: after_answer_turn)

lemma attempt_step_turn:
  "attempt_step W R ctx body tgt fo w = (r, w', evs) \<Longrightarrow> turn_ok 1 (if retried fo then 0 else 1) fo evs"
  by (auto simp: attempt_step_def turn_ok_def split: if_splits prod.splits sum.splits option.splits AccountStep.splits
      dest!: send_attempt_turn)

text \<open>The events of the loop from a state: in the order of the plan, with what is left of each target's budget.\<close>

definition trace_ok :: "nat \<Rightarrow> Failover \<Rightarrow> event list \<Rightarrow> bool" where
  "trace_ok n fo evs \<longleftrightarrow>
     list_all (\<lambda>e. attempt fo \<le> ev_attempt e \<and> ev_attempt e < n) evs \<and> sorted (map ev_attempt evs) \<and>
     (\<forall>i. sends i evs \<le> (if i = attempt fo \<and> retried fo then 1 else 2)) \<and>
     (\<forall>i. refreshes i evs \<le> (if i = attempt fo \<and> retried fo then 0 else 1))"

lemma counts_other:
  "list_all (\<lambda>e. ev_attempt e = a) evs \<Longrightarrow> i \<noteq> a \<Longrightarrow> sends i evs = 0 \<and> refreshes i evs = 0"
  by (induction evs) (auto split: event.splits)

lemma counts_above:
  "list_all (\<lambda>e. a < ev_attempt e) evs \<Longrightarrow> i \<le> a \<Longrightarrow> sends i evs = 0 \<and> refreshes i evs = 0"
  by (induction evs) (auto split: event.splits)

lemma sorted_const: "list_all (\<lambda>e. f e = (a :: nat)) evs \<Longrightarrow> sorted (map f evs)"
  by (induction evs) (auto simp: list_all_iff)

lemma turn_trace:
  "turn_ok 1 (if retried fo then 0 else 1) fo evs \<Longrightarrow> attempt fo < n \<Longrightarrow> trace_ok n fo evs"
proof -
  assume t: "turn_ok 1 (if retried fo then 0 else 1) fo evs" and n: "attempt fo < n"
  have "sends i evs \<le> 1 \<and> refreshes i evs \<le> (if i = attempt fo \<and> retried fo then 0 else 1)" for i
    using t counts_other [of "attempt fo" evs i] by (cases "i = attempt fo") (auto simp: turn_ok_def)
  moreover have "sorted (map ev_attempt evs)" using t by (auto simp: turn_ok_def intro: sorted_const)
  ultimately show ?thesis
    using t n by (fastforce simp: trace_ok_def turn_ok_def list_all_iff intro: le_trans)
qed

lemma trace_append:
  assumes t: "turn_ok 1 (if retried fo then 0 else 1) fo evs" and n: "attempt fo < n"
    and p: "progress fo fo'" and t': "trace_ok n fo' evs'"
  shows "trace_ok n fo (evs @ evs')"
proof -
  have here: "list_all (\<lambda>e. ev_attempt e = attempt fo) evs" "sends (attempt fo) evs \<le> 1"
    "refreshes (attempt fo) evs \<le> (if retried fo then 0 else 1)"
    using t by (simp_all add: turn_ok_def)
  have le: "attempt fo \<le> attempt fo'" using p by (auto simp: progress_def)
  have "sends i (evs @ evs') \<le> (if i = attempt fo \<and> retried fo then 1 else 2) \<and>
      refreshes i (evs @ evs') \<le> (if i = attempt fo \<and> retried fo then 0 else 1)" for i
  proof (cases "i = attempt fo")
    case False
    have "sends i evs' \<le> 2 \<and> refreshes i evs' \<le> 1"
    proof -
      have "sends i evs' \<le> (if i = attempt fo' \<and> retried fo' then 1 else 2)"
        "refreshes i evs' \<le> (if i = attempt fo' \<and> retried fo' then 0 else 1)"
        using t' by (simp_all only: trace_ok_def)
      then show ?thesis by (auto split: if_splits)
    qed
    with False counts_other [OF here(1) False] show ?thesis by simp
  next
    case True
    show ?thesis
    proof (cases "attempt fo' = attempt fo")
      case same: True
      with p have r: "\<not> retried fo" "retried fo'" by (auto simp: progress_def)
      with t' same True have "sends i evs' \<le> 1" "refreshes i evs' = 0"
        by (auto simp: trace_ok_def dest: spec [of _ i])
      with here True r show ?thesis by simp
    next
      case False
      with p have "list_all (\<lambda>e. attempt fo < ev_attempt e) evs'"
        using t' by (auto simp: progress_def trace_ok_def list_all_iff)
      with counts_above [of "attempt fo" evs' i] here True show ?thesis by auto
    qed
  qed
  moreover have "sorted (map ev_attempt (evs @ evs'))"
    using t' here(1) le sorted_const [OF here(1)]
    by (fastforce simp: sorted_append trace_ok_def list_all_iff)
  moreover have "list_all (\<lambda>e. attempt fo \<le> ev_attempt e \<and> ev_attempt e < n) (evs @ evs')"
    using t' here(1) le n by (auto simp: trace_ok_def list_all_iff)
  ultimately show ?thesis by (auto simp: trace_ok_def)
qed

lemma failover_loop_trace:
  "failover_loop W R ctx body plan fo w = (response, w', evs) \<Longrightarrow> trace_ok (length plan) fo evs"
proof (induction W R ctx body plan fo w arbitrary: response w' evs rule: failover_loop.induct)
  case (1 W R ctx body plan fo w)
  show ?case
  proof (cases "attempt fo < length plan")
    case False
    with "1.prems" show ?thesis by (simp add: failover_loop.simps [of W] trace_ok_def)
  next
    case True
    obtain r w1 evs1 where st: "attempt_step W R ctx body (plan ! attempt fo) fo w = (r, w1, evs1)"
      by (metis prod_cases3)
    note turn = attempt_step_turn [OF st]
    show ?thesis
    proof (cases r)
      case (Inl resp)
      with "1.prems" True st have "evs = evs1" by (simp add: failover_loop.simps [of W])
      with turn_trace [OF turn True] show ?thesis by simp
    next
      case (Inr fo')
      obtain resp w2 evs2 where lp: "failover_loop W R ctx body plan fo' w1 = (resp, w2, evs2)"
        by (metis prod_cases3)
      with "1.prems" True st Inr have evs: "evs = evs1 @ evs2" by (simp add: failover_loop.simps [of W])
      have "trace_ok (length plan) fo' evs2" using "1.IH" [OF True st [symmetric] Inr refl lp] by simp
      moreover have "progress fo fo'" using st Inr by (intro attempt_step_progress) simp
      ultimately show ?thesis using trace_append [OF turn True] evs by blast
    qed
  qed
qed

text \<open>C13: a request always ends, and its cost is bounded by its plan: whatever the accounts, the upstreams and the
  plugins answer, the loop returns, tries the targets in the order of the plan, sends to each target at most
  twice and refreshes each target's sign-in at most once, so at most two requests per target leave the gateway.\<close>

theorem failover_bounded:
  "\<exists>response w' evs.
     failover_loop W R ctx body plan (failover_new (length plan)) w = (response, w', evs) \<and>
     sorted (map ev_attempt evs) \<and> list_all (\<lambda>e. ev_attempt e < length plan) evs \<and>
     (\<forall>i. sends i evs \<le> 2 \<and> refreshes i evs \<le> 1)"
proof -
  obtain response w' evs where
    l: "failover_loop W R ctx body plan (failover_new (length plan)) w = (response, w', evs)"
    by (metis prod_cases3)
  have "trace_ok (length plan) (failover_new (length plan)) evs" by (rule failover_loop_trace [OF l])
  then have "sorted (map ev_attempt evs)" "list_all (\<lambda>e. ev_attempt e < length plan) evs"
    "\<forall>i. sends i evs \<le> 2 \<and> refreshes i evs \<le> 1"
    by (auto simp: trace_ok_def failover_new_def retried_def list_all_iff)
  with l show ?thesis by blast
qed

section \<open>Who is let in and who serves\<close>

text \<open>C14: a request without a valid key goes nowhere: when the gateway has a key and the bearer token is neither it
  nor an agent's key, the answer is a 401 of the gateway's own, nothing is sent, no account is touched and the
  rotation does not move.\<close>

theorem unauthenticated_goes_nowhere:
  assumes "server_api_key (server (config A)) = Some global"
    and "\<forall>k. auth_header_of (rq_headers R) = Some (bearer_header k) \<longrightarrow> k \<noteq> global \<and> k \<notin> set (agent_keys A)"
  shows "\<exists>err. process_request W A R body gemini_model w =
           (Some (auth_error_response (hs_serde (rq_serde R)) err), A, w, [])"
proof -
  have "authenticate A (auth_header_of (rq_headers R)) \<noteq> Inr ()"
    using assms by (cases "bearer (auth_header_of (rq_headers R))")
      (auto simp: authenticate_def validate_client_keys_def bearer_Some)
  then obtain err where "authenticate A (auth_header_of (rq_headers R)) = Inl err"
    by (cases "authenticate A (auth_header_of (rq_headers R))") auto
  then show ?thesis by (intro exI [of _ err]) (simp add: process_request_def Let_def)
qed

lemma resolve_upstream_api_account_None:
  "plugin p = None \<Longrightarrow> resolve_upstream_api A S p model = Inr (api_for p model)"
  by (simp add: resolve_upstream_api_def)

definition usable :: "app_state \<Rightarrow> string option \<Rightarrow> bool" where
  "usable A acct = (case acct of Some x \<Rightarrow> \<not> is_revoked A x | None \<Rightarrow> True)"

lemma plan_seats_Cons:
  "plan_seats A S model p (acct # rest) plan =
     (if \<not> usable A acct then plan_seats A S model p rest plan
      else case resolve_upstream_api A S (p\<lparr>account := acct\<rparr>) model of
             Inl response \<Rightarrow> Inl response
           | Inr api \<Rightarrow> plan_seats A S model p rest (plan @ [(p\<lparr>account := acct\<rparr>, api)]))"
  by (auto simp: usable_def split: option.split sum.split)

text \<open>What a provider's seats add to a plan.\<close>

lemma plan_seats_spec:
  "plan_seats A S model p cands plan = Inr plan' \<Longrightarrow>
     \<exists>seats. plan' = plan @ seats \<and>
       map (account \<circ> fst) seats = filter (usable A) cands \<and>
       list_all (\<lambda>(q, api). q = p\<lparr>account := account q\<rparr> \<and> resolve_upstream_api A S q model = Inr api) seats"
proof (induction cands arbitrary: plan)
  case (Cons acct cands)
  show ?case
  proof (cases "usable A acct")
    case False
    with Cons show ?thesis by (simp add: plan_seats_Cons del: plan_seats.simps(2))
  next
    case True
    with Cons.prems obtain api where api: "resolve_upstream_api A S (p\<lparr>account := acct\<rparr>) model = Inr api"
      and rest: "plan_seats A S model p cands (plan @ [(p\<lparr>account := acct\<rparr>, api)]) = Inr plan'"
      by (auto simp: plan_seats_Cons simp del: plan_seats.simps(2) split: sum.splits)
    obtain seats where "plan' = (plan @ [(p\<lparr>account := acct\<rparr>, api)]) @ seats"
      "map (account \<circ> fst) seats = filter (usable A) cands"
      "list_all (\<lambda>(q, api). q = p\<lparr>account := account q\<rparr> \<and> resolve_upstream_api A S q model = Inr api) seats"
      using Cons.IH [OF rest] by blast
    with True api show ?thesis
      by (intro exI [of _ "(p\<lparr>account := acct\<rparr>, api) # seats"]) (simp add: comp_def)
  qed
qed simp

definition seat_ok :: "app_state \<Rightarrow> string list \<Rightarrow> ProviderConfig \<times> UpstreamApi \<Rightarrow> bool" where
  "seat_ok A names seat \<longleftrightarrow>
     (\<exists>name \<in> set names. \<exists>p. find_provider (config A) name = Some p \<and> fst seat = p\<lparr>account := account (fst seat)\<rparr> \<and>
        (case account (fst seat) of
           Some x \<Rightarrow> x \<in> set (account_ids p) \<and> \<not> is_revoked A x
         | None \<Rightarrow> account_ids p = []))"

lemma apply_order_set: "distinct ids \<Longrightarrow> set (apply_order ids saved) = set ids"
  by (cases saved) (auto simp: apply_order_filter apply_order_def [of _ None])

lemma provider_candidates_set:
  "set (provider_candidates A model p) = (if account_ids p = [] then {None} else Some ` set (account_ids p))"
proof -
  have "set (order_accounts ids al model share now) = set ids" for ids al share now
    by (auto simp: order_accounts_def order_loop_filter)
  moreover have "apply_order (account_ids p) saved = [] \<longleftrightarrow> account_ids p = []" for saved
    using apply_order_set [of "account_ids p" saved] by (metis account_ids_distinct set_empty)
  ultimately show ?thesis
    by (simp add: provider_candidates_def Let_def apply_order_set)
qed

lemma plan_seats_ok:
  assumes "plan_seats A S model p (provider_candidates A model p) plan = Inr plan'"
    and "find_provider (config A) name = Some p" and "name \<in> set names" and "list_all (seat_ok A names) plan"
  shows "list_all (seat_ok A names) plan'"
proof -
  obtain seats where seats: "plan' = plan @ seats"
    "map (account \<circ> fst) seats =
       filter (usable A) (provider_candidates A model p)"
    "list_all (\<lambda>(q, api). q = p\<lparr>account := account q\<rparr> \<and> resolve_upstream_api A S q model = Inr api) seats"
    using plan_seats_spec [OF assms(1)] by blast
  have "seat_ok A names s" if "s \<in> set seats" for s
  proof -
    have "account (fst s) \<in> set (map (account \<circ> fst) seats)" using that by auto
    then have a: "account (fst s) \<in> set (provider_candidates A model p)"
      "usable A (account (fst s))"
      using seats(2) by auto
    have "fst s = p\<lparr>account := account (fst s)\<rparr>" using seats(3) that by (auto simp: list_all_iff)
    with a assms(2,3) show ?thesis
      by (auto simp: seat_ok_def usable_def provider_candidates_set split: option.splits if_splits)
  qed
  with seats(1) assms(4) show ?thesis by (auto simp: list_all_iff)
qed

lemma build_plan_loop_ok:
  "build_plan_loop A S model ns plan err = Inr (plan', err') \<Longrightarrow> set ns \<subseteq> set names \<Longrightarrow>
   list_all (seat_ok A names) plan \<Longrightarrow> list_all (seat_ok A names) plan'"
proof (induction ns arbitrary: plan err)
  case (Cons n ns)
  then show ?case
    by (auto split: option.splits sum.splits dest: plan_seats_ok)
qed simp

text \<open>C15: every seat of a plan belongs to a configured provider of the route, under that provider's own settings, and
  is one of its account ids that is not revoked, or the api-key slot of a provider without accounts.\<close>

theorem plan_seats_valid:
  assumes "build_plan A S ctx names = Inr (plan, err)"
  shows "list_all (seat_ok A names) plan"
  using assms build_plan_loop_ok [of A S "ctx_upstream_model ctx" names "[]" None plan err names]
  by (simp add: build_plan_def)

section \<open>What is sent and what is told\<close>

lemma account_update_api_key [simp]:
  "account_ids (p\<lparr>api_key := k\<rparr>) = account_ids p"
  "first_prefix (p\<lparr>api_key := k\<rparr>) = first_prefix p"
  "is_copilot_account (p\<lparr>api_key := k\<rparr>) = is_copilot_account p"
  by (simp_all add: account_ids_def first_prefix_def is_copilot_account_def)

lemma upstream_url_api_key [simp]: "upstream_url (p\<lparr>api_key := k\<rparr>) api ctx = upstream_url p api ctx"
  by (simp add: upstream_url_def code_assist_base_def chatgpt_api_base_def build_upstream_url_for_provider_def Let_def
      cong: if_cong option.case_cong list.case_cong)

text \<open>A request signed by an account, or served by a plugin, does not carry the provider's static key: what is
  built for it, address and headers included, is the same whatever that key is.\<close>

lemma account_request_ignores_api_key:
  assumes "account p \<noteq> None \<or> plugin p \<noteq> None"
  shows "convert_and_build_upstream W R ctx (p\<lparr>api_key := k\<rparr>) api body w =
         convert_and_build_upstream W R ctx p api body w"
  using assms
  by (auto simp: convert_and_build_upstream_def build_copilot_def build_signed_def Let_def
      cong: if_cong option.case_cong sum.case_cong split: option.split sum.split)

text \<open>An error of the upstream that does not read as a reply of its API reaches a non-streaming client of another API
  as an internal conversion error; the upstream's status and words are lost.\<close>

lemma upstream_error_masked:
  assumes "plugin p = None" and "\<not> ctx_streaming ctx" and "api \<noteq> ApiCodeAssist"
    and "http_send W (upstream_request R url bytes headers) w = (Inr reply, w')"
    and "read_all (ur_chunks reply) = Some body"
    and "ur_status reply \<notin> {401, 403}" and "\<not> is_retryable_status (ur_status reply)"
    and "convert_response (rq_serde R) (rq_envs R 1) (rq_envs R 2) body (to_format api) (client_format (rq_route R)) = Inl e"
  shows "send_attempt W R ctx p api bytes url headers fo w =
           (Inl (Some (conversion_error_response (hs_serde (rq_serde R)) (Conversion e))), w', []) \<and>
         rs_status (conversion_error_response (hs_serde (rq_serde R)) (Conversion e)) = 500"
  using assms
  by (auto simp: send_attempt_def forward_non_streaming_def after_answer_def build_non_streaming_response_def
      safe_convert_response_def conversion_error_response_def api_error_response_def Let_def split: option.split)

text \<open>A 403 takes no refresh, but one whose body holds a revocation marker marks the account revoked.\<close>

lemma forbidden_marks_revoked:
  assumes "classify_401 txt = Revoked" and "has_next fo"
  shows "\<exists>fo'. classify_account_auth W S p acct txt 403 fo w =
           (Inr Next, fo', mark_revoked W acct txt w, [MarkingRevoked (attempt fo) acct])"
  using assms by (simp add: classify_account_auth_def judge_401_def Let_def)

section \<open>A sample gateway\<close>

definition sample_state :: app_state where
  "sample_state =
     \<lparr>config = sample_config, agent_keys = [''acw_1''], rr_counter = 0, order_file = None,
      cached_allowance = (\<lambda>_ _. None), is_revoked = (\<lambda>x. x = ''gemini:gone''), plugin_models = (\<lambda>_ _. Inr []),
      clock_now = 0\<rparr>"

theorem unauthenticated_goes_nowhere_witness:
  "\<forall>W R body gm w. \<exists>err.
     process_request W sample_state (R\<lparr>rq_headers := [(''authorization'', Some (bearer_header ''guess''))]\<rparr>) body gm w =
       (Some (auth_error_response (hs_serde (rq_serde R)) err), sample_state, w, [])"
proof (intro allI)
  fix W :: "'a world" and R :: request_env and body gm w
  let ?R = "R\<lparr>rq_headers := [(''authorization'', Some (bearer_header ''guess''))]\<rparr>"
  have "server_api_key (server (config sample_state)) = Some ''global''"
    by (simp add: sample_state_def sample_config_def)
  moreover have "\<forall>k. auth_header_of (rq_headers ?R) = Some (bearer_header k) \<longrightarrow> k \<noteq> ''global'' \<and> k \<notin> set (agent_keys sample_state)"
    by (auto simp: auth_header_of_def sample_state_def)
  ultimately show "\<exists>err. process_request W sample_state ?R body gm w =
       (Some (auth_error_response (hs_serde (rq_serde R)) err), sample_state, w, [])"
    using unauthenticated_goes_nowhere [of sample_state "''global''" ?R W body gm w] by simp
qed

theorem plan_seats_valid_witness:
  "\<forall>S ctx. list_all (seat_ok sample_state [''anthropic'']) [(sample_provider\<lparr>account := None\<rparr>, ApiClaude)]"
proof (intro allI)
  fix S ctx
  have "account_ids sample_provider = []" by (simp add: sample_provider_def account_ids_def)
  then have "build_plan sample_state S ctx [''anthropic''] = Inr ([(sample_provider\<lparr>account := None\<rparr>, ApiClaude)], None)"
    by (simp add: build_plan_def find_provider_def sample_state_def sample_config_def provider_candidates_def
        apply_order_def Let_def saved_order_def resolve_upstream_api_def api_for_def is_copilot_account_def first_prefix_def
        effective_api_def account_ids_def)
      (simp add: sample_provider_def api_for_def is_copilot_account_def first_prefix_def effective_api_def account_ids_def)
  from plan_seats_valid [OF this]
  show "list_all (seat_ok sample_state [''anthropic'']) [(sample_provider\<lparr>account := None\<rparr>, ApiClaude)]" .
qed

lemma account_request_ignores_api_key_witness:
  "\<forall>W R ctx body w.
     convert_and_build_upstream W R ctx (sample_provider\<lparr>account := Some ''gemini:a'', api_key := ''secret''\<rparr>) ApiCodeAssist body w =
     convert_and_build_upstream W R ctx (sample_provider\<lparr>account := Some ''gemini:a''\<rparr>) ApiCodeAssist body w"
  by (intro allI account_request_ignores_api_key) simp

end
