(* ===== verification/Env_Edit.thy ===== *)
theory Env_Edit
  imports Server_Prelude Json
begin

text \<open>
  The dotenv editor of the agent-wiring crate: \<open>crates/agent-wiring/src/edit/env.rs\<close>, with \<open>split_bom\<close> and
  \<open>KV\<close> of \<open>edit/mod.rs\<close>.  A byte index of the Rust scanner is here the number of bytes before the rest of the
  line that is still to be read.  The lemmas show that the editor implements a map from names to values.
\<close>

section \<open>Lines\<close>

definition BOM :: string where
  "BOM = [CHR 0xEF, CHR 0xBB, CHR 0xBF]"

definition split_bom :: "string \<Rightarrow> string \<times> string" where
  "split_bom src = (case strip_prefix BOM src of Some body \<Rightarrow> (BOM, body) | None \<Rightarrow> ([], src))"

record KV =
  kv_path :: string
  kv_value :: "value"

text \<open>\<open>str::split_inclusive\<close> at newlines.\<close>

fun split_inclusive :: "string \<Rightarrow> string list" where
  "split_inclusive [] = []"
| "split_inclusive (c # s) =
     (if c = nl then [c] # split_inclusive s
      else case split_inclusive s of [] \<Rightarrow> [[c]] | l # ls \<Rightarrow> (c # l) # ls)"

definition split_line_end :: "string \<Rightarrow> string \<times> string" where
  "split_line_end line =
     (case strip_suffix [nl] line of
        Some stripped \<Rightarrow>
          (case strip_suffix [cr] stripped of
             Some content \<Rightarrow> (content, [cr, nl])
           | None \<Rightarrow> (stripped, [nl]))
      | None \<Rightarrow> (line, []))"

section \<open>One assignment\<close>

datatype Quote = Q_None | Q_Single | Q_Double

record Assignment =
  as_key :: string
  value_span :: "nat \<times> nat"
  as_quote :: Quote

definition blank :: "char \<Rightarrow> bool" where
  "blank c \<longleftrightarrow> c = CHR '' '' \<or> c = CHR 0x09"

definition key_byte :: "char \<Rightarrow> bool" where
  "key_byte c \<longleftrightarrow> c \<noteq> CHR ''='' \<and> \<not> blank c \<and> c \<noteq> CHR ''#'' \<and> c \<noteq> cr"

text \<open>The optional \<open>export\<close> and the name; the result is the name and the rest that begins with the value.\<close>

definition skip_export :: "string \<Rightarrow> string" where
  "skip_export s =
     (case strip_prefix ''export'' s of
        Some (c # rest) \<Rightarrow> if blank c then dropWhile blank (c # rest) else s
      | _ \<Rightarrow> s)"

definition parse_head :: "string \<Rightarrow> (string \<times> string) option" where
  "parse_head content =
     (case dropWhile blank content of
        [] \<Rightarrow> None
      | c # s \<Rightarrow>
          if c = CHR ''#'' then None
          else (let at_key = skip_export (c # s); key = takeWhile key_byte at_key in
                if key = [] then None
                else case dropWhile blank (dropWhile key_byte at_key) of
                       [] \<Rightarrow> None
                     | e # rest \<Rightarrow> if e \<noteq> CHR ''='' then None else Some (key, dropWhile blank rest)))"

text \<open>How many bytes a value takes: after an opening double quote, after a single one, and without quotes.\<close>

fun double_len :: "string \<Rightarrow> nat" where
  "double_len [] = 0"
| "double_len (c # s) =
     (if c = CHR 0x5C then (case s of [] \<Rightarrow> 1 | _ # s' \<Rightarrow> 2 + double_len s')
      else if c = CHR 0x22 then 1
      else Suc (double_len s))"

fun single_len :: "string \<Rightarrow> nat" where
  "single_len [] = 0"
| "single_len (c # s) = (if c = CHR 0x27 then 1 else Suc (single_len s))"

fun plain_len :: "bool \<Rightarrow> nat \<Rightarrow> nat \<Rightarrow> string \<Rightarrow> nat" where
  "plain_len fresh i e [] = e"
| "plain_len fresh i e (c # s) =
     (if c = CHR ''#'' \<and> fresh then e
      else plain_len (blank c) (Suc i) (if blank c then e else Suc i) s)"

definition scan_value :: "string \<Rightarrow> Quote \<times> nat" where
  "scan_value rest =
     (case rest of
        [] \<Rightarrow> (Q_None, 0)
      | c # s \<Rightarrow>
          if c = CHR 0x22 then (Q_Double, Suc (double_len s))
          else if c = CHR 0x27 then (Q_Single, Suc (single_len s))
          else (Q_None, plain_len True 0 0 rest))"

definition parse_line :: "string \<Rightarrow> Assignment option" where
  "parse_line content =
     (case parse_head content of
        None \<Rightarrow> None
      | Some (key, rest) \<Rightarrow>
          (let value_start = length content - length rest; (q, n) = scan_value rest in
           Some \<lparr>as_key = key, value_span = (value_start, value_start + n), as_quote = q\<rparr>))"

section \<open>Values\<close>

definition escape_char :: "char \<Rightarrow> string" where
  "escape_char c =
     (if c = CHR 0x5C then [CHR 0x5C, CHR 0x5C]
      else if c = CHR 0x22 then [CHR 0x5C, CHR 0x22]
      else if c = nl then [CHR 0x5C, CHR ''n'']
      else if c = cr then [CHR 0x5C, CHR ''r'']
      else if c = CHR 0x09 then [CHR 0x5C, CHR ''t'']
      else [c])"

definition escape_double :: "string \<Rightarrow> string" where
  "escape_double raw = concat (map escape_char raw)"

fun unescape_double :: "string \<Rightarrow> string" where
  "unescape_double [] = []"
| "unescape_double (c # s) =
     (if c \<noteq> CHR 0x5C then c # unescape_double s
      else case s of
             [] \<Rightarrow> [CHR 0x5C]
           | d # s' \<Rightarrow>
               (if d = CHR ''n'' then [nl]
                else if d = CHR ''r'' then [cr]
                else if d = CHR ''t'' then [CHR 0x09]
                else if d = CHR 0x5C then [CHR 0x5C]
                else if d = CHR 0x22 then [CHR 0x22]
                else if d = CHR 0x27 then [CHR 0x27]
                else [CHR 0x5C, d]) @ unescape_double s')"

definition unquote :: "char \<Rightarrow> string \<Rightarrow> string" where
  "unquote q raw =
     unwrap_or raw (case strip_prefix [q] raw of None \<Rightarrow> None | Some t \<Rightarrow> strip_suffix [q] t)"

definition value_from_assignment :: "string \<Rightarrow> Assignment \<Rightarrow> string" where
  "value_from_assignment content a =
     (let raw = drop (fst (value_span a)) (take (snd (value_span a)) content) in
      case as_quote a of
        Q_Double \<Rightarrow> unescape_double (unquote (CHR 0x22) raw)
      | Q_Single \<Rightarrow> unquote (CHR 0x27) raw
      | Q_None \<Rightarrow> raw)"

definition double_quoted :: "string \<Rightarrow> string" where
  "double_quoted raw = [CHR 0x22] @ escape_double raw @ [CHR 0x22]"

definition quote_env :: "string \<Rightarrow> string" where
  "quote_env raw =
     (if raw = [] \<or> list_ex (\<lambda>w. str_contains w raw) ws_seqs
         \<or> list_ex (\<lambda>c. c \<in> {CHR ''#'', CHR 0x22, CHR 0x27, CHR 0x5C}) raw
      then double_quoted raw else raw)"

definition new_value :: "Quote \<Rightarrow> string \<Rightarrow> string" where
  "new_value q raw =
     (case q of
        Q_Double \<Rightarrow> double_quoted raw
      | Q_Single \<Rightarrow>
          if CHR 0x27 \<in> set raw \<or> nl \<in> set raw \<or> cr \<in> set raw then double_quoted raw
          else [CHR 0x27] @ raw @ [CHR 0x27]
      | Q_None \<Rightarrow> quote_env raw)"

definition replace_value :: "string \<Rightarrow> Assignment \<Rightarrow> string \<Rightarrow> string" where
  "replace_value content a raw =
     take (fst (value_span a)) content @ new_value (as_quote a) raw @ drop (snd (value_span a)) content"

definition kv_raw_value :: "(value \<Rightarrow> string) \<Rightarrow> value \<Rightarrow> string" where
  "kv_raw_value to_string v =
     (case v of JString s \<Rightarrow> s | JNull \<Rightarrow> [] | other \<Rightarrow> to_string other)"

section \<open>Reading, writing and deleting\<close>

definition line_assignment :: "string \<Rightarrow> (string \<times> string) option" where
  "line_assignment line =
     (let content = fst (split_line_end line) in
      map_option (\<lambda>a. (as_key a, value_from_assignment content a)) (parse_line content))"

definition get_step :: "string \<Rightarrow> string \<Rightarrow> string option \<Rightarrow> string option" where
  "get_step key line result =
     (case line_assignment line of
        Some (k, v) \<Rightarrow> if k = key then Some v else result
      | None \<Rightarrow> result)"

definition env_get :: "string \<Rightarrow> string \<Rightarrow> string option" where
  "env_get original key = fold (get_step key) (split_inclusive (snd (split_bom original))) None"

text \<open>The loop over the lines from the last to the first; \<open>None\<close> when no line assigns the name.\<close>

definition set_line :: "string \<Rightarrow> string \<Rightarrow> string \<Rightarrow> string option" where
  "set_line key raw line =
     (let (content, ending) = split_line_end line in
      case parse_line content of
        None \<Rightarrow> None
      | Some a \<Rightarrow> if as_key a \<noteq> key then None else Some (replace_value content a raw @ ending))"

fun replace_rev :: "string \<Rightarrow> string \<Rightarrow> string list \<Rightarrow> string list option" where
  "replace_rev key raw [] = None"
| "replace_rev key raw (l # ls) =
     (case set_line key raw l of
        Some l' \<Rightarrow> Some (l' # ls)
      | None \<Rightarrow> map_option (Cons l) (replace_rev key raw ls))"

definition append_line :: "string \<Rightarrow> string \<Rightarrow> string \<Rightarrow> string list \<Rightarrow> string list" where
  "append_line newline key raw ls =
     (if ls = [] then [] else butlast ls @ [last ls @ (if ends_with [nl] (last ls) then [] else newline)])
     @ [key @ ''='' @ quote_env raw @ newline]"

definition set_one :: "(value \<Rightarrow> string) \<Rightarrow> string \<Rightarrow> KV \<Rightarrow> string list \<Rightarrow> string list" where
  "set_one to_string newline kv ls =
     (let raw = kv_raw_value to_string (kv_value kv) in
      case replace_rev (kv_path kv) raw (rev ls) of
        Some ls' \<Rightarrow> rev ls'
      | None \<Rightarrow> append_line newline (kv_path kv) raw ls)"

definition env_set :: "(value \<Rightarrow> string) \<Rightarrow> string \<Rightarrow> KV list \<Rightarrow> string" where
  "env_set to_string original kvs =
     (let (bom, body) = split_bom original;
          newline = (if str_contains [cr, nl] body then [cr, nl] else [nl]) in
      bom @ concat (fold (set_one to_string newline) kvs (split_inclusive body)))"

definition removes :: "string list \<Rightarrow> string \<Rightarrow> bool" where
  "removes keys line =
     unwrap_or False
       (map_option (\<lambda>a. as_key a \<in> set keys) (parse_line (fst (split_line_end line))))"

definition env_del :: "string \<Rightarrow> string list \<Rightarrow> string" where
  "env_del original keys =
     (let (bom, body) = split_bom original in
      bom @ concat (filter (\<lambda>line. \<not> removes keys line) (split_inclusive body)))"

section \<open>Quoting\<close>

lemma unescape_escape_char: "unescape_double (escape_char c @ t) = c # unescape_double t"
  by (simp add: escape_char_def)

lemma unescape_escape: "unescape_double (escape_double s) = s"
  by (induction s) (simp_all add: escape_double_def unescape_escape_char)

lemma double_len_escape:
  "double_len (escape_double s @ CHR 0x22 # t) = Suc (length (escape_double s))"
  by (induction s) (auto simp: escape_double_def escape_char_def)

lemma escape_double_no_line_end: "nl \<notin> set (escape_double s)" "cr \<notin> set (escape_double s)"
  by (auto simp: escape_double_def escape_char_def split: if_splits)

lemma unquote_quoted [simp]: "unquote q (q # s @ [q]) = s"
  using strip_prefix_append [of "[q]" "s @ [q]"] strip_suffix_Some [of "[q]" "s @ [q]" s]
  by (simp add: unquote_def)

lemma single_len_plain: "CHR 0x27 \<notin> set s \<Longrightarrow> single_len (s @ CHR 0x27 # t) = Suc (length s)"
  by (induction s) auto

text \<open>A value written without quotes has no white space, comment or quote character.\<close>

lemma quote_env_cases:
  "quote_env raw = double_quoted raw \<or>
   quote_env raw = raw \<and> raw \<noteq> [] \<and>
   set raw \<inter> {nl, cr, CHR '' '', CHR 0x09, CHR ''#'', CHR 0x22, CHR 0x27} = {}"
proof (cases "quote_env raw = double_quoted raw")
  case False
  then have *: "raw \<noteq> []" "\<not> list_ex (\<lambda>w. str_contains w raw) ws_seqs"
    "\<not> list_ex (\<lambda>c. c \<in> {CHR ''#'', CHR 0x22, CHR 0x27, CHR 0x5C}) raw"
    by (auto simp: quote_env_def)
  have one: "str_contains [c] raw" if "c \<in> set raw" for c
    using that by (auto simp: str_contains_iff dest: split_list)
  have "set raw \<inter> {nl, cr, CHR '' '', CHR 0x09} = {}"
    using *(2) one by (auto simp: ws_seqs_def)
  moreover have "set raw \<inter> {CHR ''#'', CHR 0x22, CHR 0x27} = {}"
    using *(3) by (auto simp: list_ex_iff)
  moreover have "quote_env raw = raw" unfolding quote_env_def using * by simp
  ultimately show ?thesis using *(1) by blast
qed simp

section \<open>Reading an edited line\<close>

lemma dropWhile_stop: "\<not> P x \<Longrightarrow> dropWhile P (u @ x # v) = dropWhile P u @ x # v"
  by (simp add: dropWhile_append)

lemma takeWhile_stop: "\<not> P x \<Longrightarrow> takeWhile P (u @ x # v) = takeWhile P u"
  by (induction u) auto

lemma delim [simp]: "\<not> blank (CHR ''='')" "\<not> key_byte (CHR ''='')" "\<not> key_byte (CHR ''#'')"
  by (simp_all add: blank_def key_byte_def)

lemma skip_export_frame: "skip_export (u @ CHR ''='' # v) = skip_export u @ CHR ''='' # v"
proof (cases "strip_prefix ''export'' u")
  case None
  have "\<not> starts_with ''export'' (u @ CHR ''='' # v)"
  proof
    assume "starts_with ''export'' (u @ CHR ''='' # v)"
    then obtain r where r: "u @ CHR ''='' # v = ''export'' @ r" by (auto simp: starts_with_iff)
    have "\<exists>z. u = ''export'' @ z"
      using r by (auto simp: append_eq_append_conv2 append_eq_Cons_conv Cons_eq_append_conv)
    with None show False by (auto simp: strip_prefix_None starts_with_iff)
  qed
  with None show ?thesis by (simp add: skip_export_def strip_prefix_None [THEN iffD2])
next
  case (Some t)
  then have u: "u = ''export'' @ t" by (simp add: strip_prefix_Some)
  have e: "strip_prefix ''export'' (u @ CHR ''='' # v) = Some (t @ CHR ''='' # v)"
    unfolding u append_assoc by (rule strip_prefix_append)
  show ?thesis
    using dropWhile_stop [of blank "CHR ''=''" "tl t" v] Some e
    by (cases t) (simp_all add: skip_export_def)
qed

lemma skip_export_suffix: "\<exists>p. s = p @ skip_export s"
proof -
  have "\<exists>p. s = p @ dropWhile blank r" if "strip_prefix ''export'' s = Some r" for r
  proof -
    have "s = ''export'' @ r" using that by (simp add: strip_prefix_Some)
    also have "r = takeWhile blank r @ dropWhile blank r" by simp
    finally show ?thesis by (metis append_assoc)
  qed
  then show ?thesis
    by (auto simp: skip_export_def split: option.split list.split)
qed

definition head_rest :: "string \<Rightarrow> string" where
  "head_rest s = dropWhile blank (dropWhile key_byte (skip_export (dropWhile blank s)))"

lemma parse_head_closed:
  assumes "head_rest u = []"
  shows "parse_head (u @ CHR ''='' # w) =
    (case dropWhile blank u of
       [] \<Rightarrow> None
     | c # s \<Rightarrow>
         if c = CHR ''#'' \<or> takeWhile key_byte (skip_export (c # s)) = [] then None
         else Some (takeWhile key_byte (skip_export (c # s)), dropWhile blank w))"
proof (cases "dropWhile blank u")
  case Nil
  then show ?thesis
    by (simp add: parse_head_def dropWhile_stop skip_export_def strip_prefix_def starts_with_def
             del: dropWhile_eq_Nil_conv)
next
  case (Cons c s)
  define z where "z = skip_export (c # s)"
  have z: "dropWhile blank (dropWhile key_byte z) = []"
    using assms by (simp add: head_rest_def z_def Cons)
  have "skip_export (c # s @ CHR ''='' # w) = z @ CHR ''='' # w"
    using skip_export_frame [of "c # s" w] by (simp add: z_def)
  with Cons z show ?thesis
    unfolding parse_head_def by (simp add: dropWhile_stop takeWhile_stop flip: z_def del: dropWhile_eq_Nil_conv)
qed

lemma parse_head_frame:
  assumes "parse_head c = Some (k, r)"
  obtains p where "c = p @ r" "\<And>w. w = [] \<or> \<not> blank (hd w) \<Longrightarrow> parse_head (p @ w) = Some (k, w)"
    "r = [] \<or> \<not> blank (hd r)" "CHR ''='' \<in> set p"
proof -
  have frame: "head_rest (u @ CHR ''='' # v) = head_rest u @ CHR ''='' # v" for u v
    by (simp add: head_rest_def dropWhile_stop skip_export_frame)
  from assms obtain v where v: "head_rest c = CHR ''='' # v" "r = dropWhile blank v"
    by (auto simp: parse_head_def head_rest_def Let_def split: list.splits if_splits)
  have "\<exists>u. c = u @ head_rest c"
    unfolding head_rest_def by (metis append_assoc skip_export_suffix takeWhile_dropWhile_id)
  with v(1) obtain u where u: "c = u @ CHR ''='' # v" by auto
  with v(1) frame have du: "head_rest u = []" by simp
  have head: "parse_head (u @ CHR ''='' # w) = Some (k, dropWhile blank w)" for w
    using assms unfolding u parse_head_closed [OF du] by (auto split: list.splits if_splits simp del: dropWhile_eq_Nil_conv)
  define b where "b = takeWhile blank v"
  have "dropWhile blank (b @ w) = w" if "w = [] \<or> \<not> blank (hd w)" for w
    using that by (cases w) (auto simp: b_def dropWhile_append dest: set_takeWhileD)
  then have "parse_head ((u @ CHR ''='' # b) @ w) = Some (k, w)" if "w = [] \<or> \<not> blank (hd w)" for w
    using head [of "b @ w"] that by simp
  moreover have "c = (u @ CHR ''='' # b) @ r"
    using u v(2) by (simp add: b_def)
  moreover have "r = [] \<or> \<not> blank (hd r)" using v(2) hd_dropWhile by blast
  moreover have "CHR ''='' \<in> set (u @ CHR ''='' # b)" by simp
  ultimately show ?thesis using that by blast
qed


text \<open>What may follow a value that is written without quotes: blanks, then nothing or a comment.\<close>

fun plain_tail :: "bool \<Rightarrow> string \<Rightarrow> bool" where
  "plain_tail fresh [] = True"
| "plain_tail fresh (c # s) = (c = CHR ''#'' \<and> fresh \<or> blank c \<and> plain_tail True s)"

lemma plain_len_tail: "plain_tail fresh s \<Longrightarrow> plain_len fresh i e s = e"
  by (induction fresh i e s rule: plain_len.induct) (auto simp: blank_def)

lemma plain_len_bare:
  "raw \<noteq> [] \<Longrightarrow> \<forall>c \<in> set raw. \<not> blank c \<and> c \<noteq> CHR ''#'' \<Longrightarrow>
   plain_len fresh i e (raw @ post) = plain_len False (i + length raw) (i + length raw) post"
proof (induction raw arbitrary: fresh i e)
  case (Cons c raw)
  then show ?case by (cases raw) auto
qed simp

lemma plain_len_rest:
  "e \<le> i \<Longrightarrow>
   plain_len fresh i e s = e \<and> plain_tail fresh s \<or>
   i < plain_len fresh i e s \<and> plain_tail False (drop (plain_len fresh i e s - i) s)"
proof (induction fresh i e s rule: plain_len.induct)
  case (2 fresh i e c s)
  show ?case
  proof (cases "c = CHR ''#'' \<and> fresh")
    case False
    let ?e = "if blank c then e else Suc i"
    let ?n = "plain_len (blank c) (Suc i) ?e s"
    have IH: "?n = ?e \<and> plain_tail (blank c) s \<or> Suc i < ?n \<and> plain_tail False (drop (?n - Suc i) s)"
      using 2 False by (auto split: if_splits)
    have n: "plain_len fresh i e (c # s) = ?n" using False by auto
    have "drop (?n - i) (c # s) = drop (?n - Suc i) s" if "Suc i \<le> ?n"
      using that by (simp add: Suc_diff_le drop_Cons')
    then show ?thesis
      unfolding n using IH by (cases "blank c") auto
  qed auto
qed auto

definition decode :: "Quote \<Rightarrow> string \<Rightarrow> string" where
  "decode q t =
     (case q of
        Q_Double \<Rightarrow> unescape_double (unquote (CHR 0x22) t)
      | Q_Single \<Rightarrow> unquote (CHR 0x27) t
      | Q_None \<Rightarrow> t)"

lemma scan_double: "scan_value (double_quoted raw @ post) = (Q_Double, length (double_quoted raw))"
  by (simp add: double_quoted_def scan_value_def double_len_escape)

lemma decode_double: "decode Q_Double (double_quoted raw) = raw"
  by (simp add: decode_def double_quoted_def unescape_escape)

lemma scan_bare:
  assumes "raw \<noteq> []" "set raw \<inter> {nl, cr, CHR '' '', CHR 0x09, CHR ''#'', CHR 0x22, CHR 0x27} = {}"
    and "plain_tail False post"
  shows "scan_value (raw @ post) = (Q_None, length raw)"
proof -
  obtain c s where raw: "raw = c # s" using assms(1) by (cases raw) auto
  have "\<forall>c \<in> set raw. \<not> blank c \<and> c \<noteq> CHR ''#''" using assms(2) by (auto simp: blank_def)
  from plain_len_bare [OF assms(1) this] have "plain_len True 0 0 (raw @ post) = length raw"
    by (simp add: plain_len_tail [OF assms(3)])
  with assms(2) show ?thesis by (auto simp: scan_value_def raw)
qed

lemma scan_quote_env:
  assumes "plain_tail False post"
  shows "\<exists>q. scan_value (quote_env raw @ post) = (q, length (quote_env raw)) \<and> decode q (quote_env raw) = raw"
  using quote_env_cases [of raw]
proof
  assume "quote_env raw = double_quoted raw"
  then show ?thesis using scan_double decode_double by metis
next
  assume "quote_env raw = raw \<and> raw \<noteq> [] \<and>
    set raw \<inter> {nl, cr, CHR '' '', CHR 0x09, CHR ''#'', CHR 0x22, CHR 0x27} = {}"
  then show ?thesis using scan_bare [OF _ _ assms, of raw] by (auto simp: decode_def)
qed

lemma scan_new_value:
  assumes "scan_value r = (q, n)" and "r = [] \<or> \<not> blank (hd r) \<and> hd r \<noteq> CHR ''#''"
  shows "\<exists>q'. scan_value (new_value q raw @ drop n r) = (q', length (new_value q raw)) \<and>
              decode q' (new_value q raw) = raw"
proof (cases q)
  case Q_Single
  have "scan_value ([CHR 0x27] @ raw @ [CHR 0x27] @ post) = (Q_Single, Suc (Suc (length raw)))"
    if "CHR 0x27 \<notin> set raw" for post
    using single_len_plain [OF that, of post] by (simp add: scan_value_def)
  then show ?thesis
    using scan_double [of raw] decode_double [of raw] Q_Single by (auto simp: new_value_def decode_def)
next
  case Q_Double
  then show ?thesis using scan_double [of raw] decode_double [of raw] by (auto simp: new_value_def)
next
  case Q_None
  have "plain_tail False (drop n r)"
  proof (cases r)
    case (Cons c s)
    with assms Q_None have "n = plain_len True 0 0 r"
      by (auto simp: scan_value_def split: if_splits)
    with plain_len_rest [of 0 0 True r] assms(2) Cons show ?thesis by auto
  qed (use assms in simp)
  with scan_quote_env Q_None show ?thesis by (auto simp: new_value_def)
qed


section \<open>Lines\<close>

definition terminated :: "string \<Rightarrow> bool" where
  "terminated l \<longleftrightarrow> l \<noteq> [] \<and> last l = nl \<and> nl \<notin> set (butlast l)"

text \<open>A document as its lines: every line but the last ends with a newline and holds no other one.\<close>

fun doc_lines :: "string list \<Rightarrow> bool" where
  "doc_lines [] = True"
| "doc_lines [l] = (l \<noteq> [] \<and> nl \<notin> set (butlast l))"
| "doc_lines (l # l' # ls) = (terminated l \<and> doc_lines (l' # ls))"

lemma split_inclusive_concat: "concat (split_inclusive s) = s"
  by (induction s) (auto split: list.splits)

lemma split_inclusive_Nil [simp]: "split_inclusive s = [] \<longleftrightarrow> s = []"
  by (cases s) (auto split: list.splits)

lemma split_inclusive_terminated: "nl \<notin> set b \<Longrightarrow> split_inclusive (b @ nl # s) = (b @ [nl]) # split_inclusive s"
  by (induction b) auto

lemma split_inclusive_single: "nl \<notin> set b \<Longrightarrow> b \<noteq> [] \<Longrightarrow> split_inclusive b = [b]"
proof (induction b)
  case (Cons c b)
  then show ?case by (cases b) auto
qed simp

lemma terminated_iff: "terminated l \<longleftrightarrow> (\<exists>b. l = b @ [nl] \<and> nl \<notin> set b)"
  unfolding terminated_def by (metis append_butlast_last_id butlast_snoc last_snoc snoc_eq_iff_butlast)

lemma doc_lines_Cons:
  "doc_lines (l # ls) \<longleftrightarrow>
   (if ls = [] then l \<noteq> [] \<and> nl \<notin> set (butlast l) else terminated l \<and> doc_lines ls)"
  by (cases ls) auto

lemma split_inclusive_doc: "doc_lines (split_inclusive s)"
proof (induction s)
  case (Cons c s)
  show ?case
  proof (cases "split_inclusive s")
    case Nil
    then show ?thesis by simp
  next
    case (Cons l ls)
    with \<open>doc_lines (split_inclusive s)\<close> show ?thesis
      by (auto simp: doc_lines_Cons terminated_def split: if_splits)
  qed
qed simp

lemma doc_split_inclusive: "doc_lines ls \<Longrightarrow> split_inclusive (concat ls) = ls"
proof (induction ls)
  case (Cons l ls)
  show ?case
  proof (cases "ls = []")
    case True
    with Cons.prems have l: "l \<noteq> []" "nl \<notin> set (butlast l)" by auto
    show ?thesis
    proof (cases "last l = nl")
      case eq: True
      with l have "l = butlast l @ [nl]" by (metis append_butlast_last_id)
      then show ?thesis using True split_inclusive_terminated [OF l(2), of "[]"] by simp
    next
      case False
      with l have "nl \<notin> set l" by (metis append_butlast_last_id insert_iff list.set(2) set_append Un_iff empty_iff list.set(1))
      with True l(1) show ?thesis by (simp add: split_inclusive_single)
    qed
  next
    case False
    with Cons.prems obtain b where b: "l = b @ [nl]" "nl \<notin> set b" and ls: "doc_lines ls"
      by (auto simp: doc_lines_Cons terminated_iff)
    then show ?thesis using Cons.IH [OF ls] split_inclusive_terminated [of b "concat ls"] by simp
  qed
qed simp

lemma doc_lines_filter: "doc_lines ls \<Longrightarrow> doc_lines (filter P ls)"
proof (induction ls)
  case (Cons l ls)
  then have "doc_lines (filter P ls)" by (auto simp: doc_lines_Cons split: if_splits)
  moreover have "terminated l" if "filter P ls \<noteq> []"
    using Cons.prems that by (auto simp: doc_lines_Cons split: if_splits)
  moreover have "l \<noteq> [] \<and> nl \<notin> set (butlast l)"
    using Cons.prems by (auto simp: doc_lines_Cons terminated_def split: if_splits)
  ultimately show ?case by (auto simp: doc_lines_Cons)
qed simp

lemma split_line_end_crlf [simp]: "split_line_end (c @ [cr, nl]) = (c, [cr, nl])"
  using strip_suffix_Some [of "[nl]" "c @ [cr, nl]" "c @ [cr]"] strip_suffix_Some [of "[cr]" "c @ [cr]" c]
  by (simp add: split_line_end_def)

lemma split_line_end_lf: "\<forall>d. c \<noteq> d @ [cr] \<Longrightarrow> split_line_end (c @ [nl]) = (c, [nl])"
  using strip_suffix_Some [of "[nl]" "c @ [nl]" c]
  by (simp add: split_line_end_def strip_suffix_None [THEN iffD2])

lemma split_line_end_bare: "\<forall>d. c \<noteq> d @ [nl] \<Longrightarrow> split_line_end c = (c, [])"
  by (simp add: split_line_end_def strip_suffix_None [THEN iffD2])

lemma split_line_end_cases:
  obtains (crlf) c where "l = c @ [cr, nl]" "split_line_end l = (c, [cr, nl])"
  | (lf) c where "l = c @ [nl]" "split_line_end l = (c, [nl])" "\<forall>d. c \<noteq> d @ [cr]"
  | (bare) "split_line_end l = (l, [])" "\<forall>d. l \<noteq> d @ [nl]"
proof (cases "\<exists>s. l = s @ [nl]")
  case False
  then show ?thesis using bare split_line_end_bare by blast
next
  case True
  then obtain s where l: "l = s @ [nl]" by blast
  show ?thesis
  proof (cases "\<exists>c. s = c @ [cr]")
    case False
    then show ?thesis using lf [OF l] l split_line_end_lf by blast
  next
    case True
    then obtain c where "l = c @ [cr, nl]" using l by auto
    then show ?thesis using crlf by simp
  qed
qed


section \<open>Editing one line\<close>

text \<open>
  The lines the editor handles badly: a name whose value is empty and followed by a comment.  The scanner takes
  the value to end at the comment, so a new value is written directly before the comment sign.
\<close>

definition comment_for_value :: "string \<Rightarrow> string \<Rightarrow> bool" where
  "comment_for_value key line =
     (case parse_head (fst (split_line_end line)) of
        Some (k, c # _) \<Rightarrow> k = key \<and> c = CHR ''#''
      | _ \<Rightarrow> False)"

lemma double_quoted_ends: "double_quoted raw \<noteq> []" "hd (double_quoted raw) = CHR 0x22"
  "last (double_quoted raw) = CHR 0x22" "nl \<notin> set (double_quoted raw)"
  by (simp_all add: double_quoted_def escape_double_no_line_end)

lemma quote_env_ends:
  "quote_env raw \<noteq> []" "\<not> blank (hd (quote_env raw))" "hd (quote_env raw) \<noteq> CHR ''#''"
  "last (quote_env raw) \<noteq> cr" "nl \<notin> set (quote_env raw)"
proof -
  have m: "hd raw \<in> set raw \<and> last raw \<in> set raw" if "raw \<noteq> []" using that by simp
  show "quote_env raw \<noteq> []" "nl \<notin> set (quote_env raw)"
    using quote_env_cases [of raw] double_quoted_ends [of raw] by auto
  show "\<not> blank (hd (quote_env raw))" "hd (quote_env raw) \<noteq> CHR ''#''" "last (quote_env raw) \<noteq> cr"
    using quote_env_cases [of raw] double_quoted_ends [of raw] m
    by (auto simp: blank_def simp del: hd_in_set last_in_set)
qed

lemma new_value_ends:
  "new_value q raw \<noteq> []" "\<not> blank (hd (new_value q raw))" "hd (new_value q raw) \<noteq> CHR ''#''"
  "last (new_value q raw) \<noteq> cr" "nl \<notin> set (new_value q raw)"
  using quote_env_ends [of raw] double_quoted_ends [of raw]
  by (cases q; auto simp: new_value_def blank_def)+

lemma parse_line_head:
  assumes "parse_head (p @ r) = Some (k, r)" and "scan_value r = (q, n)"
  shows "parse_line (p @ r) = Some \<lparr>as_key = k, value_span = (length p, length p + n), as_quote = q\<rparr>"
  using assms by (simp add: parse_line_def Let_def)

lemma line_assignment_head:
  assumes "split_line_end l = (p @ r, e)" "parse_head (p @ r) = Some (k, r)" "scan_value r = (q, n)"
  shows "line_assignment l = Some (k, decode q (take n r))"
  using assms parse_line_head [OF assms(2,3)]
  by (cases q) (simp_all add: line_assignment_def value_from_assignment_def decode_def Let_def)

lemma line_assignment_None: "line_assignment l = None \<longleftrightarrow> parse_line (fst (split_line_end l)) = None"
  by (simp add: line_assignment_def Let_def)

lemma set_line_other:
  "set_line key raw l = None \<longleftrightarrow> (\<forall>v. line_assignment l \<noteq> Some (key, v))"
  by (auto simp: set_line_def line_assignment_def split: prod.splits option.splits if_splits)

text \<open>A line is its content and its ending.\<close>

definition line_parts :: "string \<Rightarrow> string \<Rightarrow> bool" where
  "line_parts c e \<longleftrightarrow> nl \<notin> set c \<and> (e = [] \<or> e = [cr, nl] \<or> e = [nl] \<and> (c = [] \<or> last c \<noteq> cr))"

lemma line_parts_split: "line_parts c e \<Longrightarrow> split_line_end (c @ e) = (c, e)"
proof -
  assume *: "line_parts c e"
  then consider "e = []" | "e = [cr, nl]" | "e = [nl]" "c = [] \<or> last c \<noteq> cr" by (auto simp: line_parts_def)
  then show ?thesis
  proof cases
    case 1
    with * have "\<forall>d. c \<noteq> d @ [nl]" by (auto simp: line_parts_def)
    with 1 show ?thesis by (simp add: split_line_end_bare)
  next
    case 3
    then have "\<forall>d. c \<noteq> d @ [cr]" by auto
    with 3 show ?thesis by (simp add: split_line_end_lf)
  qed simp
qed

lemma split_line_parts:
  assumes "split_line_end l = (c, e)" "nl \<notin> set (butlast l)"
  shows "l = c @ e \<and> line_parts c e"
proof (cases l rule: split_line_end_cases)
  case bare
  then have "nl \<notin> set l" using assms(2) by (cases l rule: rev_cases) auto
  with bare assms(1) show ?thesis by (simp add: line_parts_def)
next
  case (lf c')
  then have "c' = [] \<or> last c' \<noteq> cr" by (cases c' rule: rev_cases) auto
  with lf assms show ?thesis by (auto simp: line_parts_def butlast_append)
qed (use assms in \<open>auto simp: line_parts_def butlast_append\<close>)

lemma line_parts_replaced:
  assumes "line_parts (p @ r) e" "new \<noteq> []" "last new \<noteq> cr" "nl \<notin> set new"
  shows "line_parts (p @ new @ drop n r) e"
proof -
  have "nl \<notin> set (p @ new @ drop n r)"
    using assms(1,4) by (auto simp: line_parts_def dest: in_set_dropD)
  moreover have "last (p @ new @ drop n r) \<noteq> cr" if "p @ r = [] \<or> last (p @ r) \<noteq> cr"
    using assms(2,3) that by (cases "n < length r") (auto simp: last_drop last_append split: if_splits)
  ultimately show ?thesis using assms(1,2) by (auto simp: line_parts_def)
qed

lemma line_parts_shape:
  assumes "line_parts c e" "c \<noteq> []"
  shows "c @ e \<noteq> []" "nl \<notin> set (butlast (c @ e))" "last (c @ e) = nl \<longleftrightarrow> e \<noteq> []"
proof -
  have "last c \<in> set c" using assms(2) by simp
  then show "c @ e \<noteq> []" "nl \<notin> set (butlast (c @ e))" "last (c @ e) = nl \<longleftrightarrow> e \<noteq> []"
    using assms by (auto simp: line_parts_def butlast_append simp del: last_in_set dest: in_set_butlastD)
qed

lemma BOM_eq [simp]: "CHR ''='' \<notin> set BOM" "nl \<notin> set BOM" "cr \<notin> set BOM" "BOM \<noteq> []"
  by (simp_all add: BOM_def)

lemma bom_frame: "c \<notin> set BOM \<Longrightarrow> starts_with BOM (a @ c # v) \<longleftrightarrow> starts_with BOM a"
  by (auto simp: BOM_def starts_with_iff append_eq_Cons_conv Cons_eq_append_conv)

lemma set_line_assigns:
  assumes "set_line key raw l = Some l'" and "\<not> comment_for_value key l" and "nl \<notin> set (butlast l)"
  shows "line_assignment l' = Some (key, raw)" and "\<not> comment_for_value k' l'"
    and "starts_with BOM l' \<longleftrightarrow> starts_with BOM l"
    and "l' \<noteq> [] \<and> nl \<notin> set (butlast l') \<and> (last l' = nl \<longleftrightarrow> last l = nl) \<and> (last l' = cr \<longrightarrow> last l = cr)"
proof -
  obtain c e where ce: "split_line_end l = (c, e)" by fastforce
  with assms(1) obtain r where h: "parse_head c = Some (key, r)"
    by (auto simp: set_line_def parse_line_def Let_def split: option.splits prod.splits if_splits)
  from parse_head_frame [OF h] obtain p where p: "c = p @ r"
    "\<And>w. w = [] \<or> \<not> blank (hd w) \<Longrightarrow> parse_head (p @ w) = Some (key, w)" "r = [] \<or> \<not> blank (hd r)" "CHR ''='' \<in> set p"
    by metis
  obtain q n where sc: "scan_value r = (q, n)" by fastforce
  define new where "new = new_value q raw"
  have l': "l' = p @ new @ drop n r @ e"
    using assms(1) parse_line_head [OF p(2) [OF p(3)] sc]
    by (auto simp: set_line_def ce p(1) replace_value_def new_def)
  have "hd r \<noteq> CHR ''#''" if "r \<noteq> []"
    using assms(2) that by (cases r) (auto simp: comment_for_value_def ce h)
  with p(3) scan_new_value [OF sc, of raw] obtain q' where
    q': "scan_value (new @ drop n r) = (q', length new)" "decode q' new = raw"
    unfolding new_def by blast
  have l: "l = (p @ r) @ e" "line_parts (p @ r) e" using split_line_parts [OF ce assms(3)] by (simp_all add: p(1))
  have parts: "line_parts (p @ new @ drop n r) e"
    using line_parts_replaced [OF l(2)] new_value_ends [of q raw] by (simp add: new_def)
  from line_parts_split [OF this] have ends: "split_line_end l' = (p @ new @ drop n r, e)" by (simp add: l')
  have hd: "\<not> blank (hd (new @ drop n r))" "hd (new @ drop n r) \<noteq> CHR ''#''"
    using new_value_ends [of q raw] by (simp_all add: new_def)
  from line_assignment_head [OF ends p(2) q'(1)] hd q'(2)
  show "line_assignment l' = Some (key, raw)" by simp
  show "\<not> comment_for_value k' l'"
    using p(2) [of "new @ drop n r"] hd
    by (auto simp: comment_for_value_def ends split: list.splits)
  have ne: "p @ new @ drop n r \<noteq> []" using new_value_ends(1) by (simp add: new_def)
  have "p @ r \<noteq> []" using h p(1) by (auto simp: parse_head_def)
  then have "last (p @ new @ drop n r) = cr \<Longrightarrow> last (p @ r) = cr"
    using new_value_ends [of q raw] by (cases "n < length r") (auto simp: new_def last_drop last_append)
  with line_parts_shape(3) [OF l(2) \<open>p @ r \<noteq> []\<close>] line_parts_shape [OF parts ne]
  show "l' \<noteq> [] \<and> nl \<notin> set (butlast l') \<and> (last l' = nl \<longleftrightarrow> last l = nl) \<and> (last l' = cr \<longrightarrow> last l = cr)"
    unfolding l(1) by (cases "e = []") (simp_all add: l' new_value_ends new_def)
  from p(4) obtain a b where "p = a @ CHR ''='' # b" by (meson split_list)
  then show "starts_with BOM l' \<longleftrightarrow> starts_with BOM l"
    by (simp add: l' l(1) bom_frame)
qed


section \<open>The editor as a map\<close>

lemma doc_lines_iff:
  "doc_lines ls \<longleftrightarrow>
   ls = [] \<or> (\<forall>l \<in> set (butlast ls). terminated l) \<and> last ls \<noteq> [] \<and> nl \<notin> set (butlast (last ls))"
  by (induction ls rule: doc_lines.induct) auto

lemma doc_lines_member: "doc_lines ls \<Longrightarrow> l \<in> set ls \<Longrightarrow> l \<noteq> [] \<and> nl \<notin> set (butlast l)"
  by (induction ls rule: doc_lines.induct) (auto simp: terminated_def)

lemma doc_lines_replace:
  assumes "doc_lines (b @ l # a)" "l' \<noteq> []" "nl \<notin> set (butlast l')" "last l' = nl \<longleftrightarrow> last l = nl"
  shows "doc_lines (b @ l' # a)"
  using assms by (induction b) (auto simp: doc_lines_Cons terminated_def)

lemma doc_lines_bom:
  "doc_lines ls \<Longrightarrow> starts_with BOM (concat ls) \<longleftrightarrow> ls \<noteq> [] \<and> starts_with BOM (hd ls)"
proof (cases ls)
  case (Cons l ls')
  moreover assume "doc_lines ls"
  ultimately show ?thesis
    by (cases "ls' = []") (auto simp: doc_lines_Cons terminated_iff bom_frame)
qed (simp add: starts_with_def BOM_def)

lemma split_bom_lines:
  assumes "b = BOM \<or> b = []" "doc_lines ls" "\<forall>l \<in> set ls. \<not> starts_with BOM l"
  shows "split_inclusive (snd (split_bom (b @ concat ls))) = ls"
proof -
  have "snd (split_bom (b @ concat ls)) = concat ls"
  proof (cases "b = []")
    case True
    have "\<not> starts_with BOM (concat ls)"
      using doc_lines_bom [OF assms(2)] assms(3) by (cases ls) auto
    with True show ?thesis by (simp add: split_bom_def strip_prefix_None [THEN iffD2])
  qed (use assms(1) in \<open>simp add: split_bom_def\<close>)
  then show ?thesis using doc_split_inclusive [OF assms(2)] by simp
qed

lemma split_bom_fst: "fst (split_bom s) = BOM \<or> fst (split_bom s) = []"
  by (simp add: split_bom_def split: option.split)

definition lines_map :: "string list \<Rightarrow> string \<rightharpoonup> string" where
  "lines_map ls k = fold (get_step k) ls None"

lemma env_get_lines: "env_get s = lines_map (split_inclusive (snd (split_bom s)))"
  by (auto simp: env_get_def lines_map_def)

lemma get_step_other: "\<forall>v. line_assignment l \<noteq> Some (k, v) \<Longrightarrow> get_step k l s = s"
  by (auto simp: get_step_def split: option.split)

lemma get_step_same: "line_assignment l = Some (k, v) \<Longrightarrow> get_step k' l s = (if k' = k then Some v else s)"
  by (simp add: get_step_def)

lemma fold_get_other: "\<forall>l \<in> set ls. \<forall>v. line_assignment l \<noteq> Some (k, v) \<Longrightarrow> fold (get_step k) ls s = s"
  by (induction ls arbitrary: s) (simp_all add: get_step_other)

lemma lines_map_replace:
  assumes "line_assignment l = Some (key, v)" "line_assignment l' = Some (key, raw)"
    and "\<forall>x \<in> set a. \<forall>v. line_assignment x \<noteq> Some (key, v)"
  shows "lines_map (b @ l' # a) = (lines_map (b @ l # a))(key \<mapsto> raw)"
proof
  fix k
  show "lines_map (b @ l' # a) k = ((lines_map (b @ l # a))(key \<mapsto> raw)) k"
    using fold_get_other [OF assms(3)]
    by (simp add: lines_map_def get_step_same [OF assms(1)] get_step_same [OF assms(2)])
qed

lemma replace_rev_None: "replace_rev key raw rs = None \<longleftrightarrow> (\<forall>l \<in> set rs. set_line key raw l = None)"
  by (induction rs) (auto split: option.splits)

lemma replace_rev_Some:
  "replace_rev key raw rs = Some rs' \<Longrightarrow>
   \<exists>a l b l'. rs = a @ l # b \<and> rs' = a @ l' # b \<and> set_line key raw l = Some l' \<and>
              (\<forall>x \<in> set a. set_line key raw x = None)"
proof (induction rs arbitrary: rs')
  case (Cons x rs)
  show ?case
  proof (cases "set_line key raw x")
    case None
    with Cons obtain a l b l' where "rs = a @ l # b" "rs' = x # a @ l' # b" "set_line key raw l = Some l'"
      "\<forall>x \<in> set a. set_line key raw x = None" by auto
    with None show ?thesis by (intro exI [of _ "x # a"]) auto
  next
    case (Some x')
    with Cons.prems show ?thesis
      by (intro exI [of _ "[]"] exI [of _ x] exI [of _ rs] exI [of _ x']) auto
  qed
qed simp

text \<open>The documents on which the editor is exact, and the names it can write.\<close>

definition editable_lines :: "string list \<Rightarrow> string list \<Rightarrow> bool" where
  "editable_lines keys ls \<longleftrightarrow>
     doc_lines ls \<and>
     (\<forall>l \<in> set ls. \<not> starts_with BOM l \<and> (\<forall>k \<in> set keys. \<not> comment_for_value k l)) \<and>
     (ls = [] \<or> last (last ls) \<noteq> cr)"

definition editable :: "string list \<Rightarrow> string \<Rightarrow> bool" where
  "editable keys original =
     (let ls = split_inclusive (snd (split_bom original)) in
      list_all (\<lambda>l. \<not> starts_with BOM l \<and> list_all (\<lambda>k. \<not> comment_for_value k l) keys) ls \<and>
      \<not> ends_with [cr] original)"

definition valid_key :: "string \<Rightarrow> bool" where
  "valid_key k \<longleftrightarrow> k \<noteq> [] \<and> list_all key_byte k \<and> nl \<notin> set k \<and> \<not> starts_with BOM k"

lemma replace_exact:
  assumes ok: "editable_lines keys ls" and key: "key \<in> set keys" and r: "replace_rev key raw (rev ls) = Some rs'"
  shows "editable_lines keys (rev rs') \<and> lines_map (rev rs') = (lines_map ls)(key \<mapsto> raw)"
proof -
  from replace_rev_Some [OF r] obtain a l b l' where
    *: "rev ls = a @ l # b" "rs' = a @ l' # b" "set_line key raw l = Some l'"
    "\<forall>x \<in> set a. set_line key raw x = None" by blast
  have ls: "ls = rev b @ l # rev a" using arg_cong [OF *(1), of rev] by simp
  have l: "\<not> comment_for_value key l" "nl \<notin> set (butlast l)" "\<not> starts_with BOM l"
    using ok key doc_lines_member [of ls l] by (auto simp: ls editable_lines_def)
  note new = set_line_assigns [OF *(3) l(1,2)]
  obtain v where v: "line_assignment l = Some (key, v)"
    using *(3) set_line_other [of key raw l] by auto
  have "\<forall>x \<in> set (rev a). \<forall>v. line_assignment x \<noteq> Some (key, v)"
    using *(4) by (auto simp: set_line_other)
  from lines_map_replace [OF v new(1) this] have m: "lines_map (rev rs') = (lines_map ls)(key \<mapsto> raw)"
    by (simp add: *(2) ls)
  have "doc_lines (rev b @ l' # rev a)"
    using doc_lines_replace [of "rev b" l "rev a" l'] ok new(4) by (auto simp: editable_lines_def ls)
  then have "editable_lines keys (rev rs')"
    using ok new(2-4) l(3) by (auto simp: editable_lines_def ls *(2))
  with m show ?thesis by blast
qed


lemma valid_key_head: "valid_key k \<Longrightarrow> \<not> blank (hd w) \<Longrightarrow> w \<noteq> [] \<Longrightarrow> parse_head (k @ CHR ''='' # w) = Some (k, w)"
proof -
  assume k: "valid_key k" and w: "\<not> blank (hd w)" "w \<noteq> []"
  have kb: "\<forall>c \<in> set k. key_byte c \<and> \<not> blank c" "k \<noteq> []"
    using k by (auto simp: valid_key_def list_all_iff key_byte_def)
  have skip: "skip_export k = k"
  proof -
    have "\<not> blank c" if "strip_prefix ''export'' k = Some (c # r)" for c r
      using that kb by (auto simp: strip_prefix_Some)
    then show ?thesis by (simp add: skip_export_def split: option.split list.split)
  qed
  have d: "dropWhile blank k = k" using kb by (cases k) auto
  have t: "takeWhile key_byte k = k" "dropWhile key_byte k = []" using kb by (auto simp: takeWhile_eq_all_conv)
  have "head_rest k = []" by (simp add: head_rest_def d skip t del: dropWhile_eq_Nil_conv)
  moreover have "dropWhile blank w = w" using w by (cases w) auto
  moreover have "hd k \<noteq> CHR ''#''" using kb by (metis delim(3) list.set_sel(1))
  ultimately show ?thesis
    using parse_head_closed [of k w] kb(2) d skip t by (cases k) auto
qed

lemma append_new_line:
  assumes "valid_key k" and "newline = [nl] \<or> newline = [cr, nl]"
    and l: "l = k @ ''='' @ quote_env raw @ newline"
  shows "line_assignment l = Some (k, raw)"
    and "\<not> comment_for_value k' l" "terminated l" "\<not> starts_with BOM l"
proof -
  let ?q = "quote_env raw" and ?p = "k @ ''=''"
  have parts: "line_parts (?p @ ?q) newline"
    using assms quote_env_ends [of raw] by (auto simp: line_parts_def valid_key_def)
  from line_parts_split [OF this] have ends: "split_line_end l = (?p @ ?q, newline)" by (simp add: l)
  have h: "parse_head (?p @ ?q) = Some (k, ?q)"
    using valid_key_head [OF assms(1), of ?q] quote_env_ends by simp
  obtain q where "scan_value ?q = (q, length ?q)" "decode q ?q = raw"
    using scan_quote_env [of "[]" raw] by auto
  then show "line_assignment l = Some (k, raw)" using line_assignment_head [OF ends h] by simp
  show "\<not> comment_for_value k' l"
    using h quote_env_ends [of raw] by (auto simp: comment_for_value_def ends split: list.splits)
  show "terminated l"
    using line_parts_shape [OF parts] assms(2) by (auto simp: terminated_def l)
  show "\<not> starts_with BOM l" using assms(1) by (simp add: l bom_frame valid_key_def)
qed

lemma finish_line:
  assumes "l \<noteq> []" "nl \<notin> set (butlast l)" "last l \<noteq> nl" "last l \<noteq> cr"
    and "newline = [nl] \<or> newline = [cr, nl]"
  shows "split_line_end (l @ newline) = (l, newline)" "split_line_end l = (l, [])" "terminated (l @ newline)"
proof -
  have "nl \<notin> set l" using assms(1-3) by (cases l rule: rev_cases) auto
  then have *: "line_parts l newline" "line_parts l []" using assms(4,5) by (auto simp: line_parts_def)
  show "split_line_end (l @ newline) = (l, newline)" "split_line_end l = (l, [])"
    using line_parts_split [OF *(1)] line_parts_split [OF *(2)] by simp_all
  show "terminated (l @ newline)" using \<open>nl \<notin> set l\<close> assms(5) by (auto simp: terminated_def butlast_append)
qed

text \<open>Completing an unfinished last line leaves what the document says.\<close>

lemma complete_last_line:
  assumes "editable_lines keys ls" "ls \<noteq> []" "newline = [nl] \<or> newline = [cr, nl]"
    and "l = last ls @ (if ends_with [nl] (last ls) then [] else newline)"
  shows "terminated l" "line_assignment l = line_assignment (last ls)"
    "comment_for_value k l = comment_for_value k (last ls)" "starts_with BOM l = starts_with BOM (last ls)"
proof -
  have ok: "last ls \<noteq> []" "nl \<notin> set (butlast (last ls))" "last (last ls) \<noteq> cr"
    using assms(1,2) doc_lines_member [of ls "last ls"] by (auto simp: editable_lines_def)
  have goals: "terminated l \<and> line_assignment l = line_assignment (last ls) \<and>
    comment_for_value k l = comment_for_value k (last ls) \<and> starts_with BOM l = starts_with BOM (last ls)"
  proof (cases "last (last ls) = nl")
    case True
    then have "ends_with [nl] (last ls)" unfolding ends_with_iff using ok(1) by (metis append_butlast_last_id)
    then show ?thesis using assms(4) ok True by (simp add: terminated_def)
  next
    case False
    then have "\<not> ends_with [nl] (last ls)" by (auto simp: ends_with_iff)
    then have l: "l = last ls @ newline" using assms(4) by simp
    note f = finish_line [OF ok(1,2) False ok(3) assms(3)]
    have "starts_with BOM l = starts_with BOM (last ls)"
      using assms(3) by (auto simp: l bom_frame)
    with f show ?thesis by (simp add: l line_assignment_def comment_for_value_def)
  qed
  then show "terminated l" "line_assignment l = line_assignment (last ls)"
    "comment_for_value k l = comment_for_value k (last ls)" "starts_with BOM l = starts_with BOM (last ls)"
    by blast+
qed

lemma lines_map_snoc: "lines_map (ls @ [l]) k = get_step k l (lines_map ls k)"
  by (simp add: lines_map_def)

lemma append_exact:
  assumes ok: "editable_lines keys ls" and key: "valid_key key" and n: "newline = [nl] \<or> newline = [cr, nl]"
  shows "editable_lines keys (append_line newline key raw ls) \<and>
         lines_map (append_line newline key raw ls) = (lines_map ls)(key \<mapsto> raw)"
proof -
  define new where "new = key @ ''='' @ quote_env raw @ newline"
  define old where "old = (if ls = [] then [] else butlast ls @ [last ls @ (if ends_with [nl] (last ls) then [] else newline)])"
  have app: "append_line newline key raw ls = old @ [new]" by (simp add: append_line_def old_def new_def)
  note new = append_new_line [OF key n new_def]
  have old: "lines_map old = lines_map ls" "\<forall>l \<in> set old. terminated l \<and> \<not> starts_with BOM l \<and> (\<forall>k \<in> set keys. \<not> comment_for_value k l)"
  proof -
    show "lines_map old = lines_map ls"
    proof (cases "ls = []")
      case False
      then have "lines_map ls k = get_step k (last ls) (lines_map (butlast ls) k)" for k
        using lines_map_snoc [of "butlast ls" "last ls" k] by simp
      with False complete_last_line(2) [OF ok False n refl] show ?thesis
        by (auto simp: old_def lines_map_snoc get_step_def simp del: append.simps)
    qed (simp add: old_def)
    show "\<forall>l \<in> set old. terminated l \<and> \<not> starts_with BOM l \<and> (\<forall>k \<in> set keys. \<not> comment_for_value k l)"
    proof (cases "ls = []")
      case False
      then have "set old = insert (last old) (set (butlast ls))" by (simp add: old_def)
      moreover have "last old = last ls @ (if ends_with [nl] (last ls) then [] else newline)"
        using False by (simp add: old_def)
      ultimately show ?thesis
        using ok complete_last_line [OF ok False n] False
        by (auto simp: editable_lines_def doc_lines_iff dest: in_set_butlastD)
    qed (simp add: old_def)
  qed
  have "doc_lines (old @ [new])" using old(2) new(3) by (simp add: doc_lines_iff terminated_def)
  then have "editable_lines keys (old @ [new])"
    using old(2) new(2-4) by (auto simp: editable_lines_def terminated_def)
  moreover have "lines_map (old @ [new]) = (lines_map ls)(key \<mapsto> raw)"
    by (rule ext) (simp add: lines_map_snoc old(1) get_step_same [OF new(1)])
  ultimately show ?thesis by (simp add: app)
qed

definition assign :: "(value \<Rightarrow> string) \<Rightarrow> KV \<Rightarrow> (string \<rightharpoonup> string) \<Rightarrow> (string \<rightharpoonup> string)" where
  "assign to_string kv m = m(kv_path kv \<mapsto> kv_raw_value to_string (kv_value kv))"

lemma set_one_exact:
  assumes "editable_lines keys ls" "valid_key (kv_path kv)" "kv_path kv \<in> set keys"
    "newline = [nl] \<or> newline = [cr, nl]"
  shows "editable_lines keys (set_one to_string newline kv ls) \<and>
         lines_map (set_one to_string newline kv ls) =
           assign to_string kv (lines_map ls)"
  using replace_exact [OF assms(1,3)] append_exact [OF assms(1,2,4)]
  by (auto simp: set_one_def assign_def Let_def split: option.split)

lemma set_all_exact:
  "editable_lines keys ls \<Longrightarrow> list_all (\<lambda>kv. valid_key (kv_path kv) \<and> kv_path kv \<in> set keys) kvs \<Longrightarrow>
   newline = [nl] \<or> newline = [cr, nl] \<Longrightarrow>
   editable_lines keys (fold (set_one to_string newline) kvs ls) \<and>
   lines_map (fold (set_one to_string newline) kvs ls) =
     fold (assign to_string) kvs (lines_map ls)"
proof (induction kvs arbitrary: ls)
  case (Cons kv kvs)
  then show ?case using set_one_exact [of keys ls kv newline to_string] by simp
qed simp

lemma editable_split: "editable keys s \<Longrightarrow> editable_lines keys (split_inclusive (snd (split_bom s)))"
proof -
  assume e: "editable keys s"
  define body where "body = snd (split_bom s)"
  have s: "s = fst (split_bom s) @ body"
    by (auto simp: body_def split_bom_def strip_prefix_Some split: option.split)
  have c: "concat (split_inclusive body) = body" by (rule split_inclusive_concat)
  have "last (last ls) = last (concat ls)" if "ls \<noteq> []" "doc_lines ls" for ls
  proof -
    have "concat ls = concat (butlast ls) @ last ls"
      using that(1) by (metis append_butlast_last_id append_Nil2 concat.simps concat_append)
    with that show ?thesis by (simp add: doc_lines_iff)
  qed
  then have "last (last (split_inclusive body)) = last s" if "body \<noteq> []"
    using that split_inclusive_doc [of body] c s by (metis last_append split_inclusive_Nil)
  moreover have "last s \<noteq> cr" if "body \<noteq> []"
    using e that s unfolding editable_def Let_def ends_with_iff
    by (metis append_butlast_last_id append_is_Nil_conv)
  ultimately show ?thesis
    using e split_inclusive_doc [of body]
    by (auto simp: editable_lines_def editable_def Let_def list_all_iff body_def)
qed

lemma env_set_exact:
  assumes "editable (map kv_path kvs) s" "list_all (valid_key \<circ> kv_path) kvs"
  shows "env_get (env_set to_string s kvs) =
         fold (assign to_string) kvs (env_get s)"
proof -
  obtain b body where bb: "split_bom s = (b, body)" by fastforce
  define newline where "newline = (if str_contains [cr, nl] body then [cr, nl] else [nl])"
  have n: "newline = [nl] \<or> newline = [cr, nl]" by (simp add: newline_def)
  have "list_all (\<lambda>kv. valid_key (kv_path kv) \<and> kv_path kv \<in> set (map kv_path kvs)) kvs"
    using assms(2) by (auto simp: list_all_iff)
  from set_all_exact [OF editable_split [OF assms(1)] this n, of to_string]
  have r: "editable_lines (map kv_path kvs) (fold (set_one to_string newline) kvs (split_inclusive body))"
    "lines_map (fold (set_one to_string newline) kvs (split_inclusive body)) =
     fold (assign to_string) kvs (env_get s)"
    by (simp_all add: bb env_get_lines)
  have "env_set to_string s kvs = b @ concat (fold (set_one to_string newline) kvs (split_inclusive body))"
    by (simp add: env_set_def bb newline_def)
  moreover have "b = BOM \<or> b = []" using split_bom_fst [of s] bb by simp
  ultimately show ?thesis
    using split_bom_lines [of b "fold (set_one to_string newline) kvs (split_inclusive body)"] r
    by (simp add: env_get_lines editable_lines_def)
qed

lemma fold_get_filter:
  "fold (get_step k) (filter (\<lambda>l. \<not> removes keys l) ls) s =
   (if k \<in> set keys then s else fold (get_step k) ls s)"
proof (induction ls arbitrary: s)
  case (Cons l ls)
  have "removes keys l \<longleftrightarrow> (\<exists>k' v. line_assignment l = Some (k', v) \<and> k' \<in> set keys)"
    by (cases "parse_line (fst (split_line_end l))") (auto simp: removes_def line_assignment_def Let_def)
  then show ?case
    using Cons by (cases "line_assignment l") (auto simp: get_step_other get_step_same)
qed simp

lemma env_del_exact:
  assumes "editable [] s"
  shows "env_get (env_del s keys) = env_get s |` (- set keys)"
proof -
  obtain b body where bb: "split_bom s = (b, body)" by fastforce
  let ?ls = "filter (\<lambda>l. \<not> removes keys l) (split_inclusive body)"
  have "doc_lines ?ls" by (rule doc_lines_filter [OF split_inclusive_doc])
  moreover have "\<forall>l \<in> set ?ls. \<not> starts_with BOM l"
    using editable_split [OF assms] by (auto simp: editable_lines_def bb)
  moreover have "b = BOM \<or> b = []" using split_bom_fst [of s] bb by simp
  ultimately have "split_inclusive (snd (split_bom (b @ concat ?ls))) = ?ls"
    by (intro split_bom_lines)
  then show ?thesis
    by (auto simp: env_get_lines env_del_def bb lines_map_def fold_get_filter restrict_map_def)
qed


section \<open>The contract of an assignment store\<close>

text \<open>
  What the agent specifications rely on: a document is read as a map, writing updates it and deleting restricts
  it, on the documents the editor supports.
\<close>

locale assignment_store =
  fixes read :: "'d \<Rightarrow> string \<rightharpoonup> string"
    and "write" :: "'d \<Rightarrow> KV list \<Rightarrow> 'd"
    and remove :: "'d \<Rightarrow> string list \<Rightarrow> 'd"
    and update :: "KV \<Rightarrow> (string \<rightharpoonup> string) \<Rightarrow> (string \<rightharpoonup> string)"
    and supports :: "string list \<Rightarrow> 'd \<Rightarrow> bool"
    and nameable :: "string \<Rightarrow> bool"
  assumes write_map: "supports (map kv_path kvs) d \<Longrightarrow> list_all (nameable \<circ> kv_path) kvs \<Longrightarrow>
      read (write d kvs) = fold update kvs (read d)"
    and remove_map: "supports [] d \<Longrightarrow> read (remove d ks) = read d |` (- set ks)"
    and write_supports: "supports ks d \<Longrightarrow> set (map kv_path kvs) \<subseteq> set ks \<Longrightarrow>
      list_all (nameable \<circ> kv_path) kvs \<Longrightarrow> supports ks (write d kvs)"
    and supports_mono: "supports ks d \<Longrightarrow> set ks' \<subseteq> set ks \<Longrightarrow> supports ks' d"
    and update_key: "update kv m k = (if k = kv_path kv then update kv Map.empty k else m k)"
begin

lemma fold_update_other: "k \<notin> kv_path ` set kvs \<Longrightarrow> fold update kvs m k = m k"
  by (induction kvs arbitrary: m) (auto simp: update_key [of _ _ k])

lemma write_other:
  "supports (map kv_path kvs) d \<Longrightarrow> list_all (nameable \<circ> kv_path) kvs \<Longrightarrow> k \<notin> kv_path ` set kvs \<Longrightarrow>
   read (write d kvs) k = read d k"
  by (simp add: write_map fold_update_other)

text \<open>What an agent specification does: write its settings, then delete those it replaces.\<close>

lemma write_remove:
  assumes "supports ks d" "set (map kv_path kvs) \<subseteq> set ks" "list_all (nameable \<circ> kv_path) kvs"
  shows "read (remove (write d kvs) rs) = fold update kvs (read d) |` (- set rs)"
proof -
  have "supports (map kv_path kvs) d" by (rule supports_mono [OF assms(1,2)])
  moreover have "supports [] (write d kvs)" by (rule supports_mono [OF write_supports [OF assms]]) simp
  ultimately show ?thesis by (simp add: remove_map write_map assms(3))
qed

end

lemma editable_lines_concat:
  assumes "b = BOM \<or> b = []" "editable_lines keys ls"
  shows "editable keys (b @ concat ls)"
proof -
  have ls: "split_inclusive (snd (split_bom (b @ concat ls))) = ls"
    using assms by (intro split_bom_lines) (auto simp: editable_lines_def)
  have "\<not> ends_with [cr] (b @ concat ls)"
  proof (cases "ls = []")
    case True
    then show ?thesis using assms(1) by (auto simp: ends_with_def starts_with_def BOM_def)
  next
    case False
    then have "concat ls = concat (butlast ls) @ last ls" "last ls \<noteq> []" "last (last ls) \<noteq> cr"
      using assms(2) by (metis append_butlast_last_id append_Nil2 concat.simps concat_append)
        (use assms(2) False in \<open>auto simp: editable_lines_def doc_lines_iff\<close>)
    then show ?thesis by (auto simp: ends_with_iff append_eq_append_conv2 dest: arg_cong [of _ _ last] split: if_splits)
  qed
  with ls assms(2) show ?thesis by (auto simp: editable_def editable_lines_def list_all_iff)
qed

lemma editable_mono: "editable keys s \<Longrightarrow> set keys' \<subseteq> set keys \<Longrightarrow> editable keys' s"
  by (auto simp: editable_def Let_def list_all_iff)

lemma env_set_editable:
  assumes "editable keys s" "set (map kv_path kvs) \<subseteq> set keys" "list_all (valid_key \<circ> kv_path) kvs"
  shows "editable keys (env_set to_string s kvs)"
proof -
  obtain b body where bb: "split_bom s = (b, body)" by fastforce
  define newline where "newline = (if str_contains [cr, nl] body then [cr, nl] else [nl])"
  have n: "newline = [nl] \<or> newline = [cr, nl]" by (simp add: newline_def)
  have "list_all (\<lambda>kv. valid_key (kv_path kv) \<and> kv_path kv \<in> set keys) kvs"
    using assms(2,3) by (auto simp: list_all_iff)
  from set_all_exact [OF editable_split [OF assms(1)] this n, of to_string]
  have "editable_lines keys (fold (set_one to_string newline) kvs (split_inclusive body))" by (simp add: bb)
  moreover have "b = BOM \<or> b = []" using split_bom_fst [of s] bb by simp
  ultimately show ?thesis using editable_lines_concat by (simp add: env_set_def bb newline_def)
qed

interpretation env: assignment_store env_get "env_set to_string" env_del "assign to_string" editable valid_key
proof unfold_locales
  fix kv m k
  show "assign to_string kv m k = (if k = kv_path kv then assign to_string kv Map.empty k else m k)"
    by (simp add: assign_def)
qed (use env_set_exact env_del_exact env_set_editable editable_mono in auto)


definition sample_env :: string where
  "sample_env = ''A=1'' @ [nl] @ ''export B = '' @ [CHR 0x27] @ ''x'' @ [CHR 0x27] @ '' # c'' @ [cr, nl] @ ''# end''"

definition sample_kvs :: "KV list" where
  "sample_kvs = [\<lparr>kv_path = ''B'', kv_value = JString [CHR 0x27, CHR 0x22, nl]\<rparr>, \<lparr>kv_path = ''C'', kv_value = JString ''z''\<rparr>]"


text \<open>
  The lines that are not supported: the value of a name that has only a comment is written in front of the
  comment sign without a space, and is read back with the comment.
\<close>

lemma env_comment_swallowed:
  "env_get (env_set (\<lambda>_. []) ''KEY= # note'' [\<lparr>kv_path = ''KEY'', kv_value = JString ''v''\<rparr>]) ''KEY'' = Some ''v# note''"
  by code_simp

end
