(* ===== verification/Catalog.thy ===== *)
theory Catalog
  imports Server_Prelude "HOL-Library.Char_ord" "HOL-Library.List_Lexorder" "HOL-Library.Product_Lexorder"
    "HOL-Library.Option_ord" "HOL-Library.Multiset"
begin

text \<open>
  The model catalog of the agent-wiring crate, \<open>crates/agent-wiring/src/sync/catalog.rs\<close>: the tier lookup, the
  canonical text of a catalog and its SHA-256 digest on 32-bit words.  The lemmas show that the digest is taken of
  a text that stands for the models and not for their order.
\<close>

unbundle bit_operations_syntax

section \<open>Models\<close>

record CatalogModel =
  model_id :: string
  model_name :: string
  model_reasoning :: bool
  context_tokens :: "u64 option"

definition first_model :: "CatalogModel list \<Rightarrow> CatalogModel option" where
  "first_model models = (case models of [] \<Rightarrow> None | m # _ \<Rightarrow> Some m)"

definition find_model :: "CatalogModel list \<Rightarrow> string \<Rightarrow> CatalogModel option" where
  "find_model models i = List.find (\<lambda>m. model_id m = i) models"

text \<open>\<open>str::to_lowercase\<close> follows the Unicode tables, which are a parameter.\<close>

definition tier_models ::
  "(string \<Rightarrow> string) \<Rightarrow> CatalogModel list \<Rightarrow>
   (CatalogModel option \<times> CatalogModel option \<times> CatalogModel option) option" where
  "tier_models to_lowercase models =
     (let find = (\<lambda>needle. List.find (\<lambda>m. str_contains needle (to_lowercase (model_id m))) models);
          sonnet = find ''sonnet''; haiku = find ''haiku''; opus = find ''opus'' in
      if sonnet = None \<and> haiku = None \<and> opus = None then None else Some (sonnet, haiku, opus))"

section \<open>SHA-256\<close>

type_synonym u32 = "32 word"

text \<open>The constants of the standard, here in decimal.\<close>

definition sha_k :: "u32 list" where
  "sha_k =
    [1116352408, 1899447441, 3049323471, 3921009573, 961987163, 1508970993, 2453635748,
     2870763221, 3624381080, 310598401, 607225278, 1426881987, 1925078388, 2162078206,
     2614888103, 3248222580, 3835390401, 4022224774, 264347078, 604807628, 770255983,
     1249150122, 1555081692, 1996064986, 2554220882, 2821834349, 2952996808, 3210313671,
     3336571891, 3584528711, 113926993, 338241895, 666307205, 773529912, 1294757372,
     1396182291, 1695183700, 1986661051, 2177026350, 2456956037, 2730485921, 2820302411,
     3259730800, 3345764771, 3516065817, 3600352804, 4094571909, 275423344, 430227734,
     506948616, 659060556, 883997877, 958139571, 1322822218, 1537002063, 1747873779,
     1955562222, 2024104815, 2227730452, 2361852424, 2428436474, 2756734187, 3204031479,
     3329325298]"

definition sha_init :: "u32 list" where
  "sha_init =
    [1779033703, 3144134277, 1013904242, 2773480762, 1359893119, 2600822924, 528734635,
     1541459225]"

text \<open>The byte order of the machine words.\<close>

definition be_byte :: "'a::len word \<Rightarrow> nat \<Rightarrow> char" where
  "be_byte w i = char_of (unat (drop_bit (8 * i) w AND 0xFF))"

definition u64_be :: "u64 \<Rightarrow> string" where
  "u64_be w = map (be_byte w) [7, 6, 5, 4, 3, 2, 1, 0]"

definition u32_be :: "u32 \<Rightarrow> string" where
  "u32_be w = map (be_byte w) [3, 2, 1, 0]"

definition u32_from_be :: "string \<Rightarrow> u32" where
  "u32_from_be bytes = fold (\<lambda>c acc. push_bit 8 acc OR of_nat (of_char c)) bytes 0"

text \<open>Padding: one \<open>0x80\<close>, zeros until eight bytes remain in the block, the length in bits modulo \<open>2 ^ 64\<close>.\<close>

function pad_zeros :: "string \<Rightarrow> string" where
  "pad_zeros bytes = (if length bytes mod 64 \<noteq> 56 then pad_zeros (bytes @ [CHR 0x00]) else bytes)"
  by pat_completeness auto
termination
proof (relation "measure (\<lambda>bytes. let r = length bytes mod 64 in if r \<le> 56 then 56 - r else 120 - r)")
  fix bytes :: string
  assume *: "length bytes mod 64 \<noteq> 56"
  have "length bytes mod 64 < 64" by simp
  with * show "(bytes @ [CHR 0x00], bytes)
    \<in> measure (\<lambda>bytes. let r = length bytes mod 64 in if r \<le> 56 then 56 - r else 120 - r)"
    by (auto simp: mod_Suc Let_def)
qed simp

declare pad_zeros.simps [simp del]

definition sha_data :: "string \<Rightarrow> string" where
  "sha_data message =
     pad_zeros (message @ [CHR 0x80]) @ u64_be (of_nat (length message) * 8)"

fun chunks_64 :: "string \<Rightarrow> string list" where
  "chunks_64 bytes = (if length bytes < 64 then [] else take 64 bytes # chunks_64 (drop 64 bytes))"

declare chunks_64.simps [simp del]

section \<open>The rounds\<close>

definition block_words :: "string \<Rightarrow> u32 list" where
  "block_words block = map (\<lambda>i. u32_from_be (take 4 (drop (4 * i) block))) [0..<16]"

definition sigma :: "nat \<Rightarrow> nat \<Rightarrow> nat \<Rightarrow> u32 \<Rightarrow> u32" where
  "sigma a b c w = word_rotr a w XOR word_rotr b w XOR drop_bit c w"

definition extend_word :: "nat \<Rightarrow> u32 list \<Rightarrow> u32 list" where
  "extend_word i w =
     w @ [w ! (i - 16) + sigma 7 18 3 (w ! (i - 15)) + w ! (i - 7) + sigma 17 19 10 (w ! (i - 2))]"

definition message_schedule :: "string \<Rightarrow> u32 list" where
  "message_schedule block = fold extend_word [16..<64] (block_words block)"

type_synonym sha_vars = "u32 \<times> u32 \<times> u32 \<times> u32 \<times> u32 \<times> u32 \<times> u32 \<times> u32"

definition big_sigma :: "nat \<Rightarrow> nat \<Rightarrow> nat \<Rightarrow> u32 \<Rightarrow> u32" where
  "big_sigma a b c w = word_rotr a w XOR word_rotr b w XOR word_rotr c w"

fun sha_round :: "u32 \<times> u32 \<Rightarrow> sha_vars \<Rightarrow> sha_vars" where
  "sha_round (k, w) (a, b, c, d, e, f, g, h) =
     (let ch = (e AND f) XOR (NOT e AND g);
          temp1 = h + big_sigma 6 11 25 e + ch + k + w;
          maj = (a AND b) XOR (a AND c) XOR (b AND c);
          temp2 = big_sigma 2 13 22 a + maj in
      (temp1 + temp2, a, b, c, d + temp1, e, f, g))"

definition sha_block :: "string \<Rightarrow> u32 list \<Rightarrow> u32 list" where
  "sha_block block h =
     (let (a, b, c, d, e, f, g, hh) =
            fold sha_round (zip sha_k (message_schedule block))
              (h ! 0, h ! 1, h ! 2, h ! 3, h ! 4, h ! 5, h ! 6, h ! 7) in
      [h ! 0 + a, h ! 1 + b, h ! 2 + c, h ! 3 + d, h ! 4 + e, h ! 5 + f, h ! 6 + g, h ! 7 + hh])"

definition HEX :: string where
  "HEX = ''0123456789abcdef''"

definition hex_char :: "nat \<Rightarrow> char" where
  "hex_char n = HEX ! n"

definition to_hex :: "string \<Rightarrow> string" where
  "to_hex bytes = concat (map (\<lambda>c. [hex_char (of_char c div 16), hex_char (of_char c mod 16)]) bytes)"

definition sha256_hex :: "string \<Rightarrow> string" where
  "sha256_hex message = to_hex (concat (map u32_be (fold sha_block (chunks_64 (sha_data message)) sha_init)))"

section \<open>The digest of a catalog\<close>

definition model_key :: "CatalogModel \<Rightarrow> string \<times> string \<times> bool \<times> u64 option" where
  "model_key m = (model_id m, model_name m, model_reasoning m, context_tokens m)"

definition model_row :: "CatalogModel \<Rightarrow> string" where
  "model_row m =
     model_id m @ [CHR 0x00] @ model_name m @ [CHR 0x00] @ (if model_reasoning m then ''true'' else ''false'') @
     [CHR 0x00] @ (case context_tokens m of Some n \<Rightarrow> show_nat (unat n) | None \<Rightarrow> ''-'') @ [nl]"

definition stable_text :: "CatalogModel list \<Rightarrow> string" where
  "stable_text models = concat (map model_row (sort_key model_key models))"

definition digest :: "CatalogModel list \<Rightarrow> string" where
  "digest models = sha256_hex (stable_text models)"

section \<open>The padded message\<close>

lemma pad_zeros_shape:
  "\<exists>n. pad_zeros bytes = bytes @ replicate n (CHR 0x00) \<and> length (pad_zeros bytes) mod 64 = 56"
proof (induction bytes rule: pad_zeros.induct)
  case (1 bytes)
  show ?case
  proof (cases "length bytes mod 64 = 56")
    case True
    then show ?thesis by (subst (1 2) pad_zeros.simps) (auto intro: exI [of _ 0])
  next
    case False
    with 1 obtain n where "pad_zeros (bytes @ [CHR 0x00]) = bytes @ [CHR 0x00] @ replicate n (CHR 0x00)"
      "length (pad_zeros (bytes @ [CHR 0x00])) mod 64 = 56" by auto
    with False show ?thesis by (subst (1 2) pad_zeros.simps) (auto intro!: exI [of _ "Suc n"])
  qed
qed

text \<open>The padded message is a whole number of blocks and the block loop reads all of it.\<close>

lemma u64_be_length [simp]: "length (u64_be w) = 8"
  by (simp add: u64_be_def)

lemma sha_data_blocks: "length (sha_data message) mod 64 = 0"
proof -
  obtain n where "length (pad_zeros (message @ [CHR 0x80])) mod 64 = 56"
    using pad_zeros_shape by blast
  then have "(length (pad_zeros (message @ [CHR 0x80])) + 8) mod 64 = (56 + 8) mod 64"
    by (metis mod_add_left_eq)
  then show ?thesis by (simp add: sha_data_def)
qed

lemma chunks_64_concat: "length bytes mod 64 = 0 \<Longrightarrow> concat (chunks_64 bytes) = bytes"
proof (induction bytes rule: chunks_64.induct)
  case (1 bytes)
  show ?case
  proof (cases "length bytes < 64")
    case True
    with 1(2) show ?thesis by (simp add: chunks_64.simps)
  next
    case False
    with 1(2) have "length (drop 64 bytes) mod 64 = 0" by (simp add: le_mod_geq)
    with 1(1) False show ?thesis by (subst chunks_64.simps) simp
  qed
qed

lemma chunks_64_length: "b \<in> set (chunks_64 bytes) \<Longrightarrow> length b = 64"
  by (induction bytes rule: chunks_64.induct) (subst (asm) (2) chunks_64.simps, auto split: if_splits)

lemma message_schedule_length: "length (message_schedule block) = 64"
proof -
  have "length (fold extend_word is w) = length w + length is" for "is" w
    by (induction "is" arbitrary: w) (simp_all add: extend_word_def)
  then have "length (message_schedule block) = length (block_words block) + length [16..<64 :: nat]"
    unfolding message_schedule_def .
  then show ?thesis unfolding block_words_def length_map length_upt by simp
qed

lemma sha_fold_length: "length h = 8 \<Longrightarrow> length (fold sha_block bs h) = 8"
proof (induction bs arbitrary: h)
  case (Cons b bs)
  have "length (sha_block b h) = 8" by (simp add: sha_block_def split: prod.split)
  with Cons show ?case by simp
qed simp

lemma hex_char_digit: "n < 16 \<Longrightarrow> hex_char n \<in> set HEX"
  unfolding hex_char_def by (rule nth_mem) (simp add: HEX_def)

lemma to_hex_length: "length (to_hex bytes) = 2 * length bytes"
  by (induction bytes) (simp_all add: to_hex_def)

lemma to_hex_digits: "set (to_hex bytes) \<subseteq> set HEX"
proof -
  have "hex_char (of_char c div 16) \<in> set HEX" "hex_char (of_char c mod 16) \<in> set HEX"
    for c :: char
    by (rule hex_char_digit, use nat_of_char_less_256 [of c] in linarith) (rule hex_char_digit, simp)
  then show ?thesis unfolding to_hex_def by auto
qed

lemma sha256_hex_shape: "length (sha256_hex m) = 64 \<and> set (sha256_hex m) \<subseteq> set HEX"
proof -
  have "length (concat (map u32_be ws)) = 4 * length ws" for ws
    by (induction ws) (simp_all add: u32_be_def)
  moreover have "length (fold sha_block (chunks_64 (sha_data m)) sha_init) = 8"
    by (rule sha_fold_length) (simp add: sha_init_def)
  ultimately show ?thesis
    unfolding sha256_hex_def using to_hex_digits by (simp add: to_hex_length)
qed

section \<open>The canonical text\<close>

lemma model_key_inj: "model_key m = model_key m' \<Longrightarrow> m = m'"
  by (simp add: model_key_def)

lemma sort_models_mset:
  "sort_key model_key ms = sort_key model_key ms' \<longleftrightarrow> mset ms = mset ms'"
proof
  assume "sort_key model_key ms = sort_key model_key ms'"
  then show "mset ms = mset ms'" by (metis mset_sort)
next
  assume eq: "mset ms = mset ms'"
  have k: "map model_key (sort_key model_key xs) = sort (map model_key xs)" for xs
    by (rule properties_for_sort [symmetric]) simp_all
  have "sort (map model_key ms) = sort (map model_key ms')"
    using eq by (metis mset_map sorted_list_of_multiset_mset)
  then have "map model_key (sort_key model_key ms) = map model_key (sort_key model_key ms')"
    by (simp only: k)
  then show "sort_key model_key ms = sort_key model_key ms'"
    using model_key_inj by (simp add: inj_on_def inj_on_map_eq_map)
qed

lemma show_nat_nonempty [simp]: "show_nat n \<noteq> []" "[] \<noteq> show_nat n"
  by (subst show_nat.simps, simp)+

lemma show_nat_digits: "c \<in> set (show_nat n) \<Longrightarrow> 48 \<le> (of_char c :: nat) \<and> of_char c < (58 :: nat)"
proof (induction n rule: show_nat.induct)
  case (1 n)
  then show ?case by (subst (asm) (2) show_nat.simps) (auto split: if_splits)
qed

lemma show_nat_inj: "show_nat n = show_nat m \<Longrightarrow> n = m"
proof (induction n arbitrary: m rule: show_nat.induct)
  case (1 n)
  have eq: "(if n < 10 then [] else show_nat (n div 10)) @ [char_of (48 + n mod 10)] =
        (if m < 10 then [] else show_nat (m div 10)) @ [char_of (48 + m mod 10) :: char]"
    using 1(2) by (metis show_nat.simps)
  then have "of_char (char_of (48 + n mod 10) :: char) = (of_char (char_of (48 + m mod 10) :: char) :: nat)" by simp
  then have d: "n mod 10 = m mod 10" by simp
  have h: "(if n < 10 then [] else show_nat (n div 10)) = (if m < 10 then [] else show_nat (m div 10))"
    using eq by simp
  show ?case
  proof (cases "n < 10")
    case True
    with h d show ?thesis by (simp split: if_splits)
  next
    case False
    with h have "show_nat (n div 10) = show_nat (m div 10)" by (simp split: if_splits)
    with 1(1) False have "n div 10 = m div 10" by blast
    with d show ?thesis by (metis mult_div_mod_eq)
  qed
qed

definition clean_model :: "CatalogModel \<Rightarrow> bool" where
  "clean_model m \<longleftrightarrow>
     CHR 0x00 \<notin> set (model_id m) \<and> CHR 0x00 \<notin> set (model_name m) \<and>
     nl \<notin> set (model_id m) \<and> nl \<notin> set (model_name m)"

text \<open>A field that ends at a separator it does not contain is read back uniquely.\<close>

lemma field_inj: "c \<notin> set a \<Longrightarrow> c \<notin> set a' \<Longrightarrow> a @ c # r = a' @ c # r' \<longleftrightarrow> a = a' \<and> r = r'"
proof (induction a arbitrary: a')
  case Nil
  then show ?case by (cases a') auto
next
  case (Cons x a)
  then show ?case by (cases a') auto
qed

definition context_text :: "u64 option \<Rightarrow> string" where
  "context_text t = (case t of Some n \<Rightarrow> show_nat (unat n) | None \<Rightarrow> ''-'')"

lemma show_nat_not_dash: "show_nat n \<noteq> ''-''" "''-'' \<noteq> show_nat n"
proof -
  have "CHR ''-'' \<notin> set (show_nat n)" using show_nat_digits [of "CHR ''-''" n] by auto
  moreover have "CHR ''-'' \<in> set ''-''" by simp
  ultimately show "show_nat n \<noteq> ''-''" "''-'' \<noteq> show_nat n" by metis+
qed

lemma context_text_inj: "context_text t = context_text t' \<Longrightarrow> t = t'"
  by (cases t; cases t')
    (auto simp: context_text_def show_nat_not_dash word_unat_eq_iff dest!: show_nat_inj)

lemma context_text_clean: "nl \<notin> set (context_text t)"
  using show_nat_digits [of nl] by (auto simp: context_text_def split: option.split)

lemma model_row_fields:
  "model_row m @ rest =
   model_id m @ CHR 0x00 # model_name m @ CHR 0x00 # (if model_reasoning m then ''true'' else ''false'') @
   CHR 0x00 # context_text (context_tokens m) @ nl # rest"
  by (simp add: model_row_def context_text_def)

lemma model_row_inj:
  assumes "clean_model m" "clean_model m'" "model_row m @ r = model_row m' @ r'"
  shows "m = m' \<and> r = r'"
proof -
  have b: "CHR 0x00 \<notin> set (if b then ''true'' else ''false'')" for b by simp
  have t: "(if b then ''true'' else ''false'') = (if b' then ''true'' else ''false'') \<longleftrightarrow> b = b'" for b b' by simp
  have "model_key m = model_key m' \<and> r = r'"
    using assms unfolding model_row_fields clean_model_def
    by (auto simp only: field_inj b t context_text_clean model_key_def not_False_eq_True prod.inject dest: context_text_inj)
  then show ?thesis using model_key_inj by blast
qed

lemma rows_inj:
  "list_all clean_model ms \<Longrightarrow> list_all clean_model ms' \<Longrightarrow>
   concat (map model_row ms) = concat (map model_row ms') \<Longrightarrow> ms = ms'"
proof (induction ms arbitrary: ms')
  case Nil
  then show ?case by (cases ms') (auto simp: model_row_def)
next
  case (Cons m ms)
  then obtain m' ms1 where ms': "ms' = m' # ms1" by (cases ms') (auto simp: model_row_def)
  with Cons.prems have c: "clean_model m" "clean_model m'" "list_all clean_model ms" "list_all clean_model ms1"
    and eq: "model_row m @ concat (map model_row ms) = model_row m' @ concat (map model_row ms1)"
    by simp_all
  from model_row_inj [OF c(1,2) eq] Cons.IH [OF c(3,4)] show ?case by (simp add: ms')
qed

text \<open>The text whose digest decides whether the agents are synchronised again stands for the catalog as a
  collection: for models whose names hold no NUL and no newline, two catalogs have the same text exactly when they
  hold the same models, each as often, in whatever order.
\<close>

lemma catalog_text_exact:
  assumes "list_all clean_model ms" "list_all clean_model ms'"
  shows "stable_text ms = stable_text ms' \<longleftrightarrow> mset ms = mset ms'"
proof
  have c: "list_all clean_model (sort_key model_key xs) \<longleftrightarrow> list_all clean_model xs" for xs
    by (simp add: list_all_iff)
  assume "stable_text ms = stable_text ms'"
  with assms have "sort_key model_key ms = sort_key model_key ms'"
    unfolding stable_text_def by (intro rows_inj) (simp_all only: c)
  then show "mset ms = mset ms'" by (simp only: sort_models_mset)
next
  assume "mset ms = mset ms'"
  then have "sort_key model_key ms = sort_key model_key ms'" by (simp only: sort_models_mset)
  then show "stable_text ms = stable_text ms'" unfolding stable_text_def by (rule arg_cong)
qed

lemma catalog_text_exact_witness:
  "let a = \<lparr>model_id = ''a'', model_name = ''A'', model_reasoning = True, context_tokens = Some 200\<rparr>;
       b = \<lparr>model_id = ''b'', model_name = ''B'', model_reasoning = False, context_tokens = None\<rparr> in
   stable_text [a, b] = stable_text [b, a] \<and> stable_text [a, b] \<noteq> stable_text [a, a]"
  unfolding Let_def
  by (intro conjI; subst catalog_text_exact) (simp_all add: clean_model_def add_mset_commute)

text \<open>The digest itself is the SHA-256 function; a published test vector.\<close>

lemma sha256_abc:
  "sha256_hex ''abc'' = ''ba7816bf8f01cfea414140de5dae2223b00361a396177a9cb410ff61f20015ad''"
  by code_simp

end
