(* ===== verification/Agent_Store.thy ===== *)
theory Agent_Store
  imports Server_Prelude Catalog "HOL-Library.Finite_Map"
begin

text \<open>
  The files and the recovery stores of the agent-wiring crate: \<open>crates/agent-wiring/src/atomic.rs\<close>,
  \<open>error.rs\<close> and \<open>backup/{mod,stash,applied,snapshot}.rs\<close>.  A disk maps paths to bytes; every operation that can
  fail takes its outcome from a list, so a theorem about every disk is a theorem about every pattern of failures.
  A failed operation changes nothing, which is what the rename of \<open>write_atomic\<close> is for; its temporary files and
  the queries \<open>exists\<close>, which do not fail, are not events of the model.
\<close>

section \<open>Disk\<close>

record disk =
  files :: "(string, string) fmap"
  faults :: "bool list"
  clock :: nat

datatype io_error = IoNotFound | IoOther

definition next_fault :: "disk \<Rightarrow> bool \<times> disk" where
  "next_fault d = (case faults d of [] \<Rightarrow> (False, d) | b # bs \<Rightarrow> (b, d\<lparr>faults := bs\<rparr>))"

definition exists_file :: "disk \<Rightarrow> string \<Rightarrow> bool" where
  "exists_file d p \<longleftrightarrow> fmlookup (files d) p \<noteq> None"

definition fs_read :: "string \<Rightarrow> disk \<Rightarrow> (io_error + string) \<times> disk" where
  "fs_read p d =
     (let (bad, d) = next_fault d in
      if bad then (Inl IoOther, d) else (ok_or IoNotFound (fmlookup (files d) p), d))"

definition fs_replace :: "string \<Rightarrow> string \<Rightarrow> disk \<Rightarrow> (io_error + unit) \<times> disk" where
  "fs_replace p bytes d =
     (let (bad, d) = next_fault d in
      if bad then (Inl IoOther, d) else (Inr (), d\<lparr>files := fmupd p bytes (files d)\<rparr>))"

definition fs_remove :: "string \<Rightarrow> disk \<Rightarrow> (io_error + unit) \<times> disk" where
  "fs_remove p d =
     (let (bad, d) = next_fault d in
      if bad then (Inl IoOther, d)
      else if exists_file d p then (Inr (), d\<lparr>files := fmdrop p (files d)\<rparr>)
      else (Inl IoNotFound, d))"

definition fs_rename :: "string \<Rightarrow> string \<Rightarrow> disk \<Rightarrow> (io_error + unit) \<times> disk" where
  "fs_rename p q d =
     (let (bad, d) = next_fault d in
      if bad then (Inl IoOther, d)
      else case fmlookup (files d) p of
             None \<Rightarrow> (Inl IoNotFound, d)
           | Some bytes \<Rightarrow> (Inr (), d\<lparr>files := fmupd q bytes (fmdrop p (files d))\<rparr>))"

section \<open>Atomic writes\<close>

definition atomic_read :: "string \<Rightarrow> disk \<Rightarrow> (io_error + string option) \<times> disk" where
  "atomic_read p d =
     (case fs_read p d of
        (Inr bytes, d) \<Rightarrow> (Inr (Some bytes), d)
      | (Inl IoNotFound, d) \<Rightarrow> (Inr None, d)
      | (Inl e, d) \<Rightarrow> (Inl e, d))"

definition write_atomic :: "string \<Rightarrow> string \<Rightarrow> disk \<Rightarrow> (io_error + unit) \<times> disk" where
  "write_atomic p bytes d =
     (case atomic_read p d of
        (Inl e, d) \<Rightarrow> (Inl e, d)
      | (Inr now, d) \<Rightarrow> if now = Some bytes then (Inr (), d) else fs_replace p bytes d)"

section \<open>Errors\<close>

datatype BackupError = BackupIo io_error | Corrupt string | Missing string

datatype EditError = Parse string | NotFound string

datatype WiringError =
    AgentAbsent string | WBackup BackupError | WEdit EditError | WIo io_error
  | StashMissing string | ModelNotFound string | NoCatalog | Refused string

section \<open>Names of recovery files\<close>

definition with_suffix :: "string \<Rightarrow> string \<Rightarrow> string" where
  "with_suffix path s = path @ s"

text \<open>The loop that looks for a free name ends because only finitely many names are taken.\<close>

definition numbered :: "string \<Rightarrow> nat \<Rightarrow> string" where
  "numbered base n = with_suffix base (''-'' @ show_nat n)"

lemma numbered_inj: "numbered b n = numbered b m \<Longrightarrow> n = m"
  by (auto simp: numbered_def with_suffix_def dest: show_nat_inj)

lemma taken_finite: "finite {m. n \<le> m \<and> exists_file d (numbered b m)}"
proof (rule finite_imageD)
  have "numbered b ` {m. n \<le> m \<and> exists_file d (numbered b m)} \<subseteq> fset (fmdom (files d))"
    by (auto simp: exists_file_def fmdom_notI fmlookup_dom_iff)
  then show "finite (numbered b ` {m. n \<le> m \<and> exists_file d (numbered b m)})"
    by (rule finite_subset) simp
qed (auto simp: inj_on_def dest: numbered_inj)

function free_name :: "disk \<Rightarrow> string \<Rightarrow> nat \<Rightarrow> string" where
  "free_name d base n = (if exists_file d (numbered base n) then free_name d base (Suc n) else numbered base n)"
  by pat_completeness auto
termination
proof (relation "measure (\<lambda>(d, b, n). card {m. n \<le> m \<and> exists_file d (numbered b m)})")
  fix d b n
  assume "exists_file d (numbered b n)"
  then have "n \<in> {m. n \<le> m \<and> exists_file d (numbered b m)}" (is "_ \<in> ?all") by simp
  moreover have "n \<notin> {m. Suc n \<le> m \<and> exists_file d (numbered b m)}" (is "_ \<notin> ?later") by simp
  moreover have "?later \<subseteq> ?all" by auto
  ultimately have "?later \<subset> ?all" by blast
  then show "((d, b, Suc n), (d, b, n)) \<in> measure (\<lambda>(d, b, n). card {m. n \<le> m \<and> exists_file d (numbered b m)})"
    by (simp add: psubset_card_mono taken_finite)
qed simp

declare free_name.simps [simp del]

definition bad_copy_path :: "string \<Rightarrow> disk \<Rightarrow> string" where
  "bad_copy_path path d =
     (let base = with_suffix path (''.bad-'' @ show_nat (clock d)) in
      if exists_file d base then free_name d base 2 else base)"

definition move_aside :: "string \<Rightarrow> disk \<Rightarrow> (io_error + string option) \<times> disk" where
  "move_aside path d =
     (if \<not> exists_file d path then (Inr None, d)
      else let aside = bad_copy_path path d in
           case fs_rename path aside d of
             (Inl e, d) \<Rightarrow> (Inl e, d)
           | (Inr _, d) \<Rightarrow> (Inr (Some aside), d))"

section \<open>Stash: the values before a connect\<close>

type_synonym namespace = "(string, string) fmap"
type_synonym Stash = "(string, namespace) fmap"

text \<open>The derived JSON code of a store file is a parameter: its parser and its printer.\<close>

record 'a store_json =
  from_slice :: "string \<Rightarrow> 'a option"
  to_vec_pretty :: "'a \<Rightarrow> string"

definition store_load :: "('k, 'v) fmap store_json \<Rightarrow> string \<Rightarrow> disk \<Rightarrow> ('k, 'v) fmap \<times> disk" where
  "store_load j path d =
     (case fs_read path d of
        (Inl _, d) \<Rightarrow> (fmempty, d)
      | (Inr bytes, d) \<Rightarrow> (unwrap_or fmempty (from_slice j bytes), d))"

definition store_save ::
  "('k, 'v) fmap store_json \<Rightarrow> ('k, 'v) fmap \<Rightarrow> string \<Rightarrow> disk \<Rightarrow> (BackupError + unit) \<times> disk" where
  "store_save j agents path d =
     (let (r, d) = (case fs_read path d of
                      (Inl _, d) \<Rightarrow> (Inr (), d)
                    | (Inr bytes, d) \<Rightarrow>
                        if from_slice j bytes = None
                        then (case move_aside path d of (Inl e, d) \<Rightarrow> (Inl e, d) | (Inr _, d) \<Rightarrow> (Inr (), d))
                        else (Inr (), d)) in
      case r of
        Inl e \<Rightarrow> (Inl (BackupIo e), d)
      | Inr _ \<Rightarrow>
          case write_atomic path (to_vec_pretty j agents @ [nl]) d of
            (Inl e, d) \<Rightarrow> (Inl (BackupIo e), d)
          | (Inr _, d) \<Rightarrow> (Inr (), d))"

definition old_values :: "Stash \<Rightarrow> string \<Rightarrow> namespace" where
  "old_values stash agent = unwrap_or fmempty (fmlookup stash agent)"

definition stash_put :: "string \<times> string \<Rightarrow> namespace \<Rightarrow> namespace" where
  "stash_put kv ns = (case kv of (key, v) \<Rightarrow> if v = [] then fmdrop key ns else fmupd key v ns)"

text \<open>The entries of a \<open>BTreeMap\<close> come in the order of its keys.\<close>

definition entries :: "(string, 'v) fmap \<Rightarrow> (string \<times> 'v) list" where
  "entries m = map (\<lambda>k. (k, the (fmlookup m k))) (sorted_list_of_fset (fmdom m))"

definition stash_record :: "Stash \<Rightarrow> string \<Rightarrow> namespace \<Rightarrow> Stash" where
  "stash_record stash agent kvs = fmupd agent (fold stash_put (entries kvs) (old_values stash agent)) stash"

definition take_namespace :: "string \<Rightarrow> Stash \<Rightarrow> namespace \<times> Stash" where
  "take_namespace agent stash = (old_values stash agent, fmdrop agent stash)"

section \<open>Applied: the values we wrote\<close>

record Entry =
  entry_value :: string
  entry_at :: nat

type_synonym Applied = "(string, (string, Entry) fmap) fmap"

definition applied_put :: "nat \<Rightarrow> string \<times> string \<Rightarrow> (string, Entry) fmap \<Rightarrow> (string, Entry) fmap" where
  "applied_put at kv ns =
     (case kv of (key, v) \<Rightarrow>
        if v = [] then fmdrop key ns else fmupd key \<lparr>entry_value = v, entry_at = at\<rparr> ns)"

definition applied_record :: "nat \<Rightarrow> Applied \<Rightarrow> string \<Rightarrow> (string \<times> string) list \<Rightarrow> Applied" where
  "applied_record at applied agent kvs =
     fmupd agent (fold (applied_put at) kvs (unwrap_or fmempty (fmlookup applied agent))) applied"

definition applied_forget :: "string \<Rightarrow> Applied \<Rightarrow> Applied" where
  "applied_forget agent applied = fmdrop agent applied"

definition applied_recorded :: "Applied \<Rightarrow> string \<Rightarrow> namespace" where
  "applied_recorded applied agent =
     unwrap_or fmempty (map_option (fmmap entry_value) (fmlookup applied agent))"

definition drifted_keys :: "Applied \<Rightarrow> string \<Rightarrow> namespace \<Rightarrow> string list" where
  "drifted_keys applied agent current =
     (case fmlookup applied agent of
        None \<Rightarrow> []
      | Some ns \<Rightarrow> map fst (filter (\<lambda>(key, e). fmlookup current key \<noteq> Some (entry_value e)) (entries ns)))"

section \<open>Snapshot: byte backups\<close>

definition BACKUP_SUFFIX :: string where
  "BACKUP_SUFFIX = ''.before-any-converter''"

definition ABSENT_SUFFIX :: string where
  "ABSENT_SUFFIX = ''.absent''"

definition backup_path :: "string \<Rightarrow> string" where
  "backup_path file = with_suffix file BACKUP_SUFFIX"

definition marker_path :: "string \<Rightarrow> string" where
  "marker_path file = with_suffix (backup_path file) ABSENT_SUFFIX"

fun snapshot_take :: "string list \<Rightarrow> disk \<Rightarrow> (BackupError + unit) \<times> disk" where
  "snapshot_take [] d = (Inr (), d)"
| "snapshot_take (file # fs) d =
     (if exists_file d (backup_path file) \<or> exists_file d (marker_path file) then snapshot_take fs d
      else case fs_read file d of
             (Inr bytes, d) \<Rightarrow>
               (case write_atomic (backup_path file) bytes d of
                  (Inl e, d) \<Rightarrow> (Inl (BackupIo e), d)
                | (Inr _, d) \<Rightarrow> snapshot_take fs d)
           | (Inl IoNotFound, d) \<Rightarrow>
               (case write_atomic (marker_path file) [] d of
                  (Inl e, d) \<Rightarrow> (Inl (BackupIo e), d)
                | (Inr _, d) \<Rightarrow> snapshot_take fs d)
           | (Inl e, d) \<Rightarrow> (Inl (BackupIo e), d))"

text \<open>The message of the operating system, which ends the text of the error, is left out.\<close>

definition read_backup :: "string \<Rightarrow> disk \<Rightarrow> (BackupError + string option) \<times> disk" where
  "read_backup file d =
     (case fs_read (backup_path file) d of
        (Inr bytes, d) \<Rightarrow> (Inr (Some bytes), d)
      | (Inl IoNotFound, d) \<Rightarrow> (Inr None, d)
      | (Inl e, d) \<Rightarrow> (Inl (Corrupt (''cannot read backup for '' @ file)), d))"

definition clear_backup :: "string \<Rightarrow> disk \<Rightarrow> disk" where
  "clear_backup file d = snd (fs_remove (marker_path file) (snd (fs_remove (backup_path file) d)))"

definition preserve_bad :: "string \<Rightarrow> disk \<Rightarrow> string \<times> disk" where
  "preserve_bad file d =
     (let aside = bad_copy_path (backup_path file) d in
      (aside, snd (fs_rename (backup_path file) aside d)))"

section \<open>What an operation touches\<close>

abbreviation look :: "disk \<Rightarrow> string \<Rightarrow> string option" where
  "look d p \<equiv> fmlookup (files d) p"

definition only_touches :: "string \<Rightarrow> disk \<Rightarrow> disk \<Rightarrow> bool" where
  "only_touches p d d' \<longleftrightarrow> (\<forall>x. \<not> starts_with p x \<longrightarrow> look d' x = look d x)"

lemma only_touches_refl [simp]: "files d' = files d \<Longrightarrow> only_touches p d d'"
  by (simp add: only_touches_def)

lemma only_touches_trans: "only_touches p d d' \<Longrightarrow> only_touches p d' d'' \<Longrightarrow> only_touches p d d''"
  by (simp add: only_touches_def)

lemma starts_with_refl [simp]: "starts_with p p"
  using starts_with_append [of p "[]"] by simp

lemma next_faultD: "next_fault d = (b, d') \<Longrightarrow> files d' = files d \<and> clock d' = clock d"
  by (auto simp: next_fault_def split: list.splits)

lemma fs_readD:
  "fs_read p d = (r, d') \<Longrightarrow>
   files d' = files d \<and> clock d' = clock d \<and> (\<forall>b. r = Inr b \<longrightarrow> look d p = Some b) \<and> (r = Inl IoNotFound \<longrightarrow> look d p = None)"
  by (auto simp: fs_read_def ok_or_def split: prod.splits if_splits option.splits dest!: next_faultD)

lemma atomic_readD:
  "atomic_read p d = (r, d') \<Longrightarrow>
   files d' = files d \<and> clock d' = clock d \<and> (\<forall>v. r = Inr v \<longrightarrow> look d p = v)"
  by (auto simp: atomic_read_def split: prod.splits sum.splits io_error.splits dest!: fs_readD)

lemma fs_replaceD:
  "fs_replace p b d = (r, d') \<Longrightarrow>
   (\<forall>x. x \<noteq> p \<longrightarrow> look d' x = look d x) \<and> (\<forall>u. r = Inr u \<longrightarrow> look d' p = Some b) \<and>
   (\<forall>e. r = Inl e \<longrightarrow> files d' = files d) \<and> clock d' = clock d"
  by (auto simp: fs_replace_def split: prod.splits if_splits dest!: next_faultD)

lemma write_atomicD:
  "write_atomic p b d = (r, d') \<Longrightarrow>
   (\<forall>x. x \<noteq> p \<longrightarrow> look d' x = look d x) \<and> (\<forall>u. r = Inr u \<longrightarrow> look d' p = Some b) \<and>
   (\<forall>e. r = Inl e \<longrightarrow> files d' = files d) \<and> clock d' = clock d"
  by (auto simp: write_atomic_def split: prod.splits sum.splits if_splits dest!: atomic_readD fs_replaceD)

lemma fs_removeD:
  "fs_remove p d = (r, d') \<Longrightarrow> (\<forall>x. x \<noteq> p \<longrightarrow> look d' x = look d x) \<and> clock d' = clock d"
  by (auto simp: fs_remove_def split: prod.splits if_splits dest!: next_faultD)

lemma fs_renameD:
  "fs_rename p q d = (r, d') \<Longrightarrow>
   (\<forall>x. x \<noteq> p \<longrightarrow> x \<noteq> q \<longrightarrow> look d' x = look d x) \<and>
   (\<forall>b. look d p = Some b \<longrightarrow> p \<noteq> q \<longrightarrow> look d' p = Some b \<or> look d' q = Some b)"
  by (auto simp: fs_rename_def split: prod.splits if_splits option.splits dest!: next_faultD)

lemmas io_dest = next_faultD fs_readD atomic_readD fs_replaceD write_atomicD fs_removeD fs_renameD

lemma fs_read_files [simp]: "files (snd (fs_read p d)) = files d"
  by (cases "fs_read p d") (auto dest: fs_readD)

lemma atomic_read_files [simp]: "files (snd (atomic_read p d)) = files d"
  by (cases "atomic_read p d") (auto dest: atomic_readD)

lemma write_atomic_look: "x \<noteq> p \<Longrightarrow> look (snd (write_atomic p b d)) x = look d x"
  by (cases "write_atomic p b d") (auto dest: write_atomicD)

lemma fs_remove_look: "x \<noteq> p \<Longrightarrow> look (snd (fs_remove p d)) x = look d x"
  by (cases "fs_remove p d") (auto dest: fs_removeD)

lemma free_name_prefix: "starts_with base (free_name d base n)"
proof (induction d base n rule: free_name.induct)
  case (1 d base n)
  then show ?case by (subst free_name.simps) (simp add: numbered_def with_suffix_def)
qed

lemma bad_copy_prefix: "starts_with (path @ ''.bad-'') (bad_copy_path path d)"
proof -
  define b where "b = path @ ''.bad-''"
  have "starts_with b (b @ x)" for x by simp
  moreover have "\<exists>x. free_name d (b @ y) 2 = b @ x" for y
    using free_name_prefix [of "b @ y" d 2] by (auto simp: starts_with_iff)
  ultimately show ?thesis
    unfolding bad_copy_path_def with_suffix_def Let_def append_assoc [symmetric] b_def [symmetric]
    by (metis starts_with_append)
qed

lemma bad_copy_fresh: "\<not> exists_file d (bad_copy_path path d)"
proof -
  have "\<not> exists_file d (free_name d base n)" for base n
    by (induction d base n rule: free_name.induct) (subst free_name.simps, simp)
  then show ?thesis by (simp add: bad_copy_path_def Let_def)
qed

lemma starts_with_trans: "starts_with a b \<Longrightarrow> starts_with b c \<Longrightarrow> starts_with a c"
  by (auto simp: starts_with_iff)

lemma move_asideD: "move_aside p d = (r, d') \<Longrightarrow> only_touches p d d'"
proof -
  have "starts_with p (bad_copy_path p d)"
    using starts_with_trans [OF starts_with_append bad_copy_prefix] .
  then show "move_aside p d = (r, d') \<Longrightarrow> only_touches p d d'"
    by (auto simp: move_aside_def only_touches_def Let_def split: if_splits prod.splits sum.splits dest!: fs_renameD)
       (metis starts_with_refl)+
qed

lemma write_atomic_touches: "write_atomic p b d = (r, d') \<Longrightarrow> only_touches p d d'"
  unfolding only_touches_def by (metis starts_with_refl write_atomicD)

lemma store_loadD: "store_load j p d = (a, d') \<Longrightarrow> files d' = files d"
  by (auto simp: store_load_def split: prod.splits sum.splits dest!: fs_readD)

lemma store_saveD: "store_save j a p d = (r, d') \<Longrightarrow> only_touches p d d'"
proof -
  assume *: "store_save j a p d = (r, d')"
  obtain r1 d1 where r1: "fs_read p d = (r1, d1)" by fastforce
  then have d1: "files d1 = files d" by (auto dest: fs_readD)
  obtain r2 d2 where r2: "(case r1 of Inl _ \<Rightarrow> (Inr (), d1)
      | Inr bytes \<Rightarrow> if from_slice j bytes = None
          then (case move_aside p d1 of (Inl e, d) \<Rightarrow> (Inl e, d) | (Inr _, d) \<Rightarrow> (Inr (), d)) else (Inr (), d1)) = (r2, d2)"
    by fastforce
  then have "only_touches p d1 d2"
    by (auto split: sum.splits if_splits prod.splits dest: move_asideD)
  then have d2: "only_touches p d d2" using only_touches_trans [OF only_touches_refl [OF d1]] by blast
  have "d' = d2 \<or> (\<exists>r3. write_atomic p (to_vec_pretty j a @ [nl]) d2 = (r3, d'))"
    using * r1 r2 by (auto simp: store_save_def Let_def split: sum.splits prod.splits if_splits)
  then show ?thesis using d2 only_touches_trans write_atomic_touches by metis
qed

end
