(* ===== verification/Json_Edit.thy ===== *)
theory Json_Edit
  imports Env_Edit Agent_Store Utf8
begin

text \<open>
  The JSON and JSONC editor of the agent-wiring crate, \<open>crates/agent-wiring/src/edit/json.rs\<close>.  A byte position
  of the Rust parser is the length of the document less the length of the rest that is still to be read, so the
  parser is a recursion on that rest.  \<open>serde_json\<close> itself is the parameter \<open>json_text\<close>.
\<close>

text \<open>\<open>serde_json::from_str\<close>, \<open>to_string\<close> and \<open>to_string_pretty\<close>; a failure carries the text of its error.\<close>

record json_text =
  jt_from_str :: "string \<Rightarrow> string + value"
  jt_to_string :: "value \<Rightarrow> string + string"
  jt_to_string_pretty :: "value \<Rightarrow> string + string"

section \<open>Comments and trailing commas\<close>

fun strip_line :: "string \<Rightarrow> string \<times> string" where
  "strip_line [] = ([], [])"
| "strip_line (c # s) =
     (if c = nl then ([], c # s)
      else let (out, rest) = strip_line s in ((if c = cr then cr else CHR '' '') # out, rest))"

fun strip_block :: "string \<Rightarrow> string \<times> string" where
  "strip_block [] = ([], [])"
| "strip_block (c # s) =
     (if c = CHR ''*'' \<and> s \<noteq> [] \<and> hd s = CHR ''/'' then ('' '' @ '' '', tl s)
      else let (out, rest) = strip_block s in ((if c = nl \<or> c = cr then c else CHR '' '') # out, rest))"

lemma strip_line_rest: "length (snd (strip_line s)) \<le> length s"
  by (induction s) (auto simp: Let_def split: prod.split)

lemma strip_block_rest: "length (snd (strip_block s)) \<le> length s"
  by (induction s) (auto simp: Let_def split: prod.split)

function (sequential) strip_comments :: "bool \<Rightarrow> bool \<Rightarrow> string \<Rightarrow> string" where
  "strip_comments in_string escaped [] = []"
| "strip_comments in_string escaped (c # s) =
     (if in_string then
        c # (if escaped then strip_comments True False s
             else if c = CHR 0x5C then strip_comments True True s
             else if c = CHR 0x22 then strip_comments False False s
             else strip_comments True False s)
      else if c = CHR 0x22 then c # strip_comments True escaped s
      else if c = CHR ''/'' \<and> s \<noteq> [] \<and> hd s = CHR ''/'' then
        ('' '' @ '' '') @ fst (strip_line (tl s)) @ strip_comments False escaped (snd (strip_line (tl s)))
      else if c = CHR ''/'' \<and> s \<noteq> [] \<and> hd s = CHR ''*'' then
        ('' '' @ '' '') @ fst (strip_block (tl s)) @ strip_comments False escaped (snd (strip_block (tl s)))
      else c # strip_comments False escaped s)"
  by pat_completeness auto
termination
proof (relation "measure (\<lambda>(_, _, s). length s)")
  fix in_string escaped c s
  show "((False, escaped, snd (strip_line (tl s))), (in_string, escaped, c # s)) \<in> measure (\<lambda>(_, _, s). length s)"
    "((False, escaped, snd (strip_block (tl s))), (in_string, escaped, c # s)) \<in> measure (\<lambda>(_, _, s). length s)"
    using strip_line_rest [of "tl s"] strip_block_rest [of "tl s"] by simp_all
qed auto

definition ascii_ws :: "char \<Rightarrow> bool" where
  "ascii_ws c \<longleftrightarrow> c \<in> {CHR '' '', CHR 0x09, nl, CHR 0x0C, cr}"

fun strip_commas :: "bool \<Rightarrow> bool \<Rightarrow> string \<Rightarrow> string" where
  "strip_commas in_string escaped [] = []"
| "strip_commas in_string escaped (c # s) =
     (if in_string then
        c # (if escaped then strip_commas True False s
             else if c = CHR 0x5C then strip_commas True True s
             else if c = CHR 0x22 then strip_commas False False s
             else strip_commas True False s)
      else if c = CHR 0x22 then c # strip_commas True escaped s
      else if c = CHR '','' then
        (case dropWhile ascii_ws s of
           d # _ \<Rightarrow> if d = CHR ''}'' \<or> d = CHR '']'' then CHR '' '' else c
         | [] \<Rightarrow> c) # strip_commas False escaped s
      else c # strip_commas False escaped s)"

text \<open>The text of the standard library's UTF-8 error is abbreviated; the error cannot occur for text input.\<close>

definition strip_trailing_commas :: "string \<Rightarrow> EditError + string" where
  "strip_trailing_commas bytes =
     (let out = strip_commas False False bytes in
      if utf8_valid out then Inr out else Inl (Parse ''invalid utf-8''))"

definition strip_jsonc :: "string \<Rightarrow> EditError + string" where
  "strip_jsonc src = strip_trailing_commas (strip_comments False False src)"

section \<open>Reading\<close>

definition parse_json :: "json_text \<Rightarrow> string \<Rightarrow> EditError + value" where
  "parse_json j src =
     try_bind (strip_jsonc (snd (split_bom src))) (\<lambda>stripped.
       case jt_from_str j stripped of Inl e \<Rightarrow> Inl (Parse e) | Inr v \<Rightarrow> Inr v)"

definition segments :: "string \<Rightarrow> string list" where
  "segments key_path = filter (\<lambda>s. s \<noteq> []) (str_split ''.'' key_path)"

definition digit :: "char \<Rightarrow> bool" where
  "digit c \<longleftrightarrow> 48 \<le> (of_char c :: nat) \<and> of_char c \<le> (57 :: nat)"

text \<open>\<open>str::parse::<usize>\<close> on a 64-bit machine.\<close>

definition parse_usize :: "string \<Rightarrow> nat option" where
  "parse_usize s =
     (let t = (case s of c # r \<Rightarrow> if c = CHR ''+'' then r else s | [] \<Rightarrow> s);
          n = fold (\<lambda>c n. 10 * n + (of_char c - 48)) t (0 :: nat) in
      if t \<noteq> [] \<and> list_all digit t \<and> n < 2 ^ 64 then Some n else None)"

fun walk :: "value \<Rightarrow> string list \<Rightarrow> value option" where
  "walk v [] = Some v"
| "walk v (seg # rest) =
     (case v of
        JObject m \<Rightarrow> Option.bind (fmlookup m seg) (\<lambda>w. walk w rest)
      | JArray items \<Rightarrow>
          Option.bind (parse_usize seg) (\<lambda>i. if i < length items then walk (items ! i) rest else None)
      | _ \<Rightarrow> None)"

definition json_get :: "json_text \<Rightarrow> string \<Rightarrow> string \<Rightarrow> string option" where
  "json_get j original key_path =
     (case parse_json j original of
        Inl _ \<Rightarrow> None
      | Inr v \<Rightarrow>
          Option.bind (walk v (segments key_path)) (\<lambda>w.
            case w of
              JString s \<Rightarrow> Some s
            | other \<Rightarrow> (case jt_to_string j other of Inr s \<Rightarrow> Some s | Inl _ \<Rightarrow> None)))"

section \<open>The tree of spans\<close>

datatype Node = Node (node_kind: Kind) (node_start: nat) (node_end: nat)
  and Kind = KObject "Member list" | KArray | KScalar
  and Member = Member (mem_key: string) (key_start: nat) (mem_value: Node)

text \<open>White space and comments: an unfinished block comment is left with its last byte.\<close>

fun after_block :: "string \<Rightarrow> string" where
  "after_block [] = []"
| "after_block [c] = [c]"
| "after_block (c # d # s) = (if c = CHR ''*'' \<and> d = CHR ''/'' then s else after_block (d # s))"

lemma after_block_length: "length (after_block s) \<le> length s"
  by (induction s rule: after_block.induct) auto

definition comment_start :: "char \<Rightarrow> string \<Rightarrow> bool" where
  "comment_start c s \<longleftrightarrow> (case s of a # b # _ \<Rightarrow> a = CHR ''/'' \<and> b = c | _ \<Rightarrow> False)"

lemma comment_start_length: "comment_start c s \<Longrightarrow> 2 \<le> length s"
  by (auto simp: comment_start_def split: list.splits)

function skip_trivia :: "string \<Rightarrow> string" where
  "skip_trivia s =
     (let s = dropWhile ascii_ws s in
      if comment_start (CHR ''/'') s then skip_trivia (dropWhile (\<lambda>c. c \<noteq> nl) (drop 2 s))
      else if comment_start (CHR ''*'') s then skip_trivia (after_block (drop 2 s))
      else s)"
  by pat_completeness auto
termination
proof (relation "measure length")
  fix s x assume x: "x = dropWhile ascii_ws s"
  then have le: "length x \<le> length s" by (simp add: length_dropWhile_le)
  show "(dropWhile (\<lambda>c. c \<noteq> nl) (drop 2 x), s) \<in> measure length" if "comment_start (CHR ''/'') x"
    using le comment_start_length [OF that] length_dropWhile_le [of "\<lambda>c. c \<noteq> nl" "drop 2 x"] by simp
  show "(after_block (drop 2 x), s) \<in> measure length" if "comment_start (CHR ''*'') x"
    using le comment_start_length [OF that] after_block_length [of "drop 2 x"] by simp
qed simp

declare skip_trivia.simps [simp del]

lemma skip_trivia_length: "length (skip_trivia s) \<le> length s"
proof (induction s rule: skip_trivia.induct)
  case (1 s)
  define x where "x = dropWhile ascii_ws s"
  have x: "length x \<le> length s" by (simp add: x_def length_dropWhile_le)
  have "length (dropWhile (\<lambda>c. c \<noteq> nl) (drop 2 x)) \<le> length x" "length (after_block (drop 2 x)) \<le> length x"
    using length_dropWhile_le [of "\<lambda>c. c \<noteq> nl" "drop 2 x"] after_block_length [of "drop 2 x"] by simp_all
  with 1 [OF x_def] x show ?case
    by (subst skip_trivia.simps) (auto simp: Let_def x_def [symmetric])
qed

fun scan_string :: "bool \<Rightarrow> string \<Rightarrow> string option" where
  "scan_string escaped [] = None"
| "scan_string escaped (c # s) =
     (if escaped then scan_string False s
      else if c = CHR 0x5C then scan_string True s
      else if c = CHR 0x22 then Some s
      else scan_string False s)"

lemma scan_string_length: "scan_string e s = Some r \<Longrightarrow> length r < length s"
  by (induction e s rule: scan_string.induct) (auto split: if_splits)

definition parse_error :: "string \<Rightarrow> nat \<Rightarrow> EditError" where
  "parse_error message pos = Parse (message @ '' at byte '' @ show_nat pos)"

definition key_text :: "json_text \<Rightarrow> string \<Rightarrow> EditError + string" where
  "key_text j raw =
     (case jt_from_str j raw of
        Inr (JString k) \<Rightarrow> Inr k
      | Inr _ \<Rightarrow> Inl (Parse ''invalid type'')
      | Inl e \<Rightarrow> Inl (Parse e))"

definition skip_comma :: "string \<Rightarrow> string" where
  "skip_comma s = (let s = skip_trivia s in case s of c # r \<Rightarrow> if c = CHR '','' then r else s | [] \<Rightarrow> s)"

lemma skip_comma_length: "length (skip_comma s) \<le> length s"
  using skip_trivia_length [of s] by (auto simp: skip_comma_def Let_def split: list.split)

definition scalar_end :: "char \<Rightarrow> bool" where
  "scalar_end c \<longleftrightarrow> ascii_ws c \<or> c \<in> {CHR '','', CHR ''}'', CHR '']'', CHR ''/''}"

text \<open>The members read so far are passed along the loop; \<open>n\<close> is the length of the document.\<close>

function (sequential)
  parse_value :: "json_text \<Rightarrow> nat \<Rightarrow> string \<Rightarrow> EditError + (Node \<times> string)" and
  object_loop :: "json_text \<Rightarrow> nat \<Rightarrow> Member list \<Rightarrow> string \<Rightarrow> EditError + (Member list \<times> string)" and
  array_loop :: "json_text \<Rightarrow> nat \<Rightarrow> string \<Rightarrow> EditError + string" where
  "parse_value j n s0 =
     (case skip_trivia s0 of
        [] \<Rightarrow> Inl (parse_error ''unexpected end of JSON input'' n)
      | c # r \<Rightarrow>
          let start = n - length (c # r) in
          if c = CHR ''{'' then
            (case object_loop j n [] r of
               Inl e \<Rightarrow> Inl e
             | Inr (ms, s) \<Rightarrow> Inr (Node (KObject ms) start (n - length s), s))
          else if c = CHR ''['' then
            (case array_loop j n r of
               Inl e \<Rightarrow> Inl e
             | Inr s \<Rightarrow> Inr (Node KArray start (n - length s), s))
          else if c = CHR 0x22 then
            (case scan_string False r of
               None \<Rightarrow> Inl (parse_error ''unterminated JSON string'' n)
             | Some s \<Rightarrow> Inr (Node KScalar start (n - length s), s))
          else if scalar_end c then Inl (parse_error ''unexpected character in JSON value'' start)
          else (let s = dropWhile (\<lambda>b. \<not> scalar_end b) r in Inr (Node KScalar start (n - length s), s)))"
| "object_loop j n ms s0 =
     (case skip_trivia s0 of
        [] \<Rightarrow> Inl (parse_error ''unterminated JSON object'' n)
      | c # r \<Rightarrow>
          if c = CHR ''}'' then Inr (ms, r)
          else if c = CHR '','' then object_loop j n ms r
          else if c = CHR 0x22 then
            (case scan_string False r of
               None \<Rightarrow> Inl (parse_error ''unterminated JSON string'' n)
             | Some s1 \<Rightarrow>
                 (case key_text j (take (length (c # r) - length s1) (c # r)) of
                    Inl e \<Rightarrow> Inl e
                  | Inr key \<Rightarrow>
                      (case skip_trivia s1 of
                         [] \<Rightarrow> Inl (parse_error ''expected ':' after JSON object key'' n)
                       | d # s2 \<Rightarrow>
                           if d \<noteq> CHR '':'' then
                             Inl (parse_error ''expected ':' after JSON object key'' (n - length (d # s2)))
                           else
                             (case parse_value j n s2 of
                                Inl e \<Rightarrow> Inl e
                              | Inr (v, s3) \<Rightarrow>
                                  object_loop j n (ms @ [Member key (n - length (c # r)) v]) (skip_comma s3)))))
          else Inl (parse_error ''expected a JSON object key'' (n - length (c # r))))"
| "array_loop j n s0 =
     (case skip_trivia s0 of
        [] \<Rightarrow> Inl (parse_error ''unterminated JSON array'' n)
      | c # r \<Rightarrow>
          if c = CHR '']'' then Inr r
          else if c = CHR '','' then array_loop j n r
          else
            (case parse_value j n (c # r) of
               Inl e \<Rightarrow> Inl e
             | Inr (v, s1) \<Rightarrow> array_loop j n (skip_comma s1)))"
  by pat_completeness auto


text \<open>What a call consumes, on the calls that return; this is what the termination of the loops rests on.\<close>

lemma parse_consumes_partial:
  "parse_value_object_loop_array_loop_dom (Inl (j, n, s)) \<Longrightarrow>
   parse_value j n s = Inr (v, s') \<Longrightarrow> length s' < length s"
  "parse_value_object_loop_array_loop_dom (Inr (Inl (j, n, ms, s))) \<Longrightarrow>
   object_loop j n ms s = Inr (ms', s') \<Longrightarrow> length s' < length s"
  "parse_value_object_loop_array_loop_dom (Inr (Inr (j, n, s))) \<Longrightarrow>
   array_loop j n s = Inr s' \<Longrightarrow> length s' < length s"
proof (induction j n s and j n ms s and j n s arbitrary: v s' and ms' s' and s' rule: parse_value_object_loop_array_loop.pinduct)
  case (1 j n s)
  show ?case
  proof (cases "skip_trivia s")
    case Nil
    with 1 show ?thesis by (simp add: parse_value.psimps)
  next
    case (Cons c r)
    have le: "Suc (length r) \<le> length s" using skip_trivia_length [of s] Cons by simp
    note IH = 1(2) [OF Cons refl] 1(3) [OF Cons refl]
    show ?thesis
      using 1(4) le IH length_dropWhile_le [of "\<lambda>b. \<not> scalar_end b" r]
      by (auto simp: parse_value.psimps [OF 1(1)] Cons Let_def dest!: scan_string_length
               split: if_splits sum.splits prod.splits option.splits)
  qed
next
  case (2 j n ms s)
  show ?case
  proof (cases "skip_trivia s")
    case Nil
    with 2 show ?thesis by (simp add: object_loop.psimps)
  next
    case (Cons c r)
    have le: "Suc (length r) \<le> length s" using skip_trivia_length [of s] Cons by simp
    consider "c = CHR ''}''" | "c = CHR '',''" | "c = CHR 0x22" | "c \<notin> {CHR ''}'', CHR '','', CHR 0x22}" by blast
    then show ?thesis
    proof cases
      case 2
      with "2.IH"(1) [OF Cons] "2.prems" le show ?thesis
        by (fastforce simp: object_loop.psimps [OF "2.hyps"] Cons)
    next
      case 3
      with "2.prems" obtain s1 key d s2 v s3 where *: "scan_string False r = Some s1"
        "key_text j (take (length (c # r) - length s1) (c # r)) = Inr key" "skip_trivia s1 = d # s2"
        "d = CHR '':''" "parse_value j n s2 = Inr (v, s3)"
        "object_loop j n (ms @ [Member key (n - length (c # r)) v]) (skip_comma s3) = Inr (ms', s')"
        by (auto simp: object_loop.psimps [OF "2.hyps"] Cons
                 split: option.splits sum.splits list.splits prod.splits if_splits)
      have "length s3 < length s2" using "2.IH"(2) Cons 3 * by auto
      moreover have "length s' < length (skip_comma s3)" using "2.IH"(3) Cons 3 * by auto
      ultimately show ?thesis
        using le scan_string_length [OF *(1)] skip_trivia_length [of s1] skip_comma_length [of s3] *(3) by simp
    qed (use "2.prems" le in \<open>auto simp: object_loop.psimps [OF "2.hyps"] Cons\<close>)
  qed
next
  case (3 j n s)
  show ?case
  proof (cases "skip_trivia s")
    case Nil
    with 3 show ?thesis by (simp add: array_loop.psimps)
  next
    case (Cons c r)
    have le: "Suc (length r) \<le> length s" using skip_trivia_length [of s] Cons by simp
    consider "c = CHR '']''" | "c = CHR '',''" | "c \<noteq> CHR '']''" "c \<noteq> CHR '',''" by blast
    then show ?thesis
    proof cases
      case 2
      with "3.IH"(1) [OF Cons] "3.prems" le show ?thesis
        by (fastforce simp: array_loop.psimps [OF "3.hyps"] Cons)
    next
      case 3
      with "3.prems" obtain v s1 where *: "parse_value j n (c # r) = Inr (v, s1)"
        "array_loop j n (skip_comma s1) = Inr s'"
        by (auto simp: array_loop.psimps [OF "3.hyps"] Cons split: sum.splits prod.splits)
      have "length s1 < length (c # r)" using "3.IH"(2) Cons 3 * by auto
      moreover have "length s' < length (skip_comma s1)" using "3.IH"(3) Cons 3 * by auto
      ultimately show ?thesis using le skip_comma_length [of s1] by simp
    qed (use "3.prems" le in \<open>auto simp: array_loop.psimps [OF "3.hyps"] Cons\<close>)
  qed
qed

lemma skip_trivia_Cons: "skip_trivia s = c # r \<Longrightarrow> Suc (length r) \<le> length s"
  using skip_trivia_length [of s] by simp

termination parse_value
proof (relation "measure (\<lambda>x. case x of
    Inl (j, n, s) \<Rightarrow> 2 * length s
  | Inr (Inl (j, n, ms, s)) \<Rightarrow> Suc (2 * length s)
  | Inr (Inr (j, n, s)) \<Rightarrow> Suc (2 * length s))")
qed (auto dest!: parse_consumes_partial skip_trivia_Cons scan_string_length
    intro: le_less_trans [OF skip_comma_length])


declare parse_value.simps [simp del] object_loop.simps [simp del] array_loop.simps [simp del]

definition parse_document :: "json_text \<Rightarrow> string \<Rightarrow> EditError + Node" where
  "parse_document j text =
     (if skip_trivia text = [] then Inl (Parse ''empty JSON document'')
      else try_bind (parse_value j (length text) (skip_trivia text)) (\<lambda>(node, s).
             let s = skip_trivia s in
             if s \<noteq> [] then Inl (parse_error ''trailing data after JSON document'' (length text - length s))
             else Inr node))"

section \<open>Positions in the text\<close>

definition splice :: "string \<Rightarrow> nat \<Rightarrow> nat \<Rightarrow> string \<Rightarrow> string" where
  "splice text start end_pos replacement = take start text @ replacement @ drop end_pos text"

definition slice :: "string \<Rightarrow> nat \<Rightarrow> nat \<Rightarrow> string" where
  "slice text a b = drop a (take b text)"

definition line_start :: "string \<Rightarrow> nat \<Rightarrow> nat" where
  "line_start text pos = length (take pos text) - length (takeWhile (\<lambda>c. c \<noteq> nl) (rev (take pos text)))"

definition line_indent :: "string \<Rightarrow> nat \<Rightarrow> string" where
  "line_indent text pos = takeWhile blank (slice text (line_start text pos) pos)"

definition is_object :: "Node \<Rightarrow> bool" where
  "is_object node = (case node_kind node of KObject _ \<Rightarrow> True | _ \<Rightarrow> False)"

definition member_indent :: "string \<Rightarrow> Node \<Rightarrow> string \<Rightarrow> string" where
  "member_indent text node unit =
     (case node_kind node of
        KObject (first # _) \<Rightarrow>
          if nl \<in> set (slice text (node_start node) (key_start first)) then line_indent text (key_start first)
          else line_indent text (node_start node) @ unit
      | _ \<Rightarrow> line_indent text (node_start node) @ unit)"

fun indent_unit :: "nat option \<Rightarrow> string list \<Rightarrow> string" where
  "indent_unit previous [] = '' '' @ '' ''"
| "indent_unit previous (line # ls) =
     (let trimmed = dropWhile blank line; indent = length line - length trimmed in
      if trim trimmed = [] then indent_unit previous ls
      else case previous of
             Some p \<Rightarrow> if p < indent then slice line p indent else indent_unit (Some indent) ls
           | None \<Rightarrow> indent_unit (Some indent) ls)"

definition detect_indent_unit :: "string \<Rightarrow> string" where
  "detect_indent_unit text = indent_unit None (str_lines text)"

text \<open>The end of a member: its comma and a comment on the same line.  Each is a length of the rest that is consumed.\<close>

fun line_comment_len :: "string \<Rightarrow> nat" where
  "line_comment_len [] = 0"
| "line_comment_len (c # s) = (if c = nl then 0 else Suc (line_comment_len s))"

fun block_comment_len :: "string \<Rightarrow> nat" where
  "block_comment_len [] = 0"
| "block_comment_len [c] = 0"
| "block_comment_len (c # d # s) = (if c = CHR ''*'' \<and> d = CHR ''/'' then 2 else Suc (block_comment_len (d # s)))"

definition member_tail_end :: "string \<Rightarrow> nat \<Rightarrow> nat" where
  "member_tail_end text pos =
     (let p1 = pos + length (takeWhile blank (drop pos text));
          p2 = (case drop p1 text of c # _ \<Rightarrow> if c = CHR '','' then Suc p1 else p1 | [] \<Rightarrow> p1);
          p3 = p2 + length (takeWhile blank (drop p2 text));
          rest = drop p3 text in
      if comment_start (CHR ''/'') rest then p3 + line_comment_len rest
      else if comment_start (CHR ''*'') rest then p3 + 2 + block_comment_len (drop 2 rest)
      else p3)"

definition extend_line_end :: "string \<Rightarrow> nat \<Rightarrow> nat" where
  "extend_line_end text pos =
     (let p = (case drop pos text of c # _ \<Rightarrow> if c = cr then Suc pos else pos | [] \<Rightarrow> pos) in
      case drop p text of c # _ \<Rightarrow> if c = nl then Suc p else p | [] \<Rightarrow> p)"

text \<open>\<open>next_significant\<close> ends an unfinished block comment at the end of the text, where \<open>skip_trivia\<close> does not.\<close>

fun past_block :: "string \<Rightarrow> string" where
  "past_block [] = []"
| "past_block [c] = []"
| "past_block (c # d # s) = (if c = CHR ''*'' \<and> d = CHR ''/'' then s else past_block (d # s))"

lemma past_block_length: "length (past_block s) \<le> length s"
  by (induction s rule: past_block.induct) auto

function significant :: "string \<Rightarrow> string" where
  "significant s =
     (let s = dropWhile ascii_ws s in
      if comment_start (CHR ''/'') s then significant (dropWhile (\<lambda>c. c \<noteq> nl) (drop 2 s))
      else if comment_start (CHR ''*'') s then significant (past_block (drop 2 s))
      else s)"
  by pat_completeness auto
termination
proof (relation "measure length")
  fix s x assume x: "x = dropWhile ascii_ws s"
  then have le: "length x \<le> length s" by (simp add: length_dropWhile_le)
  show "(dropWhile (\<lambda>c. c \<noteq> nl) (drop 2 x), s) \<in> measure length" if "comment_start (CHR ''/'') x"
    using le comment_start_length [OF that] length_dropWhile_le [of "\<lambda>c. c \<noteq> nl" "drop 2 x"] by simp
  show "(past_block (drop 2 x), s) \<in> measure length" if "comment_start (CHR ''*'') x"
    using le comment_start_length [OF that] past_block_length [of "drop 2 x"] by simp
qed simp

declare significant.simps [simp del]

definition next_significant :: "string \<Rightarrow> nat \<Rightarrow> nat" where
  "next_significant text pos = length text - length (significant (drop pos text))"

definition comma_at :: "string \<Rightarrow> nat \<Rightarrow> bool" where
  "comma_at text pos = (case drop pos text of c # _ \<Rightarrow> c = CHR '','' | [] \<Rightarrow> False)"

section \<open>Writing\<close>

definition serialize :: "json_text \<Rightarrow> value \<Rightarrow> EditError + string" where
  "serialize j v = (case jt_to_string j v of Inl e \<Rightarrow> Inl (Parse e) | Inr s \<Rightarrow> Inr s)"

fun build_member :: "json_text \<Rightarrow> string \<Rightarrow> string list \<Rightarrow> value \<Rightarrow> string \<Rightarrow> string \<Rightarrow> string \<Rightarrow> EditError + string" where
  "build_member j key [] v indent newline unit =
     try_bind (serialize j (JString key)) (\<lambda>kt. try_bind (serialize j v) (\<lambda>vt. Inr (kt @ '': '' @ vt)))"
| "build_member j key (k # ks) v indent newline unit =
     try_bind (serialize j (JString key)) (\<lambda>kt.
       let child_indent = indent @ unit in
       try_bind (build_member j k ks v child_indent newline unit) (\<lambda>inner.
         Inr (kt @ '': {'' @ newline @ child_indent @ inner @ newline @ indent @ ''}'')))"

text \<open>Where the last line of an object, without its trailing blanks, ends.\<close>

definition insert_point :: "string \<Rightarrow> nat \<Rightarrow> nat \<Rightarrow> nat" where
  "insert_point text close_line close_pos =
     close_pos - length (takeWhile (\<lambda>c. blank c \<or> c = cr) (rev (slice text close_line close_pos)))"

definition line_prefix :: "string \<Rightarrow> nat \<Rightarrow> string \<Rightarrow> string" where
  "line_prefix text insert_pos newline = (if insert_pos = 0 \<or> text ! (insert_pos - 1) = nl then [] else newline)"

definition insert_member :: "string \<Rightarrow> Node \<Rightarrow> Member list \<Rightarrow> string \<Rightarrow> string \<Rightarrow> string \<Rightarrow> string" where
  "insert_member text node members member_text newline unit =
     (let indent = member_indent text node unit;
          close_pos = node_end node - 1;
          close_line = line_start text close_pos;
          close_indent = line_indent text close_pos;
          insert_pos = insert_point text close_line close_pos;
          pre = line_prefix text insert_pos newline in
      if members = [] then
        splice text insert_pos close_pos (pre @ indent @ member_text @ newline @ close_indent)
      else
        let last_end = node_end (mem_value (last members));
            trailing = comma_at text (next_significant text last_end);
            comma = (if trailing then '','' else []);
            with_comma = (\<lambda>r. if trailing then r else splice r last_end last_end '','') in
        if trim (slice text close_line close_pos) = [] then
          with_comma (splice text close_line close_line (indent @ member_text @ comma @ newline))
        else
          with_comma (splice text insert_pos close_pos (pre @ indent @ member_text @ comma @ newline @ close_indent)))"

definition find_member :: "string \<Rightarrow> Member list \<Rightarrow> Member option" where
  "find_member key ms = List.find (\<lambda>m. mem_key m = key) ms"

fun edit_object ::
  "json_text \<Rightarrow> string \<Rightarrow> Node \<Rightarrow> string list \<Rightarrow> value \<Rightarrow> string \<Rightarrow> string \<Rightarrow> EditError + string" where
  "edit_object j text node [] v newline unit = Inr text"
| "edit_object j text node (key # rest) v newline unit =
     (case node_kind node of
        KObject ms \<Rightarrow>
          (case (rest, find_member key ms) of
             ([], Some m) \<Rightarrow>
               try_bind (serialize j v) (\<lambda>serialized.
                 let a = node_start (mem_value m); b = node_end (mem_value m) in
                 if slice text a b = serialized then Inr text else Inr (splice text a b serialized))
           | (_ # _, Some m) \<Rightarrow>
               if is_object (mem_value m) then edit_object j text (mem_value m) rest v newline unit
               else Inl (Parse (''key `'' @ key @ ''` is not a JSON object''))
           | (_, None) \<Rightarrow>
               try_bind (build_member j key rest v (member_indent text node unit) newline unit) (\<lambda>member_text.
                 Inr (insert_member text node ms member_text newline unit)))
      | _ \<Rightarrow> Inl (Parse ''expected a JSON object''))"

text \<open>The checks at the start of \<open>set_one\<close> and \<open>del_one\<close>.\<close>

definition edit_root :: "json_text \<Rightarrow> string \<Rightarrow> string \<Rightarrow> EditError + (string list \<times> Node)" where
  "edit_root j text path =
     try_bind (parse_json j text) (\<lambda>_.
       let segs = segments path in
       if segs = [] then Inl (Parse ''empty key path'')
       else try_bind (parse_document j text) (\<lambda>root.
              if is_object root then Inr (segs, root) else Inl (Parse ''JSON root is not an object'')))"

definition json_set_one :: "json_text \<Rightarrow> string \<Rightarrow> KV \<Rightarrow> EditError + string" where
  "json_set_one j text kv =
     try_bind (edit_root j text (kv_path kv)) (\<lambda>(segs, root).
       edit_object j text root segs (kv_value kv)
         (if str_contains [cr, nl] text then [cr, nl] else [nl]) (detect_indent_unit text))"

fun set_each :: "json_text \<Rightarrow> KV list \<Rightarrow> string \<Rightarrow> EditError + string" where
  "set_each j [] text = Inr text"
| "set_each j (kv # kvs) text = try_bind (json_set_one j text kv) (set_each j kvs)"

definition json_set :: "json_text \<Rightarrow> string \<Rightarrow> KV list \<Rightarrow> EditError + string" where
  "json_set j original kvs =
     (let (bom, body) = split_bom original in
      if kvs = [] then try_bind (parse_json j body) (\<lambda>_. Inr original)
      else try_bind (strip_jsonc body) (\<lambda>stripped.
             let normalized = (if trim stripped = [] then ''{}'' else body) in
             try_bind (parse_json j normalized) (\<lambda>_.
               try_bind (set_each j kvs normalized) (\<lambda>text. Inr (bom @ text)))))"

section \<open>Deleting\<close>

definition own_line :: "string \<Rightarrow> Node \<Rightarrow> Member \<Rightarrow> bool" where
  "own_line text node m =
     (let line = line_start text (key_start m) in
      node_start node < line \<and> trim (slice text line (key_start m)) = [])"

definition remove_member :: "string \<Rightarrow> Node \<Rightarrow> Member list \<Rightarrow> nat \<Rightarrow> string" where
  "remove_member text node members index =
     (let m = members ! index;
          line = line_start text (key_start m);
          tail_end = member_tail_end text (node_end (mem_value m)) in
      if length members = 1 then
        (let interior = slice text (node_start node + 1) (node_end node - 1) in
         if \<not> str_contains ''//'' interior \<and> \<not> str_contains ''/*'' interior then
           splice text (node_start node) (node_end node) ''{}''
         else
           (let start = (if own_line text node m then line else key_start m) in
            splice text start (if start = line then extend_line_end text tail_end else tail_end) []))
      else if index + 1 < length members then
        (if own_line text node m then splice text line (extend_line_end text tail_end) []
         else splice text (key_start m) (key_start (members ! (index + 1))) [])
      else
        (let prev_end = node_end (mem_value (members ! (index - 1)));
             had_comma = comma_at text (next_significant text (node_end (mem_value m)));
             result = splice text prev_end tail_end [] in
         if had_comma then splice result prev_end prev_end '','' else result))"

fun position :: "string \<Rightarrow> Member list \<Rightarrow> nat option" where
  "position key [] = None"
| "position key (m # ms) = (if mem_key m = key then Some 0 else map_option Suc (position key ms))"

fun del_path :: "string \<Rightarrow> Node \<Rightarrow> string list \<Rightarrow> string" where
  "del_path text node [] = text"
| "del_path text node (key # rest) =
     (case node_kind node of
        KObject ms \<Rightarrow>
          (case position key ms of
             None \<Rightarrow> text
           | Some i \<Rightarrow>
               if rest = [] then remove_member text node ms i
               else if is_object (mem_value (ms ! i)) then del_path text (mem_value (ms ! i)) rest
               else text)
      | _ \<Rightarrow> text)"

definition json_del_one :: "json_text \<Rightarrow> string \<Rightarrow> string \<Rightarrow> EditError + string" where
  "json_del_one j text key_path =
     try_bind (edit_root j text key_path) (\<lambda>(segs, root). Inr (del_path text root segs))"

fun del_each :: "json_text \<Rightarrow> string list \<Rightarrow> string \<Rightarrow> EditError + string" where
  "del_each j [] text = Inr text"
| "del_each j (k # ks) text = try_bind (json_del_one j text k) (del_each j ks)"

definition json_del :: "json_text \<Rightarrow> string \<Rightarrow> string list \<Rightarrow> EditError + string" where
  "json_del j original keys =
     (let (bom, body) = split_bom original in
      try_bind (strip_jsonc body) (\<lambda>stripped.
        if trim stripped = [] then Inr original
        else try_bind (parse_json j body) (\<lambda>_. try_bind (del_each j keys body) (\<lambda>text. Inr (bom @ text)))))"

section \<open>Positions survive stripping\<close>

text \<open>
  The parser of \<open>serde_json\<close> sees the stripped copy, the edits are made on the original: both have the same
  length, and a newline is at the same place in both, so a position reported for one is a position of the other.
\<close>

definition same_lines :: "string \<Rightarrow> string \<Rightarrow> bool" where
  "same_lines a b \<longleftrightarrow> list_all2 (\<lambda>x y. (x = nl) = (y = nl)) a b"

lemma same_lines_refl [simp]: "same_lines s s"
  by (simp add: same_lines_def list.rel_refl)

lemma same_lines_Cons [simp]: "same_lines (x # a) (y # b) \<longleftrightarrow> (x = nl) = (y = nl) \<and> same_lines a b"
  by (simp add: same_lines_def)

lemma same_lines_append: "same_lines a b \<Longrightarrow> same_lines c d \<Longrightarrow> same_lines (a @ c) (b @ d)"
  by (simp add: same_lines_def list_all2_appendI)

lemma same_lines_trans: "same_lines a b \<Longrightarrow> same_lines b c \<Longrightarrow> same_lines a c"
  unfolding same_lines_def by (rule list_all2_trans [of _ _ "\<lambda>x y. (x = nl) = (y = nl)"]) auto

lemma strip_line_same: "\<exists>p. s = p @ snd (strip_line s) \<and> same_lines (fst (strip_line s)) p"
proof (induction s)
  case (Cons c s)
  then obtain p where "s = p @ snd (strip_line s)" "same_lines (fst (strip_line s)) p" by blast
  then show ?case
    by (cases "c = nl") (auto simp: Let_def same_lines_def split: prod.split intro: exI [of _ "c # p"])
qed (simp add: same_lines_def)

lemma strip_block_same: "\<exists>p. s = p @ snd (strip_block s) \<and> same_lines (fst (strip_block s)) p"
proof (induction s)
  case (Cons c s)
  then obtain p where p: "s = p @ snd (strip_block s)" "same_lines (fst (strip_block s)) p" by blast
  show ?case
  proof (cases "c = CHR ''*'' \<and> s \<noteq> [] \<and> hd s = CHR ''/''")
    case True
    then show ?thesis by (intro exI [of _ "[c, CHR ''/'']"], cases s) (auto simp: same_lines_def)
  next
    case False
    then have eq: "strip_block (c # s) =
        ((if c = nl \<or> c = cr then c else CHR '' '') # fst (strip_block s), snd (strip_block s))"
      by (auto simp: Let_def split: prod.split)
    show ?thesis unfolding eq using p by (intro exI [of _ "c # p"]) simp
  qed
qed (simp add: same_lines_def)

lemma strip_commas_same: "same_lines (strip_commas i e s) s"
  by (induction i e s rule: strip_commas.induct) (auto split: list.split)

lemma strip_comments_same: "same_lines (strip_comments i e s) s"
proof (induction i e s rule: strip_comments.induct)
  case (2 i e c s)
  have two: "c # s = [c, hd s] @ tl s" if "s \<noteq> []" using that by simp
  show ?case
  proof (cases "i \<or> c = CHR 0x22 \<or> c \<noteq> CHR ''/'' \<or> s = [] \<or> hd s \<noteq> CHR ''/'' \<and> hd s \<noteq> CHR ''*''")
    case True
    then show ?thesis using 2 by auto
  next
    case False
    then have f: "\<not> i" "c = CHR ''/''" "s \<noteq> []" "hd s = CHR ''/'' \<or> hd s = CHR ''*''" by auto
    obtain p where p: "tl s = p @ snd (strip_line (tl s))" "same_lines (fst (strip_line (tl s))) p"
      using strip_line_same by blast
    obtain q where q: "tl s = q @ snd (strip_block (tl s))" "same_lines (fst (strip_block (tl s))) q"
      using strip_block_same by blast
    show ?thesis
    proof (cases "hd s = CHR ''/''")
      case True
      then have "same_lines (strip_comments False e (snd (strip_line (tl s)))) (snd (strip_line (tl s)))"
        using 2(6) f by simp
      from same_lines_append [OF p(2) this] p(1)
      have "same_lines (fst (strip_line (tl s)) @ strip_comments False e (snd (strip_line (tl s)))) (tl s)" by simp
      then show ?thesis using f True two by (cases s) simp_all
    next
      case star: False
      then have "same_lines (strip_comments False e (snd (strip_block (tl s)))) (snd (strip_block (tl s)))"
        using 2(7) f by simp
      from same_lines_append [OF q(2) this] q(1)
      have "same_lines (fst (strip_block (tl s)) @ strip_comments False e (snd (strip_block (tl s)))) (tl s)" by simp
      then show ?thesis using f star two by (cases s) simp_all
    qed
  qed
qed simp

lemma strip_jsonc_same: "strip_jsonc src = Inr out \<Longrightarrow> same_lines out src"
  using same_lines_trans [OF strip_commas_same strip_comments_same]
  by (auto simp: strip_jsonc_def strip_trailing_commas_def Let_def split: if_splits)

end
