(* ===== verification/Agent_Specs.thy ===== *)
theory Agent_Specs
  imports Json_Edit
begin

text \<open>
  The agent specifications of the agent-wiring crate: the shared helpers of
  \<open>crates/agent-wiring/src/spec/mod.rs\<close> and the Claude Code, Gemini CLI and Pi specifications of \<open>claude.rs\<close>,
  \<open>gemini.rs\<close> and \<open>pi.rs\<close>.  A trait object is a record of its methods; the thread-local stash path, which the
  orchestrator sets around every call, is an argument.  Methods that touch the disk pass it along and stop at the
  first error.
\<close>

section \<open>Sequencing\<close>

type_synonym 'a io = "disk \<Rightarrow> (WiringError + 'a) \<times> disk"

definition io_ok :: "'a \<Rightarrow> 'a io" where
  "io_ok x d = (Inr x, d)"

definition io_bind :: "'a io \<Rightarrow> ('a \<Rightarrow> 'b io) \<Rightarrow> 'b io" where
  "io_bind m f d = (case m d of (Inl e, d) \<Rightarrow> (Inl e, d) | (Inr x, d) \<Rightarrow> f x d)"

definition io_edit :: "EditError + 'a \<Rightarrow> 'a io" where
  "io_edit r d = (case r of Inl e \<Rightarrow> (Inl (WEdit e), d) | Inr x \<Rightarrow> (Inr x, d))"

section \<open>Shared helpers\<close>

record HomeCtx =
  home_dir :: string
  home_env :: "string \<Rightarrow> string option"

record WiringCtx =
  gateway_url :: string
  agent_key :: string
  wiring_catalog :: "CatalogModel list"
  default_model :: string

datatype WiredState = Connected | Drifted | Disconnected

definition path_join :: "string \<Rightarrow> string \<Rightarrow> string" where
  "path_join a b =
     (if starts_with ''/'' b then b else if a = [] \<or> ends_with ''/'' a then a @ b else a @ ''/'' @ b)"

definition record_old_values :: "Stash \<Rightarrow> string \<Rightarrow> namespace \<Rightarrow> Stash" where
  "record_old_values stash agent vals =
     (let existing = old_values stash agent;
          fresh = fmfilter (\<lambda>k. the (fmlookup vals k) \<noteq> [] \<and> fmlookup existing k = None) vals in
      if fresh = fmempty then stash else stash_record stash agent fresh)"

definition authority :: "string \<Rightarrow> string option" where
  "authority url =
     (let trimmed = trim url in
      if trimmed = [] then None
      else let after = (case split_once ''://'' trimmed of Some (_, rest) \<Rightarrow> rest | None \<Rightarrow> trimmed);
               a = takeWhile (\<lambda>c. c \<notin> {CHR ''/'', CHR ''?'', CHR ''#''}) after in
           then_some (a \<noteq> []) a)"

definition gw_base_match :: "string \<Rightarrow> string \<Rightarrow> bool" where
  "gw_base_match v gateway =
     (case (authority gateway, authority v) of
        (Some g, Some c) \<Rightarrow> to_ascii_lowercase g = to_ascii_lowercase c
      | _ \<Rightarrow> False)"

definition gateway_path :: "string \<Rightarrow> string \<Rightarrow> string" where
  "gateway_path url s = trim_end_char (CHR ''/'') url @ ''/'' @ dropWhile (\<lambda>c. c = CHR ''/'') s"

definition expand_tilde :: "HomeCtx \<Rightarrow> string \<Rightarrow> string" where
  "expand_tilde ctx v =
     (if v = ''~'' then home_dir ctx
      else case strip_prefix ''~/'' v of Some rest \<Rightarrow> path_join (home_dir ctx) rest | None \<Rightarrow> v)"

definition env_dir :: "HomeCtx \<Rightarrow> string \<Rightarrow> string \<Rightarrow> string" where
  "env_dir ctx variable default_dir =
     (case home_env ctx variable of
        Some v \<Rightarrow> if trim v \<noteq> [] then expand_tilde ctx (trim v) else default_dir
      | None \<Rightarrow> default_dir)"

definition read_config :: "string \<Rightarrow> string option io" where
  "read_config path d =
     (case atomic_read path d of
        (Inl e, d) \<Rightarrow> (Inl (WIo e), d)
      | (Inr None, d) \<Rightarrow> (Inr None, d)
      | (Inr (Some bytes), d) \<Rightarrow> (if utf8_valid bytes then Inr (Some bytes) else Inl (WIo IoOther), d))"

definition write_config :: "string \<Rightarrow> string \<Rightarrow> string io" where
  "write_config path txt d =
     (case write_atomic path txt d of (Inl e, d) \<Rightarrow> (Inl (WIo e), d) | (Inr _, d) \<Rightarrow> (Inr path, d))"

definition load_stash :: "Stash store_json \<Rightarrow> string \<Rightarrow> Stash io" where
  "load_stash sj stash_path d = (let (s, d) = store_load sj stash_path d in (Inr s, d))"

definition save_stash :: "Stash store_json \<Rightarrow> string \<Rightarrow> Stash \<Rightarrow> unit io" where
  "save_stash sj stash_path stash d =
     (case store_save sj stash stash_path d of (Inl e, d) \<Rightarrow> (Inl (WBackup e), d) | (Inr u, d) \<Rightarrow> (Inr u, d))"

section \<open>The trait\<close>

record agent_spec =
  spec_id :: string
  config_files :: "HomeCtx \<Rightarrow> string list"
  spec_connect :: "string \<Rightarrow> HomeCtx \<Rightarrow> WiringCtx \<Rightarrow> string list io"
  spec_disconnect :: "string \<Rightarrow> HomeCtx \<Rightarrow> string list io"
  read_state :: "HomeCtx \<Rightarrow> string \<Rightarrow> disk \<Rightarrow> WiredState \<times> disk"
  applied_values :: "HomeCtx \<Rightarrow> disk \<Rightarrow> namespace \<times> disk"

definition wired_state :: "string option \<Rightarrow> string option \<Rightarrow> string \<Rightarrow> WiredState" where
  "wired_state base key gateway =
     (case (case base of Some v \<Rightarrow> gw_base_match v gateway | None \<Rightarrow> False,
            case key of Some v \<Rightarrow> v \<noteq> [] | None \<Rightarrow> False) of
        (True, True) \<Rightarrow> Connected
      | (False, False) \<Rightarrow> Disconnected
      | _ \<Rightarrow> Drifted)"

text \<open>The values of the listed keys that are present, stored under their stash names.\<close>

definition present :: "(string \<Rightarrow> string) \<Rightarrow> (string \<Rightarrow> string option) \<Rightarrow> string list \<Rightarrow> namespace" where
  "present name read keys = fmap_of_list (List.map_filter (\<lambda>k. map_option (Pair (name k)) (read k)) keys)"

text \<open>The keys that go back to an old value, and those that are deleted.\<close>

definition restore_sets :: "namespace \<Rightarrow> (string \<Rightarrow> string) \<Rightarrow> string list \<Rightarrow> KV list" where
  "restore_sets old name keys =
     List.map_filter (\<lambda>k. map_option (\<lambda>v. \<lparr>kv_path = k, kv_value = JString v\<rparr>)
                            (opt_filter (\<lambda>v. v \<noteq> []) (fmlookup old (name k)))) keys"

definition restore_deletes :: "namespace \<Rightarrow> (string \<Rightarrow> string) \<Rightarrow> string list \<Rightarrow> string list" where
  "restore_deletes old name keys =
     filter (\<lambda>k. opt_filter (\<lambda>v. v \<noteq> []) (fmlookup old (name k)) = None) keys"

abbreviation kv_str :: "string \<Rightarrow> string \<Rightarrow> KV" where
  "kv_str k v \<equiv> \<lparr>kv_path = k, kv_value = JString v\<rparr>"

section \<open>Claude Code\<close>

definition CLAUDE_KEYS :: "string list" where
  "CLAUDE_KEYS =
     [''env.ANTHROPIC_BASE_URL'', ''env.ANTHROPIC_AUTH_TOKEN'', ''env.ANTHROPIC_MODEL'',
      ''env.ANTHROPIC_DEFAULT_HAIKU_MODEL'', ''env.ANTHROPIC_DEFAULT_SONNET_MODEL'',
      ''env.ANTHROPIC_DEFAULT_OPUS_MODEL'', ''env.ANTHROPIC_API_KEY'']"

definition claude_settings_path :: "HomeCtx \<Rightarrow> string" where
  "claude_settings_path ctx = path_join (path_join (home_dir ctx) ''.claude'') ''settings.json''"

definition tier_kv :: "string \<Rightarrow> CatalogModel option \<Rightarrow> KV list" where
  "tier_kv key m = (case m of Some m \<Rightarrow> [kv_str key (model_id m)] | None \<Rightarrow> [])"

definition claude_kvs :: "(string \<Rightarrow> string) \<Rightarrow> WiringCtx \<Rightarrow> KV list" where
  "claude_kvs to_lowercase w =
     [kv_str ''env.ANTHROPIC_BASE_URL'' (gateway_url w), kv_str ''env.ANTHROPIC_AUTH_TOKEN'' (agent_key w),
      kv_str ''env.ANTHROPIC_MODEL'' (default_model w)] @
     (case tier_models to_lowercase (wiring_catalog w) of
        None \<Rightarrow> []
      | Some (sonnet, haiku, opus) \<Rightarrow>
          tier_kv ''env.ANTHROPIC_DEFAULT_SONNET_MODEL'' sonnet @
          tier_kv ''env.ANTHROPIC_DEFAULT_HAIKU_MODEL'' haiku @
          tier_kv ''env.ANTHROPIC_DEFAULT_OPUS_MODEL'' opus)"

definition claude_connect ::
  "(string \<Rightarrow> string) \<Rightarrow> json_text \<Rightarrow> Stash store_json \<Rightarrow> string \<Rightarrow> HomeCtx \<Rightarrow> WiringCtx \<Rightarrow> string list io" where
  "claude_connect to_lowercase j sj stash_path ctx w =
     (let path = claude_settings_path ctx in
      io_bind (read_config path) (\<lambda>text.
        let current = unwrap_or [] text in
        if json_get j current ''apiKeyHelper'' \<noteq> None then
          (\<lambda>d. (Inl (Refused ''apiKeyHelper is configured; remove it before connecting''), d))
        else
          io_bind (load_stash sj stash_path) (\<lambda>stash.
            let stash = record_old_values stash ''claude-code'' (present id (json_get j current) CLAUDE_KEYS) in
            io_bind (io_edit (json_set j current (claude_kvs to_lowercase w))) (\<lambda>text.
              io_bind (io_edit (json_del j text [''env.ANTHROPIC_API_KEY''])) (\<lambda>text.
                io_bind (write_config path text) (\<lambda>written.
                  io_bind (save_stash sj stash_path stash) (\<lambda>_. io_ok [written])))))))"

definition claude_disconnect :: "json_text \<Rightarrow> Stash store_json \<Rightarrow> string \<Rightarrow> HomeCtx \<Rightarrow> string list io" where
  "claude_disconnect j sj stash_path ctx =
     (let path = claude_settings_path ctx in
      io_bind (read_config path) (\<lambda>text.
        io_bind (load_stash sj stash_path) (\<lambda>stash.
          let rest = snd (take_namespace ''claude-code'' stash) in
          case text of
            None \<Rightarrow> io_bind (save_stash sj stash_path rest) (\<lambda>_. io_ok [])
          | Some current \<Rightarrow>
              let old = old_values stash ''claude-code'' in
              io_bind (io_edit (json_set j current (restore_sets old id CLAUDE_KEYS))) (\<lambda>text.
                io_bind (io_edit (json_del j text (restore_deletes old id CLAUDE_KEYS))) (\<lambda>text.
                  io_bind (write_config path text) (\<lambda>written.
                    io_bind (save_stash sj stash_path rest) (\<lambda>_. io_ok [written])))))))"

definition read_ok :: "string \<Rightarrow> disk \<Rightarrow> string option \<times> disk" where
  "read_ok path d = (case read_config path d of (Inr text, d) \<Rightarrow> (text, d) | (Inl _, d) \<Rightarrow> (None, d))"

definition claude_spec :: "(string \<Rightarrow> string) \<Rightarrow> json_text \<Rightarrow> Stash store_json \<Rightarrow> agent_spec" where
  "claude_spec to_lowercase j sj =
     \<lparr>spec_id = ''claude-code'',
      config_files = (\<lambda>ctx. [claude_settings_path ctx]),
      spec_connect = claude_connect to_lowercase j sj,
      spec_disconnect = claude_disconnect j sj,
      read_state = (\<lambda>ctx gateway d.
        case read_ok (claude_settings_path ctx) d of
          (None, d) \<Rightarrow> (Disconnected, d)
        | (Some current, d) \<Rightarrow>
            (wired_state (json_get j current ''env.ANTHROPIC_BASE_URL'') (json_get j current ''env.ANTHROPIC_AUTH_TOKEN'')
               gateway, d)),
      applied_values = (\<lambda>ctx d.
        case read_ok (claude_settings_path ctx) d of
          (None, d) \<Rightarrow> (fmempty, d)
        | (Some current, d) \<Rightarrow> (present id (json_get j current) CLAUDE_KEYS, d))\<rparr>"

section \<open>Gemini CLI\<close>

definition GEMINI_ENV_KEYS :: "string list" where
  "GEMINI_ENV_KEYS = [''GOOGLE_GEMINI_BASE_URL'', ''GEMINI_API_KEY'', ''GEMINI_MODEL'', ''GOOGLE_API_KEY'']"

definition SELECTED_TYPE :: string where
  "SELECTED_TYPE = ''security.auth.selectedType''"

definition SELECTED_NAME :: string where
  "SELECTED_NAME = ''settings.security.auth.selectedType''"

definition gemini_dir :: "HomeCtx \<Rightarrow> string" where
  "gemini_dir ctx = path_join (home_dir ctx) ''.gemini''"

definition gemini_env_path :: "HomeCtx \<Rightarrow> string" where
  "gemini_env_path ctx = path_join (gemini_dir ctx) ''.env''"

definition gemini_settings_path :: "HomeCtx \<Rightarrow> string" where
  "gemini_settings_path ctx = path_join (gemini_dir ctx) ''settings.json''"

definition env_name :: "string \<Rightarrow> string" where
  "env_name k = ''env.'' @ k"

text \<open>Every value the specification writes into a dotenv file is a string, so no other value is printed.\<close>

abbreviation no_print :: "value \<Rightarrow> string" where
  "no_print \<equiv> (\<lambda>_. [])"

definition gemini_old :: "json_text \<Rightarrow> string \<Rightarrow> string \<Rightarrow> namespace" where
  "gemini_old j env_text settings_text =
     (let env = present env_name (env_get env_text) GEMINI_ENV_KEYS in
      case json_get j settings_text SELECTED_TYPE of
        Some v \<Rightarrow> fmupd SELECTED_NAME v env
      | None \<Rightarrow> env)"

definition gemini_next_env :: "WiringCtx \<Rightarrow> string \<Rightarrow> string" where
  "gemini_next_env w env_text =
     env_del
       (env_set no_print env_text
          [kv_str ''GOOGLE_GEMINI_BASE_URL'' (gateway_url w), kv_str ''GEMINI_API_KEY'' (agent_key w),
           kv_str ''GEMINI_MODEL'' (default_model w)])
       [''GOOGLE_API_KEY'']"

definition gemini_connect ::
  "json_text \<Rightarrow> Stash store_json \<Rightarrow> string \<Rightarrow> HomeCtx \<Rightarrow> WiringCtx \<Rightarrow> string list io" where
  "gemini_connect j sj stash_path ctx w =
     (let env_path = gemini_env_path ctx; settings_path = gemini_settings_path ctx in
      io_bind (read_config env_path) (\<lambda>e.
        io_bind (read_config settings_path) (\<lambda>s.
          let env_text = unwrap_or [] e; settings_text = unwrap_or [] s in
          io_bind (load_stash sj stash_path) (\<lambda>stash.
            let stash = record_old_values stash ''gemini-cli'' (gemini_old j env_text settings_text) in
            io_bind (write_config env_path (gemini_next_env w env_text)) (\<lambda>w1.
              io_bind
                (case opt_filter (\<lambda>t. t \<noteq> ''GEMINI_API_KEY'') (json_get j settings_text SELECTED_TYPE) of
                   None \<Rightarrow> io_ok [w1]
                 | Some _ \<Rightarrow>
                     io_bind (io_edit (json_set j settings_text [kv_str SELECTED_TYPE ''GEMINI_API_KEY''])) (\<lambda>text.
                       io_bind (write_config settings_path text) (\<lambda>w2. io_ok [w1, w2])))
                (\<lambda>written. io_bind (save_stash sj stash_path stash) (\<lambda>_. io_ok written)))))))"

definition gemini_restore_env :: "namespace \<Rightarrow> string \<Rightarrow> string" where
  "gemini_restore_env old current =
     env_del (env_set no_print current (restore_sets old env_name GEMINI_ENV_KEYS))
       (restore_deletes old env_name GEMINI_ENV_KEYS)"

definition gemini_disconnect :: "json_text \<Rightarrow> Stash store_json \<Rightarrow> string \<Rightarrow> HomeCtx \<Rightarrow> string list io" where
  "gemini_disconnect j sj stash_path ctx =
     (let env_path = gemini_env_path ctx; settings_path = gemini_settings_path ctx in
      io_bind (load_stash sj stash_path) (\<lambda>stash.
        let old = old_values stash ''gemini-cli''; rest = snd (take_namespace ''gemini-cli'' stash) in
        io_bind (read_config env_path) (\<lambda>e.
          io_bind (case e of
                     None \<Rightarrow> io_ok []
                   | Some current \<Rightarrow>
                       io_bind (write_config env_path (gemini_restore_env old current)) (\<lambda>p. io_ok [p])) (\<lambda>w1.
            io_bind (read_config settings_path) (\<lambda>s.
              io_bind (case s of
                         None \<Rightarrow> io_ok w1
                       | Some current \<Rightarrow>
                           io_bind (io_edit
                             (case opt_filter (\<lambda>v. v \<noteq> []) (fmlookup old SELECTED_NAME) of
                                Some v \<Rightarrow> json_set j current [kv_str SELECTED_TYPE v]
                              | None \<Rightarrow> json_del j current [SELECTED_TYPE])) (\<lambda>text.
                             io_bind (write_config settings_path text) (\<lambda>p. io_ok (w1 @ [p])))) (\<lambda>w2.
                io_bind (save_stash sj stash_path rest) (\<lambda>_. io_ok w2)))))))"

definition gemini_spec :: "json_text \<Rightarrow> Stash store_json \<Rightarrow> agent_spec" where
  "gemini_spec j sj =
     \<lparr>spec_id = ''gemini-cli'',
      config_files = (\<lambda>ctx. [gemini_env_path ctx, gemini_settings_path ctx]),
      spec_connect = gemini_connect j sj,
      spec_disconnect = gemini_disconnect j sj,
      read_state = (\<lambda>ctx gateway d.
        case read_ok (gemini_env_path ctx) d of
          (None, d) \<Rightarrow> (Disconnected, d)
        | (Some t, d) \<Rightarrow> (wired_state (env_get t ''GOOGLE_GEMINI_BASE_URL'') (env_get t ''GEMINI_API_KEY'') gateway, d)),
      applied_values = (\<lambda>ctx d.
        let (e, d) = read_ok (gemini_env_path ctx) d; (s, d) = read_ok (gemini_settings_path ctx) d;
            env = (case e of Some t \<Rightarrow> present env_name (env_get t) GEMINI_ENV_KEYS | None \<Rightarrow> fmempty) in
        (case Option.bind s (\<lambda>t. json_get j t SELECTED_TYPE) of
           Some v \<Rightarrow> fmupd SELECTED_NAME v env
         | None \<Rightarrow> env, d))\<rparr>"

section \<open>Pi\<close>

definition pi_dir :: "HomeCtx \<Rightarrow> string" where
  "pi_dir ctx = env_dir ctx ''PI_CODING_AGENT_DIR'' (path_join (path_join (home_dir ctx) ''.pi'') ''agent'')"

definition pi_settings_path :: "HomeCtx \<Rightarrow> string" where
  "pi_settings_path ctx = path_join (pi_dir ctx) ''settings.json''"

definition pi_models_path :: "HomeCtx \<Rightarrow> string" where
  "pi_models_path ctx = path_join (pi_dir ctx) ''models.json''"

definition model_entry :: "CatalogModel \<Rightarrow> string \<times> value" where
  "model_entry m =
     (model_id m,
      jobj ([(''name'', JString (model_name m)), (''reasoning'', JBool (model_reasoning m))] @
        (case context_tokens m of Some n \<Rightarrow> [(''context'', JNumber (PosInt n))] | None \<Rightarrow> [])))"

text \<open>A later model replaces an earlier one with the same identifier.\<close>

definition provider_models :: "WiringCtx \<Rightarrow> obj" where
  "provider_models w = fold (\<lambda>m o'. fmupd (fst (model_entry m)) (snd (model_entry m)) o') (wiring_catalog w) fmempty"

definition enabled_items :: "json_text \<Rightarrow> string \<Rightarrow> value list option" where
  "enabled_items j settings =
     Option.bind (json_get j settings ''enabledModels'') (\<lambda>raw.
       case jt_from_str j raw of Inr (JArray items) \<Rightarrow> Some items | _ \<Rightarrow> None)"

definition append_enabled_model :: "json_text \<Rightarrow> string \<Rightarrow> string \<Rightarrow> EditError + string" where
  "append_enabled_model j settings model =
     (case enabled_items j settings of
        None \<Rightarrow> Inr settings
      | Some items \<Rightarrow>
          let reference = ''any-converter/'' @ model in
          if list_ex (\<lambda>i. as_str i = Some reference) items then Inr settings
          else json_set j settings [\<lparr>kv_path = ''enabledModels'', kv_value = JArray (items @ [JString reference])\<rparr>])"

definition strip_enabled_models :: "json_text \<Rightarrow> string \<Rightarrow> EditError + string" where
  "strip_enabled_models j settings =
     (case enabled_items j settings of
        None \<Rightarrow> Inr settings
      | Some items \<Rightarrow>
          let kept = filter (\<lambda>i. \<not> (case as_str i of Some s \<Rightarrow> starts_with ''any-converter/'' s | None \<Rightarrow> False)) items in
          if kept = [] then json_del j settings [''enabledModels'']
          else json_set j settings [\<lparr>kv_path = ''enabledModels'', kv_value = JArray kept\<rparr>])"

definition settings_name :: "string \<Rightarrow> string" where
  "settings_name k = ''settings.'' @ k"

definition pi_provider :: "WiringCtx \<Rightarrow> value" where
  "pi_provider w =
     jobj [(''name'', JString ''any-converter''), (''baseUrl'', JString (gateway_path (gateway_url w) ''v1'')),
           (''apiKey'', JString (agent_key w)), (''models'', JObject (provider_models w))]"

definition pi_connect ::
  "json_text \<Rightarrow> Stash store_json \<Rightarrow> string \<Rightarrow> HomeCtx \<Rightarrow> WiringCtx \<Rightarrow> string list io" where
  "pi_connect j sj stash_path ctx w =
     io_bind (read_config (pi_settings_path ctx)) (\<lambda>s.
       io_bind (read_config (pi_models_path ctx)) (\<lambda>m.
         let settings = unwrap_or [] s; models = unwrap_or [] m in
         io_bind (load_stash sj stash_path) (\<lambda>stash.
           let stash = record_old_values stash ''pi''
                 (present settings_name (json_get j settings) [''defaultProvider'', ''defaultModel'', ''enabledModels'']) in
           io_bind (io_edit (json_set j models
               [\<lparr>kv_path = ''providers.any-converter'', kv_value = pi_provider w\<rparr>])) (\<lambda>models_text.
             io_bind (io_edit (json_set j settings
                 [kv_str ''defaultProvider'' ''any-converter'', kv_str ''defaultModel'' (default_model w)])) (\<lambda>t.
               io_bind (io_edit (append_enabled_model j t (default_model w))) (\<lambda>settings_text.
                 io_bind (write_config (pi_models_path ctx) models_text) (\<lambda>w1.
                   io_bind (write_config (pi_settings_path ctx) settings_text) (\<lambda>w2.
                     io_bind (save_stash sj stash_path stash) (\<lambda>_. io_ok [w1, w2])))))))))"

definition pi_disconnect :: "json_text \<Rightarrow> Stash store_json \<Rightarrow> string \<Rightarrow> HomeCtx \<Rightarrow> string list io" where
  "pi_disconnect j sj stash_path ctx =
     io_bind (load_stash sj stash_path) (\<lambda>stash.
       let old = old_values stash ''pi''; rest = snd (take_namespace ''pi'' stash) in
       io_bind (read_config (pi_models_path ctx)) (\<lambda>m.
         io_bind (case m of
                    None \<Rightarrow> io_ok []
                  | Some current \<Rightarrow>
                      io_bind (io_edit (json_del j current [''providers.any-converter''])) (\<lambda>t.
                        io_bind (write_config (pi_models_path ctx) t) (\<lambda>p. io_ok [p]))) (\<lambda>w1.
           io_bind (read_config (pi_settings_path ctx)) (\<lambda>s.
             io_bind (case s of
                        None \<Rightarrow> io_ok w1
                      | Some current \<Rightarrow>
                          let keys = [''defaultProvider'', ''defaultModel''] in
                          io_bind (io_edit (json_set j current (restore_sets old settings_name keys))) (\<lambda>t.
                            io_bind (io_edit (json_del j t (restore_deletes old settings_name keys))) (\<lambda>t.
                              io_bind (io_edit (strip_enabled_models j t)) (\<lambda>t.
                                io_bind (write_config (pi_settings_path ctx) t) (\<lambda>p. io_ok (w1 @ [p])))))) (\<lambda>w2.
               io_bind (save_stash sj stash_path rest) (\<lambda>_. io_ok w2))))))"

definition pi_spec :: "json_text \<Rightarrow> Stash store_json \<Rightarrow> agent_spec" where
  "pi_spec j sj =
     \<lparr>spec_id = ''pi'',
      config_files = (\<lambda>ctx. [pi_settings_path ctx, pi_models_path ctx]),
      spec_connect = pi_connect j sj,
      spec_disconnect = pi_disconnect j sj,
      read_state = (\<lambda>ctx gateway d.
        case read_ok (pi_models_path ctx) d of
          (None, d) \<Rightarrow> (Disconnected, d)
        | (Some t, d) \<Rightarrow>
            (wired_state (json_get j t ''providers.any-converter.baseUrl'')
               (json_get j t ''providers.any-converter.apiKey'') gateway, d)),
      applied_values = (\<lambda>ctx d.
        let (s, d) = read_ok (pi_settings_path ctx) d; (m, d) = read_ok (pi_models_path ctx) d in
        ((case s of
            Some t \<Rightarrow> present settings_name (json_get j t) [''defaultProvider'', ''defaultModel'', ''enabledModels'']
          | None \<Rightarrow> fmempty) ++\<^sub>f
         (case m of
            Some t \<Rightarrow> present (\<lambda>k. ''models.providers.any-converter.'' @ k)
                        (\<lambda>k. json_get j t (''providers.any-converter.'' @ k)) [''baseUrl'', ''apiKey'']
          | None \<Rightarrow> fmempty), d))\<rparr>"


section \<open>The stash keeps the values from before the first connect\<close>

lemma entries_map_of: "map_of (entries m) k = fmlookup m k"
proof -
  have "map_of (map (\<lambda>k. (k, the (fmlookup m k))) ks) k = (if k \<in> set ks then Some (the (fmlookup m k)) else None)"
    for ks by (induction ks) auto
  moreover have "k \<in> set (sorted_list_of_fset (fmdom m)) \<longleftrightarrow> fmlookup m k \<noteq> None"
    by (simp add: sorted_list_of_fset.rep_eq fmlookup_dom_iff)
  ultimately show ?thesis by (auto simp: entries_def)
qed

lemma fold_stash_put:
  "distinct (map fst kvs) \<Longrightarrow> list_all (\<lambda>(k, v). v \<noteq> []) kvs \<Longrightarrow>
   fmlookup (fold stash_put kvs ns) k = (case map_of kvs k of Some v \<Rightarrow> Some v | None \<Rightarrow> fmlookup ns k)"
proof (induction kvs arbitrary: ns)
  case (Cons kv kvs)
  obtain x v where kv: "kv = (x, v)" by fastforce
  have "map_of kvs x = None" using Cons.prems kv by (simp add: map_of_eq_None_iff)
  then show ?case
    using Cons.IH [of "fmupd x v ns"] Cons.prems kv
    by (auto simp: stash_put_def [of "(x, v)"] split: option.split)
qed simp

lemma entries_distinct: "distinct (map fst (entries m))"
  by (simp add: entries_def comp_def sorted_list_of_fset.rep_eq)

lemma entries_member: "(k, v) \<in> set (entries m) \<Longrightarrow> fmlookup m k = Some v"
  by (metis entries_map_of entries_distinct map_of_eq_Some_iff)

lemma record_old_values_lookup:
  "fmlookup (old_values (record_old_values stash agent vals) agent) k =
   (case fmlookup (old_values stash agent) k of
      Some v \<Rightarrow> Some v
    | None \<Rightarrow> opt_filter (\<lambda>v. v \<noteq> []) (fmlookup vals k))"
proof -
  define fresh where
    "fresh = fmfilter (\<lambda>k. the (fmlookup vals k) \<noteq> [] \<and> fmlookup (old_values stash agent) k = None) vals"
  have ne: "list_all (\<lambda>(k, v). v \<noteq> []) (entries fresh)"
    by (auto simp: list_all_iff fresh_def dest!: entries_member split: if_splits)
  have look: "fmlookup (fold stash_put (entries fresh) ns) k =
      (case fmlookup fresh k of Some v \<Rightarrow> Some v | None \<Rightarrow> fmlookup ns k)" for ns
    using fold_stash_put [OF entries_distinct ne, of ns k] by (simp add: entries_map_of)
  have f: "fmlookup fresh k =
      (if fmlookup (old_values stash agent) k = None then opt_filter (\<lambda>v. v \<noteq> []) (fmlookup vals k) else None)"
    by (cases "fmlookup vals k") (auto simp: fresh_def opt_filter_def)
  show ?thesis
  proof (cases "fresh = fmempty")
    case True
    then have "record_old_values stash agent vals = stash" by (simp add: record_old_values_def Let_def fresh_def)
    with True f show ?thesis by (auto split: option.split if_splits)
  next
    case False
    then have "old_values (record_old_values stash agent vals) agent = fold stash_put (entries fresh) (old_values stash agent)"
      unfolding record_old_values_def Let_def fresh_def [symmetric]
      by (simp add: stash_record_def old_values_def)
    with look f show ?thesis by (auto split: option.split)
  qed
qed

lemma present_lookup:
  assumes "inj name"
  shows "fmlookup (present name read keys) (name k) = (if k \<in> set keys then read k else None)"
proof -
  have "map_of (List.map_filter (\<lambda>k. map_option (Pair (name k)) (read k)) keys) (name k) =
        (if k \<in> set keys then read k else None)"
    using assms by (induction keys) (auto simp: inj_eq split: option.split)
  then show ?thesis by (simp add: present_def fmlookup_of_list)
qed

text \<open>What restoring a set of keys does to the map of a document.\<close>

lemma restore_lookup:
  assumes "distinct keys"
  shows "(fold (assign no_print) (restore_sets old name keys) m |` (- set (restore_deletes old name keys))) k =
         (if k \<in> set keys then opt_filter (\<lambda>v. v \<noteq> []) (fmlookup old (name k)) else m k)"
  using assms
proof (induction keys arbitrary: m)
  case (Cons x keys)
  have other: "fold (assign no_print) (restore_sets old name keys) m' k = m' k" if "k \<notin> set keys" for m'
  proof -
    have "k \<notin> kv_path ` set (restore_sets old name keys)"
      using that by (auto simp: restore_sets_def set_map_filter)
    then show ?thesis by (rule env.fold_update_other)
  qed
  show ?case
  proof (cases "opt_filter (\<lambda>v. v \<noteq> []) (fmlookup old (name x))")
    case None
    then have "restore_sets old name (x # keys) = restore_sets old name keys"
      "restore_deletes old name (x # keys) = x # restore_deletes old name keys"
      by (simp_all add: restore_sets_def restore_deletes_def)
    with None Cons show ?thesis by (auto simp: restrict_map_def)
  next
    case (Some v)
    then have "restore_sets old name (x # keys) = kv_str x v # restore_sets old name keys"
      "restore_deletes old name (x # keys) = restore_deletes old name keys"
      by (simp_all add: restore_sets_def restore_deletes_def)
    with Some Cons other [of "m(x \<mapsto> v)"] show ?thesis
      by (auto simp: restrict_map_def assign_def kv_raw_value_def restore_deletes_def)
  qed
qed (simp add: restore_sets_def restore_deletes_def)


section \<open>Wiring and unwiring the dotenv file\<close>

lemma env_del_editable:
  assumes "editable keys s"
  shows "editable keys (env_del s rs)"
proof -
  obtain b body where bb: "split_bom s = (b, body)" by fastforce
  let ?ls = "split_inclusive body" and ?fs = "filter (\<lambda>l. \<not> removes rs l) (split_inclusive body)"
  have ok: "editable_lines keys ?ls" using editable_split [OF assms] by (simp add: bb)
  have "last (last ?fs) \<noteq> cr" if "?fs \<noteq> []"
  proof (cases "last ?fs = last ?ls")
    case True
    then show ?thesis using ok that by (auto simp: editable_lines_def)
  next
    case False
    have "last ?fs \<in> set ?ls" using last_in_set [OF that] by simp
    with False have "last ?fs \<in> set (butlast ?ls)"
      by (metis append_butlast_last_id in_set_conv_decomp empty_iff insert_iff list.set set_append Un_iff split_inclusive_Nil)
    with ok show ?thesis by (auto simp: editable_lines_def doc_lines_iff terminated_def)
  qed
  then have "editable_lines keys ?fs"
    using ok doc_lines_filter [of ?ls] by (auto simp: editable_lines_def)
  moreover have "b = BOM \<or> b = []" using split_bom_fst [of s] bb by simp
  ultimately show ?thesis using editable_lines_concat by (simp add: env_del_def bb)
qed

lemma gemini_keys_valid: "k \<in> set GEMINI_ENV_KEYS \<Longrightarrow> valid_key k"
proof -
  have "list_all valid_key GEMINI_ENV_KEYS" by code_simp
  then show "k \<in> set GEMINI_ENV_KEYS \<Longrightarrow> valid_key k" by (simp add: list_all_iff)
qed

lemma gemini_restore_map:
  assumes "editable GEMINI_ENV_KEYS cur"
  shows "env_get (gemini_restore_env old cur) k =
         (if k \<in> set GEMINI_ENV_KEYS then opt_filter (\<lambda>v. v \<noteq> []) (fmlookup old (env_name k)) else env_get cur k)"
proof -
  have p: "kv_path kv \<in> set GEMINI_ENV_KEYS" if "kv \<in> set (restore_sets old env_name GEMINI_ENV_KEYS)" for kv
    using that by (auto simp: restore_sets_def set_map_filter)
  have "env_get (gemini_restore_env old cur) =
        fold (assign no_print) (restore_sets old env_name GEMINI_ENV_KEYS) (env_get cur)
          |` (- set (restore_deletes old env_name GEMINI_ENV_KEYS))"
    unfolding gemini_restore_env_def
    by (rule env.write_remove [OF assms]) (auto simp: list_all_iff dest!: p intro: gemini_keys_valid)
  moreover have "distinct GEMINI_ENV_KEYS" by code_simp
  ultimately show ?thesis by (simp add: restore_lookup)
qed

definition gemini_kvs :: "WiringCtx \<Rightarrow> KV list" where
  "gemini_kvs w =
     [kv_str ''GOOGLE_GEMINI_BASE_URL'' (gateway_url w), kv_str ''GEMINI_API_KEY'' (agent_key w),
      kv_str ''GEMINI_MODEL'' (default_model w)]"

lemma gemini_kvs_ok: "set (map kv_path (gemini_kvs w)) \<subseteq> set GEMINI_ENV_KEYS"
  "list_all (valid_key \<circ> kv_path) (gemini_kvs w)"
proof -
  show *: "set (map kv_path (gemini_kvs w)) \<subseteq> set GEMINI_ENV_KEYS"
    by (simp add: gemini_kvs_def GEMINI_ENV_KEYS_def)
  then show "list_all (valid_key \<circ> kv_path) (gemini_kvs w)"
    by (auto simp: list_all_iff intro: gemini_keys_valid)
qed

lemma gemini_next_map:
  assumes "editable GEMINI_ENV_KEYS t"
  shows "env_get (gemini_next_env w t) =
         (env_get t)(''GOOGLE_GEMINI_BASE_URL'' \<mapsto> gateway_url w, ''GEMINI_API_KEY'' \<mapsto> agent_key w,
                     ''GEMINI_MODEL'' \<mapsto> default_model w, ''GOOGLE_API_KEY'' := None)"
  using env.write_remove [OF assms gemini_kvs_ok [of w], where rs = "[''GOOGLE_API_KEY'']" and to_string = no_print]
  by (auto simp: gemini_next_env_def gemini_kvs_def [symmetric] restrict_map_def)
     (auto simp: gemini_kvs_def assign_def kv_raw_value_def)

lemma gemini_next_editable: "editable GEMINI_ENV_KEYS t \<Longrightarrow> editable GEMINI_ENV_KEYS (gemini_next_env w t)"
  unfolding gemini_next_env_def gemini_kvs_def [symmetric]
  by (intro env_del_editable env_set_editable gemini_kvs_ok)

lemma gemini_old_lookup:
  "fmlookup (gemini_old j t s) (env_name k) = (if k \<in> set GEMINI_ENV_KEYS then env_get t k else None)"
proof -
  have "inj env_name" by (simp add: inj_def env_name_def)
  moreover have "SELECTED_NAME \<noteq> env_name k" by (simp add: SELECTED_NAME_def env_name_def)
  ultimately show ?thesis
    by (simp add: gemini_old_def Let_def present_lookup split: option.split)
qed


definition sample_gemini :: string where
  "sample_gemini = ''# mine'' @ [nl] @ ''GEMINI_MODEL=pro'' @ [nl] @ ''OTHER=1'' @ [nl]"


text \<open>
  A second connect, which is what a catalog sync or a key rotation does, stashes the gateway's own address for a
  variable that was not set before the first one, and the disconnect that follows writes it back.
\<close>

lemma gemini_reconnect_stays_wired:
  assumes "editable GEMINI_ENV_KEYS t" "env_get t ''GOOGLE_GEMINI_BASE_URL'' = None" "gateway_url w \<noteq> []"
    and "stash = record_old_values (record_old_values fmempty ''gemini-cli'' (gemini_old j t s)) ''gemini-cli''
                   (gemini_old j (gemini_next_env w t) s)"
  shows "env_get (gemini_restore_env (old_values stash ''gemini-cli'') (gemini_next_env w (gemini_next_env w t)))
           ''GOOGLE_GEMINI_BASE_URL'' = Some (gateway_url w)"
proof -
  have first: "fmlookup (old_values fmempty a) k' = None" for a k' by (simp add: old_values_def)
  have "''GOOGLE_GEMINI_BASE_URL'' \<in> set GEMINI_ENV_KEYS" by (simp add: GEMINI_ENV_KEYS_def)
  moreover have "env_get (gemini_next_env w t) ''GOOGLE_GEMINI_BASE_URL'' = Some (gateway_url w)"
    by (simp add: gemini_next_map [OF assms(1)])
  ultimately show ?thesis
    using assms
    by (simp add: gemini_restore_map gemini_next_editable record_old_values_lookup gemini_old_lookup first)
qed

end
