(* ===== verification/Wiring.thy ===== *)
theory Wiring
  imports Agent_Specs
begin

text \<open>
  The orchestration of the agent-wiring crate, \<open>crates/agent-wiring/src/wiring.rs\<close>: connect with its snapshot,
  audit and restore, and the three-step disconnect.  Both are stated for any agent specification.  \<open>toml_edit\<close> is
  a parameter: the printed form of a document it parses, and whether its table is empty.
\<close>

type_synonym toml_text = "string \<Rightarrow> (string \<times> bool) option"

record ConnectReport =
  cr_files_written :: "string list"

record DisconnectReport =
  dr_files_written :: "string list"
  kept_backup :: "string list"
  warnings :: "string list"

definition stash_file :: "string \<Rightarrow> string" where
  "stash_file data_dir = path_join data_dir ''agent_stash.json''"

definition applied_file :: "string \<Rightarrow> string" where
  "applied_file data_dir = path_join data_dir ''agent_applied.json''"

section \<open>Documents that say the same\<close>

definition file_name :: "string \<Rightarrow> string" where
  "file_name path = rev (takeWhile (\<lambda>c. c \<noteq> CHR ''/'') (rev path))"

definition extension :: "string \<Rightarrow> string" where
  "extension path =
     (case rsplit_once (CHR ''.'') (file_name path) of
        Some (before, after) \<Rightarrow> if before = [] then [] else after
      | None \<Rightarrow> [])"

definition is_dotenv :: "string \<Rightarrow> bool" where
  "is_dotenv path \<longleftrightarrow> file_name path = ''.env''"

definition trim_bom :: "string \<Rightarrow> string" where
  "trim_bom s = drop_seqs [BOM] s"

definition normalize_json :: "json_text \<Rightarrow> string \<Rightarrow> string option" where
  "normalize_json j txt = json_get j txt []"

definition normalize_toml :: "toml_text \<Rightarrow> string \<Rightarrow> string option" where
  "normalize_toml t txt =
     map_option (\<lambda>(printed, _). trim (str_replace [cr, nl] [nl] printed)) (t (trim_bom txt))"

definition env_line_key :: "string \<Rightarrow> string option" where
  "env_line_key line0 =
     (let line = trim_start line0 in
      if line = [] \<or> starts_with ''#'' line then None
      else let line = trim_start (unwrap_or line (strip_prefix ''export '' line)) in
           Option.bind (split_once ''='' line) (\<lambda>(k, _). opt_filter (\<lambda>k. k \<noteq> []) (Some (trim k))))"

definition normalize_env :: "string \<Rightarrow> namespace" where
  "normalize_env txt = present id (env_get txt) (List.map_filter env_line_key (str_lines txt))"

definition semantically_equal :: "json_text \<Rightarrow> toml_text \<Rightarrow> string \<Rightarrow> string \<Rightarrow> string \<Rightarrow> bool" where
  "semantically_equal j t path l r \<longleftrightarrow>
     l = r \<or>
     utf8_valid l \<and> utf8_valid r \<and>
     (if extension path = ''json'' then normalize_json j l = normalize_json j r
      else if extension path = ''toml'' then normalize_toml t l = normalize_toml t r
      else if is_dotenv path then normalize_env l = normalize_env r
      else False)"

primrec empty_json_value :: "value \<Rightarrow> bool" where
  "empty_json_value JNull = True"
| "empty_json_value (JBool b) = False"
| "empty_json_value (JNumber n) = False"
| "empty_json_value (JString s) = False"
| "empty_json_value (JArray items) = (items = [])"
| "empty_json_value (JObject m) = fmpred (\<lambda>_ b. b) (fmmap empty_json_value m)"

definition is_empty_json :: "json_text \<Rightarrow> string \<Rightarrow> bool" where
  "is_empty_json j txt =
     (case normalize_json j txt of
        None \<Rightarrow> False
      | Some n \<Rightarrow> (case jt_from_str j n of Inr v \<Rightarrow> empty_json_value v | Inl _ \<Rightarrow> False))"

definition is_empty_document :: "json_text \<Rightarrow> toml_text \<Rightarrow> string \<Rightarrow> string \<Rightarrow> bool" where
  "is_empty_document j t path bytes \<longleftrightarrow>
     utf8_valid bytes \<and>
     (trim bytes = [] \<or>
      (if extension path = ''json'' then is_empty_json j bytes
       else if extension path = ''toml'' then
         (case t (trim_bom bytes) of Some (_, no_keys) \<Rightarrow> no_keys | None \<Rightarrow> False)
       else False))"

section \<open>Connect\<close>

definition restore_file :: "string \<Rightarrow> disk \<Rightarrow> disk" where
  "restore_file file d =
     (case read_backup file d of
        (Inl _, d) \<Rightarrow> d
      | (Inr backup, d) \<Rightarrow>
          (case atomic_read file d of
             (Inl _, d) \<Rightarrow> d
           | (Inr current, d) \<Rightarrow>
               (case (backup, current) of
                  (Some b, Some c) \<Rightarrow> if b \<noteq> c then snd (write_atomic file b d) else d
                | (Some b, None) \<Rightarrow> snd (write_atomic file b d)
                | (None, Some _) \<Rightarrow> snd (fs_remove file d)
                | (None, None) \<Rightarrow> d)))"

definition restore_after_failed_connect :: "string list \<Rightarrow> disk \<Rightarrow> disk" where
  "restore_after_failed_connect fs d = fold restore_file fs d"

definition wiring_connect ::
  "Applied store_json \<Rightarrow> string \<Rightarrow> agent_spec \<Rightarrow> HomeCtx \<Rightarrow> WiringCtx \<Rightarrow> disk \<Rightarrow>
   (WiringError + ConnectReport) \<times> disk" where
  "wiring_connect aj data_dir spec home w d =
     (let fs = config_files spec home in
      case snapshot_take fs d of
        (Inl e, d) \<Rightarrow> (Inl (WBackup e), d)
      | (Inr _, d) \<Rightarrow>
          (case spec_connect spec (stash_file data_dir) home w d of
             (Inr written, d) \<Rightarrow>
               (let (vals, d) = applied_values spec home d;
                    (applied, d) = store_load aj (applied_file data_dir) d;
                    applied = applied_record (clock d) applied (spec_id spec) (entries vals) in
                case store_save aj applied (applied_file data_dir) d of
                  (Inl e, d) \<Rightarrow> (Inl (WBackup e), d)
                | (Inr _, d) \<Rightarrow> (Inr \<lparr>cr_files_written = written\<rparr>, d))
           | (Inl e, d) \<Rightarrow> (Inl e, restore_after_failed_connect fs d)))"

section \<open>Disconnect\<close>

definition remove_if_exists :: "string \<Rightarrow> disk \<Rightarrow> (io_error + unit) \<times> disk" where
  "remove_if_exists path d =
     (case fs_remove path d of
        (Inl IoNotFound, d) \<Rightarrow> (Inr (), d)
      | r \<Rightarrow> r)"

text \<open>The decision for one file: whether its backup is kept, and a warning; an error ends the loop.\<close>

definition settle_file ::
  "json_text \<Rightarrow> toml_text \<Rightarrow> string \<Rightarrow> disk \<Rightarrow> (WiringError + bool \<times> string list) \<times> disk" where
  "settle_file j t file d =
     (case read_backup file d of
        (Inl _, d) \<Rightarrow> (Inr (False, [''backup_corrupt'']), snd (preserve_bad file d))
      | (Inr backup, d) \<Rightarrow>
          (case atomic_read file d of
             (Inl e, d) \<Rightarrow> (Inl (WIo e), d)
           | (Inr current, d) \<Rightarrow>
               (case (backup, current) of
                  (Some b, Some c) \<Rightarrow>
                    if c = b then (Inr (False, []), clear_backup file d)
                    else if semantically_equal j t file c b then
                      (case write_atomic file b d of
                         (Inl e, d) \<Rightarrow> (Inl (WIo e), d)
                       | (Inr _, d) \<Rightarrow> (Inr (False, []), clear_backup file d))
                    else (Inr (True, []), d)
                | (Some _, None) \<Rightarrow> (Inr (True, []), d)
                | (None, Some c) \<Rightarrow>
                    if \<not> exists_file d (marker_path file) then (Inr (False, []), d)
                    else if is_empty_document j t file c then
                      (case remove_if_exists file d of
                         (Inl e, d) \<Rightarrow> (Inl (WIo e), d)
                       | (Inr _, d) \<Rightarrow> (Inr (False, []), clear_backup file d))
                    else (Inr (True, []), d)
                | (None, None) \<Rightarrow>
                    (Inr (False, []), if exists_file d (marker_path file) then clear_backup file d else d))))"

fun settle_files ::
  "json_text \<Rightarrow> toml_text \<Rightarrow> string list \<Rightarrow> string list \<Rightarrow> string list \<Rightarrow> disk \<Rightarrow>
   (WiringError + string list \<times> string list) \<times> disk" where
  "settle_files j t [] kept warns d = (Inr (kept, warns), d)"
| "settle_files j t (file # fs) kept warns d =
     (case settle_file j t file d of
        (Inl e, d) \<Rightarrow> (Inl e, d)
      | (Inr (keep, ws), d) \<Rightarrow>
          settle_files j t fs (kept @ (if keep then [file] else [])) (warns @ ws) d)"

text \<open>The stash and the audit are emptied of the agent at the end.\<close>

definition forget_agent ::
  "Stash store_json \<Rightarrow> Applied store_json \<Rightarrow> string \<Rightarrow> string \<Rightarrow> disk \<Rightarrow> (WiringError + unit) \<times> disk" where
  "forget_agent sj aj data_dir agent d =
     (let (stash, d) = store_load sj (stash_file data_dir) d in
      case store_save sj (snd (take_namespace agent stash)) (stash_file data_dir) d of
        (Inl e, d) \<Rightarrow> (Inl (WBackup e), d)
      | (Inr _, d) \<Rightarrow>
          (let (applied, d) = store_load aj (applied_file data_dir) d in
           case store_save aj (applied_forget agent applied) (applied_file data_dir) d of
             (Inl e, d) \<Rightarrow> (Inl (WBackup e), d)
           | (Inr _, d) \<Rightarrow> (Inr (), d)))"

definition wiring_disconnect ::
  "json_text \<Rightarrow> toml_text \<Rightarrow> Stash store_json \<Rightarrow> Applied store_json \<Rightarrow> string \<Rightarrow> agent_spec \<Rightarrow> HomeCtx \<Rightarrow> disk \<Rightarrow>
   (WiringError + DisconnectReport) \<times> disk" where
  "wiring_disconnect j t sj aj data_dir spec home d =
     (let (stash, d) = store_load sj (stash_file data_dir) d;
          before = old_values stash (spec_id spec) in
      case spec_disconnect spec (stash_file data_dir) home d of
        (Inl e, d) \<Rightarrow> (Inl e, d)
      | (Inr written, d) \<Rightarrow>
          (case settle_files j t (config_files spec home) []
                  (if before = fmempty then [''stash_missing''] else []) d of
             (Inl e, d) \<Rightarrow> (Inl e, d)
           | (Inr (kept, warns), d) \<Rightarrow>
               (case forget_agent sj aj data_dir (spec_id spec) d of
                  (Inl e, d) \<Rightarrow> (Inl e, d)
                | (Inr _, d) \<Rightarrow>
                    (Inr \<lparr>dr_files_written = written, kept_backup = kept,
                          warnings = warns @ (if kept = [] then [] else [''kept_backup''])\<rparr>, d))))"

section \<open>A backup is never lost\<close>

text \<open>
  The bytes from before the first connect are somewhere: still in the backup, back in the file, or in a copy that
  was moved aside.
\<close>

definition preserved :: "string \<Rightarrow> string \<Rightarrow> disk \<Rightarrow> bool" where
  "preserved file b d \<longleftrightarrow>
     look d (backup_path file) = Some b \<or> look d file = Some b \<or>
     (\<exists>p. starts_with (backup_path file @ ''.bad-'') p \<and> look d p = Some b)"

definition separate :: "string \<Rightarrow> string \<Rightarrow> bool" where
  "separate f g \<longleftrightarrow> \<not> starts_with f g \<and> \<not> starts_with g f"

lemma separate_regions: "separate f g \<Longrightarrow> starts_with f x \<Longrightarrow> \<not> starts_with g x"
  by (auto simp: separate_def starts_with_iff append_eq_append_conv2)

lemma separate_sym: "separate f g \<longleftrightarrow> separate g f"
  by (auto simp: separate_def)

lemma backup_region [simp]: "starts_with f (backup_path f)" "starts_with f (marker_path f)"
  by (simp_all add: backup_path_def marker_path_def with_suffix_def)

lemma backup_names [simp]: "backup_path f \<noteq> f" "marker_path f \<noteq> f" "marker_path f \<noteq> backup_path f"
  by (simp_all add: backup_path_def marker_path_def with_suffix_def BACKUP_SUFFIX_def ABSENT_SUFFIX_def)

lemmas backup_names' [simp] = backup_names [symmetric]

lemma touches_other: "only_touches g d d' \<Longrightarrow> separate f g \<Longrightarrow> starts_with f x \<Longrightarrow> look d' x = look d x"
  using separate_regions by (auto simp: only_touches_def)

lemma preserved_other: "only_touches g d d' \<Longrightarrow> separate f g \<Longrightarrow> preserved f b d \<Longrightarrow> preserved f b d'"
  unfolding preserved_def
  using touches_other [of g d d' f] backup_region(1) [of f] starts_with_trans [OF starts_with_trans [OF backup_region(1) starts_with_append]]
  by (metis starts_with_refl)

lemma clear_backup_look: "x \<noteq> backup_path f \<Longrightarrow> x \<noteq> marker_path f \<Longrightarrow> look (clear_backup f d) x = look d x"
  by (simp add: clear_backup_def fs_remove_look)

lemma read_backupD:
  "read_backup f d = (r, d') \<Longrightarrow> files d' = files d \<and> (\<forall>v. r = Inr v \<longrightarrow> look d (backup_path f) = v)"
  by (auto simp: read_backup_def split: prod.splits sum.splits io_error.splits dest!: fs_readD)

lemma preserve_badD:
  "preserve_bad f d = (p, d') \<Longrightarrow>
   only_touches f d d' \<and> (\<forall>b. look d (backup_path f) = Some b \<longrightarrow> preserved f b d')"
proof -
  let ?p = "bad_copy_path (backup_path f) d"
  assume "preserve_bad f d = (p, d')"
  then obtain r where r: "fs_rename (backup_path f) ?p d = (r, d')"
    by (auto simp: preserve_bad_def Let_def) (metis eq_snd_iff)
  have pre: "starts_with (backup_path f @ ''.bad-'') ?p" by (rule bad_copy_prefix)
  then have "starts_with f ?p" by (metis starts_with_trans starts_with_append backup_region(1))
  then have "only_touches f d d'"
    using fs_renameD [OF r] backup_region(1) [of f] unfolding only_touches_def by metis
  moreover have "preserved f b d'" if b: "look d (backup_path f) = Some b" for b
  proof -
    have "backup_path f \<noteq> ?p" using bad_copy_fresh [of d "backup_path f"] b by (auto simp: exists_file_def)
    with fs_renameD [OF r] b pre show ?thesis unfolding preserved_def by blast
  qed
  ultimately show ?thesis by blast
qed

lemma clear_backup_touches: "only_touches f d (clear_backup f d)"
  unfolding only_touches_def using clear_backup_look backup_region by metis

lemma write_touches: "write_atomic f b d = (r, d') \<Longrightarrow> only_touches f d d'"
  by (rule write_atomic_touches)

lemma remove_if_existsD: "remove_if_exists f d = (r, d') \<Longrightarrow> \<forall>x. x \<noteq> f \<longrightarrow> look d' x = look d x"
  by (auto simp: remove_if_exists_def split: prod.splits sum.splits io_error.splits dest!: fs_removeD)

lemma remove_touches: "remove_if_exists f d = (r, d') \<Longrightarrow> only_touches f d d'"
  unfolding only_touches_def by (metis remove_if_existsD starts_with_refl)

lemma settle_file_touches: "settle_file j t f d = (r, d') \<Longrightarrow> only_touches f d d'"
proof -
  assume *: "settle_file j t f d = (r, d')"
  obtain r1 d1 where r1: "read_backup f d = (r1, d1)" by fastforce
  obtain r2 d2 where r2: "atomic_read f d1 = (r2, d2)" by fastforce
  have same: "files d1 = files d" "files d2 = files d1"
    using read_backupD [OF r1] atomic_readD [OF r2] by auto
  have step: "only_touches f d d3" if "only_touches f d2 d3" for d3
    using that same by (simp add: only_touches_def)
  have step1: "only_touches f d d3" if "only_touches f d1 d3" for d3
    using that same by (simp add: only_touches_def)
  have clear: "only_touches f d (clear_backup f d3)" if "only_touches f d2 d3" for d3
    using only_touches_trans [OF step [OF that] clear_backup_touches] .
  have refl: "only_touches f d2 d2" by simp
  show ?thesis
  proof (cases r1)
    case (Inl e)
    then have "d' = snd (preserve_bad f d1)" using * r1 by (simp add: settle_file_def)
    then show ?thesis using preserve_badD [of f d1] step1 by (metis prod.collapse)
  next
    case (Inr backup)
    show ?thesis
      using * r1 r2 Inr refl step [OF refl] clear [OF refl]
      by (cases r2; cases backup)
         (auto simp: settle_file_def split: option.splits if_splits prod.splits sum.splits
               dest!: write_touches remove_touches intro: clear step)
  qed
qed


lemma settle_file_preserves:
  assumes "settle_file j t f d = (r, d')" "look d (backup_path f) = Some b"
  shows "preserved f b d'"
proof -
  obtain r1 d1 where r1: "read_backup f d = (r1, d1)" by fastforce
  obtain r2 d2 where r2: "atomic_read f d1 = (r2, d2)" by fastforce
  have same: "files d1 = files d" "files d2 = files d1"
    using read_backupD [OF r1] atomic_readD [OF r2] by auto
  show ?thesis
  proof (cases r1)
    case (Inl e)
    then have "d' = snd (preserve_bad f d1)" using assms(1) r1 by (simp add: settle_file_def)
    then show ?thesis using preserve_badD [of f d1] assms(2) same by (metis prod.collapse)
  next
    case (Inr backup)
    then have bk: "backup = Some b" using read_backupD [OF r1] assms(2) by auto
    have kept: "preserved f b d2" using assms(2) same by (simp add: preserved_def)
    have cleared: "preserved f b (clear_backup f d3)" if "look d3 f = Some b" for d3
      using that by (simp add: preserved_def clear_backup_look)
    have failed: "preserved f b d3" if "files d3 = files d2" for d3
      using kept that by (simp add: preserved_def)
    show ?thesis
    proof (cases r2)
      case (Inl e)
      then show ?thesis using assms(1) r1 r2 Inr kept by (simp add: settle_file_def)
    next
      case r2': (Inr current)
      have cur: "look d2 f = current" using atomic_readD [OF r2] r2' same by simp
      show ?thesis
        using assms(1) r1 r2 Inr r2' bk kept cur
        by (auto simp: settle_file_def split: option.splits if_splits prod.splits sum.splits
                 dest!: write_atomicD intro: cleared failed)
    qed
  qed
qed

lemma settle_files_other:
  "settle_files j t fs kept ws d = (r, d') \<Longrightarrow> \<forall>g \<in> set fs. separate f g \<Longrightarrow>
   (\<forall>x. starts_with f x \<longrightarrow> look d' x = look d x)"
proof (induction fs arbitrary: kept ws d)
  case (Cons g fs)
  obtain r1 d1 where r1: "settle_file j t g d = (r1, d1)" by fastforce
  from settle_file_touches [OF r1] Cons.prems(2)
  have g: "\<forall>x. starts_with f x \<longrightarrow> look d1 x = look d x" by (auto intro: touches_other)
  show ?case
    using Cons r1 g by (cases r1) (auto split: prod.splits)
qed auto

lemma preserved_same:
  "\<forall>x. starts_with f x \<longrightarrow> look d' x = look d x \<Longrightarrow> preserved f b d \<Longrightarrow> preserved f b d'"
proof -
  assume same: "\<forall>x. starts_with f x \<longrightarrow> look d' x = look d x" and p: "preserved f b d"
  have bad: "starts_with f x" if "starts_with (backup_path f @ ''.bad-'') x" for x
    using that by (auto simp: starts_with_iff backup_path_def with_suffix_def)
  have "look d' f = look d f" "look d' (backup_path f) = look d (backup_path f)" using same by simp_all
  moreover have "look d' x = look d x" if "starts_with (backup_path f @ ''.bad-'') x" for x
    using same bad [OF that] by blast
  ultimately show "preserved f b d'" using p unfolding preserved_def by (elim disjE exE conjE) auto
qed

lemma settle_files_preserves:
  "settle_files j t fs kept ws d = (r, d') \<Longrightarrow> distinct fs \<Longrightarrow> \<forall>g \<in> set fs. g \<noteq> f \<longrightarrow> separate f g \<Longrightarrow>
   look d (backup_path f) = Some b \<Longrightarrow> preserved f b d'"
proof (induction fs arbitrary: kept ws d)
  case Nil
  then show ?case by (simp add: preserved_def)
next
  case (Cons g fs)
  obtain r1 d1 where r1: "settle_file j t g d = (r1, d1)" by fastforce
  show ?case
  proof (cases "g = f")
    case True
    then have p: "preserved f b d1" using settle_file_preserves [of j t f d r1 d1 b] r1 Cons.prems(4) by simp
    show ?thesis
    proof (cases r1)
      case (Inl e)
      then show ?thesis using Cons.prems(1) r1 p by simp
    next
      case (Inr kw)
      then obtain kept' ws' where rest: "settle_files j t fs kept' ws' d1 = (r, d')"
        using Cons.prems(1) r1 by (cases kw) auto
      have "\<forall>g \<in> set fs. separate f g" using Cons.prems(2,3) True by auto
      from preserved_same [OF settle_files_other [OF rest this] p] show ?thesis .
    qed
  next
    case False
    then have "separate f g" using Cons.prems(3) by simp
    with settle_file_touches [OF r1] Cons.prems(4) have b: "look d1 (backup_path f) = Some b"
      by (simp add: touches_other)
    show ?thesis
    proof (cases r1)
      case (Inl e)
      then show ?thesis using Cons.prems(1) r1 b by (simp add: preserved_def)
    next
      case (Inr kw)
      then show ?thesis using Cons r1 b by (cases kw) auto
    qed
  qed
qed

lemma forget_agent_other:
  assumes "forget_agent sj aj dir a d = (r, d')" "separate f (stash_file dir)" "separate f (applied_file dir)"
    and "starts_with f x"
  shows "look d' x = look d x"
proof -
  obtain s d1 where s: "store_load sj (stash_file dir) d = (s, d1)" by fastforce
  obtain r2 d2 where r2: "store_save sj (snd (take_namespace a s)) (stash_file dir) d1 = (r2, d2)" by fastforce
  obtain p d3 where p: "store_load aj (applied_file dir) d2 = (p, d3)" by fastforce
  obtain r4 d4 where r4: "store_save aj (applied_forget a p) (applied_file dir) d3 = (r4, d4)" by fastforce
  have "look d2 x = look d x"
    using touches_other [OF store_saveD [OF r2] assms(2,4)] store_loadD [OF s] by simp
  moreover have "look d4 x = look d2 x"
    using touches_other [OF store_saveD [OF r4] assms(3,4)] store_loadD [OF p] by simp
  moreover have "d' = d2 \<or> d' = d4"
    using assms(1) s r2 p r4 by (auto simp: forget_agent_def split: sum.splits)
  ultimately show ?thesis by metis
qed

section \<open>What the orchestrator relies on\<close>

text \<open>
  A specification changes its own files and the stash, and nothing else; in particular no backup.  Without I/O
  failures it causes none.
\<close>

locale wired_agent =
  fixes spec :: agent_spec
  assumes connect_frame: "spec_connect spec stash home w d = (r, d') \<Longrightarrow> x \<notin> set (config_files spec home) \<Longrightarrow>
      \<not> starts_with stash x \<Longrightarrow> look d' x = look d x"
    and disconnect_frame: "spec_disconnect spec stash home d = (r, d') \<Longrightarrow> x \<notin> set (config_files spec home) \<Longrightarrow>
      \<not> starts_with stash x \<Longrightarrow> look d' x = look d x"
    and connect_quiet: "spec_connect spec stash home w d = (r, d') \<Longrightarrow> faults d = [] \<Longrightarrow> faults d' = []"
    and values_quiet: "applied_values spec home d = (v, d') \<Longrightarrow> faults d = [] \<Longrightarrow> faults d' = []"
begin

text \<open>Whatever fails, a disconnect leaves the bytes of every backup recoverable.\<close>

lemma disconnect_preserves:
  assumes d: "wiring_disconnect j t sj aj dir spec home d = (r, d')"
    and files: "distinct (config_files spec home)"
      "\<forall>g \<in> set (config_files spec home). g \<noteq> f \<longrightarrow> separate f g"
      "separate f (stash_file dir)" "separate f (applied_file dir)"
    and f: "f \<in> set (config_files spec home)" and b: "look d (backup_path f) = Some b"
  shows "preserved f b d'"
proof -
  obtain s d1 where s: "store_load sj (stash_file dir) d = (s, d1)" by fastforce
  obtain r2 d2 where r2: "spec_disconnect spec (stash_file dir) home d1 = (r2, d2)" by fastforce
  have nf: "backup_path f \<notin> set (config_files spec home)"
    using files(2) backup_names(1) [of f] backup_region(1) [of f] by (auto simp: separate_def)
  have ns: "\<not> starts_with (stash_file dir) (backup_path f)"
    by (rule separate_regions [OF files(3) backup_region(1)])
  have b2: "look d2 (backup_path f) = Some b"
    using disconnect_frame [OF r2 nf ns] store_loadD [OF s] b by simp
  show ?thesis
  proof (cases r2)
    case (Inl e)
    then have "d' = d2" using d s r2 by (simp add: wiring_disconnect_def)
    then show ?thesis using b2 by (simp add: preserved_def)
  next
    case (Inr written)
    obtain r3 d3 where r3: "settle_files j t (config_files spec home) []
        (if old_values s (spec_id spec) = fmempty then [''stash_missing''] else []) d2 = (r3, d3)" by fastforce
    have p3: "preserved f b d3" by (rule settle_files_preserves [OF r3 files(1,2) b2])
    obtain r4 d4 where r4: "forget_agent sj aj dir (spec_id spec) d3 = (r4, d4)" by fastforce
    have "preserved f b d4"
      using preserved_same [OF _ p3] forget_agent_other [OF r4 files(3,4)] by blast
    moreover have "d' = d3 \<or> d' = d4"
      using d s r2 r3 r4 Inr by (auto simp: wiring_disconnect_def Let_def split: sum.splits prod.splits)
    ultimately show ?thesis using p3 by blast
  qed
qed

end


section \<open>The specifications keep to their files\<close>

named_theorems frame \<open>how the frame of an operation is found\<close>

definition io_frame :: "string set \<Rightarrow> string \<Rightarrow> (disk \<Rightarrow> 'a \<times> disk) \<Rightarrow> bool" where
  "io_frame F q m \<longleftrightarrow>
     (\<forall>d r d'. m d = (r, d') \<longrightarrow>
        (\<forall>x. x \<notin> F \<longrightarrow> \<not> starts_with q x \<longrightarrow> look d' x = look d x) \<and> (faults d = [] \<longrightarrow> faults d' = []))"

lemma next_fault_quiet: "next_fault d = (b, d') \<Longrightarrow> faults d = [] \<Longrightarrow> d' = d \<and> \<not> b"
  by (simp add: next_fault_def)

lemma io_ok_frame [frame]: "io_frame F q (io_ok x)"
  by (simp add: io_frame_def io_ok_def)

lemma io_edit_frame [frame]: "io_frame F q (io_edit r)"
  by (auto simp: io_frame_def io_edit_def split: sum.splits)

lemma io_fail_frame [frame]: "io_frame F q (\<lambda>d. (r, d))"
  by (simp add: io_frame_def)

lemma io_bind_frame [frame]:
  assumes "io_frame F q m" "\<And>x. io_frame F q (f x)"
  shows "io_frame F q (io_bind m f)"
  unfolding io_frame_def
proof (intro allI impI)
  fix d r d'
  assume *: "io_bind m f d = (r, d')"
  obtain r1 d1 where r1: "m d = (r1, d1)" by fastforce
  then have d1: "(\<forall>x. x \<notin> F \<longrightarrow> \<not> starts_with q x \<longrightarrow> look d1 x = look d x) \<and> (faults d = [] \<longrightarrow> faults d1 = [])"
    using assms(1) by (auto simp: io_frame_def)
  show "(\<forall>x. x \<notin> F \<longrightarrow> \<not> starts_with q x \<longrightarrow> look d' x = look d x) \<and> (faults d = [] \<longrightarrow> faults d' = [])"
  proof (cases r1)
    case (Inl e)
    then show ?thesis using * r1 d1 by (simp add: io_bind_def)
  next
    case (Inr x)
    then have "f x d1 = (r, d')" using * r1 by (simp add: io_bind_def)
    with assms(2) [of x] d1 show ?thesis unfolding io_frame_def by metis
  qed
qed

lemma option_case_frame [frame]:
  "io_frame F q m \<Longrightarrow> (\<And>x. io_frame F q (f x)) \<Longrightarrow> io_frame F q (case v of None \<Rightarrow> m | Some x \<Rightarrow> f x)"
  by (cases v) auto

lemma if_frame [frame]:
  "io_frame F q m \<Longrightarrow> io_frame F q m' \<Longrightarrow> io_frame F q (if b then m else m')"
  by simp

lemma fs_read_quiet: "fs_read p d = (r, d') \<Longrightarrow> faults d = [] \<Longrightarrow> d' = d \<and> r = ok_or IoNotFound (look d p)"
  by (auto simp: fs_read_def split: prod.splits if_splits dest!: next_fault_quiet)

lemma atomic_read_quiet: "atomic_read p d = (r, d') \<Longrightarrow> faults d = [] \<Longrightarrow> d' = d \<and> r = Inr (look d p)"
  by (auto simp: atomic_read_def ok_or_def split: prod.splits sum.splits io_error.splits option.splits dest!: fs_read_quiet)

lemma fs_replace_quiet:
  "fs_replace p b d = (r, d') \<Longrightarrow> faults d = [] \<Longrightarrow> d' = d\<lparr>files := fmupd p b (files d)\<rparr> \<and> r = Inr ()"
  by (auto simp: fs_replace_def split: prod.splits if_splits dest!: next_fault_quiet)

lemma write_atomic_quiet:
  "write_atomic p b d = (r, d') \<Longrightarrow> faults d = [] \<Longrightarrow> faults d' = [] \<and> r = Inr ()"
  by (auto simp: write_atomic_def split: prod.splits sum.splits if_splits dest!: atomic_read_quiet fs_replace_quiet)

lemma fs_rename_quiet: "fs_rename p q d = (r, d') \<Longrightarrow> faults d = [] \<Longrightarrow> faults d' = []"
  by (auto simp: fs_rename_def split: prod.splits if_splits option.splits dest!: next_fault_quiet)

lemma fs_remove_quiet:
  "fs_remove p d = (r, d') \<Longrightarrow> faults d = [] \<Longrightarrow> faults d' = [] \<and> look d' p = None"
  by (auto simp: fs_remove_def exists_file_def split: prod.splits if_splits option.splits dest!: next_fault_quiet)

lemma atomic_read_both: "atomic_read p d = (r, d') \<Longrightarrow> files d' = files d \<and> (faults d = [] \<longrightarrow> faults d' = [])"
  using atomic_readD atomic_read_quiet by metis

lemma fs_read_both: "fs_read p d = (r, d') \<Longrightarrow> files d' = files d \<and> (faults d = [] \<longrightarrow> faults d' = [])"
  using fs_readD fs_read_quiet by metis

lemma read_config_frame [frame]: "io_frame F q (read_config p)"
  unfolding io_frame_def
  by (auto simp: read_config_def split: prod.splits sum.splits option.splits if_splits dest!: atomic_read_both)

lemma write_config_frame [frame]: "p \<in> F \<Longrightarrow> io_frame F q (write_config p b)"
  unfolding io_frame_def
  by (auto simp: write_config_def split: prod.splits sum.splits dest: write_atomicD write_atomic_quiet)

lemma load_stash_frame [frame]: "io_frame F q (load_stash sj q)"
  unfolding io_frame_def
  by (auto simp: load_stash_def store_load_def Let_def split: prod.splits sum.splits dest!: fs_read_both)

lemma store_save_quiet:
  assumes "store_save j a p d = (r, d')" "faults d = []"
  shows "faults d' = []"
proof -
  have "faults d2 = []" if "move_aside p d1 = (r1, d2)" "faults d1 = []" for r1 d1 d2
    using that by (auto simp: move_aside_def Let_def split: if_splits prod.splits sum.splits dest: fs_rename_quiet)
  then show ?thesis
    using assms
    by (auto simp: store_save_def Let_def split: prod.splits sum.splits if_splits
             dest!: fs_read_quiet dest: write_atomic_quiet)
qed

lemma save_stash_frame [frame]: "io_frame F q (save_stash sj q s)"
  unfolding io_frame_def
  using store_saveD [of sj s q] store_save_quiet [of sj s q]
  by (fastforce simp: save_stash_def only_touches_def split: prod.splits sum.splits)

lemma read_ok_frame: "io_frame F q (read_ok p)"
  using read_config_frame [of F q p] unfolding io_frame_def
  by (auto simp: read_ok_def split: prod.splits sum.splits)

lemma read_ok_quiet: "read_ok p d = (r, d') \<Longrightarrow> faults d = [] \<Longrightarrow> faults d' = []"
  using read_ok_frame [of "{}" "[]" p] by (auto simp: io_frame_def)

lemma io_frame_quiet: "(\<And>d r d'. m d = (r, d') \<Longrightarrow> faults d = [] \<Longrightarrow> faults d' = []) \<Longrightarrow> io_frame {} [] m"
  by (simp add: io_frame_def starts_with_def)

lemma io_frame_wired:
  assumes "\<And>stash home w. io_frame (set (config_files spec home)) stash (spec_connect spec stash home w)"
    and "\<And>stash home. io_frame (set (config_files spec home)) stash (spec_disconnect spec stash home)"
    and "\<And>home. io_frame {} [] (applied_values spec home)"
  shows "wired_agent spec"
proof unfold_locales
  fix stash home w d r d' x
  show "look d' x = look d x" if "spec_connect spec stash home w d = (r, d')" "x \<notin> set (config_files spec home)"
    "\<not> starts_with stash x" using that assms(1) [of home stash w] unfolding io_frame_def by blast
  show "look d' x = look d x" if "spec_disconnect spec stash home d = (r, d')" "x \<notin> set (config_files spec home)"
    "\<not> starts_with stash x" using that assms(2) [of home stash] unfolding io_frame_def by blast
  show "faults d' = []" if "spec_connect spec stash home w d = (r, d')" "faults d = []"
    using that assms(1) [of home stash w] unfolding io_frame_def by blast
  fix v
  show "faults d' = []" if "applied_values spec home d = (v, d')" "faults d = []"
    using that assms(3) [of home] unfolding io_frame_def by blast
qed

interpretation claude: wired_agent "claude_spec to_lowercase j sj"
  by (rule io_frame_wired)
     (auto simp: claude_spec_def claude_connect_def claude_disconnect_def Let_def intro!: frame io_frame_quiet
        split: prod.splits option.splits dest!: read_ok_quiet)

interpretation gemini: wired_agent "gemini_spec j sj"
  by (rule io_frame_wired)
     (auto simp: gemini_spec_def gemini_connect_def gemini_disconnect_def Let_def intro!: frame io_frame_quiet
        split: prod.splits option.splits dest!: read_ok_quiet)

interpretation pi: wired_agent "pi_spec j sj"
  by (rule io_frame_wired)
     (auto simp: pi_spec_def pi_connect_def pi_disconnect_def Let_def intro!: frame io_frame_quiet
        split: prod.splits option.splits dest!: read_ok_quiet)


section \<open>A failed connect is undone\<close>

lemma fmupd_quiet:
  "write_atomic p b d = (r, d') \<Longrightarrow> faults d = [] \<Longrightarrow>
   r = Inr () \<and> faults d' = [] \<and> look d' p = Some b \<and> (\<forall>x. x \<noteq> p \<longrightarrow> look d' x = look d x)"
  using write_atomic_quiet write_atomicD by blast

text \<open>What a snapshot says about a file: the backup there was, or else the file itself.\<close>

definition snapshot_of :: "disk \<Rightarrow> string \<Rightarrow> string option" where
  "snapshot_of d f =
     (if exists_file d (backup_path f) \<or> exists_file d (marker_path f) then look d (backup_path f) else look d f)"

lemma snapshot_step:
  assumes "snapshot_take (g # fs) d = (r, d')" "faults d = []"
  obtains d1 where "snapshot_take fs d1 = (r, d')" "faults d1 = []" "look d1 (backup_path g) = snapshot_of d g"
    "\<And>x. x \<noteq> backup_path g \<Longrightarrow> x \<noteq> marker_path g \<Longrightarrow> look d1 x = look d x"
proof (cases "exists_file d (backup_path g) \<or> exists_file d (marker_path g)")
  case True
  then show ?thesis using assms that [of d] by (simp add: snapshot_of_def)
next
  case False
  obtain r1 d1 where r1: "fs_read g d = (r1, d1)" by fastforce
  then have d1: "d1 = d" "r1 = ok_or IoNotFound (look d g)" using fs_read_quiet assms(2) by auto
  show ?thesis
  proof (cases "look d g")
    case None
    obtain r2 d2 where r2: "write_atomic (marker_path g) [] d = (r2, d2)" by fastforce
    from fmupd_quiet [OF this assms(2)] have w: "r2 = Inr ()" "faults d2 = []"
      "\<And>x. x \<noteq> marker_path g \<Longrightarrow> look d2 x = look d x" by auto
    then have "snapshot_take fs d2 = (r, d')" using assms(1) False r1 d1 None r2 by simp
    moreover have "look d2 (backup_path g) = snapshot_of d g"
      using w(3) False None by (simp add: snapshot_of_def exists_file_def)
    ultimately show ?thesis using that w by simp
  next
    case (Some b)
    obtain r2 d2 where r2: "write_atomic (backup_path g) b d = (r2, d2)" by fastforce
    from fmupd_quiet [OF this assms(2)] have w: "r2 = Inr ()" "faults d2 = []" "look d2 (backup_path g) = Some b"
      "\<And>x. x \<noteq> backup_path g \<Longrightarrow> look d2 x = look d x" by auto
    then have "snapshot_take fs d2 = (r, d')" using assms(1) False r1 d1 Some r2 by simp
    moreover have "look d2 (backup_path g) = snapshot_of d g"
      using w(3) False Some by (simp add: snapshot_of_def)
    ultimately show ?thesis using that w by simp
  qed
qed

lemma snapshot_of_same:
  "\<forall>x. starts_with f x \<longrightarrow> look d1 x = look d x \<Longrightarrow> snapshot_of d1 f = snapshot_of d f"
  by (simp add: snapshot_of_def exists_file_def)

lemma snapshot_take_quiet:
  "snapshot_take fs d = (r, d') \<Longrightarrow> faults d = [] \<Longrightarrow>
   r = Inr () \<and> faults d' = [] \<and>
   (\<forall>f. (\<forall>g \<in> set fs. separate f g) \<longrightarrow> (\<forall>x. starts_with f x \<longrightarrow> look d' x = look d x))"
proof (induction fs arbitrary: d)
  case (Cons g fs)
  from snapshot_step [OF Cons.prems] obtain d1 where d1: "snapshot_take fs d1 = (r, d')" "faults d1 = []"
    "\<And>x. x \<noteq> backup_path g \<Longrightarrow> x \<noteq> marker_path g \<Longrightarrow> look d1 x = look d x" by metis
  from Cons.IH [OF d1(1,2)] d1(3) show ?case
    by (metis backup_region list.set_intros separate_regions)
qed simp

lemma snapshot_take_backup:
  "snapshot_take fs d = (r, d') \<Longrightarrow> faults d = [] \<Longrightarrow> distinct fs \<Longrightarrow>
   \<forall>g \<in> set fs. g \<noteq> f \<longrightarrow> separate f g \<Longrightarrow> f \<in> set fs \<Longrightarrow>
   look d' (backup_path f) = snapshot_of d f"
proof (induction fs arbitrary: d)
  case (Cons g fs)
  from snapshot_step [OF Cons.prems(1,2)] obtain d1 where d1: "snapshot_take fs d1 = (r, d')" "faults d1 = []"
    "look d1 (backup_path g) = snapshot_of d g"
    "\<And>x. x \<noteq> backup_path g \<Longrightarrow> x \<noteq> marker_path g \<Longrightarrow> look d1 x = look d x" by metis
  show ?case
  proof (cases "g = f")
    case True
    then have "\<forall>g \<in> set fs. separate f g" using Cons.prems(3,4) by auto
    with snapshot_take_quiet [OF d1(1,2)] True d1(3) show ?thesis by simp
  next
    case False
    then have sep: "separate f g" using Cons.prems(4) by simp
    have "look d1 x = look d x" if "starts_with f x" for x
      using d1(4) separate_regions [OF sep that] by (metis backup_region)
    then have "snapshot_of d1 f = snapshot_of d f" by (intro snapshot_of_same) simp
    moreover have "look d' (backup_path f) = snapshot_of d1 f"
      using Cons.IH [OF d1(1,2)] Cons.prems(3-5) False by simp
    ultimately show ?thesis by simp
  qed
qed simp

lemma restore_file_quiet:
  assumes "faults d = []"
  shows "look (restore_file f d) f = look d (backup_path f)" "faults (restore_file f d) = []"
    "x \<noteq> f \<Longrightarrow> look (restore_file f d) x = look d x"
proof -
  have rb: "read_backup f d = (Inr (look d (backup_path f)), d)"
    using assms by (auto simp: read_backup_def ok_or_def split: prod.splits sum.splits io_error.splits option.splits dest!: fs_read_quiet)
  obtain r1 d1 where "atomic_read f d = (r1, d1)" by fastforce
  with atomic_read_quiet assms have ar: "atomic_read f d = (Inr (look d f), d)" by metis
  obtain r2 d2 where rm: "fs_remove f d = (r2, d2)" by fastforce
  note rm' = fs_remove_quiet [OF rm assms] fs_removeD [OF rm]
  have w: "faults (snd (write_atomic f b d)) = [] \<and> look (snd (write_atomic f b d)) f = Some b" for b
    using fmupd_quiet [OF _ assms, of f b] by (metis prod.collapse)
  show "look (restore_file f d) f = look d (backup_path f)" "faults (restore_file f d) = []"
    "x \<noteq> f \<Longrightarrow> look (restore_file f d) x = look d x"
    using w rm rm' assms write_atomic_look [of x f _ d]
    by (auto simp: restore_file_def rb ar split: option.split)
qed

lemma restore_fold_other: "faults d = [] \<Longrightarrow> x \<notin> set fs \<Longrightarrow> look (fold restore_file fs d) x = look d x"
  by (induction fs arbitrary: d) (simp_all add: restore_file_quiet)

lemma restore_fold:
  "faults d = [] \<Longrightarrow> distinct fs \<Longrightarrow> f \<in> set fs \<Longrightarrow> backup_path f \<notin> set fs \<Longrightarrow>
   look (fold restore_file fs d) f = look d (backup_path f)"
proof (induction fs arbitrary: d)
  case (Cons g fs)
  show ?case
  proof (cases "f = g")
    case True
    then show ?thesis using Cons.prems restore_fold_other [of "restore_file g d" f fs]
      by (simp add: restore_file_quiet)
  next
    case False
    then show ?thesis using Cons by (simp add: restore_file_quiet)
  qed
qed simp

lemma store_save_ok:
  assumes "store_save j a p d = (r, d')" "faults d = []"
  shows "r = Inr ()"
proof -
  have "\<exists>v d1'. move_aside p d1 = (Inr v, d1') \<and> faults d1' = []" if "faults d1 = []" for d1
  proof (cases "look d1 p")
    case None
    then show ?thesis using that by (simp add: move_aside_def exists_file_def)
  next
    case (Some b)
    then have "fs_rename p (bad_copy_path p d1) d1 =
        (Inr (), d1\<lparr>files := fmupd (bad_copy_path p d1) b (fmdrop p (files d1))\<rparr>)"
      using that by (simp add: fs_rename_def next_fault_def)
    with Some that show ?thesis by (simp add: move_aside_def exists_file_def Let_def)
  qed
  then obtain v d1' where m: "move_aside p d = (Inr v, d1')" "faults d1' = []" using assms(2) by blast
  obtain r1 d1 where r1: "fs_read p d = (r1, d1)" by fastforce
  then have d1: "d1 = d" using fs_read_quiet assms(2) by blast
  show ?thesis
    using assms(1) r1 d1 m assms(2)
    by (cases r1) (auto simp: store_save_def split: prod.splits sum.splits if_splits dest: write_atomic_quiet)
qed


text \<open>The recovery files and the files of an agent do not overlap: no path begins with another.\<close>

definition laid_out :: "string \<Rightarrow> string list \<Rightarrow> bool" where
  "laid_out dir fs \<longleftrightarrow>
     distinct fs \<and>
     list_all (\<lambda>f. separate f (stash_file dir) \<and> separate f (applied_file dir) \<and>
                   list_all (\<lambda>g. g = f \<or> separate f g) fs) fs"

lemma laid_outD:
  assumes "laid_out dir fs" "f \<in> set fs"
  shows "distinct fs" "\<forall>g \<in> set fs. g \<noteq> f \<longrightarrow> separate f g" "separate f (stash_file dir)"
    "separate f (applied_file dir)" "backup_path f \<notin> set fs"
proof -
  show sep: "distinct fs" "\<forall>g \<in> set fs. g \<noteq> f \<longrightarrow> separate f g" "separate f (stash_file dir)"
    "separate f (applied_file dir)" using assms by (auto simp: laid_out_def list_all_iff)
  show "backup_path f \<notin> set fs"
    using sep(2) backup_names(1) [of f] backup_region(1) [of f] by (auto simp: separate_def)
qed

context wired_agent
begin

lemma failed_connect_undone:
  assumes c: "wiring_connect aj dir spec home w d = (Inl e, d')" and q: "faults d = []"
    and l: "laid_out dir (config_files spec home)" and f: "f \<in> set (config_files spec home)"
  shows "look d' f = snapshot_of d f"
proof -
  let ?fs = "config_files spec home"
  note lay = laid_outD [OF l f]
  obtain r1 d1 where r1: "snapshot_take ?fs d = (r1, d1)" by fastforce
  have s: "r1 = Inr ()" "faults d1 = []" using snapshot_take_quiet [OF r1 q] by simp_all
  have b1: "look d1 (backup_path f) = snapshot_of d f" by (rule snapshot_take_backup [OF r1 q lay(1,2) f])
  obtain r2 d2 where r2: "spec_connect spec (stash_file dir) home w d1 = (r2, d2)" by fastforce
  have q2: "faults d2 = []" by (rule connect_quiet [OF r2 s(2)])
  have b2: "look d2 (backup_path f) = snapshot_of d f"
    using connect_frame [OF r2 lay(5) separate_regions [OF lay(3) backup_region(1)]] b1 by simp
  show ?thesis
  proof (cases r2)
    case (Inl e')
    then have "d' = fold restore_file ?fs d2"
      using c r1 s r2 by (simp add: wiring_connect_def restore_after_failed_connect_def)
    then show ?thesis using restore_fold [OF q2 lay(1) f lay(5)] b2 by simp
  next
    case (Inr written)
    obtain vals d3 where v: "applied_values spec home d2 = (vals, d3)" by fastforce
    obtain ap d4 where a: "store_load aj (applied_file dir) d3 = (ap, d4)" by fastforce
    have "faults d3 = []" by (rule values_quiet [OF v q2])
    then have "faults d4 = []"
      using a by (auto simp: store_load_def split: prod.splits sum.splits dest!: fs_read_both)
    then have False
      using c r1 s r2 Inr v a
      by (auto simp: wiring_connect_def Let_def split: prod.splits sum.splits dest: store_save_ok)
    then show ?thesis ..
  qed
qed

end

text \<open>C17: whatever I/O fails during a disconnect, and whether it succeeds or not, no pre-connect bytes are lost: for
  every file with a backup, the backed-up bytes are afterwards still in the backup, or back in the file, or in a copy
  of the backup that was moved aside.  It holds for every specification that keeps to its own files.
\<close>

theorem disconnect_never_loses_backup:
  assumes "wired_agent spec" "laid_out dir (config_files spec home)" "f \<in> set (config_files spec home)"
    and "look d (backup_path f) = Some b"
  shows "preserved f b (snd (wiring_disconnect j t sj aj dir spec home d))"
  using wired_agent.disconnect_preserves [OF assms(1) prod.collapse [symmetric] laid_outD(1-4) [OF assms(2,3)] assms(3,4)] .

definition sample_home :: HomeCtx where
  "sample_home = \<lparr>home_dir = ''/h'', home_env = (\<lambda>_. None)\<rparr>"

definition sample_disk :: disk where
  "sample_disk =
     \<lparr>files = fmap_of_list [(''/h/.gemini/.env'', ''A=2''), (''/h/.gemini/.env.before-any-converter'', ''A=1'')],
      faults = [False, False, True], clock = 0\<rparr>"

lemma sample_layout: "laid_out ''/d'' [''/h/.gemini/.env'', ''/h/.gemini/settings.json'']"
  by code_simp

theorem disconnect_never_loses_backup_witness:
  "\<forall>j t sj aj. preserved ''/h/.gemini/.env'' ''A=1''
     (snd (wiring_disconnect j t sj aj ''/d'' (gemini_spec j sj) sample_home sample_disk))"
proof (intro allI)
  fix j t sj aj
  have fs: "config_files (gemini_spec j sj) sample_home = [''/h/.gemini/.env'', ''/h/.gemini/settings.json'']"
    by (simp add: gemini_spec_def gemini_env_path_def gemini_settings_path_def gemini_dir_def path_join_def
        sample_home_def starts_with_def ends_with_def)
  have b: "look sample_disk (backup_path ''/h/.gemini/.env'') = Some ''A=1''"
    by (simp add: sample_disk_def backup_path_def with_suffix_def BACKUP_SUFFIX_def fmlookup_of_list)
  show "preserved ''/h/.gemini/.env'' ''A=1''
     (snd (wiring_disconnect j t sj aj ''/d'' (gemini_spec j sj) sample_home sample_disk))"
    by (rule disconnect_never_loses_backup [OF gemini.wired_agent_axioms _ _ b]) (simp_all add: fs sample_layout)
qed



definition sample_json :: json_text where
  "sample_json =
     \<lparr>jt_from_str = (\<lambda>_. Inr (jobj [(''apiKeyHelper'', JString ''x'')])),
      jt_to_string = (\<lambda>_. Inr []), jt_to_string_pretty = (\<lambda>_. Inr [])\<rparr>"

lemma sample_refuses: "json_get sample_json ''NEW'' ''apiKeyHelper'' = Some ''x''" "utf8_valid ''NEW''"
proof -
  have s: "strip_jsonc (snd (split_bom ''NEW'')) = Inr ''NEW''" by code_simp
  have g: "segments ''apiKeyHelper'' = [''apiKeyHelper'']" by code_simp
  show "json_get sample_json ''NEW'' ''apiKeyHelper'' = Some ''x''"
    by (simp add: json_get_def parse_json_def s g sample_json_def)
  show "utf8_valid ''NEW''" by code_simp
qed

definition settings_disk :: "(string, string) fmap \<Rightarrow> disk" where
  "settings_disk m = \<lparr>files = m, faults = [], clock = 0\<rparr>"

lemma claude_sample_files: "config_files (claude_spec l j sj) sample_home = [''/h/.claude/settings.json'']"
  by (simp add: claude_spec_def claude_settings_path_def path_join_def sample_home_def starts_with_def ends_with_def)

lemma claude_sample_refused:
  assumes "fmlookup (files d) ''/h/.claude/settings.json'' = Some ''NEW''" "faults d = []"
  shows "\<exists>d'. wiring_connect aj ''/d'' (claude_spec l sample_json sj) sample_home w d =
    (Inl (Refused ''apiKeyHelper is configured; remove it before connecting''), d')"
proof -
  obtain r1 d1 where r1: "snapshot_take [''/h/.claude/settings.json''] d = (r1, d1)" by fastforce
  from snapshot_step [OF r1 assms(2)] obtain d2 where d2: "snapshot_take [] d2 = (r1, d1)" "faults d2 = []"
    "\<And>x. x \<noteq> backup_path ''/h/.claude/settings.json'' \<Longrightarrow> x \<noteq> marker_path ''/h/.claude/settings.json'' \<Longrightarrow> look d2 x = look d x"
    by metis
  then have "d1 = d2" "r1 = Inr ()" by simp_all
  moreover have l: "look d2 ''/h/.claude/settings.json'' = Some ''NEW''" using d2(3) assms(1) by simp
  moreover have "read_config ''/h/.claude/settings.json'' d2 = (Inr (Some ''NEW''), d2)"
  proof -
    obtain r3 d3 where "atomic_read ''/h/.claude/settings.json'' d2 = (r3, d3)" by fastforce
    with atomic_read_quiet [OF this d2(2)] l show ?thesis by (simp add: read_config_def sample_refuses del: utf8_valid.simps)
  qed
  moreover have "claude_settings_path sample_home = ''/h/.claude/settings.json''"
    using claude_sample_files by (simp add: claude_spec_def)
  ultimately show ?thesis
    using r1 by (simp add: wiring_connect_def claude_sample_files)
                (simp add: claude_spec_def claude_connect_def io_bind_def sample_refuses Let_def)
qed

lemma claude_layout: "laid_out ''/d'' [''/h/.claude/settings.json'']"
  by code_simp


text \<open>
  When an earlier connect has left a backup, the same restore writes that backup over what the user has changed in
  the meantime, and no copy of the change is kept.
\<close>

lemma failed_reconnect_discards_edit:
  assumes "d = settings_disk (fmap_of_list [(''/h/.claude/settings.json'', ''NEW''),
                                          (''/h/.claude/settings.json.before-any-converter'', ''OLD'')])"
  shows "\<exists>e d'. wiring_connect aj ''/d'' (claude_spec l sample_json sj) sample_home w d = (Inl e, d') \<and>
     look d' ''/h/.claude/settings.json'' = Some ''OLD''"
proof -
  have look: "look d ''/h/.claude/settings.json'' = Some ''NEW''" "faults d = []"
    by (simp_all add: assms settings_disk_def fmlookup_of_list)
  from claude_sample_refused [OF look] obtain e d' where c:
    "wiring_connect aj ''/d'' (claude_spec l sample_json sj) sample_home w d = (Inl e, d')" by blast
  have "look d' ''/h/.claude/settings.json'' = snapshot_of d ''/h/.claude/settings.json''"
    by (rule claude.failed_connect_undone [OF c look(2)]) (simp_all add: claude_sample_files claude_layout)
  moreover have "snapshot_of d ''/h/.claude/settings.json'' = Some ''OLD''"
    by (simp add: assms snapshot_of_def exists_file_def settings_disk_def backup_path_def with_suffix_def
        BACKUP_SUFFIX_def fmlookup_of_list)
  ultimately show ?thesis using c by auto
qed

end
