(* ===== verification/Agents_Registry.thy ===== *)
theory Agents_Registry
  imports Wiring Config Auth
begin

text \<open>
  The agent registry of the server, \<open>crates/server/src/agents_registry.rs\<close> with \<open>ApiError\<close> of
  \<open>agents.rs\<close>: connect, disconnect, sync, key rotation and key lookup, as transitions of the state that one mutex
  guards.  The credential store is the map its file holds: a write replaces one entry or fails and changes nothing.
  Random keys and the time are arguments.
\<close>

section \<open>State\<close>

datatype ApiError =
    ApiAgentAbsent string | ApiNoProviders | ApiConfigUnwritable string | ApiStashMissing string
  | ApiModelNotFound string | ApiUnknownAgent string | ApiNotConnected string | ApiInternal string

fun api_code :: "ApiError \<Rightarrow> string" where
  "api_code (ApiAgentAbsent _) = ''agent_absent''"
| "api_code ApiNoProviders = ''server_no_providers''"
| "api_code (ApiConfigUnwritable _) = ''config_unwritable''"
| "api_code (ApiStashMissing _) = ''stash_missing''"
| "api_code (ApiModelNotFound _) = ''model_not_found''"
| "api_code (ApiUnknownAgent _) = ''unknown_agent''"
| "api_code (ApiNotConnected _) = ''not_connected''"
| "api_code (ApiInternal _) = ''internal''"

fun api_status :: "ApiError \<Rightarrow> nat" where
  "api_status (ApiAgentAbsent _) = 404"
| "api_status (ApiUnknownAgent _) = 404"
| "api_status ApiNoProviders = 400"
| "api_status (ApiModelNotFound _) = 400"
| "api_status (ApiStashMissing _) = 409"
| "api_status (ApiNotConnected _) = 409"
| "api_status (ApiConfigUnwritable _) = 500"
| "api_status (ApiInternal _) = 500"

record AgentEntry =
  ae_status :: string
  agent_key_id :: "string option"
  connected_at :: "int option"
  ae_default_model :: "string option"
  catalog_digest :: "string option"
  ae_home :: "string option"

definition default_entry :: AgentEntry where
  "default_entry =
     \<lparr>ae_status = [], agent_key_id = None, connected_at = None, ae_default_model = None,
      catalog_digest = None, ae_home = None\<rparr>"

record AgentKeyEntry =
  ke_key :: string
  ke_id :: string
  ke_created_at :: int
  ke_last_used :: "int option"

record registry =
  rg_agents :: "(string, AgentEntry) fmap"
  rg_keys :: "(string, AgentKeyEntry) fmap"
  rg_secrets :: "(string, string) fmap"
  rg_disk :: disk

text \<open>What the registry is built with, and the code it calls outside the repository.\<close>

record registry_env =
  re_specs :: "agent_spec list"
  re_dir :: string
  re_gateway :: string
  re_global_key :: "string option"
  re_env :: "string \<Rightarrow> string option"
  re_json :: json_text
  re_toml :: toml_text
  re_stash_json :: "Stash store_json"
  re_applied_json :: "Applied store_json"
  re_state_json :: "(string, AgentEntry) fmap \<Rightarrow> string"
  re_state_parse :: "string \<Rightarrow> (string, AgentEntry) fmap option"
  re_error_text :: "WiringError \<Rightarrow> string"

abbreviation "STATUS_CONNECTED \<equiv> ''connected''"
abbreviation "STATUS_DISCONNECTED \<equiv> ''disconnected''"
abbreviation "STATUS_DRIFTED \<equiv> ''drifted''"
abbreviation "STATUS_ABSENT \<equiv> ''absent''"

section \<open>Helpers\<close>

definition reg_home :: "registry_env \<Rightarrow> string \<Rightarrow> HomeCtx" where
  "reg_home env home = \<lparr>home_dir = home, home_env = re_env env\<rparr>"

definition spec_for :: "registry_env \<Rightarrow> string \<Rightarrow> ApiError + agent_spec" where
  "spec_for env agent_id =
     ok_or (ApiUnknownAgent agent_id) (List.find (\<lambda>s. spec_id s = agent_id) (re_specs env))"

definition registry_resolve_model ::
  "CatalogModel list \<Rightarrow> string option \<Rightarrow> string option \<Rightarrow> ApiError + string" where
  "registry_resolve_model catalog requested stored =
     (case requested of
        Some m \<Rightarrow> if find_model catalog m \<noteq> None then Inr m else Inl (ApiModelNotFound m)
      | None \<Rightarrow>
          (case opt_filter (\<lambda>m. find_model catalog m \<noteq> None) stored of
             Some m \<Rightarrow> Inr m
           | None \<Rightarrow> ok_or ApiNoProviders (map_option model_id (first_model catalog))))"

text \<open>\<open>str::rsplit('_').next()\<close> is the part after the last underscore, the whole text without one.\<close>

definition last_part :: "string \<Rightarrow> string" where
  "last_part s = (case rsplit_once (CHR ''_'') s of Some (_, r) \<Rightarrow> r | None \<Rightarrow> s)"

definition parse_u32 :: "string \<Rightarrow> u32 option" where
  "parse_u32 s = map_option of_nat (opt_filter (\<lambda>n. n < 2 ^ 32) (parse_usize s))"

definition u32_saturating_suc :: "u32 \<Rightarrow> u32" where
  "u32_saturating_suc n = (if n = - 1 then n else n + 1)"

definition next_key_id :: "string \<Rightarrow> string option \<Rightarrow> string" where
  "next_key_id agent_id current =
     (let n = u32_saturating_suc (unwrap_or 0 (Option.bind current (\<lambda>i. parse_u32 (last_part i))));
          digits = show_nat (unat n) in
      ''ak_'' @ agent_id @ ''_'' @ (if length digits < 2 then ''0'' @ digits else digits))"

definition key_store_id :: "string \<Rightarrow> string" where
  "key_store_id agent_id = ''agent-key:'' @ agent_id"

definition put_key :: "string \<Rightarrow> string \<Rightarrow> registry \<Rightarrow> (ApiError + unit) \<times> registry" where
  "put_key agent_id key r =
     (let (bad, d) = next_fault (rg_disk r) in
      if bad then (Inl (ApiConfigUnwritable []), r\<lparr>rg_disk := d\<rparr>)
      else (Inr (), r\<lparr>rg_disk := d, rg_secrets := fmupd (key_store_id agent_id) key (rg_secrets r)\<rparr>))"

definition state_path :: "registry_env \<Rightarrow> string" where
  "state_path env = path_join (re_dir env) ''agent_state.json''"

definition save_state :: "registry_env \<Rightarrow> registry \<Rightarrow> (ApiError + unit) \<times> registry" where
  "save_state env r =
     (case write_atomic (state_path env) (re_state_json env (rg_agents r)) (rg_disk r) of
        (Inl _, d) \<Rightarrow> (Inl (ApiConfigUnwritable []), r\<lparr>rg_disk := d\<rparr>)
      | (Inr _, d) \<Rightarrow> (Inr (), r\<lparr>rg_disk := d\<rparr>))"

text \<open>
  \<open>From<WiringError> for ApiError\<close> of \<open>agents.rs\<close>.  The text of an inner error is a parameter; in \<open>put_key\<close> and
  \<open>save_state\<close> above, where it is the operating system's, it is left out.
\<close>

fun api_error :: "registry_env \<Rightarrow> WiringError \<Rightarrow> ApiError" where
  "api_error env (AgentAbsent a) = ApiAgentAbsent a"
| "api_error env (StashMissing a) = ApiStashMissing a"
| "api_error env (ModelNotFound m) = ApiModelNotFound m"
| "api_error env NoCatalog = ApiNoProviders"
| "api_error env (Refused reason) = ApiConfigUnwritable reason"
| "api_error env e = ApiConfigUnwritable (re_error_text env e)"

section \<open>Operations\<close>

definition reg_wiring :: "registry_env \<Rightarrow> CatalogModel list \<Rightarrow> string \<Rightarrow> string \<Rightarrow> WiringCtx" where
  "reg_wiring env catalog key model =
     \<lparr>gateway_url = re_gateway env, agent_key = key, wiring_catalog = catalog, default_model = model\<rparr>"

definition run_connect ::
  "registry_env \<Rightarrow> agent_spec \<Rightarrow> string \<Rightarrow> WiringCtx \<Rightarrow> registry \<Rightarrow> (ApiError + ConnectReport) \<times> registry" where
  "run_connect env sp home w r =
     (case wiring_connect (re_applied_json env) (re_dir env) sp (reg_home env home) w (rg_disk r) of
        (Inl e, d) \<Rightarrow> (Inl (api_error env e), r\<lparr>rg_disk := d\<rparr>)
      | (Inr report, d) \<Rightarrow> (Inr report, r\<lparr>rg_disk := d\<rparr>))"

text \<open>The end of connect, sync and rotation: remember the key and the entry, then save the entries.\<close>

definition commit ::
  "registry_env \<Rightarrow> string \<Rightarrow> AgentKeyEntry \<Rightarrow> AgentEntry \<Rightarrow> 'a \<Rightarrow> registry \<Rightarrow> (ApiError + 'a) \<times> registry" where
  "commit env agent_id key entry result r =
     (let r = r\<lparr>rg_keys := fmupd agent_id key (rg_keys r), rg_agents := fmupd agent_id entry (rg_agents r)\<rparr> in
      case save_state env r of (Inl e, r) \<Rightarrow> (Inl e, r) | (Inr _, r) \<Rightarrow> (Inr result, r))"

definition wire_agent ::
  "registry_env \<Rightarrow> agent_spec \<Rightarrow> string \<Rightarrow> string \<Rightarrow> WiringCtx \<Rightarrow> AgentKeyEntry \<Rightarrow> AgentEntry \<Rightarrow>
   (ConnectReport \<Rightarrow> 'a) \<Rightarrow> registry \<Rightarrow> (ApiError + 'a) \<times> registry" where
  "wire_agent env sp agent_id home w key entry result r =
     (case run_connect env sp home w r of
        (Inl e, r) \<Rightarrow> (Inl e, r)
      | (Inr report, r) \<Rightarrow> commit env agent_id key entry (result report) r)"

definition connected_entry ::
  "string \<Rightarrow> int option \<Rightarrow> string \<Rightarrow> CatalogModel list \<Rightarrow> string \<Rightarrow> AgentEntry" where
  "connected_entry key_id at model catalog home =
     \<lparr>ae_status = STATUS_CONNECTED, agent_key_id = Some key_id, connected_at = at, ae_default_model = Some model,
      catalog_digest = Some (digest catalog), ae_home = Some home\<rparr>"

definition reg_connect ::
  "registry_env \<Rightarrow> CatalogModel list \<Rightarrow> string \<Rightarrow> int \<Rightarrow> string \<Rightarrow> string option \<Rightarrow> string \<Rightarrow> registry \<Rightarrow>
   (ApiError + ConnectReport) \<times> registry" where
  "reg_connect env catalog fresh now agent_id model home r =
     (if catalog = [] then (Inl ApiNoProviders, r)
      else case spec_for env agent_id of
             Inl e \<Rightarrow> (Inl e, r)
           | Inr sp \<Rightarrow>
               let existing = unwrap_or default_entry (fmlookup (rg_agents r) agent_id) in
               case registry_resolve_model catalog model (ae_default_model existing) of
                 Inl e \<Rightarrow> (Inl e, r)
               | Inr m \<Rightarrow>
                   (case (case fmlookup (rg_keys r) agent_id of
                            Some entry \<Rightarrow> (Inr entry, r)
                          | None \<Rightarrow>
                              (case put_key agent_id fresh r of
                                 (Inl e, r) \<Rightarrow> (Inl e, r)
                               | (Inr _, r) \<Rightarrow>
                                   (Inr \<lparr>ke_key = fresh, ke_id = next_key_id agent_id (agent_key_id existing),
                                         ke_created_at = now, ke_last_used = None\<rparr>, r))) of
                      (Inl e, r) \<Rightarrow> (Inl e, r)
                    | (Inr key, r) \<Rightarrow>
                        wire_agent env sp agent_id home (reg_wiring env catalog (ke_key key) m) key
                          (connected_entry (ke_id key) (Some now) m catalog home) id r))"

definition reg_disconnect :: "registry_env \<Rightarrow> string \<Rightarrow> string \<Rightarrow> registry \<Rightarrow> (ApiError + DisconnectReport) \<times> registry" where
  "reg_disconnect env agent_id home r =
     (case spec_for env agent_id of
        Inl e \<Rightarrow> (Inl e, r)
      | Inr sp \<Rightarrow>
          (case wiring_disconnect (re_json env) (re_toml env) (re_stash_json env) (re_applied_json env) (re_dir env)
                  sp (reg_home env home) (rg_disk r) of
             (Inl e, d) \<Rightarrow> (Inl (api_error env e), r\<lparr>rg_disk := d\<rparr>)
           | (Inr report, d) \<Rightarrow>
               (let entry = unwrap_or default_entry (fmlookup (rg_agents r) agent_id);
                    r = r\<lparr>rg_disk := d,
                          rg_agents := fmupd agent_id (entry\<lparr>ae_status := STATUS_DISCONNECTED\<rparr>) (rg_agents r)\<rparr> in
                case save_state env r of (Inl e, r) \<Rightarrow> (Inl e, r) | (Inr _, r) \<Rightarrow> (Inr report, r))))"

text \<open>What sync and rotation need: the entry and the key of a wired agent.\<close>

definition wired_key :: "string \<Rightarrow> registry \<Rightarrow> ApiError + (AgentEntry \<times> AgentKeyEntry)" where
  "wired_key agent_id r =
     try_bind (ok_or (ApiNotConnected agent_id) (fmlookup (rg_agents r) agent_id)) (\<lambda>entry.
       try_bind (ok_or (ApiNotConnected agent_id) (fmlookup (rg_keys r) agent_id)) (\<lambda>key. Inr (entry, key)))"

definition reg_sync ::
  "registry_env \<Rightarrow> CatalogModel list \<Rightarrow> string \<Rightarrow> string \<Rightarrow> registry \<Rightarrow> (ApiError + unit) \<times> registry" where
  "reg_sync env catalog agent_id home r =
     (if catalog = [] then (Inl ApiNoProviders, r)
      else case try_bind (spec_for env agent_id) (\<lambda>sp.
                  try_bind (ok_or (ApiNotConnected agent_id) (fmlookup (rg_agents r) agent_id)) (\<lambda>entry.
                    if ae_status entry \<noteq> STATUS_CONNECTED \<and> ae_status entry \<noteq> STATUS_DRIFTED
                    then Inl (ApiNotConnected agent_id)
                    else try_bind (wired_key agent_id r) (\<lambda>(_, key).
                           try_bind (registry_resolve_model catalog None (ae_default_model entry)) (\<lambda>m.
                             Inr (sp, entry, key, m))))) of
             Inl e \<Rightarrow> (Inl e, r)
           | Inr (sp, entry, key, m) \<Rightarrow>
               wire_agent env sp agent_id home (reg_wiring env catalog (ke_key key) m) key
                 (connected_entry (ke_id key) (connected_at entry) m catalog home) (\<lambda>_. ()) r)"

definition reg_rotate_key ::
  "registry_env \<Rightarrow> CatalogModel list \<Rightarrow> string \<Rightarrow> int \<Rightarrow> string \<Rightarrow> string \<Rightarrow> registry \<Rightarrow> (ApiError + string) \<times> registry" where
  "reg_rotate_key env catalog fresh now agent_id home r =
     (if catalog = [] then (Inl ApiNoProviders, r)
      else case try_bind (spec_for env agent_id) (\<lambda>sp.
                  try_bind (wired_key agent_id r) (\<lambda>(entry, old).
                    try_bind (registry_resolve_model catalog None (ae_default_model entry)) (\<lambda>m.
                      Inr (sp, entry, old, m)))) of
             Inl e \<Rightarrow> (Inl e, r)
           | Inr (sp, entry, old, m) \<Rightarrow>
               let key_id = next_key_id agent_id (Some (ke_id old)) in
               case put_key agent_id fresh r of
                 (Inl e, r) \<Rightarrow> (Inl e, r)
               | (Inr _, r) \<Rightarrow>
                   wire_agent env sp agent_id home (reg_wiring env catalog fresh m)
                     \<lparr>ke_key = fresh, ke_id = key_id, ke_created_at = now, ke_last_used = None\<rparr>
                     (connected_entry key_id (connected_at entry) m catalog home) (\<lambda>_. key_id) r)"

definition note_request_key :: "int \<Rightarrow> string \<Rightarrow> registry \<Rightarrow> string option \<times> registry" where
  "note_request_key now key r =
     (case List.find (\<lambda>(_, e). ke_key e = key) (entries (rg_keys r)) of
        Some (agent_id, e) \<Rightarrow>
          (Some agent_id, r\<lparr>rg_keys := fmupd agent_id (e\<lparr>ke_last_used := Some now\<rparr>) (rg_keys r)\<rparr>)
      | None \<Rightarrow> (None, r))"

definition key_snapshot :: "registry \<Rightarrow> string list" where
  "key_snapshot r = map (ke_key \<circ> snd) (entries (rg_keys r))"

definition validate_key :: "registry_env \<Rightarrow> string option \<Rightarrow> string option \<Rightarrow> registry \<Rightarrow> AuthError + unit" where
  "validate_key env global header r =
     validate_client_keys (or_else global (re_global_key env)) (key_snapshot r) header"

text \<open>A restart reads the keys of the saved entries from the credential store.\<close>

definition load_key :: "registry \<Rightarrow> string \<Rightarrow> AgentEntry \<Rightarrow> AgentKeyEntry option" where
  "load_key r agent_id entry =
     Option.bind (agent_key_id entry) (\<lambda>i.
       map_option (\<lambda>k. \<lparr>ke_key = k, ke_id = i, ke_created_at = unwrap_or 0 (connected_at entry), ke_last_used = None\<rparr>)
         (fmlookup (rg_secrets r) (key_store_id agent_id)))"

definition load_keys :: "registry \<Rightarrow> (string, AgentKeyEntry) fmap" where
  "load_keys r =
     fmap_of_list (List.map_filter (\<lambda>(a, e). map_option (Pair a) (load_key r a e)) (entries (rg_agents r)))"

section \<open>Catalog and drift\<close>

text \<open>The identifiers that are already in the catalog are skipped.\<close>

definition add_model :: "string \<Rightarrow> string \<Rightarrow> CatalogModel list \<Rightarrow> CatalogModel list" where
  "add_model provider name models =
     (let i = provider @ ''/'' @ name in
      if list_ex (\<lambda>m. model_id m = i) models then models
      else models @ [\<lparr>model_id = i, model_name = name, model_reasoning = False, context_tokens = None\<rparr>])"

definition catalog_of_provider :: "ProviderConfig \<Rightarrow> CatalogModel list \<Rightarrow> CatalogModel list" where
  "catalog_of_provider p models =
     fold (add_model (pname p)) (filter (\<lambda>n. \<not> is_wildcard n) (sort (map fst (model_map p)))) models"

definition catalog_of_route :: "ModelRouteConfig \<Rightarrow> CatalogModel list \<Rightarrow> CatalogModel list" where
  "catalog_of_route mr models =
     (if is_wildcard (pattern mr) then models
      else case or_else (mr_provider mr) (case mr_providers mr of [] \<Rightarrow> None | p # _ \<Rightarrow> Some p) of
             None \<Rightarrow> models
           | Some p \<Rightarrow> add_model p (pattern mr) models)"

definition catalog_from_config :: "ServerConfig \<Rightarrow> CatalogModel list" where
  "catalog_from_config cfg =
     fold catalog_of_route (model_routes cfg) (fold catalog_of_provider (providers cfg) [])"

definition agent_drifted :: "registry_env \<Rightarrow> agent_spec \<Rightarrow> HomeCtx \<Rightarrow> Applied \<Rightarrow> disk \<Rightarrow> bool \<times> disk" where
  "agent_drifted env sp ctx applied d =
     (if applied_recorded applied (spec_id sp) \<noteq> fmempty then
        (let (current, d) = applied_values sp ctx d in (drifted_keys applied (spec_id sp) current \<noteq> [], d))
      else (let (st, d) = read_state sp ctx (re_gateway env) d in (st \<noteq> Connected, d)))"

definition sync_needed :: "CatalogModel list \<Rightarrow> string \<Rightarrow> registry \<Rightarrow> bool" where
  "sync_needed catalog agent_id r =
     (case fmlookup (rg_agents r) agent_id of
        None \<Rightarrow> False
      | Some entry \<Rightarrow> ae_status entry = STATUS_CONNECTED \<and> catalog_digest entry \<noteq> Some (digest catalog))"

record AgentStatus =
  row_id :: string
  row_status :: string
  row_model :: "string option"
  row_digest :: "string option"
  row_key_id :: "string option"
  row_connected_at :: "int option"

text \<open>
  The list of agents takes the lock twice: once to read the rows, once to mark the drifted ones.  Whether an agent is
  installed is read from its directories, which are not part of the disk here.
\<close>

definition list_row ::
  "registry_env \<Rightarrow> HomeCtx \<Rightarrow> Applied \<Rightarrow> (string \<Rightarrow> bool) \<Rightarrow> (string, AgentEntry) fmap \<Rightarrow> agent_spec \<Rightarrow> disk \<Rightarrow>
   AgentStatus \<times> bool \<times> disk" where
  "list_row env ctx applied installed agents sp d =
     (let i = spec_id sp in
      if \<not> installed i then
        (\<lparr>row_id = i, row_status = STATUS_ABSENT, row_model = None, row_digest = None, row_key_id = None,
          row_connected_at = None\<rparr>, False, d)
      else
        (let entry = fmlookup agents i;
             status = (case entry of Some e \<Rightarrow> if ae_status e = [] then STATUS_DISCONNECTED else ae_status e
                       | None \<Rightarrow> STATUS_DISCONNECTED);
             (drifted, d) = (if status = STATUS_CONNECTED then agent_drifted env sp ctx applied d else (False, d)) in
         (\<lparr>row_id = i, row_status = (if drifted then STATUS_DRIFTED else status),
           row_model = Option.bind entry ae_default_model, row_digest = Option.bind entry catalog_digest,
           row_key_id = Option.bind entry agent_key_id, row_connected_at = Option.bind entry connected_at\<rparr>,
          drifted, d)))"

fun list_rows ::
  "registry_env \<Rightarrow> HomeCtx \<Rightarrow> Applied \<Rightarrow> (string \<Rightarrow> bool) \<Rightarrow> (string, AgentEntry) fmap \<Rightarrow> agent_spec list \<Rightarrow> disk \<Rightarrow>
   AgentStatus list \<times> string list \<times> disk" where
  "list_rows env ctx applied installed agents [] d = ([], [], d)"
| "list_rows env ctx applied installed agents (sp # sps) d =
     (let (row, drifted, d) = list_row env ctx applied installed agents sp d;
          (rows, ids, d) = list_rows env ctx applied installed agents sps d in
      (row # rows, (if drifted then spec_id sp # ids else ids), d))"

definition reg_list_rows ::
  "registry_env \<Rightarrow> (string \<Rightarrow> bool) \<Rightarrow> string \<Rightarrow> registry \<Rightarrow> (AgentStatus list \<times> string list) \<times> registry" where
  "reg_list_rows env installed home r =
     (let (applied, d) = store_load (re_applied_json env) (applied_file (re_dir env)) (rg_disk r);
          (rows, ids, d) = list_rows env (reg_home env home) applied installed (rg_agents r) (re_specs env) d in
      ((rows, ids), r\<lparr>rg_disk := d\<rparr>))"

definition mark_entry :: "string \<Rightarrow> (string, AgentEntry) fmap \<Rightarrow> (string, AgentEntry) fmap" where
  "mark_entry i agents =
     (case fmlookup agents i of
        Some e \<Rightarrow> fmupd i (e\<lparr>ae_status := STATUS_DRIFTED\<rparr>) agents
      | None \<Rightarrow> agents)"

definition reg_mark_drifted :: "registry_env \<Rightarrow> string list \<Rightarrow> registry \<Rightarrow> registry" where
  "reg_mark_drifted env ids r =
     (if ids = [] then r
      else snd (save_state env (r\<lparr>rg_agents := fold mark_entry ids (rg_agents r)\<rparr>)))"

section \<open>Start\<close>

definition load_state :: "registry_env \<Rightarrow> disk \<Rightarrow> (string, AgentEntry) fmap \<times> disk" where
  "load_state env d =
     (case fs_read (state_path env) d of
        (Inr bytes, d) \<Rightarrow>
          (case re_state_parse env bytes of
             Some agents \<Rightarrow> (agents, d)
           | None \<Rightarrow>
               (fmempty,
                snd (fs_rename (state_path env) (with_suffix (state_path env) (''.bad-'' @ show_nat (clock d))) d)))
      | (Inl _, d) \<Rightarrow> (fmempty, d))"

text \<open>A read of the credential store does not fail here; an entry whose key cannot be read would be skipped.\<close>

definition reg_new :: "registry_env \<Rightarrow> (string, string) fmap \<Rightarrow> disk \<Rightarrow> registry" where
  "reg_new env secrets d =
     (let (agents, d) = load_state env d;
          r = \<lparr>rg_agents = agents, rg_keys = fmempty, rg_secrets = secrets, rg_disk = d\<rparr> in
      r\<lparr>rg_keys := load_keys r\<rparr>)"

lemma add_model_distinct: "distinct (map model_id ms) \<Longrightarrow> distinct (map model_id (add_model p n ms))"
  by (auto simp: add_model_def Let_def list_ex_iff)

lemma fold_add_distinct: "distinct (map model_id ms) \<Longrightarrow> distinct (map model_id (fold (add_model p) ns ms))"
  by (induction ns arbitrary: ms) (simp_all add: add_model_distinct)

text \<open>No identifier occurs twice in the catalog, so the identifier of a model finds that model.\<close>

lemma catalog_ids_distinct: "distinct (map model_id (catalog_from_config cfg))"
proof -
  have "distinct (map model_id (fold catalog_of_provider ps ms))" if "distinct (map model_id ms)" for ps ms
    using that by (induction ps arbitrary: ms) (simp_all add: catalog_of_provider_def fold_add_distinct)
  moreover have "distinct (map model_id (fold catalog_of_route rs ms))" if "distinct (map model_id ms)" for rs ms
    using that by (induction rs arbitrary: ms) (auto simp: catalog_of_route_def add_model_distinct split: option.split)
  ultimately show ?thesis by (simp add: catalog_from_config_def)
qed

section \<open>The keys in memory are the keys that are stored\<close>

definition keys_durable :: "registry \<Rightarrow> bool" where
  "keys_durable r \<longleftrightarrow>
     (\<forall>a key. fmlookup (rg_keys r) a = Some key \<longrightarrow>
        fmlookup (rg_secrets r) (key_store_id a) = Some (ke_key key) \<and>
        (\<exists>entry. fmlookup (rg_agents r) a = Some entry \<and> agent_key_id entry = Some (ke_id key)))"

lemma key_store_id_inj [simp]: "key_store_id a = key_store_id b \<longleftrightarrow> a = b"
  by (simp add: key_store_id_def)

lemma load_keys_lookup:
  "fmlookup (load_keys r) a = Option.bind (fmlookup (rg_agents r) a) (load_key r a)"
proof -
  have "map_of (List.map_filter (\<lambda>(a, e). map_option (Pair a) (load_key r a e)) es) a =
        Option.bind (map_of es a) (load_key r a)" if "distinct (map fst es)" for es
    using that
  proof (induction es)
    case (Cons ae es)
    then show ?case
      by (cases ae; cases "load_key r (fst ae) (snd ae)")
         (auto simp: map_of_eq_None_iff [THEN iffD2] split: option.split)
  qed simp
  from this [OF entries_distinct] show ?thesis
    by (simp add: load_keys_def fmlookup_of_list entries_map_of)
qed

text \<open>After a restart every key that was in use is in use again, under the same identifier.\<close>

lemma restart_keeps_keys:
  "keys_durable r \<Longrightarrow> fmlookup (rg_keys r) a = Some key \<Longrightarrow>
   \<exists>key'. fmlookup (load_keys r) a = Some key' \<and> ke_key key' = ke_key key \<and> ke_id key' = ke_id key"
  by (fastforce simp: keys_durable_def load_keys_lookup load_key_def)


inductive reg_step :: "registry_env \<Rightarrow> registry \<Rightarrow> registry \<Rightarrow> bool" for env where
  connect: "reg_connect env catalog fresh now a model home r = (res, r') \<Longrightarrow> reg_step env r r'"
| disconnect: "reg_disconnect env a home r = (res, r') \<Longrightarrow> reg_step env r r'"
| sync: "reg_sync env catalog a home r = (res, r') \<Longrightarrow> reg_step env r r'"
| rotated: "reg_rotate_key env catalog fresh now a home r = (Inr i, r') \<Longrightarrow> reg_step env r r'"
| request: "note_request_key now key r = (res, r') \<Longrightarrow> reg_step env r r'"
| listed: "reg_list_rows env installed home r = (res, r') \<Longrightarrow> reg_step env r r'"
| marked: "reg_step env r (reg_mark_drifted env ids r)"

inductive_cases reg_stepE: "reg_step env r r'"

definition durable_at :: "registry \<Rightarrow> string \<Rightarrow> bool" where
  "durable_at r a \<longleftrightarrow>
     (\<forall>key. fmlookup (rg_keys r) a = Some key \<longrightarrow>
        fmlookup (rg_secrets r) (key_store_id a) = Some (ke_key key) \<and>
        (\<exists>entry. fmlookup (rg_agents r) a = Some entry \<and> agent_key_id entry = Some (ke_id key)))"

lemma keys_durable_at: "keys_durable r \<longleftrightarrow> (\<forall>a. durable_at r a)"
  by (simp add: keys_durable_def durable_at_def)

text \<open>The parts of the state an operation leaves alone.\<close>

definition same_books :: "registry \<Rightarrow> registry \<Rightarrow> bool" where
  "same_books r r' \<longleftrightarrow> rg_keys r' = rg_keys r \<and> rg_agents r' = rg_agents r \<and> rg_secrets r' = rg_secrets r"

lemma same_books_durable: "same_books r r' \<Longrightarrow> durable_at r' a \<longleftrightarrow> durable_at r a"
  by (simp add: same_books_def durable_at_def)

lemma run_connect_books: "run_connect env sp home w r = (x, r') \<Longrightarrow> same_books r r'"
  by (auto simp: run_connect_def same_books_def split: prod.splits sum.splits)

lemma save_state_books: "save_state env r = (x, r') \<Longrightarrow> same_books r r'"
  by (auto simp: save_state_def same_books_def split: prod.splits sum.splits)

lemma put_key_books:
  "put_key a k r = (x, r') \<Longrightarrow>
   (\<forall>b. b \<noteq> a \<longrightarrow> durable_at r' b = durable_at r b) \<and> rg_keys r' = rg_keys r \<and>
   (\<forall>u. x = Inr u \<longrightarrow> fmlookup (rg_secrets r') (key_store_id a) = Some k) \<and> (\<forall>e. x = Inl e \<longrightarrow> same_books r r')"
  by (auto simp: put_key_def durable_at_def same_books_def split: prod.splits if_splits)

lemma commit_durable:
  assumes c: "commit env a key entry res r = (x, r')"
    and others: "\<forall>b. b \<noteq> a \<longrightarrow> durable_at r b"
    and key: "fmlookup (rg_secrets r) (key_store_id a) = Some (ke_key key)" "agent_key_id entry = Some (ke_id key)"
  shows "keys_durable r'"
proof -
  let ?r = "r\<lparr>rg_keys := fmupd a key (rg_keys r), rg_agents := fmupd a entry (rg_agents r)\<rparr>"
  obtain y where "save_state env ?r = (y, r')"
    using c by (auto simp: commit_def Let_def split: prod.splits sum.splits)
  then have "same_books ?r r'" by (rule save_state_books)
  moreover have "durable_at ?r b" for b
    using others key by (cases "b = a") (auto simp: durable_at_def)
  ultimately show ?thesis by (simp add: keys_durable_at same_books_durable)
qed

lemma connected_entry_key [simp]: "agent_key_id (connected_entry i t m c h) = Some i"
  by (simp add: connected_entry_def)

lemma wire_agent_durable:
  assumes w: "wire_agent env sp a home w key entry f r = (x, r')"
    and others: "\<forall>b. b \<noteq> a \<longrightarrow> durable_at r b"
    and key: "fmlookup (rg_secrets r) (key_store_id a) = Some (ke_key key)" "agent_key_id entry = Some (ke_id key)"
  shows "keys_durable r' \<or> same_books r r' \<and> (\<exists>e. x = Inl e)"
proof -
  obtain y r1 where y: "run_connect env sp home w r = (y, r1)" by fastforce
  then have b: "same_books r r1" by (rule run_connect_books)
  show ?thesis
  proof (cases y)
    case (Inl e)
    then show ?thesis using w y b by (auto simp: wire_agent_def)
  next
    case (Inr rep)
    then have c: "commit env a key entry (f rep) r1 = (x, r')" using w y by (simp add: wire_agent_def)
    have o: "\<forall>b. b \<noteq> a \<longrightarrow> durable_at r1 b" using others b by (simp add: same_books_durable)
    have k: "fmlookup (rg_secrets r1) (key_store_id a) = Some (ke_key key)" using key(1) b by (simp add: same_books_def)
    from commit_durable [OF c o k key(2)] show ?thesis ..
  qed
qed

lemma keys_durable_books: "same_books r r' \<Longrightarrow> keys_durable r' \<longleftrightarrow> keys_durable r"
  by (simp add: keys_durable_at same_books_durable)

lemma reg_connect_durable:
  assumes c: "reg_connect env catalog fresh now a model home r = (res, r')" and d: "keys_durable r"
  shows "keys_durable r'"
proof -
  have finish: "keys_durable r'"
    if "wire_agent env sp a home w key (connected_entry (ke_id key) t m catalog home) f r1 = (res, r')"
      "keys_durable r1" "fmlookup (rg_secrets r1) (key_store_id a) = Some (ke_key key)" for sp w key t m r1 and f :: "ConnectReport \<Rightarrow> ConnectReport"
    using wire_agent_durable [OF that(1) _ that(3)] that(2) keys_durable_books by (auto simp: keys_durable_at)
  show ?thesis
  proof (cases "fmlookup (rg_keys r) a")
    case (Some key)
    then have k: "fmlookup (rg_secrets r) (key_store_id a) = Some (ke_key key)" using d by (auto simp: keys_durable_def)
    show ?thesis
      using c Some d finish [OF _ d k]
      by (auto simp: reg_connect_def Let_def split: if_splits sum.splits)
  next
    case None
    obtain x r1 where p: "put_key a fresh r = (x, r1)" by fastforce
    note pk = put_key_books [OF p]
    have d1: "keys_durable r1"
      unfolding keys_durable_at
    proof
      fix b
      show "durable_at r1 b"
        using pk d None by (cases "b = a") (auto simp: keys_durable_at durable_at_def [of r1 a])
    qed
    have "keys_durable r'" if "x = Inr u" for u
      using c None p that d d1 pk finish [of _ _ "\<lparr>ke_key = fresh, ke_id = i, ke_created_at = now, ke_last_used = None\<rparr>" for i]
      by (fastforce simp: reg_connect_def Let_def split: if_splits sum.splits)
    moreover have "keys_durable r'" if "x = Inl e" for e
      using c None p that d d1 by (auto simp: reg_connect_def Let_def split: if_splits sum.splits)
    ultimately show ?thesis by (cases x) auto
  qed
qed

lemma reg_disconnect_durable:
  assumes "reg_disconnect env a home r = (res, r')" "keys_durable r"
  shows "keys_durable r'"
proof -
  have "keys_durable r'" if "save_state env (r\<lparr>rg_disk := d, rg_agents :=
        fmupd a ((unwrap_or default_entry (fmlookup (rg_agents r) a))\<lparr>ae_status := STATUS_DISCONNECTED\<rparr>) (rg_agents r)\<rparr>) = (x, r')"
    for d x
  proof -
    have "keys_durable (r\<lparr>rg_disk := d, rg_agents :=
        fmupd a ((unwrap_or default_entry (fmlookup (rg_agents r) a))\<lparr>ae_status := STATUS_DISCONNECTED\<rparr>) (rg_agents r)\<rparr>)"
      using assms(2) by (fastforce simp: keys_durable_def)
    with save_state_books [OF that] show ?thesis by (simp add: keys_durable_books)
  qed
  then show ?thesis
    using assms
    by (auto simp: reg_disconnect_def Let_def keys_durable_def split: sum.splits prod.splits)
qed

lemma reg_sync_durable:
  assumes s: "reg_sync env catalog a home r = (res, r')" and d: "keys_durable r"
  shows "keys_durable r'"
proof (cases "r' = r")
  case False
  with s obtain sp t key m where w: "wire_agent env sp a home (reg_wiring env catalog (ke_key key) m) key
      (connected_entry (ke_id key) t m catalog home) (\<lambda>_. ()) r = (res, r')"
    and k: "fmlookup (rg_keys r) a = Some key"
    by (auto simp: reg_sync_def wired_key_def split: if_splits sum.splits)
  from k d have "fmlookup (rg_secrets r) (key_store_id a) = Some (ke_key key)" by (auto simp: keys_durable_def)
  with wire_agent_durable [OF w] d keys_durable_books show ?thesis by (auto simp: keys_durable_at)
qed (use d in simp)

lemma reg_rotate_durable:
  assumes s: "reg_rotate_key env catalog fresh now a home r = (Inr i, r')" and d: "keys_durable r"
  shows "keys_durable r'"
proof -
  from s obtain sp t j m u r1 where p: "put_key a fresh r = (Inr u, r1)"
    and w: "wire_agent env sp a home (reg_wiring env catalog fresh m)
      \<lparr>ke_key = fresh, ke_id = j, ke_created_at = now, ke_last_used = None\<rparr>
      (connected_entry j t m catalog home) (\<lambda>_. j) r1 = (Inr i, r')"
    by (auto simp: reg_rotate_key_def Let_def split: if_splits sum.splits prod.splits)
  from put_key_books [OF p] d have "\<forall>b. b \<noteq> a \<longrightarrow> durable_at r1 b"
    "fmlookup (rg_secrets r1) (key_store_id a) = Some fresh" by (simp_all add: keys_durable_at)
  with wire_agent_durable [OF w] show ?thesis by simp
qed

lemma note_request_key_durable:
  assumes "note_request_key now key r = (res, r')" "keys_durable r"
  shows "keys_durable r'"
proof (cases "List.find (\<lambda>(_, e). ke_key e = key) (entries (rg_keys r))")
  case None
  then show ?thesis using assms by (simp add: note_request_key_def)
next
  case (Some ae)
  then have "ae \<in> set (entries (rg_keys r))" by (auto simp: find_Some_iff) (metis nth_mem)
  then obtain a e where ae: "ae = (a, e)" "(a, e) \<in> set (entries (rg_keys r))" by (metis surj_pair)
  then have "fmlookup (rg_keys r) a = Some e" by (simp add: entries_member)
  moreover have "r' = r\<lparr>rg_keys := fmupd a (e\<lparr>ke_last_used := Some now\<rparr>) (rg_keys r)\<rparr>"
    using assms(1) Some ae(1) by (auto simp: note_request_key_def)
  ultimately have "durable_at r' b" for b
    using assms(2) by (cases "b = a") (auto simp: keys_durable_at durable_at_def)
  then show ?thesis by (simp add: keys_durable_at)
qed

lemma reg_list_rows_books: "reg_list_rows env installed home r = (res, r') \<Longrightarrow> same_books r r'"
  by (auto simp: reg_list_rows_def same_books_def split: prod.splits)

lemma mark_entries_key:
  "map_option agent_key_id (fmlookup (fold mark_entry ids agents) a) = map_option agent_key_id (fmlookup agents a)"
  by (induction ids arbitrary: agents) (auto simp: mark_entry_def split: option.split)

lemma reg_mark_durable:
  assumes "keys_durable r"
  shows "keys_durable (reg_mark_drifted env ids r)"
proof (cases "ids = []")
  case False
  let ?r = "r\<lparr>rg_agents := fold mark_entry ids (rg_agents r)\<rparr>"
  have "\<exists>e. fmlookup (rg_agents ?r) a = Some e \<and> agent_key_id e = i"
    if "fmlookup (rg_agents r) a = Some e" "agent_key_id e = i" for a e i
    using mark_entries_key [of ids "rg_agents r" a] that by auto
  then have "keys_durable ?r" using assms by (fastforce simp: keys_durable_def)
  moreover obtain x r' where x: "save_state env ?r = (x, r')" by fastforce
  ultimately have "keys_durable r'" using keys_durable_books [OF save_state_books [OF x]] by blast
  then show ?thesis using False x by (simp add: reg_mark_drifted_def)
qed (use assms in \<open>simp add: reg_mark_drifted_def\<close>)

lemma reg_step_durable: "reg_step env r r' \<Longrightarrow> keys_durable r \<Longrightarrow> keys_durable r'"
  by (erule reg_stepE)
     (blast intro: reg_connect_durable reg_disconnect_durable reg_sync_durable reg_rotate_durable
        note_request_key_durable reg_mark_durable keys_durable_books [THEN iffD2] reg_list_rows_books)+

lemma reachable_durable: "(reg_step env)\<^sup>*\<^sup>* r r' \<Longrightarrow> keys_durable r \<Longrightarrow> keys_durable r'"
  by (induction rule: rtranclp_induct) (auto dest: reg_step_durable)

section \<open>The saved entries\<close>

definition saved :: "registry_env \<Rightarrow> registry \<Rightarrow> bool" where
  "saved env r \<longleftrightarrow> look (rg_disk r) (state_path env) = Some (re_state_json env (rg_agents r))"

lemma save_state_saved: "save_state env r = (Inr u, r') \<Longrightarrow> saved env r'"
  by (auto simp: save_state_def saved_def split: prod.splits sum.splits dest: write_atomicD)

lemma wire_agent_saved: "wire_agent env sp a home w key entry f r = (Inr x, r') \<Longrightarrow> saved env r'"
  by (auto simp: wire_agent_def commit_def Let_def split: prod.splits sum.splits dest: save_state_saved)

text \<open>An operation that reports success has saved its entries.\<close>

lemma success_saved:
  "reg_connect env catalog fresh now a model home r = (Inr report, r') \<Longrightarrow> saved env r'"
  "reg_sync env catalog a home r = (Inr u, r') \<Longrightarrow> saved env r'"
  "reg_rotate_key env catalog fresh now a home r = (Inr i, r') \<Longrightarrow> saved env r'"
  "reg_disconnect env a home r = (Inr report', r') \<Longrightarrow> saved env r'"
  by (auto simp: reg_connect_def reg_sync_def reg_rotate_key_def reg_disconnect_def Let_def
      split: if_splits sum.splits prod.splits option.splits dest: wire_agent_saved save_state_saved)

lemma reg_new_saved:
  assumes "saved env r" "re_state_parse env (re_state_json env (rg_agents r)) = Some (rg_agents r)"
    and "faults (rg_disk r) = []"
  shows "reg_new env (rg_secrets r) (rg_disk r) = r\<lparr>rg_keys := load_keys r\<rparr>"
proof -
  have "load_state env (rg_disk r) = (rg_agents r, rg_disk r)"
    using assms by (simp add: load_state_def fs_read_def next_fault_def saved_def ok_or_def)
  then show ?thesis by (simp add: reg_new_def load_keys_def load_key_def)
qed


definition sample_key :: AgentKeyEntry where
  "sample_key = \<lparr>ke_key = ''acw_pi_1'', ke_id = ''ak_pi_01'', ke_created_at = 5, ke_last_used = None\<rparr>"

definition sample_registry :: registry where
  "sample_registry =
     \<lparr>rg_agents = fmupd ''pi'' (default_entry\<lparr>agent_key_id := Some ''ak_pi_01''\<rparr>) fmempty,
      rg_keys = fmupd ''pi'' sample_key fmempty,
      rg_secrets = fmupd ''agent-key:pi'' ''acw_pi_1'' fmempty,
      rg_disk = \<lparr>files = fmupd ''/d/agent_state.json'' ''{pi}'' fmempty, faults = [], clock = 0\<rparr>\<rparr>"

definition sample_env :: registry_env where
  "sample_env =
     \<lparr>re_specs = [], re_dir = ''/d'', re_gateway = ''http://g'', re_global_key = None, re_env = (\<lambda>_. None),
      re_json = \<lparr>jt_from_str = (\<lambda>_. Inl []), jt_to_string = (\<lambda>_. Inl []), jt_to_string_pretty = (\<lambda>_. Inl [])\<rparr>,
      re_toml = (\<lambda>_. None),
      re_stash_json = \<lparr>from_slice = (\<lambda>_. None), to_vec_pretty = (\<lambda>_. [])\<rparr>,
      re_applied_json = \<lparr>from_slice = (\<lambda>_. None), to_vec_pretty = (\<lambda>_. [])\<rparr>,
      re_state_json = (\<lambda>_. ''{pi}''),
      re_state_parse = (\<lambda>_. Some (rg_agents sample_registry)),
      re_error_text = (\<lambda>_. [])\<rparr>"


text \<open>
  The drift mark comes after a second locking: an agent that was connected in between is marked drifted although its
  files are right.
\<close>

lemma stale_drift_mark:
  assumes "fmlookup (rg_agents r) a = Some e"
  shows "map_option ae_status (fmlookup (rg_agents (reg_mark_drifted env [a] r)) a) = Some STATUS_DRIFTED"
  using assms
  by (simp add: reg_mark_drifted_def mark_entry_def save_state_def split: prod.split sum.split)

text \<open>
  A rotation that fails after the new key is stored leaves the old key in memory and in the agent's files and the
  new one in the store: the next restart no longer accepts the key the agent uses.
\<close>

lemma failed_rotation_splits_key:
  assumes "put_key a fresh r = (Inr (), r1)" "wire_agent env sp a home w key entry f r1 = (Inl e, r')"
    "run_connect env sp home w r1 = (Inl e, r')"
    and "fmlookup (rg_keys r) a = Some old" "fmlookup (rg_agents r) a = Some en" "agent_key_id en = Some i"
  shows "fmlookup (rg_keys r') a = Some old"
    and "map_option ke_key (fmlookup (load_keys r') a) = Some fresh"
proof -
  have b: "same_books r1 r'" by (rule run_connect_books [OF assms(3)])
  have "rg_keys r1 = rg_keys r \<and> rg_agents r1 = rg_agents r"
    using assms(1) by (auto simp: put_key_def split: prod.splits if_splits)
  with b put_key_books [OF assms(1)] assms(4-6)
  show "fmlookup (rg_keys r') a = Some old" "map_option ke_key (fmlookup (load_keys r') a) = Some fresh"
    by (simp_all add: same_books_def load_keys_lookup load_key_def)
qed

end
