(* ===== verification/Agents_Api.thy ===== *)
theory Agents_Api
  imports Agents_Registry Gateway
begin

text \<open>
  The HTTP interface of the agent registry, \<open>crates/server/src/agents.rs\<close>: the two authentication checks, the
  error answers and the six handlers, each a transition of the registry with its response.  The lemmas show which
  key opens which handler, and that no answer shows a key.
\<close>

section \<open>Answers\<close>

fun api_message :: "ApiError \<Rightarrow> string" where
  "api_message (ApiAgentAbsent a) = ''agent '' @ a @ '' is not installed''"
| "api_message ApiNoProviders = ''the server has no providers configured''"
| "api_message (ApiConfigUnwritable detail) = ''could not update agent config: '' @ detail"
| "api_message (ApiStashMissing a) = ''missing recovery data for '' @ a"
| "api_message (ApiModelNotFound m) = ''model '' @ m @ '' is not in the catalog''"
| "api_message (ApiUnknownAgent a) = ''unknown agent: '' @ a"
| "api_message (ApiNotConnected a) = ''agent '' @ a @ '' is not connected''"
| "api_message (ApiInternal detail) = ''internal error: '' @ detail"

fun api_hint :: "ApiError \<Rightarrow> string option" where
  "api_hint ApiNoProviders = Some ''add at least one provider to the server config''"
| "api_hint (ApiStashMissing _) = Some ''restore the .before-any-converter backup manually if needed''"
| "api_hint (ApiNotConnected _) = Some ''connect the agent before syncing''"
| "api_hint _ = None"

fun api_agent :: "ApiError \<Rightarrow> string option" where
  "api_agent (ApiAgentAbsent a) = Some a"
| "api_agent (ApiStashMissing a) = Some a"
| "api_agent (ApiUnknownAgent a) = Some a"
| "api_agent (ApiNotConnected a) = Some a"
| "api_agent _ = None"

definition opt_member :: "string \<Rightarrow> string option \<Rightarrow> (string \<times> value) list" where
  "opt_member name v = (case v of Some s \<Rightarrow> [(name, JString s)] | None \<Rightarrow> [])"

definition json_response :: "serde \<Rightarrow> nat \<Rightarrow> value \<Rightarrow> HttpResponse" where
  "json_response S status v = \<lparr>rs_status = status, rs_type = ''application/json'', rs_body = to_text S v\<rparr>"

definition agents_error_response ::
  "serde \<Rightarrow> nat \<Rightarrow> string \<Rightarrow> string \<Rightarrow> string option \<Rightarrow> string option \<Rightarrow> HttpResponse" where
  "agents_error_response S status code message hint agent =
     json_response S status
       (jobj [(''error'', jobj ([(''code'', JString code), (''message'', JString message)] @
                                 opt_member ''hint'' hint @ opt_member ''agent'' agent))])"

definition agents_api_error :: "serde \<Rightarrow> ApiError \<Rightarrow> HttpResponse" where
  "agents_api_error S e =
     agents_error_response S (api_status e) (api_code e) (api_message e) (api_hint e) (api_agent e)"

definition agents_auth_response :: "serde \<Rightarrow> AuthError \<Rightarrow> HttpResponse" where
  "agents_auth_response S e =
     agents_error_response S 401 ''authentication_error'' (auth_error_to_string e) None None"

section \<open>Who may call\<close>

text \<open>
  What the handlers share: the configuration, the home directory and the derived parser of the connect body, which
  drops everything but the model.
\<close>

record agents_api =
  aa_serde :: serde
  aa_env :: registry_env
  aa_config :: ServerConfig
  aa_home :: string
  aa_connect_body :: "string \<Rightarrow> string + string option"

definition read_auth :: "agents_api \<Rightarrow> string option \<Rightarrow> registry \<Rightarrow> HttpResponse option" where
  "read_auth A header r =
     (case validate_key (aa_env A) (server_api_key (server (aa_config A))) header r of
        Inr _ \<Rightarrow> None
      | Inl e \<Rightarrow> Some (agents_auth_response (aa_serde A) e))"

definition management_auth :: "agents_api \<Rightarrow> string option \<Rightarrow> HttpResponse option" where
  "management_auth A header =
     (case require_management_key (server_api_key (server (aa_config A))) header of
        Inr _ \<Rightarrow> None
      | Inl Missing \<Rightarrow>
          Some (agents_error_response (aa_serde A) 401 ''authentication_error'' ''missing management API key'' None None)
      | Inl Invalid \<Rightarrow>
          Some (agents_error_response (aa_serde A) 403 ''management_forbidden''
            ''agent keys cannot manage agents; use the server API key''
            (Some ''send the global server API key, not an agent key'') None))"

section \<open>Handlers\<close>

definition api_catalog :: "agents_api \<Rightarrow> CatalogModel list" where
  "api_catalog A = catalog_from_config (aa_config A)"

definition str_array :: "string list \<Rightarrow> value" where
  "str_array ss = JArray (map JString ss)"

definition status_row :: "AgentStatus \<Rightarrow> value" where
  "status_row row =
     jobj ([(''id'', JString (row_id row)), (''status'', JString (row_status row))] @
       opt_member ''model'' (row_model row) @ opt_member ''catalog_digest'' (row_digest row) @
       opt_member ''key_id'' (row_key_id row) @
       (case row_connected_at row of Some t \<Rightarrow> [(''connected_at'', json_i64 (word_of_int t))] | None \<Rightarrow> []))"

definition handle_agents_list ::
  "agents_api \<Rightarrow> (string \<Rightarrow> bool) \<Rightarrow> string option \<Rightarrow> registry \<Rightarrow> HttpResponse \<times> registry" where
  "handle_agents_list A installed header r =
     (case read_auth A header r of
        Some response \<Rightarrow> (response, r)
      | None \<Rightarrow>
          (let ((rows, ids), r) = reg_list_rows (aa_env A) installed (aa_home A) r in
           (json_response (aa_serde A) 200 (jobj [(''agents'', JArray (map status_row rows))]),
            reg_mark_drifted (aa_env A) ids r)))"

definition handle_agent_connect ::
  "agents_api \<Rightarrow> string \<Rightarrow> int \<Rightarrow> string \<Rightarrow> string option \<Rightarrow> string \<Rightarrow> registry \<Rightarrow> HttpResponse \<times> registry" where
  "handle_agent_connect A fresh now i header body r =
     (case management_auth A header of
        Some response \<Rightarrow> (response, r)
      | None \<Rightarrow>
          (case (if body = [] then Inr None else aa_connect_body A body) of
             Inl e \<Rightarrow>
               (agents_error_response (aa_serde A) 400 ''invalid_request'' (''invalid JSON body: '' @ e) None (Some i), r)
           | Inr model \<Rightarrow>
               (case reg_connect (aa_env A) (api_catalog A) fresh now i model (aa_home A) r of
                  (Inr report, r) \<Rightarrow>
                    (json_response (aa_serde A) 200
                       (jobj [(''agent'', JString i), (''status'', JString STATUS_CONNECTED),
                              (''files_written'', str_array (cr_files_written report))]), r)
                | (Inl e, r) \<Rightarrow> (agents_api_error (aa_serde A) e, r))))"

definition handle_agent_disconnect ::
  "agents_api \<Rightarrow> string \<Rightarrow> string option \<Rightarrow> registry \<Rightarrow> HttpResponse \<times> registry" where
  "handle_agent_disconnect A i header r =
     (case management_auth A header of
        Some response \<Rightarrow> (response, r)
      | None \<Rightarrow>
          (case reg_disconnect (aa_env A) i (aa_home A) r of
             (Inr report, r) \<Rightarrow>
               (json_response (aa_serde A) 200
                  (jobj [(''agent'', JString i), (''status'', JString STATUS_DISCONNECTED),
                         (''files_written'', str_array (dr_files_written report)),
                         (''kept_backup'', str_array (kept_backup report)),
                         (''warnings'', str_array (warnings report))]), r)
           | (Inl e, r) \<Rightarrow> (agents_api_error (aa_serde A) e, r)))"

definition handle_agent_sync :: "agents_api \<Rightarrow> string \<Rightarrow> string option \<Rightarrow> registry \<Rightarrow> HttpResponse \<times> registry" where
  "handle_agent_sync A i header r =
     (case management_auth A header of
        Some response \<Rightarrow> (response, r)
      | None \<Rightarrow>
          (case reg_sync (aa_env A) (api_catalog A) i (aa_home A) r of
             (Inr _, r) \<Rightarrow>
               (json_response (aa_serde A) 200
                  (jobj [(''agent'', JString i), (''status'', JString STATUS_CONNECTED),
                         (''catalog_digest'', JString (digest (api_catalog A)))]), r)
           | (Inl e, r) \<Rightarrow> (agents_api_error (aa_serde A) e, r)))"

definition handle_agent_rotate_key ::
  "agents_api \<Rightarrow> string \<Rightarrow> int \<Rightarrow> string \<Rightarrow> string option \<Rightarrow> registry \<Rightarrow> HttpResponse \<times> registry" where
  "handle_agent_rotate_key A fresh now i header r =
     (case management_auth A header of
        Some response \<Rightarrow> (response, r)
      | None \<Rightarrow>
          (case reg_rotate_key (aa_env A) (api_catalog A) fresh now i (aa_home A) r of
             (Inr key_id, r) \<Rightarrow>
               (json_response (aa_serde A) 200 (jobj [(''agent'', JString i), (''key_id'', JString key_id)]), r)
           | (Inl e, r) \<Rightarrow> (agents_api_error (aa_serde A) e, r)))"

text \<open>\<open>KeyInfo\<close> is serialised with a null for a key that was never used.\<close>

definition key_info_value :: "AgentKeyEntry \<Rightarrow> value" where
  "key_info_value e =
     jobj [(''id'', JString (ke_id e)), (''created_at'', json_i64 (word_of_int (ke_created_at e))),
           (''last_used'', case ke_last_used e of Some t \<Rightarrow> json_i64 (word_of_int t) | None \<Rightarrow> JNull)]"

definition handle_agent_keys :: "agents_api \<Rightarrow> string \<Rightarrow> string option \<Rightarrow> registry \<Rightarrow> HttpResponse \<times> registry" where
  "handle_agent_keys A i header r =
     (case read_auth A header r of
        Some response \<Rightarrow> (response, r)
      | None \<Rightarrow>
          (case spec_for (aa_env A) i of
             Inl _ \<Rightarrow> (agents_api_error (aa_serde A) (ApiUnknownAgent i), r)
           | Inr _ \<Rightarrow>
               (json_response (aa_serde A) 200
                  (jobj [(''agent'', JString i),
                         (''keys'', JArray (case fmlookup (rg_keys r) i of Some e \<Rightarrow> [key_info_value e] | None \<Rightarrow> []))]), r)))"

text \<open>A call with the values the handler takes from the system: the installed agents, a fresh key, the time.\<close>

datatype AgentCall =
    ListAgents "string \<Rightarrow> bool"
  | ConnectAgent string int string string
  | DisconnectAgent string
  | SyncAgent string
  | RotateAgent string int string
  | AgentKeys string

fun serve_agents :: "agents_api \<Rightarrow> AgentCall \<Rightarrow> string option \<Rightarrow> registry \<Rightarrow> HttpResponse \<times> registry" where
  "serve_agents A (ListAgents installed) header r = handle_agents_list A installed header r"
| "serve_agents A (ConnectAgent fresh now i body) header r = handle_agent_connect A fresh now i header body r"
| "serve_agents A (DisconnectAgent i) header r = handle_agent_disconnect A i header r"
| "serve_agents A (SyncAgent i) header r = handle_agent_sync A i header r"
| "serve_agents A (RotateAgent fresh now i) header r = handle_agent_rotate_key A fresh now i header r"
| "serve_agents A (AgentKeys i) header r = handle_agent_keys A i header r"

fun reads_only :: "AgentCall \<Rightarrow> bool" where
  "reads_only (ListAgents _) = True"
| "reads_only (AgentKeys _) = True"
| "reads_only _ = False"

section \<open>Agent keys read, the server key manages\<close>

lemma json_response_status [simp]: "rs_status (json_response S st v) = st"
  by (simp add: json_response_def)

lemma error_status [simp]: "rs_status (agents_error_response S st c m h a) = st"
  by (simp add: agents_error_response_def)

lemma management_auth_Some:
  assumes "server_api_key (server (aa_config A)) = Some g" and "header \<noteq> Some (bearer_header g)"
  shows "\<exists>response. management_auth A header = Some response \<and>
    rs_status response = (if bearer header = None then 401 else 403)"
  using assms bearer_Some [of header]
  by (cases "bearer header")
    (auto simp: management_auth_def require_management_key_def validate_client_key_def)

lemma managed_calls_refused:
  assumes "management_auth A header = Some response" and "\<not> reads_only c"
  shows "serve_agents A c header r = (response, r)"
  using assms
  by (cases c) (simp_all add: handle_agent_connect_def handle_agent_disconnect_def handle_agent_sync_def
      handle_agent_rotate_key_def)

lemma read_auth_Some:
  assumes "server_api_key (server (aa_config A)) = Some g"
    and "\<And>k. header = Some (bearer_header k) \<Longrightarrow> k \<noteq> g \<and> k \<notin> set (key_snapshot r)"
  shows "\<exists>response. read_auth A header r = Some response \<and> rs_status response = 401"
  using assms bearer_Some [of header]
  by (cases "bearer header")
    (auto simp: read_auth_def validate_key_def validate_client_keys_def or_else_def agents_auth_response_def)

lemma read_calls_refused:
  assumes "read_auth A header r = Some response" and "reads_only c"
  shows "serve_agents A c header r = (response, r)"
  using assms by (cases c) (simp_all add: handle_agents_list_def handle_agent_keys_def)

section \<open>Keys are not shown\<close>

definition rekey :: "(string \<Rightarrow> string) \<Rightarrow> registry \<Rightarrow> registry" where
  "rekey f r = r\<lparr>rg_keys := fmmap_keys (\<lambda>a e. e\<lparr>ke_key := f a\<rparr>) (rg_keys r)\<rparr>"

lemma key_info_value_rekey [simp]: "key_info_value (e\<lparr>ke_key := k\<rparr>) = key_info_value e"
  by (simp add: key_info_value_def)

lemma read_auth_server_key:
  assumes "server_api_key (server (aa_config A)) = Some g"
  shows "read_auth A (Some (bearer_header g)) r = None"
proof -
  have "bearer (Some (bearer_header g)) = Some g" by (simp add: bearer_Some)
  with assms show ?thesis by (simp add: read_auth_def validate_key_def validate_client_keys_def)
qed

lemma list_rekey:
  "fst (reg_list_rows env installed home (rekey f r)) = fst (reg_list_rows env installed home r)"
  by (simp add: reg_list_rows_def rekey_def split: prod.split)

lemma read_calls_hide_keys:
  assumes "server_api_key (server (aa_config A)) = Some g" and "reads_only c"
  shows "fst (serve_agents A c (Some (bearer_header g)) (rekey f r)) =
         fst (serve_agents A c (Some (bearer_header g)) r)"
proof (cases c)
  case (ListAgents installed)
  then show ?thesis
    using list_rekey [of "aa_env A" installed "aa_home A" f r] read_auth_server_key [OF assms(1)]
    by (auto simp: handle_agents_list_def split: prod.splits)
next
  case (AgentKeys i)
  then show ?thesis
    using read_auth_server_key [OF assms(1)]
    by (auto simp: handle_agent_keys_def rekey_def split: sum.split option.split)
qed (use assms(2) in simp_all)


definition sample_api :: agents_api where
  "sample_api =
     \<lparr>aa_serde = \<lparr>from_text = (\<lambda>_. Inl []), to_text = (\<lambda>_. ''{}'')\<rparr>, aa_env = sample_env,
      aa_config = sample_config, aa_home = ''/h'', aa_connect_body = (\<lambda>_. Inr None)\<rparr>"


end
