(* ===== verification/Lockfile.thy ===== *)
theory Lockfile
  imports Server_Prelude
begin

text \<open>
  The lock file between processes, \<open>crates/server/src/lockfile.rs\<close>, as a step relation: each contender opens, inspects,
  removes and releases in steps of its own, as the system calls are, and any of them may move next.  Times are seconds;
  the modification time of the lock file is the time of its creation.  The lemmas show that the lock is exclusive as
  long as no lock is taken over as abandoned, and that a take-over can give it to two contenders.
\<close>

section \<open>Contenders\<close>

definition DEFAULT_STALE_AFTER :: int where "DEFAULT_STALE_AFTER = 30"

definition DEFAULT_ACQUIRE_TIMEOUT :: int where "DEFAULT_ACQUIRE_TIMEOUT = 10"

text \<open>
  Between two attempts; after an open that found a file; after a look that found it abandoned; with the lock; after the
  look of the guard that is dropped; and the ends.  The number is the deadline, the text what the lock file must say.
\<close>

datatype contender =
    Contending int
  | Inspecting int
  | Removing int
  | Holding string
  | Dropping string
  | Released
  | TimedOut
  | LockFailed
  | Crashed

record lock_state =
  lk_file :: "(string \<times> int) option"
  lk_now :: int
  lk_tasks :: "contender list"
  lk_takeovers :: nat

definition move :: "nat \<Rightarrow> contender \<Rightarrow> lock_state \<Rightarrow> lock_state" where
  "move i t s = s\<lparr>lk_tasks := (lk_tasks s)[i := t]\<rparr>"

definition at_task :: "lock_state \<Rightarrow> nat \<Rightarrow> contender \<Rightarrow> bool" where
  "at_task s i t \<longleftrightarrow> i < length (lk_tasks s) \<and> lk_tasks s ! i = t"

definition abandoned :: "int \<Rightarrow> lock_state \<Rightarrow> bool" where
  "abandoned stale s = (case lk_file s of Some (_, at) \<Rightarrow> stale < lk_now s - at | None \<Rightarrow> False)"

inductive lock_step :: "int \<Rightarrow> lock_state \<Rightarrow> lock_state \<Rightarrow> bool" for stale where
  tick: "0 \<le> dt \<Longrightarrow> lock_step stale s (s\<lparr>lk_now := lk_now s + dt\<rparr>)"
| arrive: "lock_step stale s (s\<lparr>lk_tasks := lk_tasks s @ [Contending (lk_now s + timeout)]\<rparr>)"
| open_new: "at_task s i (Contending dl) \<Longrightarrow> lk_file s = None \<Longrightarrow>
    lock_step stale s (move i (Holding payload) (s\<lparr>lk_file := Some (payload, lk_now s)\<rparr>))"
| open_exists: "at_task s i (Contending dl) \<Longrightarrow> lk_file s \<noteq> None \<Longrightarrow> lock_step stale s (move i (Inspecting dl) s)"
| io_error: "at_task s i (Contending dl) \<Longrightarrow> lock_step stale s (move i LockFailed s)"
| see_abandoned: "at_task s i (Inspecting dl) \<Longrightarrow> abandoned stale s \<Longrightarrow> lock_step stale s (move i (Removing dl) s)"
| see_busy: "at_task s i (Inspecting dl) \<Longrightarrow> \<not> abandoned stale s \<Longrightarrow> lk_now s < dl \<Longrightarrow>
    lock_step stale s (move i (Contending dl) s)"
| give_up: "at_task s i (Inspecting dl) \<Longrightarrow> \<not> abandoned stale s \<Longrightarrow> dl \<le> lk_now s \<Longrightarrow>
    lock_step stale s (move i TimedOut s)"
| take_over: "at_task s i (Removing dl) \<Longrightarrow>
    lock_step stale s (move i (Contending dl) (s\<lparr>lk_file := None, lk_takeovers := Suc (lk_takeovers s)\<rparr>))"
| drop_own: "at_task s i (Holding p) \<Longrightarrow> lk_file s = Some (p, at) \<Longrightarrow> lock_step stale s (move i (Dropping p) s)"
| drop_lost: "at_task s i (Holding p) \<Longrightarrow> (\<And>at. lk_file s \<noteq> Some (p, at)) \<Longrightarrow> lock_step stale s (move i Released s)"
| unlock: "at_task s i (Dropping p) \<Longrightarrow> lock_step stale s (move i Released (s\<lparr>lk_file := None\<rparr>))"
| crash: "at_task s i t \<Longrightarrow> lock_step stale s (move i Crashed s)"

inductive_cases lock_stepE: "lock_step stale s s'"

definition lock_init :: lock_state where
  "lock_init = \<lparr>lk_file = None, lk_now = 0, lk_tasks = [], lk_takeovers = 0\<rparr>"

section \<open>Without a take-over the lock is exclusive\<close>

fun holds :: "contender \<Rightarrow> string option" where
  "holds (Holding p) = Some p"
| "holds (Dropping p) = Some p"
| "holds _ = None"

definition holder :: "lock_state \<Rightarrow> nat \<Rightarrow> string \<Rightarrow> bool" where
  "holder s i p \<longleftrightarrow> i < length (lk_tasks s) \<and> holds (lk_tasks s ! i) = Some p"

definition lock_inv :: "lock_state \<Rightarrow> bool" where
  "lock_inv s \<longleftrightarrow>
     (\<forall>i p. holder s i p \<longrightarrow> (\<exists>at. lk_file s = Some (p, at))) \<and>
     (\<forall>i j p q. holder s i p \<longrightarrow> holder s j q \<longrightarrow> i = j)"

lemma lock_invD:
  assumes "lock_inv s" and "holder s i p"
  shows "\<exists>at. lk_file s = Some (p, at)" and "holder s j q \<Longrightarrow> i = j"
  using assms unfolding lock_inv_def by blast+

lemma holder_move:
  "i < length (lk_tasks s) \<Longrightarrow> holder (move i t s) j p \<longleftrightarrow> (if i = j then holds t = Some p else holder s j p)"
  by (auto simp: holder_def move_def nth_list_update)

lemma holder_file [simp]: "holder (s\<lparr>lk_file := f\<rparr>) i p = holder s i p"
  by (simp add: holder_def)

lemma move_file [simp]: "lk_file (move i t s) = lk_file s" "lk_takeovers (move i t s) = lk_takeovers s"
  by (simp_all add: move_def)

lemma at_task_index: "at_task s i t \<Longrightarrow> i < length (lk_tasks s)"
  by (simp add: at_task_def)

lemma at_task_holder: "at_task s i t \<Longrightarrow> holds t = Some p \<Longrightarrow> holder s i p"
  by (simp add: at_task_def holder_def)

text \<open>A task that does not hold the lock before or after the step changes nothing of the invariant.\<close>

lemma lock_inv_quiet: "lock_inv s \<Longrightarrow> i < length (lk_tasks s) \<Longrightarrow> holds t = None \<Longrightarrow> lock_inv (move i t s)"
  by (auto simp: lock_inv_def holder_move)

lemma lock_inv_release:
  assumes "lock_inv s" and "at_task s i (Dropping p)"
  shows "lock_inv (move i Released (s\<lparr>lk_file := None\<rparr>))"
proof -
  have "\<not> holder s j q" if "j \<noteq> i" for j q
    using lock_invD(2) [OF assms(1) at_task_holder [OF assms(2)]] that by auto
  then show ?thesis using at_task_index [OF assms(2)] by (auto simp: lock_inv_def holder_move)
qed

lemma lock_inv_open:
  assumes "lock_inv s" and "at_task s i (Contending dl)" and "lk_file s = None"
  shows "lock_inv (move i (Holding payload) (s\<lparr>lk_file := Some (payload, lk_now s)\<rparr>))"
proof -
  have "\<not> holder s j q" for j q using assms(1,3) by (auto simp: lock_inv_def)
  then show ?thesis using at_task_index [OF assms(2)] by (auto simp: lock_inv_def holder_move)
qed

lemma lock_inv_drop:
  assumes "lock_inv s" and "at_task s i (Holding p)"
  shows "lock_inv (move i (Dropping p) s)"
proof -
  have "holder (move i (Dropping p) s) j q \<longleftrightarrow> holder s j q" for j q
    using assms(2) by (auto simp: at_task_def holder_def move_def nth_list_update)
  then show ?thesis using assms(1) by (simp add: lock_inv_def)
qed

lemma lock_inv_arrive: "lock_inv s \<Longrightarrow> lock_inv (s\<lparr>lk_tasks := lk_tasks s @ [Contending dl]\<rparr>)"
proof -
  have "holder (s\<lparr>lk_tasks := lk_tasks s @ [Contending dl]\<rparr>) i p \<longleftrightarrow> holder s i p" for i p
    by (auto simp: holder_def nth_append)
  then show "lock_inv s \<Longrightarrow> ?thesis" by (simp add: lock_inv_def)
qed

lemma lock_step_inv:
  assumes "lock_step stale s s'" and "lock_inv s" and "lk_takeovers s' = 0"
  shows "lock_inv s'"
  using assms(1)
proof (cases rule: lock_step.cases)
  case (tick dt)
  then show ?thesis using assms(2) by (simp add: lock_inv_def holder_def)
next
  case (take_over i dl)
  then show ?thesis using assms(3) by simp
qed (use assms(2) in \<open>auto dest: at_task_index intro: lock_inv_arrive lock_inv_open lock_inv_quiet lock_inv_drop
      lock_inv_release\<close>)

lemma takeovers_grow: "lock_step stale s s' \<Longrightarrow> lk_takeovers s \<le> lk_takeovers s'"
  by (cases rule: lock_step.cases) (auto simp: move_def)

lemma lock_reachable_inv:
  assumes "(lock_step stale)\<^sup>*\<^sup>* lock_init s" and "lk_takeovers s = 0"
  shows "lock_inv s"
  using assms
proof (induction rule: rtranclp_induct)
  case base
  then show ?case by (simp add: lock_inv_def lock_init_def holder_def)
next
  case (step s s')
  then have "lk_takeovers s = 0" using takeovers_grow [OF step.hyps(2)] by simp
  with step lock_step_inv show ?case by blast
qed

text \<open>C24: as long as no lock file has been taken over as abandoned, at most one contender of all processes holds the
  lock or is about to release it, and the lock file names that contender, whatever the contenders do, in whatever order,
  however time passes and whoever crashes.\<close>

theorem lock_exclusive:
  assumes "(lock_step stale)\<^sup>*\<^sup>* lock_init s" and "lk_takeovers s = 0"
    and "holder s i p" and "holder s j q"
  shows "i = j \<and> (\<exists>at. lk_file s = Some (p, at))"
  using lock_invD [OF lock_reachable_inv [OF assms(1,2)] assms(3)] assms(4) by blast

text \<open>Concrete states: the file, the time, the contenders and the number of take-overs.\<close>

abbreviation lock_at :: "(string \<times> int) option \<Rightarrow> int \<Rightarrow> contender list \<Rightarrow> nat \<Rightarrow> lock_state" where
  "lock_at f n ts k \<equiv> \<lparr>lk_file = f, lk_now = n, lk_tasks = ts, lk_takeovers = k\<rparr>"

lemma three_arrive:
  "(lock_step 30)\<^sup>*\<^sup>* lock_init (lock_at None 0 [Contending 10, Contending 10, Contending 10] 0)"
proof -
  have "lock_step 30 lock_init (lock_at None 0 [Contending 10] 0)"
    using lock_step.arrive [of 30 lock_init 10] by (simp add: lock_init_def)
  moreover have "lock_step 30 (lock_at None 0 [Contending 10] 0) (lock_at None 0 [Contending 10, Contending 10] 0)"
    using lock_step.arrive [of 30 "lock_at None 0 [Contending 10] 0" 10] by simp
  moreover have "lock_step 30 (lock_at None 0 [Contending 10, Contending 10] 0)
      (lock_at None 0 [Contending 10, Contending 10, Contending 10] 0)"
    using lock_step.arrive [of 30 "lock_at None 0 [Contending 10, Contending 10] 0" 10] by simp
  ultimately show ?thesis by (meson converse_rtranclp_into_rtranclp rtranclp.rtrancl_refl)
qed

lemma first_opens:
  "lock_step 30 (lock_at None 0 [Contending 10, Contending 10, Contending 10] 0)
     (lock_at (Some (''a'', 0)) 0 [Holding ''a'', Contending 10, Contending 10] 0)"
  using lock_step.open_new [of "lock_at None 0 [Contending 10, Contending 10, Contending 10] 0" 0 10 30 "''a''"]
  by (simp add: move_def at_task_def)

theorem lock_exclusive_witness:
  "(0 :: nat) = 0 \<and> (\<exists>at. (Some (''a'', 0)) = Some (''a'', at :: int))"
  using lock_exclusive [OF rtranclp.rtrancl_into_rtrancl [OF three_arrive first_opens], of 0 "''a''" 0 "''a''"]
  by (simp add: holder_def)

section \<open>The race of a take-over\<close>

lemma two_see_abandoned:
  "(lock_step 30)\<^sup>*\<^sup>* lock_init (lock_at (Some (''a'', 0)) 31 [Crashed, Removing 10, Removing 10] 0)"
proof -
  let ?S = "lock_step 30"
  define f where "f = (\<lambda>p n ts k. lock_at (Some (p, n)) 31 ts k)"
  have "?S (lock_at (Some (''a'', 0)) 0 [Holding ''a'', Contending 10, Contending 10] 0)
      (lock_at (Some (''a'', 0)) 0 [Crashed, Contending 10, Contending 10] 0)"
    using lock_step.crash [of "lock_at (Some (''a'', 0)) 0 [Holding ''a'', Contending 10, Contending 10] 0" 0 "Holding ''a''" 30]
    by (simp add: move_def at_task_def)
  moreover have "?S (lock_at (Some (''a'', 0)) 0 [Crashed, Contending 10, Contending 10] 0)
      (f ''a'' 0 [Crashed, Contending 10, Contending 10] 0)"
    using lock_step.tick [of 31 30 "lock_at (Some (''a'', 0)) 0 [Crashed, Contending 10, Contending 10] 0"]
    by (simp add: f_def)
  moreover have "?S (f ''a'' 0 [Crashed, Contending 10, Contending 10] 0)
      (f ''a'' 0 [Crashed, Inspecting 10, Contending 10] 0)"
    using lock_step.open_exists [of "f ''a'' 0 [Crashed, Contending 10, Contending 10] 0" 1 10 30]
    by (simp add: f_def move_def at_task_def)
  moreover have "?S (f ''a'' 0 [Crashed, Inspecting 10, Contending 10] 0)
      (f ''a'' 0 [Crashed, Inspecting 10, Inspecting 10] 0)"
    using lock_step.open_exists [of "f ''a'' 0 [Crashed, Inspecting 10, Contending 10] 0" 2 10 30]
    by (simp add: f_def move_def at_task_def eval_nat_numeral)
  moreover have "?S (f ''a'' 0 [Crashed, Inspecting 10, Inspecting 10] 0)
      (f ''a'' 0 [Crashed, Removing 10, Inspecting 10] 0)"
    using lock_step.see_abandoned [of "f ''a'' 0 [Crashed, Inspecting 10, Inspecting 10] 0" 1 10 30]
    by (simp add: f_def move_def at_task_def abandoned_def)
  moreover have "?S (f ''a'' 0 [Crashed, Removing 10, Inspecting 10] 0)
      (f ''a'' 0 [Crashed, Removing 10, Removing 10] 0)"
    using lock_step.see_abandoned [of "f ''a'' 0 [Crashed, Removing 10, Inspecting 10] 0" 2 10 30]
    by (simp add: f_def move_def at_task_def abandoned_def eval_nat_numeral)
  ultimately have "?S\<^sup>*\<^sup>* (lock_at (Some (''a'', 0)) 0 [Holding ''a'', Contending 10, Contending 10] 0)
      (f ''a'' 0 [Crashed, Removing 10, Removing 10] 0)"
    by (meson converse_rtranclp_into_rtranclp rtranclp.rtrancl_refl)
  with three_arrive first_opens show ?thesis
    unfolding f_def by (meson rtranclp.rtrancl_into_rtrancl rtranclp_trans)
qed

text \<open>
  The look at the age of the file and its removal are two steps: of two contenders that have both seen an abandoned
  file, the second removes the file the first has meanwhile created, and both hold the lock.
\<close>

lemma lock_takeover_race:
  "\<exists>s. (lock_step 30)\<^sup>*\<^sup>* lock_init s \<and> holder s 1 ''b'' \<and> holder s 2 ''c''"
proof -
  let ?S = "lock_step 30"
  define f where "f = (\<lambda>p n ts k. lock_at (Some (p, n)) 31 ts k)"
  have "?S (f ''a'' 0 [Crashed, Removing 10, Removing 10] 0)
      (lock_at None 31 [Crashed, Contending 10, Removing 10] 1)"
    using lock_step.take_over [of "f ''a'' 0 [Crashed, Removing 10, Removing 10] 0" 1 10 30]
    by (simp add: f_def move_def at_task_def)
  moreover have "?S (lock_at None 31 [Crashed, Contending 10, Removing 10] 1)
      (f ''b'' 31 [Crashed, Holding ''b'', Removing 10] 1)"
    using lock_step.open_new [of "lock_at None 31 [Crashed, Contending 10, Removing 10] 1" 1 10 30 "''b''"]
    by (simp add: f_def move_def at_task_def)
  moreover have "?S (f ''b'' 31 [Crashed, Holding ''b'', Removing 10] 1)
      (lock_at None 31 [Crashed, Holding ''b'', Contending 10] 2)"
    using lock_step.take_over [of "f ''b'' 31 [Crashed, Holding ''b'', Removing 10] 1" 2 10 30]
    by (simp add: f_def move_def at_task_def eval_nat_numeral)
  moreover have "?S (lock_at None 31 [Crashed, Holding ''b'', Contending 10] 2)
      (f ''c'' 31 [Crashed, Holding ''b'', Holding ''c''] 2)"
    using lock_step.open_new [of "lock_at None 31 [Crashed, Holding ''b'', Contending 10] 2" 2 10 30 "''c''"]
    by (simp add: f_def move_def at_task_def eval_nat_numeral)
  ultimately have "?S\<^sup>*\<^sup>* (f ''a'' 0 [Crashed, Removing 10, Removing 10] 0) (f ''c'' 31 [Crashed, Holding ''b'', Holding ''c''] 2)"
    by (meson converse_rtranclp_into_rtranclp rtranclp.rtrancl_refl)
  with two_see_abandoned have "?S\<^sup>*\<^sup>* lock_init (f ''c'' 31 [Crashed, Holding ''b'', Holding ''c''] 2)"
    unfolding f_def by (rule rtranclp_trans)
  moreover have "holder (f ''c'' 31 [Crashed, Holding ''b'', Holding ''c''] 2) 1 ''b''"
    "holder (f ''c'' 31 [Crashed, Holding ''b'', Holding ''c''] 2) 2 ''c''"
    by (simp_all add: holder_def f_def)
  ultimately show ?thesis by blast
qed

end
