(* ===== verification/Secrets.thy ===== *)
theory Secrets
  imports Agent_Store
begin

text \<open>
  Credentials at rest: \<open>Credential\<close> of \<open>crates/server/src/credentials/mod.rs\<close>, \<open>FileSecretStore\<close> of
  \<open>credentials/store.rs\<close> and the side file of \<open>credentials/siwc_store.rs\<close>, on the disk of \<open>Agent_Store\<close>.  A private
  write replaces the file or fails and changes nothing; the temporary file, the permissions and the directories are
  not part of the disk.  A copy that fails leaves its target as it was.  The lemmas show that the store implements a
  map and survives the corruption of its file.
\<close>

section \<open>Credentials\<close>

record SiwcMeta =
  client_id :: string
  host_id :: string
  siwc_id_token :: string
  siwc_scopes :: "string list"

record StoredOAuth =
  so_provider :: string
  so_account :: string
  so_access :: string
  so_refresh :: "string option"
  so_expires :: "int option"

datatype Credential = ApiKeyCred string | OAuthCred StoredOAuth "SiwcMeta option"

type_synonym DiskMap = "(string, Credential) fmap"

datatype SecretStoreError = StoreIo io_error | StoreSerialize | StoreNotFound string

section \<open>The store file\<close>

definition write_private :: "string \<Rightarrow> string \<Rightarrow> disk \<Rightarrow> (io_error + unit) \<times> disk" where
  "write_private path bytes d = fs_replace path bytes d"

definition secrets_backup :: "string \<Rightarrow> string" where
  "secrets_backup path = with_suffix path ''.bak''"

definition read_file :: "'a store_json \<Rightarrow> string \<Rightarrow> disk \<Rightarrow> (SecretStoreError + 'a option) \<times> disk" where
  "read_file j path d =
     (case fs_read path d of
        (Inr bytes, d) \<Rightarrow> ((case from_slice j bytes of Some m \<Rightarrow> Inr (Some m) | None \<Rightarrow> Inl StoreSerialize), d)
      | (Inl IoNotFound, d) \<Rightarrow> (Inr None, d)
      | (Inl e, d) \<Rightarrow> (Inl (StoreIo e), d))"

definition secrets_load :: "DiskMap store_json \<Rightarrow> string \<Rightarrow> disk \<Rightarrow> (SecretStoreError + DiskMap) \<times> disk" where
  "secrets_load j path d =
     (case read_file j path d of
        (Inr (Some m), d) \<Rightarrow> (Inr m, d)
      | (Inr None, d) \<Rightarrow> (Inr fmempty, d)
      | (Inl _, d) \<Rightarrow>
          (case read_file j (secrets_backup path) d of
             (Inr (Some m), d) \<Rightarrow> (Inr m, d)
           | (Inr None, d) \<Rightarrow> (Inl (StoreNotFound (secrets_backup path)), d)
           | (Inl e, d) \<Rightarrow> (Inl e, d)))"

definition fs_copy :: "string \<Rightarrow> string \<Rightarrow> disk \<Rightarrow> disk" where
  "fs_copy src dst d =
     (case fs_read src d of
        (Inr bytes, d) \<Rightarrow> snd (fs_replace dst bytes d)
      | (Inl _, d) \<Rightarrow> d)"

definition secrets_save :: "DiskMap store_json \<Rightarrow> string \<Rightarrow> DiskMap \<Rightarrow> disk \<Rightarrow> (SecretStoreError + unit) \<times> disk" where
  "secrets_save j path m d =
     (case write_private path (to_vec_pretty j m) d of
        (Inl e, d) \<Rightarrow> (Inl (StoreIo e), d)
      | (Inr _, d) \<Rightarrow> (Inr (), if exists_file d path then fs_copy path (secrets_backup path) d else d))"

definition secrets_put ::
  "DiskMap store_json \<Rightarrow> string \<Rightarrow> string \<Rightarrow> Credential \<Rightarrow> disk \<Rightarrow> (SecretStoreError + unit) \<times> disk" where
  "secrets_put j path account_id cred d =
     (case secrets_load j path d of
        (Inl e, d) \<Rightarrow> (Inl e, d)
      | (Inr m, d) \<Rightarrow> secrets_save j path (fmupd account_id cred m) d)"

definition secrets_get ::
  "DiskMap store_json \<Rightarrow> string \<Rightarrow> string \<Rightarrow> disk \<Rightarrow> (SecretStoreError + Credential option) \<times> disk" where
  "secrets_get j path account_id d =
     (case secrets_load j path d of
        (Inl e, d) \<Rightarrow> (Inl e, d)
      | (Inr m, d) \<Rightarrow> (Inr (fmlookup m account_id), d))"

definition secrets_delete :: "DiskMap store_json \<Rightarrow> string \<Rightarrow> string \<Rightarrow> disk \<Rightarrow> (SecretStoreError + unit) \<times> disk" where
  "secrets_delete j path account_id d =
     (case secrets_load j path d of
        (Inl e, d) \<Rightarrow> (Inl e, d)
      | (Inr m, d) \<Rightarrow>
          if fmlookup m account_id \<noteq> None then secrets_save j path (fmdrop account_id m) d else (Inr (), d))"

definition secrets_list :: "DiskMap store_json \<Rightarrow> string \<Rightarrow> disk \<Rightarrow> (SecretStoreError + string list) \<times> disk" where
  "secrets_list j path d =
     (case secrets_load j path d of
        (Inl e, d) \<Rightarrow> (Inl e, d)
      | (Inr m, d) \<Rightarrow> (Inr (map fst (entries m)), d))"

section \<open>The side file of ChatGPT sign-ins\<close>

type_synonym siwc_map = "(string, SiwcMeta) fmap"

definition siwc_load :: "siwc_map store_json \<Rightarrow> string \<Rightarrow> disk \<Rightarrow> siwc_map \<times> disk" where
  "siwc_load j path d =
     (case fs_read path d of
        (Inr bytes, d) \<Rightarrow> (unwrap_or fmempty (from_slice j bytes), d)
      | (Inl _, d) \<Rightarrow> (fmempty, d))"

definition siwc_get :: "siwc_map store_json \<Rightarrow> string \<Rightarrow> string \<Rightarrow> disk \<Rightarrow> SiwcMeta option \<times> disk" where
  "siwc_get j path account_id d = (let (m, d) = siwc_load j path d in (fmlookup m account_id, d))"

definition siwc_put :: "siwc_map store_json \<Rightarrow> string \<Rightarrow> string \<Rightarrow> SiwcMeta \<Rightarrow> disk \<Rightarrow> (io_error + unit) \<times> disk" where
  "siwc_put j path account_id meta d =
     (let (m, d) = siwc_load j path d in write_private path (to_vec_pretty j (fmupd account_id meta m)) d)"

definition siwc_remove :: "siwc_map store_json \<Rightarrow> string \<Rightarrow> string \<Rightarrow> disk \<Rightarrow> (io_error + unit) \<times> disk" where
  "siwc_remove j path account_id d =
     (let (m, d) = siwc_load j path d in
      if fmlookup m account_id = None then (Inr (), d)
      else write_private path (to_vec_pretty j (fmdrop account_id m)) d)"

section \<open>The store is a map\<close>

text \<open>The map a store file stands for; a missing file is the empty map.\<close>

definition secret_map :: "DiskMap store_json \<Rightarrow> string \<Rightarrow> disk \<Rightarrow> DiskMap option" where
  "secret_map j path d = (case look d path of None \<Rightarrow> Some fmempty | Some bytes \<Rightarrow> from_slice j bytes)"

definition reads_back :: "'a store_json \<Rightarrow> 'a \<Rightarrow> bool" where
  "reads_back j m \<longleftrightarrow> from_slice j (to_vec_pretty j m) = Some m"

lemma backup_other [simp]: "secrets_backup path \<noteq> path" "path \<noteq> secrets_backup path"
  by (simp_all add: secrets_backup_def with_suffix_def)

lemma fs_read_calm: "faults d = [] \<Longrightarrow> fs_read p d = (ok_or IoNotFound (look d p), d)"
  by (simp add: fs_read_def next_fault_def)

lemma fs_replace_calm: "faults d = [] \<Longrightarrow> fs_replace p b d = (Inr (), d\<lparr>files := fmupd p b (files d)\<rparr>)"
  by (simp add: fs_replace_def next_fault_def)

lemma secrets_load_calm:
  "faults d = [] \<Longrightarrow> secret_map j path d = Some m \<Longrightarrow> secrets_load j path d = (Inr m, d)"
  by (auto simp: secrets_load_def read_file_def fs_read_calm secret_map_def split: option.splits)

lemma secrets_save_calm:
  "faults d = [] \<Longrightarrow>
   secrets_save j path m d =
     (Inr (), d\<lparr>files := fmupd (secrets_backup path) (to_vec_pretty j m) (fmupd path (to_vec_pretty j m) (files d))\<rparr>)"
  by (simp add: secrets_save_def write_private_def fs_replace_calm exists_file_def fs_copy_def fs_read_calm)

lemma secrets_put_calm:
  assumes "faults d = []" and "secret_map j path d = Some m"
  shows "secrets_put j path a c d = secrets_save j path (fmupd a c m) d"
  by (simp add: secrets_put_def secrets_load_calm [OF assms])

text \<open>
  The interface the account resolver relies on: while no I/O fails and the codec reads back the maps that are written, a
  stored map answers as a map.
\<close>

locale credential_store =
  fixes holds_map :: "'s \<Rightarrow> (string, 'c) fmap \<Rightarrow> bool"
    and coded :: "(string, 'c) fmap \<Rightarrow> bool"
    and get :: "string \<Rightarrow> 's \<Rightarrow> ('e + 'c option) \<times> 's"
    and put :: "string \<Rightarrow> 'c \<Rightarrow> 's \<Rightarrow> ('e + unit) \<times> 's"
    and del :: "string \<Rightarrow> 's \<Rightarrow> ('e + unit) \<times> 's"
  assumes get_map: "holds_map s m \<Longrightarrow> get k s = (Inr (fmlookup m k), s)"
    and put_map: "holds_map s m \<Longrightarrow> coded (fmupd k c m) \<Longrightarrow> \<exists>s'. put k c s = (Inr (), s') \<and> holds_map s' (fmupd k c m)"
    and del_map: "holds_map s m \<Longrightarrow> coded (fmdrop k m) \<Longrightarrow> \<exists>s'. del k s = (Inr (), s') \<and> holds_map s' (fmdrop k m)"
begin

lemma get_put:
  "holds_map s m \<Longrightarrow> coded (fmupd k c m) \<Longrightarrow> put k c s = (r, s') \<Longrightarrow>
   fst (get k' s') = Inr (if k' = k then Some c else fmlookup m k')"
  using put_map [of s m k c] get_map by fastforce

lemma get_del:
  "holds_map s m \<Longrightarrow> coded (fmdrop k m) \<Longrightarrow> del k s = (r, s') \<Longrightarrow>
   fst (get k' s') = Inr (if k' = k then None else fmlookup m k')"
  using del_map [of s m k] get_map by fastforce

end

definition store_holds :: "DiskMap store_json \<Rightarrow> string \<Rightarrow> disk \<Rightarrow> DiskMap \<Rightarrow> bool" where
  "store_holds j path d m \<longleftrightarrow> faults d = [] \<and> secret_map j path d = Some m"

lemma store_holds_saved:
  "store_holds j path d m \<Longrightarrow> reads_back j m' \<Longrightarrow>
   \<exists>d'. secrets_save j path m' d = (Inr (), d') \<and> store_holds j path d' m'"
  by (simp add: store_holds_def secrets_save_calm secret_map_def reads_back_def)

interpretation secrets: credential_store "store_holds j path" "reads_back j" "secrets_get j path" "secrets_put j path"
    "secrets_delete j path" for j path
proof
  fix d m k c
  assume h: "store_holds j path d m"
  then have l: "secrets_load j path d = (Inr m, d)" by (simp add: store_holds_def secrets_load_calm)
  show "secrets_get j path k d = (Inr (fmlookup m k), d)" by (simp add: secrets_get_def l)
  show "\<exists>d'. secrets_put j path k c d = (Inr (), d') \<and> store_holds j path d' (fmupd k c m)"
    if "reads_back j (fmupd k c m)"
    using store_holds_saved [OF h that] by (simp add: secrets_put_def l)
  show "\<exists>d'. secrets_delete j path k d = (Inr (), d') \<and> store_holds j path d' (fmdrop k m)"
    if "reads_back j (fmdrop k m)"
  proof (cases "fmlookup m k")
    case None
    then have "fmdrop k m = m" by (intro fmap_ext) auto
    with None h show ?thesis by (simp add: secrets_delete_def l)
  next
    case (Some x)
    with store_holds_saved [OF h that] show ?thesis by (simp add: secrets_delete_def l)
  qed
qed

section \<open>Corruption and failures\<close>

text \<open>A save replaces the file or leaves every file as it was, whatever fails.\<close>

lemma secrets_save_atomic:
  assumes "secrets_save j path m d = (r, d')"
  shows "r = Inr () \<and> look d' path = Some (to_vec_pretty j m) \<or> (\<exists>e. r = Inl e) \<and> files d' = files d"
proof -
  obtain w d1 where w: "fs_replace path (to_vec_pretty j m) d = (w, d1)" by fastforce
  have c: "look (fs_copy path (secrets_backup path) d1) path = look d1 path" for d1
  proof -
    obtain r2 d2 where r: "fs_read path d1 = (r2, d2)" by fastforce
    have "look (snd (fs_replace (secrets_backup path) bytes d2)) path = look d2 path" for bytes
      by (cases "fs_replace (secrets_backup path) bytes d2") (auto dest: fs_replaceD)
    with fs_readD [OF r] show ?thesis by (simp add: fs_copy_def r split: sum.split)
  qed
  show ?thesis
  proof (cases w)
    case (Inl e)
    then show ?thesis using assms w fs_replaceD [OF w] by (auto simp: secrets_save_def write_private_def)
  next
    case (Inr u)
    then show ?thesis using assms w fs_replaceD [OF w] c [of d1]
      by (auto simp: secrets_save_def write_private_def split: if_splits)
  qed
qed

text \<open>C23: the credential store is durable: on a store that holds a map, a put that meets no I/O error succeeds, every
  account reads back what it had and the new one what was put, and all of them still do after the store file has been
  overwritten with anything that does not parse, because the backup is the last committed state.\<close>

theorem secret_store_durable:
  assumes "store_holds j path d m" and "reads_back j (fmupd k c m)" and "secrets_put j path k c d = (r, d')"
  shows "r = Inr () \<and>
    (\<forall>k'. fst (secrets_get j path k' d') = Inr (if k' = k then Some c else fmlookup m k')) \<and>
    (\<forall>junk k'. from_slice j junk = None \<longrightarrow>
       fst (secrets_get j path k' (d'\<lparr>files := fmupd path junk (files d')\<rparr>)) =
         Inr (if k' = k then Some c else fmlookup m k'))"
proof -
  have h: "reads_back j (fmupd k c m)" "faults d = []" "secret_map j path d = Some m"
    using assms(1,2) by (simp_all add: store_holds_def)
  have s: "r = Inr ()" "d' = d\<lparr>files := fmupd (secrets_backup path) (to_vec_pretty j (fmupd k c m))
      (fmupd path (to_vec_pretty j (fmupd k c m)) (files d))\<rparr>"
    using assms(3) secrets_put_calm [OF h(2,3)] secrets_save_calm [OF h(2)] by simp_all
  have "secrets_load j path (d'\<lparr>files := fmupd path junk (files d')\<rparr>) =
      (Inr (fmupd k c m), d'\<lparr>files := fmupd path junk (files d')\<rparr>)" if "from_slice j junk = None" for junk
    using that h by (simp add: secrets_load_def read_file_def fs_read_calm s reads_back_def)
  then show ?thesis using s(1) secrets.get_put [OF assms] by (simp add: secrets_get_def)
qed

definition sample_secrets :: "DiskMap store_json" where
  "sample_secrets =
     \<lparr>from_slice = (\<lambda>b. if b = ''{a}'' then Some (fmupd ''a'' (ApiKeyCred ''k'') fmempty) else None),
      to_vec_pretty = (\<lambda>_. ''{a}'')\<rparr>"

theorem secret_store_durable_witness:
  "fst (secrets_get sample_secrets ''s'' ''a''
     (let d = snd (secrets_put sample_secrets ''s'' ''a'' (ApiKeyCred ''k'') \<lparr>files = fmempty, faults = [], clock = 0\<rparr>) in
      d\<lparr>files := fmupd ''s'' ''garbage'' (files d)\<rparr>)) = Inr (Some (ApiKeyCred ''k''))"
proof -
  have "store_holds sample_secrets ''s'' \<lparr>files = fmempty, faults = [], clock = 0\<rparr> fmempty"
    by (simp add: store_holds_def secret_map_def)
  moreover have "reads_back sample_secrets (fmupd ''a'' (ApiKeyCred ''k'') fmempty)"
    by (simp add: reads_back_def sample_secrets_def)
  moreover have "from_slice sample_secrets ''garbage'' = None" by (simp add: sample_secrets_def)
  ultimately show ?thesis
    using secret_store_durable [of sample_secrets "''s''" _ fmempty "''a''" "ApiKeyCred ''k''", OF _ _ prod.collapse [symmetric]]
    by (simp add: Let_def)
qed

text \<open>
  Two processes that load before either saves: the account the first one added is gone.  The mutex of the store is one
  process's own.
\<close>

lemma two_processes_lose_update:
  assumes "store_holds j path d m" and "secrets_load j path d = (Inr m1, d)" and "secrets_load j path d = (Inr m2, d)"
    and "secrets_save j path (fmupd a ca m1) d = (r1, d1)" and "secrets_save j path (fmupd b cb m2) d1 = (r2, d2)"
    and "a \<noteq> b" and "fmlookup m a = None" and "reads_back j (fmupd a ca m)" and "reads_back j (fmupd b cb m)"
  shows "r1 = Inr () \<and> r2 = Inr () \<and> fst (secrets_get j path a d2) = Inr None"
proof -
  have "m1 = m" "m2 = m" using assms(1-3) by (simp_all add: store_holds_def secrets_load_calm)
  moreover obtain d1' where "secrets_save j path (fmupd a ca m) d = (Inr (), d1')" "store_holds j path d1' (fmupd a ca m)"
    using store_holds_saved [OF assms(1,8)] by blast
  moreover then obtain d2' where "secrets_save j path (fmupd b cb m) d1' = (Inr (), d2')"
    "store_holds j path d2' (fmupd b cb m)"
    using store_holds_saved assms(9) by blast
  ultimately show ?thesis using assms(4-7) secrets.get_map by fastforce
qed

text \<open>
  Any error of the read makes the store fall back to its backup, also one that passes: a put then writes the older map
  back over the newer file.
\<close>

lemma passing_error_reverts:
  assumes "look d path = Some new" and "look d (secrets_backup path) = Some old" and "from_slice j old = Some m"
    and "faults d = [True]"
  shows "look (snd (secrets_put j path a c d)) path = Some (to_vec_pretty j (fmupd a c m))"
proof -
  have r: "read_file j path d = (Inl (StoreIo IoOther), d\<lparr>faults := []\<rparr>)"
    using assms(4) by (simp add: read_file_def fs_read_def next_fault_def)
  have "secrets_load j path d = (Inr m, d\<lparr>faults := []\<rparr>)"
    using assms(2,3) by (simp add: secrets_load_def r) (simp add: read_file_def fs_read_calm)
  then show ?thesis by (simp add: secrets_put_def secrets_save_calm)
qed

end
