(* ===== verification/Token_Endpoint.thy ===== *)
theory Token_Endpoint
  imports Secrets Agent_Specs Resp_Wire
begin

text \<open>
  What the account resolver exchanges with token endpoints: the form encoding and the unsigned reading of an access
  token of \<open>crates/server/src/credentials/account.rs\<close>, the renewal of a ChatGPT sign-in of
  \<open>credentials/siwc_signin.rs\<close> and the write-back into the file of the Codex CLI of \<open>credentials/codex_store.rs\<close>.
  The derived readers of the two token answers, the TOML parser and the HTTP client are parameters.
\<close>

section \<open>Forms\<close>

definition form_unreserved :: "char \<Rightarrow> bool" where
  "form_unreserved c \<longleftrightarrow>
     (let n = of_char c :: nat in
      65 \<le> n \<and> n \<le> 90 \<or> 97 \<le> n \<and> n \<le> 122 \<or> 48 \<le> n \<and> n \<le> 57 \<or> c \<in> set ''-._~'')"

definition upper_hex :: "nat \<Rightarrow> char" where
  "upper_hex n = ''0123456789ABCDEF'' ! n"

definition percent_byte :: "char \<Rightarrow> string" where
  "percent_byte c =
     (if form_unreserved c then [c]
      else [CHR ''%'', upper_hex (of_char c div 16), upper_hex (of_char c mod 16)])"

definition percent_encode :: "string \<Rightarrow> string" where
  "percent_encode s = concat (map percent_byte s)"

definition form_urlencoded :: "(string \<times> string) list \<Rightarrow> string" where
  "form_urlencoded pairs = join ''&'' (map (\<lambda>(k, v). k @ ''='' @ percent_encode v) pairs)"

unbundle bit_operations_syntax

section \<open>The expiry inside an access token\<close>

definition url_digit :: "char \<Rightarrow> nat option" where
  "url_digit c =
     (let n = of_char c :: nat in
      if 65 \<le> n \<and> n \<le> 90 then Some (n - 65)
      else if 97 \<le> n \<and> n \<le> 122 then Some (n - 97 + 26)
      else if 48 \<le> n \<and> n \<le> 57 then Some (n - 48 + 52)
      else if c = CHR ''-'' then Some 62
      else if c = CHR ''_'' then Some 63
      else None)"

fun b64url_loop :: "string \<Rightarrow> u32 \<Rightarrow> nat \<Rightarrow> u8 list \<Rightarrow> u8 list option" where
  "b64url_loop [] acc bits out = Some out"
| "b64url_loop (c # cs) acc bits out =
     (case url_digit c of
        None \<Rightarrow> None
      | Some v \<Rightarrow>
          let acc = push_bit 6 acc OR of_nat v; bits = bits + 6 in
          if 8 \<le> bits then b64url_loop cs acc (bits - 8) (out @ [ucast (drop_bit (bits - 8) acc)])
          else b64url_loop cs acc bits out)"

definition b64url_decode :: "string \<Rightarrow> u8 list option" where
  "b64url_decode s = b64url_loop (trim_end_char (CHR ''='') s) 0 0 []"

definition nth_part :: "char \<Rightarrow> nat \<Rightarrow> string \<Rightarrow> string option" where
  "nth_part c n s = (let parts = str_split [c] s in if n < length parts then Some (parts ! n) else None)"

definition access_token_exp :: "serde \<Rightarrow> string \<Rightarrow> int option" where
  "access_token_exp S token =
     Option.bind (nth_part (CHR ''.'') 1 token) (\<lambda>payload.
     Option.bind (b64url_decode payload) (\<lambda>bytes.
       case from_text S (of_bytes bytes) of
         Inl _ \<Rightarrow> None
       | Inr claims \<Rightarrow> map_option sint (Option.bind (jget claims ''exp'') as_i64)))"

section \<open>Renewal of a ChatGPT sign-in\<close>

definition ascii_space :: "char \<Rightarrow> bool" where
  "ascii_space c \<longleftrightarrow> of_char c \<in> {9, 10, 12, 13, 32 :: nat}"

function split_ascii_whitespace :: "string \<Rightarrow> string list" where
  "split_ascii_whitespace [] = []"
| "split_ascii_whitespace (c # s) =
     (if ascii_space c then split_ascii_whitespace s
      else takeWhile (\<lambda>x. \<not> ascii_space x) (c # s) #
           split_ascii_whitespace (dropWhile (\<lambda>x. \<not> ascii_space x) s))"
  by pat_completeness auto
termination split_ascii_whitespace
  by (relation "measure length") (auto simp: le_imp_less_Suc length_dropWhile_le)

record SiwcTokens =
  st_access :: string
  st_refresh :: string
  st_id_token :: string
  st_expires_in :: int
  st_scope :: string

record SiwcTokenError =
  te_status :: nat
  te_code :: string
  te_message :: string

datatype SiwcError = SignInExpired | ClientUnknown | SiwcOther string

definition em_dash :: string where "em_dash = [CHR 0xE2, CHR 0x80, CHR 0x94]"

fun siwc_error_text :: "SiwcError \<Rightarrow> string" where
  "siwc_error_text SignInExpired = ''the ChatGPT sign-in has expired '' @ em_dash @ '' sign in again''"
| "siwc_error_text ClientUnknown =
     ''OpenAI no longer knows the client registered for this account '' @ em_dash @ '' sign in again''"
| "siwc_error_text (SiwcOther why) = why"

text \<open>The answer of the endpoint as the derived reader gives it; an absent field is empty or zero.\<close>

record siwc_reply =
  sr_access :: string
  sr_refresh :: string
  sr_id_token :: string
  sr_expires_in :: rat
  sr_scope :: string

definition SIWC_DIRECT_SCOPE :: string where "SIWC_DIRECT_SCOPE = ''chatgpt.tokens.use.direct''"

definition SIWC_DEAD :: "string list" where
  "SIWC_DEAD = [''invalid_grant'', ''invalid_refresh_token'', ''token_expired'', ''refresh_token_expired'',
     ''refresh_token_invalidated'', ''refresh_token_reused'']"

definition SIWC_MARGIN :: int where "SIWC_MARGIN = 180"

text \<open>\<open>as i64\<close> of a positive float.\<close>

definition trunc_i64 :: "rat \<Rightarrow> int" where
  "trunc_i64 q = min (2 ^ 63 - 1) \<lfloor>q\<rfloor>"

definition parse_tokens :: "(string \<Rightarrow> string + siwc_reply) \<Rightarrow> string \<Rightarrow> string + SiwcTokens" where
  "parse_tokens reader body =
     (case reader body of
        Inl e \<Rightarrow> Inl (''unreadable token answer: '' @ e)
      | Inr r \<Rightarrow>
          if sr_access r = [] \<or> sr_refresh r = [] then Inl ''OpenAI sent no token''
          else if sr_expires_in r \<le> 0 then Inl ''OpenAI's token has no lifetime''
          else if SIWC_DIRECT_SCOPE \<notin> set (split_ascii_whitespace (sr_scope r))
          then Inl (''OpenAI didn't grant the use of the subscription through its API ('' @ SIWC_DIRECT_SCOPE @
                    ''): this ChatGPT account may not be eligible'')
          else Inr \<lparr>st_access = sr_access r, st_refresh = sr_refresh r, st_id_token = sr_id_token r,
                    st_expires_in = trunc_i64 (sr_expires_in r), st_scope = sr_scope r\<rparr>)"

definition str_member :: "value \<Rightarrow> string \<Rightarrow> string" where
  "str_member v k = unwrap_or [] (jget_str v k)"

definition token_refusal :: "serde \<Rightarrow> nat \<Rightarrow> string \<Rightarrow> SiwcTokenError" where
  "token_refusal S status body =
     (let v = (case from_text S body of Inl _ \<Rightarrow> JNull | Inr v \<Rightarrow> v);
          (code, message) =
            (case jget v ''error'' of
               Some (JString text) \<Rightarrow> (text, [])
             | Some (JObject row) \<Rightarrow> (str_member (JObject row) ''code'', str_member (JObject row) ''message'')
             | _ \<Rightarrow> ([], []));
          message = (if message = [] then str_member v ''error_description'' else message);
          code = (if code = [] then str_member v ''code'' else code);
          message = (if code = [] \<and> message = [] then ''HTTP '' @ show_nat status else message) in
      \<lparr>te_status = status, te_code = code, te_message = message\<rparr>)"

definition classify_refresh :: "SiwcTokenError \<Rightarrow> SiwcError" where
  "classify_refresh e =
     (if te_code e \<in> set SIWC_DEAD then SignInExpired
      else if te_code e = ''invalid_client'' then ClientUnknown
      else SiwcOther (''ChatGPT token refresh: '' @ te_code e @
             (if te_message e = [] then [] else '': '' @ te_message e)))"

record SiwcRefreshRequest =
  rq_client_id :: string
  rq_refresh :: string
  rq_access :: string
  rq_id_token :: string
  rq_scopes :: "string list"
  rq_expires :: int
  rq_force :: bool

text \<open>
  The form that is posted, if any, and what its answer (an error of the transport, or a status and a body) makes of the
  renewal.
\<close>

definition renew_form :: "string \<Rightarrow> SiwcRefreshRequest \<Rightarrow> string" where
  "renew_form api r =
     form_urlencoded [(''grant_type'', ''refresh_token''), (''client_id'', rq_client_id r),
       (''refresh_token'', rq_refresh r), (''resource'', api)]"

definition renew_fresh :: "int \<Rightarrow> SiwcRefreshRequest \<Rightarrow> bool" where
  "renew_fresh now r \<longleftrightarrow> \<not> rq_force r \<and> SIWC_MARGIN < rq_expires r - now"

definition renew_kept :: "int \<Rightarrow> SiwcRefreshRequest \<Rightarrow> SiwcTokens" where
  "renew_kept now r =
     \<lparr>st_access = rq_access r, st_refresh = rq_refresh r, st_id_token = rq_id_token r,
      st_expires_in = rq_expires r - now, st_scope = join '' '' (rq_scopes r)\<rparr>"

definition renew_answer ::
  "serde \<Rightarrow> (string \<Rightarrow> string + siwc_reply) \<Rightarrow> int \<Rightarrow> SiwcRefreshRequest \<Rightarrow> string + nat \<times> string \<Rightarrow>
   SiwcError + SiwcTokens option" where
  "renew_answer S reader now r reply =
     (case reply of
        Inl err \<Rightarrow>
          if \<not> rq_force r \<and> now < rq_expires r then Inr None
          else Inl (SiwcOther (''ChatGPT token refresh: '' @ err))
      | Inr (status, body) \<Rightarrow>
          if status \<noteq> 200 then Inl (classify_refresh (token_refusal S status body))
          else case parse_tokens reader body of Inl e \<Rightarrow> Inl (SiwcOther e) | Inr t \<Rightarrow> Inr (Some t))"

section \<open>Writing back to Codex\<close>

datatype CodexStore = CodexFile string | CodexRefused string

record TokenUpdate =
  tu_access :: string
  tu_refresh :: string
  tu_id_token :: "string option"

text \<open>\<open>Io\<close> carries a text in the source; here it says whether the disk or the wait for the lock failed.\<close>

datatype WriteBackError = WbRefused string | WbIo io_error | WbLock string

text \<open>\<open>toml\<close> reads \<open>cli_auth_credentials_store\<close> from the text of a configuration.\<close>

definition codex_store :: "(string \<Rightarrow> string + string option) \<Rightarrow> string \<Rightarrow> disk \<Rightarrow> CodexStore \<times> disk" where
  "codex_store toml home d =
     (let config = path_join home ''config.toml''; auth = path_join home ''auth.json'' in
      case fs_read config d of
        (Inl IoNotFound, d) \<Rightarrow> (CodexFile auth, d)
      | (Inl e, d) \<Rightarrow> (CodexRefused (''can't read '' @ config @ ''; refusing to write Codex's auth.json''), d)
      | (Inr text, d) \<Rightarrow>
          (case toml text of
             Inl e \<Rightarrow> CodexRefused (config @ '' can't be parsed ('' @ e @ ''); refusing to write Codex's auth.json'')
           | Inr None \<Rightarrow> CodexFile auth
           | Inr (Some store) \<Rightarrow>
               if store = ''file'' then CodexFile auth
               else CodexRefused (''Codex is configured to keep this sign-in in '' @ store), d))"

definition update_tokens :: "TokenUpdate \<Rightarrow> obj \<Rightarrow> obj" where
  "update_tokens u m =
     (let m = fmupd ''refresh_token'' (JString (tu_refresh u)) (fmupd ''access_token'' (JString (tu_access u)) m) in
      case tu_id_token u of
        Some (c # cs) \<Rightarrow> fmupd ''id_token'' (JString (c # cs)) m
      | _ \<Rightarrow> m)"

definition updated_auth :: "TokenUpdate \<Rightarrow> string \<Rightarrow> value \<Rightarrow> WriteBackError + value" where
  "updated_auth u stamp auth =
     (case as_object auth of
        None \<Rightarrow> Inl (WbRefused ''auth.json is not a JSON object; left as it is'')
      | Some m \<Rightarrow>
          (case Option.bind (fmlookup m ''tokens'') as_object of
             None \<Rightarrow> Inl (WbRefused ''auth.json has no `tokens` object; left as it is'')
           | Some t \<Rightarrow>
               Inr (JObject (fmupd ''last_refresh'' (JString stamp) (fmupd ''tokens'' (JObject (update_tokens u t)) m)))))"

text \<open>
  The body under the lock, then with it: \<open>locked\<close> is the outcome of the wait for the lock of the file, \<open>stamp\<close> the
  time of the write.  The copy of the old file is an operation that can fail, before the new file is written.
\<close>

definition write_tokens_locked ::
  "serde \<Rightarrow> (value \<Rightarrow> string) \<Rightarrow> string \<Rightarrow> string \<Rightarrow> TokenUpdate \<Rightarrow> disk \<Rightarrow> (WriteBackError + unit) \<times> disk" where
  "write_tokens_locked S pretty stamp auth_path u d =
     (case fs_read auth_path d of
        (Inl IoNotFound, d) \<Rightarrow> (Inl (WbRefused (''no sign-in to update: '' @ auth_path @ '' does not exist'')), d)
      | (Inl e, d) \<Rightarrow> (Inl (WbIo e), d)
      | (Inr bytes, d) \<Rightarrow>
          (case from_text S bytes of
             Inl e \<Rightarrow> (Inl (WbRefused (''auth.json can't be read; left as it is ('' @ e @ '')'')), d)
           | Inr auth \<Rightarrow>
               (case updated_auth u stamp auth of
                  Inl e \<Rightarrow> (Inl e, d)
                | Inr auth \<Rightarrow>
                    (case fs_replace (with_suffix auth_path ''.bak'') bytes d of
                       (Inl e, d) \<Rightarrow> (Inl (WbIo e), d)
                     | (Inr _, d) \<Rightarrow>
                         (case write_private auth_path (pretty auth) d of
                            (Inl e, d) \<Rightarrow> (Inl (WbIo e), d)
                          | (Inr _, d) \<Rightarrow> (Inr (), d))))))"

definition write_tokens ::
  "serde \<Rightarrow> (value \<Rightarrow> string) \<Rightarrow> (string \<Rightarrow> string + string option) \<Rightarrow> string + unit \<Rightarrow> string \<Rightarrow> string \<Rightarrow>
   TokenUpdate \<Rightarrow> disk \<Rightarrow> (WriteBackError + unit) \<times> disk" where
  "write_tokens S pretty toml locked stamp home u d =
     (case codex_store toml home d of
        (CodexRefused why, d) \<Rightarrow> (Inl (WbRefused why), d)
      | (CodexFile auth_path, d) \<Rightarrow>
          (case locked of
             Inl e \<Rightarrow> (Inl (WbLock e), d)
           | Inr _ \<Rightarrow> write_tokens_locked S pretty stamp auth_path u d))"

section \<open>A form is read back\<close>

text \<open>The decoder of the other side: fields between ampersands, a name before the first equals sign.\<close>

definition hex_digit :: "char \<Rightarrow> nat option" where
  "hex_digit c =
     (let n = of_char c :: nat in
      if 48 \<le> n \<and> n \<le> 57 then Some (n - 48) else if 65 \<le> n \<and> n \<le> 70 then Some (n - 55) else None)"

fun percent_decode :: "string \<Rightarrow> string option" where
  "percent_decode [] = Some []"
| "percent_decode (c # s) =
     (if c \<noteq> CHR ''%'' then map_option ((#) c) (percent_decode s)
      else case s of
             h # l # t \<Rightarrow>
               (case (hex_digit h, hex_digit l) of
                  (Some a, Some b) \<Rightarrow> map_option ((#) (char_of (16 * a + b))) (percent_decode t)
                | _ \<Rightarrow> None)
           | _ \<Rightarrow> None)"

definition read_field :: "string \<Rightarrow> (string \<times> string) option" where
  "read_field s = Option.bind (split_once ''='' s) (\<lambda>(k, v). map_option (Pair k) (percent_decode v))"

definition read_form :: "string \<Rightarrow> (string \<times> string) option list" where
  "read_form s = map read_field (str_split ''&'' s)"

lemma upper_hex_digit: "n < 16 \<Longrightarrow> hex_digit (upper_hex n) = Some n \<and> upper_hex n \<notin> set ''&=''"
proof -
  have "list_all (\<lambda>n. hex_digit (upper_hex n) = Some n \<and> upper_hex n \<notin> set ''&='') [0..<16]"
    by (simp add: upt_conv_Cons upper_hex_def hex_digit_def)
  then show "n < 16 \<Longrightarrow> ?thesis" by (simp add: list_all_iff)
qed

lemma unreserved_plain: "form_unreserved c \<Longrightarrow> c \<notin> set ''%&=''"
  by (auto simp: form_unreserved_def)

lemma byte_nibbles:
  "hex_digit (upper_hex (of_char c div 16)) = Some (of_char c div 16)" "upper_hex (of_char c div 16) \<notin> set ''&=''"
  "hex_digit (upper_hex (of_char c mod 16)) = Some (of_char c mod 16)" "upper_hex (of_char c mod 16) \<notin> set ''&=''"
proof -
  have "of_char c div 16 < (16 :: nat)" using nat_of_char_less_256 [of c] by linarith
  then show "hex_digit (upper_hex (of_char c div 16)) = Some (of_char c div 16)" "upper_hex (of_char c div 16) \<notin> set ''&=''"
    using upper_hex_digit by blast+
  show "hex_digit (upper_hex (of_char c mod 16)) = Some (of_char c mod 16)" "upper_hex (of_char c mod 16) \<notin> set ''&=''"
    using upper_hex_digit [of "of_char c mod 16"] by simp_all
qed

lemma percent_byte_clean: "set (percent_byte c) \<inter> set ''&='' = {}"
  using byte_nibbles [of c] unreserved_plain [of c] by (auto simp: percent_byte_def)

lemma percent_encode_clean: "set (percent_encode s) \<inter> set ''&='' = {}"
  using percent_byte_clean by (fastforce simp: percent_encode_def)

lemma nibbles_char: "char_of (16 * (of_char c div 16) + of_char c mod 16 :: nat) = c"
  by (metis char_of_char mult_div_mod_eq)

lemma percent_decode_byte: "percent_decode (percent_byte c @ t) = map_option ((#) c) (percent_decode t)"
  using byte_nibbles(1,3) [of c] unreserved_plain [of c] nibbles_char [of c] by (simp add: percent_byte_def)

lemma percent_decode_encode: "percent_decode (percent_encode s) = Some s"
  by (induction s) (simp_all add: percent_encode_def percent_decode_byte)

lemma form_split: "c \<notin> set a \<Longrightarrow> split_once [c] (a @ c # b) = Some (a, b)"
  by (induction a) (auto simp: starts_with_def)

lemma form_split_none: "c \<notin> set a \<Longrightarrow> split_once [c] a = None"
  by (induction a) (auto simp: starts_with_def)

lemma str_split_char_join:
  "xs \<noteq> [] \<Longrightarrow> (\<forall>x \<in> set xs. c \<notin> set x) \<Longrightarrow> str_split [c] (join [c] xs) = xs"
proof (induction xs)
  case (Cons x xs)
  then show ?case
    by (cases xs) (simp_all add: str_split.simps [of "[c]"] form_split form_split_none)
qed simp

lemma read_field_form: "CHR ''='' \<notin> set k \<Longrightarrow> read_field (k @ ''='' @ percent_encode v) = Some (k, v)"
  by (simp add: read_field_def form_split percent_decode_encode)

lemma read_form_encoded:
  assumes "pairs \<noteq> []" and "\<forall>(k, v) \<in> set pairs. set k \<inter> set ''&='' = {}"
  shows "read_form (form_urlencoded pairs) = map Some pairs"
proof -
  have "CHR ''&'' \<notin> set (k @ ''='' @ percent_encode v)" if "(k, v) \<in> set pairs" for k v
    using that assms(2) percent_encode_clean [of v] by fastforce
  then have "str_split ''&'' (form_urlencoded pairs) = map (\<lambda>(k, v). k @ ''='' @ percent_encode v) pairs"
    unfolding form_urlencoded_def using assms(1) by (intro str_split_char_join) auto
  moreover have "read_field (k @ ''='' @ percent_encode v) = Some (k, v)" if "(k, v) \<in> set pairs" for k v
    using that assms(2) by (intro read_field_form) auto
  ultimately show ?thesis by (auto simp: read_form_def)
qed

section \<open>The reading of a JSON web token\<close>

text \<open>On the alphabet of URLs the decoder is the decoder of \<open>Base64\<close>.\<close>

definition std_digit :: "char \<Rightarrow> char" where
  "std_digit c = (if c = CHR ''-'' then CHR ''+'' else if c = CHR ''_'' then CHR ''/'' else c)"

definition url_char :: "char \<Rightarrow> char" where
  "url_char c = (if c = CHR ''+'' then CHR ''-'' else if c = CHR ''/'' then CHR ''_'' else c)"

lemma url_digit_std: "c \<notin> set ''+/'' \<Longrightarrow> url_digit c = base64_value (std_digit c)"
  by (auto simp: url_digit_def base64_value_def std_digit_def)

lemma b64url_loop_std:
  "set s \<inter> set ''+/'' = {} \<Longrightarrow> b64url_loop s acc bits out = base64_loop (map std_digit s) acc bits out"
proof (induction s arbitrary: acc bits out)
  case (Cons c s)
  then have "url_digit c = base64_value (std_digit c)" by (intro url_digit_std) auto
  moreover have "b64url_loop s a b r = base64_loop (map std_digit s) a b r" for a b r using Cons by simp
  ultimately show ?case by (simp only: b64url_loop.simps base64_loop.simps list.map Let_def)
qed simp

lemma std_url: "c \<notin> set ''-_'' \<Longrightarrow> std_digit (url_char c) = c"
  by (auto simp: std_digit_def url_char_def)

lemma trim_pad_end: "trim_end_char (CHR ''='') s = trim_pad s"
  by (simp add: trim_end_char_def trim_pad_def)

lemma trim_end_no_pad: "CHR ''='' \<notin> set s \<Longrightarrow> trim_end_char (CHR ''='') s = s"
  by (cases s rule: rev_cases) (auto simp: trim_end_char_def)

lemma base64_digit_chars: "c \<in> set BASE64 \<Longrightarrow> c \<notin> set ''-_.=''"
  by (auto simp: BASE64_def)

lemma base64_chunk_chars: "chunk \<noteq> [] \<Longrightarrow> length chunk \<le> 3 \<Longrightarrow> set (base64_chunk chunk) \<subseteq> set BASE64 \<union> {CHR ''=''}"
proof -
  have "BASE64 ! unat (sextet chunk i) \<in> set BASE64" for i
    using sextet_bound [of chunk i] by (intro nth_mem) (simp add: BASE64_def)
  then show ?thesis unfolding base64_chunk_def sextet_def [symmetric] by auto
qed

lemma base64_encode_chars: "set (base64_encode bytes) \<subseteq> set BASE64 \<union> {CHR ''=''}"
proof (induction bytes rule: base64_encode.induct [case_names three none one two])
  case (three a b c rest)
  then show ?case using base64_chunk_chars [of "[a, b, c]"] by (simp only: base64_encode.simps set_append Un_subset_iff) simp
next
  case (one a)
  then show ?case using base64_chunk_chars [of "[a]"] by (simp only: base64_encode.simps) simp
next
  case (two a b)
  then show ?case using base64_chunk_chars [of "[a, b]"] by (simp only: base64_encode.simps) simp
qed simp

lemma trim_pad_subset: "set (trim_pad s) \<subseteq> set s"
  by (auto simp: trim_pad_def dest: set_dropWhileD)

lemma trim_pad_idem: "trim_pad (trim_pad s) = trim_pad s"
  by (simp add: trim_pad_def)

lemma trim_url: "trim_pad (map url_char s) = map url_char (trim_pad s)"
proof -
  have "(\<lambda>c. c = CHR ''='') \<circ> url_char = (\<lambda>c. c = CHR ''='')" by (auto simp: url_char_def fun_eq_iff)
  then show ?thesis by (simp add: trim_pad_def rev_map dropWhile_map)
qed

lemma b64url_decode_encode: "b64url_decode (map url_char (trim_pad (base64_encode bytes))) = Some bytes"
proof -
  let ?t = "trim_pad (base64_encode bytes)"
  have sub: "set ?t \<subseteq> set BASE64 \<union> {CHR ''=''}" using trim_pad_subset base64_encode_chars by blast
  then have "map std_digit (map url_char ?t) = ?t"
    using base64_digit_chars by (intro nth_equalityI) (fastforce simp: std_url dest: nth_mem)+
  moreover have "set (map url_char ?t) \<inter> set ''+/'' = {}" by (auto simp: url_char_def)
  ultimately show ?thesis
    using base64_loop_encode [of bytes 0 "[]"] b64url_loop_std [of "map url_char ?t"]
    by (simp only: b64url_decode_def trim_pad_end trim_url trim_pad_idem append_Nil)
qed

text \<open>The expiry that a well-formed token carries is the one that is read.\<close>

lemma access_token_exp_read:
  assumes "CHR ''.'' \<notin> set header" and "CHR ''.'' \<notin> set sig"
    and "from_text S (of_bytes bytes) = Inr claims" and "jget claims ''exp'' = Some (json_i64 t)"
  shows "access_token_exp S (join ''.'' [header, map url_char (trim_pad (base64_encode bytes)), sig]) = Some (sint t)"
proof -
  have "CHR ''.'' \<notin> set (map url_char (trim_pad (base64_encode bytes)))"
    using trim_pad_subset base64_encode_chars base64_digit_chars by (fastforce simp: url_char_def split: if_splits)
  with assms(1,2) have "nth_part (CHR ''.'') 1 (join ''.'' [header, map url_char (trim_pad (base64_encode bytes)), sig]) =
      Some (map url_char (trim_pad (base64_encode bytes)))"
    unfolding nth_part_def by (subst str_split_char_join) auto
  then show ?thesis using assms(3,4) by (simp add: access_token_exp_def b64url_decode_encode)
qed

section \<open>The write-back loses nothing\<close>

lemma as_object_iff: "as_object v = Some m \<longleftrightarrow> v = JObject m"
  by (cases v) auto

lemma updated_authD:
  assumes "updated_auth u stamp auth = Inr auth'"
  obtains m t where "auth = JObject m" "fmlookup m ''tokens'' = Some (JObject t)"
    "auth' = JObject (fmupd ''last_refresh'' (JString stamp) (fmupd ''tokens'' (JObject (update_tokens u t)) m))"
  using assms by (auto simp: updated_auth_def as_object_iff bind_eq_Some_conv split: option.splits)

lemma update_tokens_lookup:
  "fmlookup (update_tokens u t) k =
     (if k = ''access_token'' then Some (JString (tu_access u))
      else if k = ''refresh_token'' then Some (JString (tu_refresh u))
      else if k = ''id_token'' \<and> tu_id_token u \<noteq> None \<and> tu_id_token u \<noteq> Some []
      then map_option JString (tu_id_token u) else fmlookup t k)"
  by (simp add: update_tokens_def Let_def split: option.split list.split)

text \<open>Every field but the four that the module owns keeps its value.\<close>

lemma updated_auth_keeps:
  assumes "updated_auth u stamp (JObject m) = Inr auth'"
  shows "k \<noteq> ''tokens'' \<Longrightarrow> k \<noteq> ''last_refresh'' \<Longrightarrow> jget auth' k = fmlookup m k"
    and "k \<notin> {''access_token'', ''refresh_token'', ''id_token''} \<Longrightarrow>
         Option.bind (jget auth' ''tokens'') (\<lambda>t. jget t k) = Option.bind (fmlookup m ''tokens'') (\<lambda>t. jget t k)"
    and "Option.bind (jget auth' ''tokens'') (\<lambda>t. jget_str t ''refresh_token'') = Some (tu_refresh u)"
  using assms by (auto elim!: updated_authD simp: update_tokens_lookup jget_str_def)

lemma codex_store_reads: "codex_store toml home d = (c, d') \<Longrightarrow> files d' = files d"
  by (auto simp: codex_store_def Let_def split: prod.splits sum.splits io_error.splits dest!: fs_readD)

lemma codex_store_file: "codex_store toml home d = (CodexFile p, d') \<Longrightarrow> p = path_join home ''auth.json''"
  by (auto simp: codex_store_def Let_def split: prod.splits sum.splits io_error.splits option.splits if_splits)

definition kept_or_updated :: "serde \<Rightarrow> (value \<Rightarrow> string) \<Rightarrow> string \<Rightarrow> TokenUpdate \<Rightarrow> string \<Rightarrow> disk \<Rightarrow> disk \<Rightarrow> bool" where
  "kept_or_updated S pretty stamp u auth d d' \<longleftrightarrow>
     look d' auth = look d auth \<or>
     (\<exists>old v v'. look d auth = Some old \<and> from_text S old = Inr v \<and> updated_auth u stamp v = Inr v' \<and>
        look d' (with_suffix auth ''.bak'') = Some old \<and> look d' auth = Some (pretty v'))"

lemma bak_other [simp]: "with_suffix p ''.bak'' \<noteq> p" "p \<noteq> with_suffix p ''.bak''"
  by (simp_all add: with_suffix_def)

lemma write_tokens_locked_safe:
  assumes "write_tokens_locked S pretty stamp auth u d = (r, d')"
  shows "kept_or_updated S pretty stamp u auth d d' \<and> (\<forall>e. r = Inl e \<longrightarrow> look d' auth = look d auth) \<and>
    (\<forall>p. p \<notin> {auth, with_suffix auth ''.bak''} \<longrightarrow> look d' p = look d p)"
  using assms unfolding write_tokens_locked_def write_private_def kept_or_updated_def
  by (auto split: prod.splits sum.splits io_error.splits dest!: fs_readD fs_replaceD)


definition sample_auth_serde :: serde where
  "sample_auth_serde =
     \<lparr>from_text = (\<lambda>b. if b = ''A'' then Inr (jobj [(''tokens'', jobj [])]) else Inl ''bad''), to_text = (\<lambda>_. ''B'')\<rparr>"

definition sample_codex_disk :: disk where
  "sample_codex_disk = \<lparr>files = fmupd ''h/auth.json'' ''A'' fmempty, faults = [], clock = 0\<rparr>"

definition sample_write_back :: "(WriteBackError + unit) \<times> disk" where
  "sample_write_back =
     write_tokens sample_auth_serde (\<lambda>_. ''B'') (\<lambda>_. Inr None) (Inr ()) ''now'' ''h''
       \<lparr>tu_access = ''a'', tu_refresh = ''r'', tu_id_token = None\<rparr> sample_codex_disk"

lemma sample_path: "path_join ''h'' x = (if starts_with ''/'' x then x else ''h/'' @ x)"
  by (simp add: path_join_def ends_with_def starts_with_def)

lemma sample_write_back_done: "look (snd sample_write_back) ''h/auth.json'' = Some ''B''"
  by (simp add: sample_write_back_def write_tokens_def codex_store_def sample_path starts_with_def sample_codex_disk_def
      Let_def fs_read_calm write_tokens_locked_def sample_auth_serde_def updated_auth_def fs_replace_calm write_private_def)


end
