(* ===== verification/Accounts.thy ===== *)
theory Accounts
  imports Token_Endpoint
begin

text \<open>
  The account resolver, \<open>crates/server/src/credentials/account.rs\<close>: from an account id to an access token that can be
  sent, over the credential store of \<open>Secrets\<close>, the cache of tokens, the file of revoked accounts and the token
  endpoints.  What other tasks and processes do while a call waits (for the single-flight lock, for the lock file, for
  an answer) is an argument: any change of the state.  The log lists the forms that were posted, latest first.
\<close>

section \<open>State and surroundings\<close>

record RevokedEntry =
  rv_why :: string
  rv_at :: int

type_synonym revoked_map = "(string, RevokedEntry) fmap"

text \<open>The resolver of a process and the disk it shares; a stamp stands for a modification time.\<close>

record resolver =
  rs_disk :: disk
  rs_now :: int
  rs_cache :: "(string, string \<times> int option) fmap"
  rs_revoked :: revoked_map
  rs_mtime :: "nat option"
  rs_disk_mtime :: "nat option"
  rs_stamp :: nat
  rs_sent :: "(string \<times> string) list"

datatype AccountError =
    NotSignedIn string
  | NotOAuth string
  | UnsupportedProvider string
  | RefreshFailed string
  | AccountRevoked string string
  | CodeAssistError string
  | NeedsProject string
  | LockFailure string
  | AccountIo io_error
  | AccountStore SecretStoreError

record ResolvedAccount =
  ra_id :: string
  ra_token :: string

text \<open>The answer to a refresh as the derived reader gives it.\<close>

record refresh_reply =
  rr_access :: string
  rr_refresh :: "string option"
  rr_expires_in :: "u64 option"
  rr_id_token :: "string option"

record account_env =
  ae_path :: string
  ae_siwc_path :: string
  ae_secrets :: "DiskMap store_json"
  ae_siwc :: "siwc_map store_json"
  ae_revoked :: "revoked_map store_json"
  ae_adopted :: "(string, string) fmap store_json"
  ae_serde :: serde
  ae_pretty :: "value \<Rightarrow> string"
  ae_toml :: "string \<Rightarrow> string + string option"
  ae_refresh_reply :: "string \<Rightarrow> string + refresh_reply"
  ae_siwc_reply :: "string \<Rightarrow> string + siwc_reply"
  ae_token_url :: string
  ae_codex_url :: string
  ae_siwc_url :: string
  ae_siwc_api :: string
  ae_client :: "string \<times> string"
  ae_flight :: "string \<Rightarrow> resolver \<Rightarrow> resolver"
  ae_lock :: "string \<Rightarrow> resolver \<Rightarrow> (string + unit) \<times> resolver"
  ae_http :: "string \<Rightarrow> string \<Rightarrow> string \<Rightarrow> resolver \<Rightarrow> (string + nat \<times> string) \<times> resolver"
  ae_codex_lock :: "string \<Rightarrow> resolver \<Rightarrow> (string + unit) \<times> resolver"
  ae_time_text :: "resolver \<Rightarrow> string"

text \<open>An operation of the disk, and a post: the form is logged before the others move.\<close>

definition on_disk :: "(disk \<Rightarrow> 'a \<times> disk) \<Rightarrow> resolver \<Rightarrow> 'a \<times> resolver" where
  "on_disk f s = (let (r, d) = f (rs_disk s) in (r, s\<lparr>rs_disk := d\<rparr>))"

definition post_form ::
  "account_env \<Rightarrow> string \<Rightarrow> string \<Rightarrow> string \<Rightarrow> resolver \<Rightarrow> (string + nat \<times> string) \<times> resolver" where
  "post_form E url content_type body s = ae_http E url content_type body (s\<lparr>rs_sent := (url, body) # rs_sent s\<rparr>)"

section \<open>Tokens and their expiry\<close>

definition REFRESH_MARGIN_SECS :: int where "REFRESH_MARGIN_SECS = 300"

definition expired :: "int \<Rightarrow> int option \<Rightarrow> bool" where
  "expired now expires = (case expires of None \<Rightarrow> False | Some at \<Rightarrow> at \<le> now + REFRESH_MARGIN_SECS)"

definition account_provider :: "string \<Rightarrow> string" where
  "account_provider account_id = takeWhile (\<lambda>c. c \<noteq> CHR '':'') account_id"

definition read_oauth :: "account_env \<Rightarrow> string \<Rightarrow> resolver \<Rightarrow> (AccountError + StoredOAuth) \<times> resolver" where
  "read_oauth E account_id s =
     (case on_disk (secrets_get (ae_secrets E) (ae_path E) account_id) s of
        (Inl e, s) \<Rightarrow> (Inl (AccountStore e), s)
      | (Inr None, s) \<Rightarrow> (Inl (NotSignedIn account_id), s)
      | (Inr (Some (OAuthCred oa None)), s) \<Rightarrow> (Inr oa, s)
      | (Inr (Some _), s) \<Rightarrow> (Inl (NotOAuth account_id), s))"

definition acct_cache_put :: "string \<Rightarrow> string \<Rightarrow> int option \<Rightarrow> resolver \<Rightarrow> resolver" where
  "acct_cache_put account_id token expires s = s\<lparr>rs_cache := fmupd account_id (token, expires) (rs_cache s)\<rparr>"

definition resolved :: "string \<Rightarrow> string \<Rightarrow> ResolvedAccount" where
  "resolved account_id token = \<lparr>ra_id = account_id, ra_token = token\<rparr>"

text \<open>A stored credential is good enough: it goes into the cache and to the caller.\<close>

definition use_stored :: "string \<Rightarrow> StoredOAuth \<Rightarrow> resolver \<Rightarrow> (AccountError + ResolvedAccount) \<times> resolver" where
  "use_stored account_id oa s =
     (Inr (resolved account_id (so_access oa)), acct_cache_put account_id (so_access oa) (so_expires oa) s)"

section \<open>Revoked accounts\<close>

definition sibling :: "string \<Rightarrow> string \<Rightarrow> string" where
  "sibling path name =
     (case rsplit_once (CHR ''/'') path of
        Some (parent, _) \<Rightarrow> if parent = [] then ''/'' @ name else parent @ ''/'' @ name
      | None \<Rightarrow> name)"

definition revoked_path :: "account_env \<Rightarrow> string" where
  "revoked_path E = sibling (ae_path E) ''revoked.json''"

definition adopted_path :: "account_env \<Rightarrow> string" where
  "adopted_path E = sibling (ae_path E) ''adopted.json''"

definition load_map :: "('k, 'v) fmap store_json \<Rightarrow> string \<Rightarrow> disk \<Rightarrow> ('k, 'v) fmap \<times> disk" where
  "load_map j path d =
     (case fs_read path d of
        (Inr bytes, d) \<Rightarrow> (unwrap_or fmempty (from_slice j bytes), d)
      | (Inl _, d) \<Rightarrow> (fmempty, d))"

definition save_revoked :: "account_env \<Rightarrow> revoked_map \<Rightarrow> resolver \<Rightarrow> (AccountError + unit) \<times> resolver" where
  "save_revoked E m s =
     (case on_disk (write_private (revoked_path E) (to_vec_pretty (ae_revoked E) m)) s of
        (Inl e, s) \<Rightarrow> (Inl (AccountIo e), s)
      | (Inr _, s) \<Rightarrow>
          (Inr (), s\<lparr>rs_revoked := m, rs_mtime := Some (rs_stamp s), rs_disk_mtime := Some (rs_stamp s),
                    rs_stamp := Suc (rs_stamp s)\<rparr>))"

definition mark_revoked :: "account_env \<Rightarrow> string \<Rightarrow> string \<Rightarrow> resolver \<Rightarrow> (AccountError + unit) \<times> resolver" where
  "mark_revoked E account_id why s =
     (let (m, s) = on_disk (load_map (ae_revoked E) (revoked_path E)) s in
      save_revoked E (fmupd account_id \<lparr>rv_why = why, rv_at = rs_now s\<rparr> m) s)"

definition clear_revoked :: "account_env \<Rightarrow> string \<Rightarrow> resolver \<Rightarrow> (AccountError + unit) \<times> resolver" where
  "clear_revoked E account_id s =
     (let (m, s) = on_disk (load_map (ae_revoked E) (revoked_path E)) s;
          (r, s) = (if fmlookup m account_id \<noteq> None then save_revoked E (fmdrop account_id m) s else (Inr (), s)) in
      case r of
        Inl e \<Rightarrow> (Inl e, s)
      | Inr _ \<Rightarrow> (Inr (), s\<lparr>rs_revoked := fmdrop account_id (rs_revoked s)\<rparr>))"

definition revoked_entry :: "account_env \<Rightarrow> string \<Rightarrow> resolver \<Rightarrow> RevokedEntry option \<times> resolver" where
  "revoked_entry E account_id s =
     (let s = (if rs_mtime s \<noteq> rs_disk_mtime s
               then let (m, s) = on_disk (load_map (ae_revoked E) (revoked_path E)) s in
                    s\<lparr>rs_revoked := m, rs_mtime := rs_disk_mtime s\<rparr>
               else s) in
      (fmlookup (rs_revoked s) account_id, s))"

section \<open>Adopted Codex accounts\<close>

definition mark_adopted ::
  "(string, string) fmap store_json \<Rightarrow> string \<Rightarrow> string \<Rightarrow> string \<Rightarrow> disk \<Rightarrow> (AccountError + unit) \<times> disk" where
  "mark_adopted j secrets_path account_id home d =
     (let path = sibling secrets_path ''adopted.json''; (m, d) = load_map j path d in
      case write_private path (to_vec_pretty j (fmupd account_id home m)) d of
        (Inl e, d) \<Rightarrow> (Inl (AccountIo e), d)
      | (Inr _, d) \<Rightarrow> (Inr (), d))"

definition release_adopted ::
  "(string, string) fmap store_json \<Rightarrow> string \<Rightarrow> string \<Rightarrow> disk \<Rightarrow> (AccountError + bool) \<times> disk" where
  "release_adopted j secrets_path account_id d =
     (let path = sibling secrets_path ''adopted.json''; (m, d) = load_map j path d in
      if fmlookup m account_id = None then (Inr False, d)
      else case write_private path (to_vec_pretty j (fmdrop account_id m)) d of
             (Inl e, d) \<Rightarrow> (Inl (AccountIo e), d)
           | (Inr _, d) \<Rightarrow> (Inr True, d))"

definition adopted_home_of :: "account_env \<Rightarrow> string \<Rightarrow> resolver \<Rightarrow> string option \<times> resolver" where
  "adopted_home_of E account_id s =
     (let (m, s) = on_disk (load_map (ae_adopted E) (adopted_path E)) s in (fmlookup m account_id, s))"

definition codex_home_of :: "(string, string) fmap store_json \<Rightarrow> string \<Rightarrow> Credential \<Rightarrow> disk \<Rightarrow> string option \<times> disk" where
  "codex_home_of j secrets_path cred d =
     (case cred of
        OAuthCred oa _ \<Rightarrow>
          if so_provider oa \<noteq> ''codex'' then (None, d)
          else let (m, d) = load_map j (sibling secrets_path ''adopted.json'') d in
               (fmlookup m (''codex:'' @ so_account oa), d)
      | ApiKeyCred _ \<Rightarrow> (None, d))"

text \<open>The write-back of an adopted account runs after the store is written; its outcome is only logged.\<close>

definition write_back :: "account_env \<Rightarrow> string \<Rightarrow> TokenUpdate \<Rightarrow> resolver \<Rightarrow> resolver" where
  "write_back E account_id u s =
     (case adopted_home_of E account_id s of
        (None, s) \<Rightarrow> s
      | (Some home, s) \<Rightarrow>
          let (locked, s) = ae_codex_lock E (path_join home ''auth.json'') s in
          snd (on_disk (write_tokens (ae_serde E) (ae_pretty E) (ae_toml E) locked (ae_time_text E s) home u) s))"

section \<open>Refreshing\<close>

definition CODEX_CLIENT_ID :: string where "CODEX_CLIENT_ID = ''app_EMoamEEZ73f0CkXaXp7hrann''"

definition CODEX_REFRESH_SCOPE :: string where "CODEX_REFRESH_SCOPE = ''openid profile email''"

definition NO_REFRESH_TOKEN :: AccountError where
  "NO_REFRESH_TOKEN = RefreshFailed ''token expired and no refresh token is stored''"

definition refresh_form :: "account_env \<Rightarrow> string \<Rightarrow> string \<Rightarrow> string \<times> string" where
  "refresh_form E provider refresh_token =
     (if provider = ''codex''
      then (''application/json'',
        to_text (ae_serde E) (jobj [(''client_id'', JString CODEX_CLIENT_ID), (''grant_type'', JString ''refresh_token''),
          (''refresh_token'', JString refresh_token), (''scope'', JString CODEX_REFRESH_SCOPE)]))
      else (''application/x-www-form-urlencoded'',
        form_urlencoded [(''grant_type'', ''refresh_token''), (''refresh_token'', refresh_token),
          (''client_id'', fst (ae_client E)), (''client_secret'', snd (ae_client E))]))"

definition refreshed_expiry :: "serde \<Rightarrow> string \<Rightarrow> int \<Rightarrow> refresh_reply \<Rightarrow> int option" where
  "refreshed_expiry S provider now r =
     (case rr_expires_in r of
        Some secs \<Rightarrow> Some (sint (word_of_int now + secs))
      | None \<Rightarrow> if provider = ''codex'' then access_token_exp S (rr_access r) else None)"

definition is_success :: "nat \<Rightarrow> bool" where "is_success status \<longleftrightarrow> 200 \<le> status \<and> status < 300"

definition refresh_answer :: "account_env \<Rightarrow> string + nat \<times> string \<Rightarrow> AccountError + refresh_reply" where
  "refresh_answer E reply =
     (case reply of
        Inl e \<Rightarrow> Inl (RefreshFailed (''token endpoint request failed: '' @ e))
      | Inr (status, text) \<Rightarrow>
          if \<not> is_success status
          then Inl (RefreshFailed (''token endpoint returned '' @ show_nat status @ '': '' @ text))
          else case ae_refresh_reply E text of
                 Inl e \<Rightarrow> Inl (RefreshFailed (''token endpoint returned malformed payload: '' @ e))
               | Inr r \<Rightarrow> Inr r)"

definition new_credential :: "StoredOAuth \<Rightarrow> string \<Rightarrow> string option \<Rightarrow> int option \<Rightarrow> StoredOAuth" where
  "new_credential latest access refresh expires =
     latest\<lparr>so_access := access, so_refresh := refresh, so_expires := expires\<rparr>"

text \<open>The store first, then the cache.\<close>

definition keep_credential ::
  "account_env \<Rightarrow> string \<Rightarrow> StoredOAuth \<Rightarrow> SiwcMeta option \<Rightarrow> resolver \<Rightarrow> (AccountError + unit) \<times> resolver" where
  "keep_credential E account_id oa meta s =
     (case on_disk (secrets_put (ae_secrets E) (ae_path E) account_id (OAuthCred oa meta)) s of
        (Inl e, s) \<Rightarrow> (Inl (AccountStore e), s)
      | (Inr _, s) \<Rightarrow> (Inr (), acct_cache_put account_id (so_access oa) (so_expires oa) s))"

definition refreshed ::
  "account_env \<Rightarrow> string \<Rightarrow> StoredOAuth \<Rightarrow> refresh_reply \<Rightarrow> resolver \<Rightarrow> (AccountError + ResolvedAccount) \<times> resolver" where
  "refreshed E account_id latest r s =
     (let expires = refreshed_expiry (ae_serde E) (account_provider account_id) (rs_now s) r;
          refresh = or_else (rr_refresh r) (so_refresh latest);
          u = \<lparr>tu_access = rr_access r, tu_refresh = unwrap_or [] refresh, tu_id_token = rr_id_token r\<rparr> in
      case keep_credential E account_id (new_credential latest (rr_access r) refresh expires) None s of
        (Inl e, s) \<Rightarrow> (Inl e, s)
      | (Inr _, s) \<Rightarrow> (Inr (resolved account_id (rr_access r)), write_back E account_id u s))"

definition siwc_meta_of :: "account_env \<Rightarrow> string \<Rightarrow> resolver \<Rightarrow> SiwcMeta option \<times> resolver" where
  "siwc_meta_of E account_id s =
     (case on_disk (secrets_get (ae_secrets E) (ae_path E) account_id) s of
        (Inr (Some (OAuthCred _ (Some meta))), s) \<Rightarrow> (Some meta, s)
      | (_, s) \<Rightarrow> on_disk (siwc_get (ae_siwc E) (ae_siwc_path E) account_id) s)"

definition siwc_request :: "SiwcMeta \<Rightarrow> string \<Rightarrow> StoredOAuth \<Rightarrow> SiwcRefreshRequest" where
  "siwc_request meta refresh_token latest =
     \<lparr>rq_client_id = client_id meta, rq_refresh = refresh_token, rq_access = so_access latest,
      rq_id_token = siwc_id_token meta, rq_scopes = siwc_scopes meta, rq_expires = unwrap_or 0 (so_expires latest),
      rq_force = False\<rparr>"

definition renew :: "account_env \<Rightarrow> SiwcRefreshRequest \<Rightarrow> resolver \<Rightarrow> (SiwcError + SiwcTokens option) \<times> resolver" where
  "renew E r s =
     (let now = rs_now s in
      if renew_fresh now r then (Inr (Some (renew_kept now r)), s)
      else let (reply, s) = post_form E (ae_siwc_url E) ''application/x-www-form-urlencoded'' (renew_form (ae_siwc_api E) r) s in
           (renew_answer (ae_serde E) (ae_siwc_reply E) now r reply, s))"

definition renewed_meta :: "SiwcMeta \<Rightarrow> SiwcTokens \<Rightarrow> SiwcMeta" where
  "renewed_meta meta t =
     meta\<lparr>siwc_id_token := (if st_id_token t = [] then siwc_id_token meta else st_id_token t),
          siwc_scopes := split_ascii_whitespace (st_scope t)\<rparr>"

definition refresh_siwc ::
  "account_env \<Rightarrow> string \<Rightarrow> StoredOAuth \<Rightarrow> resolver \<Rightarrow> (AccountError + ResolvedAccount) \<times> resolver" where
  "refresh_siwc E account_id latest s =
     (case siwc_meta_of E account_id s of
        (None, s) \<Rightarrow>
          (Inl (RefreshFailed (''no ChatGPT API client id is kept for '' @ account_id @ ''; sign in again'')), s)
      | (Some meta, s) \<Rightarrow>
          (case so_refresh latest of
             None \<Rightarrow> (Inl NO_REFRESH_TOKEN, s)
           | Some refresh_token \<Rightarrow>
               (case renew E (siwc_request meta refresh_token latest) s of
                  (Inr (Some t), s) \<Rightarrow>
                    (case keep_credential E account_id
                       (new_credential latest (st_access t) (Some (st_refresh t)) (Some (rs_now s + st_expires_in t)))
                       (Some (renewed_meta meta t)) s of
                       (Inl e, s) \<Rightarrow> (Inl e, s)
                     | (Inr _, s) \<Rightarrow> (Inr (resolved account_id (st_access t)), s))
                | (Inr None, s) \<Rightarrow> (Inr (resolved account_id (so_access latest)), s)
                | (Inl SignInExpired, s) \<Rightarrow>
                    let why = account_id @ [CHR 0x27] @ ''s ChatGPT sign-in has expired '' @ em_dash @ '' sign in again'' in
                    (Inl (AccountRevoked account_id why), snd (mark_revoked E account_id why s))
                | (Inl e, s) \<Rightarrow> (Inl (RefreshFailed (siwc_error_text e)), s))))"

definition refresh_stored ::
  "account_env \<Rightarrow> string \<Rightarrow> StoredOAuth \<Rightarrow> resolver \<Rightarrow> (AccountError + ResolvedAccount) \<times> resolver" where
  "refresh_stored E account_id latest s =
     (let provider = account_provider account_id in
      if provider = ''chatgpt-api'' then refresh_siwc E account_id latest s
      else if provider \<noteq> ''gemini'' \<and> provider \<noteq> ''codex'' then (Inl (UnsupportedProvider account_id), s)
      else case so_refresh latest of
             None \<Rightarrow> (Inl NO_REFRESH_TOKEN, s)
           | Some refresh_token \<Rightarrow>
               let url = (if provider = ''gemini'' then ae_token_url E else ae_codex_url E);
                   (content_type, body) = refresh_form E provider refresh_token;
                   (reply, s) = post_form E url content_type body s in
               case refresh_answer E reply of
                 Inl e \<Rightarrow> (Inl e, s)
               | Inr r \<Rightarrow> refreshed E account_id latest r s)"

section \<open>Resolving\<close>

text \<open>A credential that another task or process has rotated, or that a winner has refreshed, is used as it is.\<close>

definition settled :: "int \<Rightarrow> StoredOAuth \<Rightarrow> StoredOAuth \<Rightarrow> bool" where
  "settled now seen latest \<longleftrightarrow> so_refresh latest \<noteq> so_refresh seen \<or> \<not> expired now (so_expires latest)"

definition resolve_locked ::
  "account_env \<Rightarrow> string \<Rightarrow> StoredOAuth \<Rightarrow> resolver \<Rightarrow> (AccountError + ResolvedAccount) \<times> resolver" where
  "resolve_locked E account_id seen s =
     (case read_oauth E account_id s of
        (Inl e, s) \<Rightarrow> (Inl e, s)
      | (Inr latest, s) \<Rightarrow>
          if settled (rs_now s) seen latest then use_stored account_id latest s
          else case ae_lock E account_id s of
                 (Inl e, s) \<Rightarrow> (Inl (LockFailure e), s)
               | (Inr _, s) \<Rightarrow>
                   (case read_oauth E account_id s of
                      (Inl e, s) \<Rightarrow> (Inl e, s)
                    | (Inr latest, s) \<Rightarrow>
                        if settled (rs_now s) seen latest then use_stored account_id latest s
                        else refresh_stored E account_id latest s))"

definition resolve :: "account_env \<Rightarrow> string \<Rightarrow> resolver \<Rightarrow> (AccountError + ResolvedAccount) \<times> resolver" where
  "resolve E account_id s =
     (case revoked_entry E account_id s of
        (Some entry, s) \<Rightarrow> (Inl (AccountRevoked account_id (rv_why entry)), s)
      | (None, s) \<Rightarrow>
          (case opt_filter (\<lambda>(_, expires). \<not> expired (rs_now s) expires) (fmlookup (rs_cache s) account_id) of
             Some (token, _) \<Rightarrow> (Inr (resolved account_id token), s)
           | None \<Rightarrow>
               (case read_oauth E account_id s of
                  (Inl e, s) \<Rightarrow> (Inl e, s)
                | (Inr stored, s) \<Rightarrow>
                    if \<not> expired (rs_now s) (so_expires stored) then use_stored account_id stored s
                    else resolve_locked E account_id stored (ae_flight E account_id s))))"

definition force_refresh :: "account_env \<Rightarrow> string \<Rightarrow> resolver \<Rightarrow> (AccountError + ResolvedAccount) \<times> resolver" where
  "force_refresh E account_id s =
     (case revoked_entry E account_id s of
        (Some entry, s) \<Rightarrow> (Inl (AccountRevoked account_id (rv_why entry)), s)
      | (None, s) \<Rightarrow>
          (case read_oauth E account_id (ae_flight E account_id s) of
             (Inl e, s) \<Rightarrow> (Inl e, s)
           | (Inr baseline, s) \<Rightarrow>
               (case ae_lock E account_id s of
                  (Inl e, s) \<Rightarrow> (Inl (LockFailure e), s)
                | (Inr _, s) \<Rightarrow>
                    (case read_oauth E account_id s of
                       (Inl e, s) \<Rightarrow> (Inl e, s)
                     | (Inr latest, s) \<Rightarrow>
                         if so_refresh latest \<noteq> so_refresh baseline then use_stored account_id latest s
                         else refresh_stored E account_id latest s))))"

section \<open>Sign-in and sign-out\<close>

definition store_sign_in :: "account_env \<Rightarrow> string \<Rightarrow> Credential \<Rightarrow> resolver \<Rightarrow> (AccountError + unit) \<times> resolver" where
  "store_sign_in E account_id cred s =
     (let s = (case cred of
                 OAuthCred oa _ \<Rightarrow> acct_cache_put account_id (so_access oa) (so_expires oa) s
               | ApiKeyCred _ \<Rightarrow> s) in
      case on_disk (secrets_put (ae_secrets E) (ae_path E) account_id cred) s of
        (Inl e, s) \<Rightarrow> (Inl (AccountStore e), s)
      | (Inr _, s) \<Rightarrow> clear_revoked E account_id s)"

definition delete_stored :: "account_env \<Rightarrow> string \<Rightarrow> resolver \<Rightarrow> (AccountError + unit) \<times> resolver" where
  "delete_stored E account_id s =
     (case on_disk (secrets_delete (ae_secrets E) (ae_path E) account_id)
        (s\<lparr>rs_cache := fmdrop account_id (rs_cache s)\<rparr>) of
        (Inl e, s) \<Rightarrow> (Inl (AccountStore e), s)
      | (Inr _, s) \<Rightarrow> (Inr (), s))"

fun list_each ::
  "DiskMap store_json \<Rightarrow> string \<Rightarrow> string list \<Rightarrow> disk \<Rightarrow> (SecretStoreError + (string \<times> Credential) list) \<times> disk" where
  "list_each j path [] d = (Inr [], d)"
| "list_each j path (account_id # ids) d =
     (case secrets_get j path account_id d of
        (Inl e, d) \<Rightarrow> (Inl e, d)
      | (Inr c, d) \<Rightarrow>
          (case list_each j path ids d of
             (Inl e, d) \<Rightarrow> (Inl e, d)
           | (Inr rows, d) \<Rightarrow> (Inr (case c of Some cred \<Rightarrow> (account_id, cred) # rows | None \<Rightarrow> rows), d)))"

definition list_credentials ::
  "account_env \<Rightarrow> resolver \<Rightarrow> (SecretStoreError + (string \<times> Credential) list) \<times> resolver" where
  "list_credentials E s =
     on_disk (\<lambda>d. case secrets_list (ae_secrets E) (ae_path E) d of
                    (Inl e, d) \<Rightarrow> (Inl e, d)
                  | (Inr ids, d) \<Rightarrow> list_each (ae_secrets E) (ae_path E) ids d) s"

section \<open>Over a store that holds a map\<close>

abbreviation holds_secrets :: "account_env \<Rightarrow> resolver \<Rightarrow> DiskMap \<Rightarrow> bool" where
  "holds_secrets E s m \<equiv> store_holds (ae_secrets E) (ae_path E) (rs_disk s) m"

definition oauth_of :: "DiskMap \<Rightarrow> string \<Rightarrow> AccountError + StoredOAuth" where
  "oauth_of m account_id =
     (case fmlookup m account_id of
        None \<Rightarrow> Inl (NotSignedIn account_id)
      | Some (OAuthCred oa None) \<Rightarrow> Inr oa
      | Some _ \<Rightarrow> Inl (NotOAuth account_id))"

lemma read_oauth_held: "holds_secrets E s m \<Longrightarrow> read_oauth E account_id s = (oauth_of m account_id, s)"
  by (simp add: read_oauth_def on_disk_def secrets.get_map oauth_of_def split: option.split Credential.split)

lemma keep_credential_held:
  assumes "holds_secrets E s m" and "reads_back (ae_secrets E) (fmupd account_id (OAuthCred oa meta) m)"
  obtains s' where "keep_credential E account_id oa meta s = (Inr (), s')"
    "holds_secrets E s' (fmupd account_id (OAuthCred oa meta) m)"
    "fmlookup (rs_cache s') account_id = Some (so_access oa, so_expires oa)" "rs_sent s' = rs_sent s"
    "rs_now s' = rs_now s"
proof -
  obtain d' where d: "secrets_put (ae_secrets E) (ae_path E) account_id (OAuthCred oa meta) (rs_disk s) = (Inr (), d')"
    "store_holds (ae_secrets E) (ae_path E) d' (fmupd account_id (OAuthCred oa meta) m)"
    using secrets.put_map [OF assms] by blast
  define s' where "s' = acct_cache_put account_id (so_access oa) (so_expires oa) (s\<lparr>rs_disk := d'\<rparr>)"
  with d have "keep_credential E account_id oa meta s = (Inr (), s')" by (simp add: keep_credential_def on_disk_def)
  then show ?thesis by (rule that) (simp_all add: s'_def acct_cache_put_def d(2))
qed

section \<open>A revoked account goes nowhere\<close>

text \<open>The reading of the marker neither writes nor sends.\<close>

lemma load_map_files: "load_map j path d = (m, d') \<Longrightarrow> files d' = files d"
  by (auto simp: load_map_def split: prod.splits sum.splits dest!: fs_readD)

lemma on_diskE:
  assumes "on_disk f s = (r, s')"
  obtains d' where "f (rs_disk s) = (r, d')" "s' = s\<lparr>rs_disk := d'\<rparr>"
  using assms by (cases "f (rs_disk s)") (simp add: on_disk_def)

lemma revoked_entry_reads:
  assumes "revoked_entry E account_id s = (r, s')"
  shows "rs_sent s' = rs_sent s \<and> files (rs_disk s') = files (rs_disk s) \<and> rs_now s' = rs_now s"
  using assms
  by (auto simp: revoked_entry_def Let_def split: if_splits prod.splits elim!: on_diskE dest!: load_map_files)

text \<open>A process whose view of the file is older than the marker.\<close>

definition sees_file :: "resolver \<Rightarrow> resolver \<Rightarrow> bool" where
  "sees_file s1 s \<longleftrightarrow> rs_disk s = rs_disk s1 \<and> rs_disk_mtime s = rs_disk_mtime s1 \<and> rs_mtime s \<noteq> rs_disk_mtime s1"

lemma save_revoked_done:
  assumes "save_revoked E m s = (Inr (), s')"
  shows "look (rs_disk s') (revoked_path E) = Some (to_vec_pretty (ae_revoked E) m)" "rs_revoked s' = m"
    "rs_mtime s' = rs_disk_mtime s'"
  using assms
  by (auto simp: save_revoked_def write_private_def split: prod.splits sum.splits elim!: on_diskE dest!: fs_replaceD)

lemma marked_entry:
  assumes "mark_revoked E account_id why s = (Inr (), s1)"
  obtains m where "look (rs_disk s1) (revoked_path E) = Some (to_vec_pretty (ae_revoked E) m)" "rs_revoked s1 = m"
    "rs_mtime s1 = rs_disk_mtime s1" "map_option rv_why (fmlookup m account_id) = Some why"
proof -
  obtain m s0 where "save_revoked E (fmupd account_id \<lparr>rv_why = why, rv_at = rs_now s0\<rparr> m) s0 = (Inr (), s1)"
    using assms by (auto simp: mark_revoked_def split: prod.splits)
  note kept = save_revoked_done [OF this]
  show ?thesis by (rule that [OF kept]) simp
qed

lemma revoked_resolve:
  assumes "revoked_entry E account_id s = (Some entry, s')"
  shows "resolve E account_id s = (Inl (AccountRevoked account_id (rv_why entry)), s')"
    "force_refresh E account_id s = (Inl (AccountRevoked account_id (rv_why entry)), s')"
  by (simp_all add: resolve_def force_refresh_def assms)

text \<open>C22: once an account is marked revoked, no process that shares the files resolves or refreshes it: the process
  that marked it and every process that last looked before answer with the reason, post nothing and change no file.\<close>

theorem revoked_account_goes_nowhere:
  assumes "mark_revoked E account_id why s = (Inr (), s1)"
    and "reads_back (ae_revoked E) (rs_revoked s1)" and "faults (rs_disk s1) = []"
    and "s2 = s1 \<or> sees_file s1 s2"
  shows "fst (resolve E account_id s2) = Inl (AccountRevoked account_id why) \<and>
    fst (force_refresh E account_id s2) = Inl (AccountRevoked account_id why) \<and>
    rs_sent (snd (resolve E account_id s2)) = rs_sent s2 \<and> rs_sent (snd (force_refresh E account_id s2)) = rs_sent s2 \<and>
    files (rs_disk (snd (resolve E account_id s2))) = files (rs_disk s2)"
proof -
  obtain m where m: "look (rs_disk s1) (revoked_path E) = Some (to_vec_pretty (ae_revoked E) m)" "rs_revoked s1 = m"
    "rs_mtime s1 = rs_disk_mtime s1" "map_option rv_why (fmlookup m account_id) = Some why"
    using marked_entry [OF assms(1)] by blast
  then obtain entry where e: "fmlookup m account_id = Some entry" "rv_why entry = why" by auto
  have "load_map (ae_revoked E) (revoked_path E) (rs_disk s1) = (m, rs_disk s1)"
    using m(1,2) assms(2,3) by (simp add: load_map_def fs_read_calm reads_back_def)
  then obtain s' where r: "revoked_entry E account_id s2 = (Some entry, s')"
    using assms(4) m e by (auto simp: revoked_entry_def sees_file_def on_disk_def)
  show ?thesis using revoked_entry_reads [OF r] revoked_resolve [OF r] e(2) by simp
qed

definition sample_marked :: revoked_map where
  "sample_marked = fmupd ''gemini:a'' \<lparr>rv_why = ''reused'', rv_at = 7\<rparr> fmempty"

definition sample_account_env :: account_env where
  "sample_account_env =
     \<lparr>ae_path = ''d/secrets.json'', ae_siwc_path = ''d/siwc.json'', ae_secrets = sample_secrets,
      ae_siwc = \<lparr>from_slice = (\<lambda>_. None), to_vec_pretty = (\<lambda>_. [])\<rparr>,
      ae_revoked = \<lparr>from_slice = (\<lambda>b. if b = ''R'' then Some sample_marked else None), to_vec_pretty = (\<lambda>_. ''R'')\<rparr>,
      ae_adopted = \<lparr>from_slice = (\<lambda>_. None), to_vec_pretty = (\<lambda>_. [])\<rparr>,
      ae_serde = sample_auth_serde, ae_pretty = (\<lambda>_. ''B''), ae_toml = (\<lambda>_. Inr None),
      ae_refresh_reply = (\<lambda>_. Inl ''bad''), ae_siwc_reply = (\<lambda>_. Inl ''bad''), ae_token_url = ''t'', ae_codex_url = ''c'',
      ae_siwc_url = ''s'', ae_siwc_api = ''a'', ae_client = (''id'', ''pw''), ae_flight = (\<lambda>_ s. s),
      ae_lock = (\<lambda>_ s. (Inr (), s)), ae_http = (\<lambda>_ _ _ s. (Inl ''down'', s)),
      ae_codex_lock = (\<lambda>_ s. (Inr (), s)), ae_time_text = (\<lambda>_. ''now'')\<rparr>"

definition sample_resolver :: resolver where
  "sample_resolver =
     \<lparr>rs_disk = \<lparr>files = fmempty, faults = [], clock = 0\<rparr>, rs_now = 7, rs_cache = fmempty, rs_revoked = fmempty,
      rs_mtime = None, rs_disk_mtime = None, rs_stamp = 1, rs_sent = []\<rparr>"

definition sample_after_mark :: resolver where
  "sample_after_mark = snd (mark_revoked sample_account_env ''gemini:a'' ''reused'' sample_resolver)"

lemma sample_mark:
  "mark_revoked sample_account_env ''gemini:a'' ''reused'' sample_resolver =
     (Inr (), sample_resolver\<lparr>rs_disk := \<lparr>files = fmupd ''d/revoked.json'' ''R'' fmempty, faults = [], clock = 0\<rparr>,
        rs_revoked := sample_marked, rs_mtime := Some 1, rs_disk_mtime := Some 1, rs_stamp := 2\<rparr>)"
  by (simp add: mark_revoked_def on_disk_def load_map_def sample_account_env_def sample_resolver_def fs_read_calm
      revoked_path_def sibling_def rsplit_once_def save_revoked_def write_private_def fs_replace_calm sample_marked_def)

theorem revoked_account_goes_nowhere_witness:
  "fst (resolve sample_account_env ''gemini:a'' (sample_after_mark\<lparr>rs_mtime := None\<rparr>)) =
     Inl (AccountRevoked ''gemini:a'' ''reused'')"
proof -
  have m: "mark_revoked sample_account_env ''gemini:a'' ''reused'' sample_resolver = (Inr (), sample_after_mark)"
    by (simp add: sample_after_mark_def sample_mark)
  have "reads_back (ae_revoked sample_account_env) (rs_revoked sample_after_mark)"
    "faults (rs_disk sample_after_mark) = []" "sees_file sample_after_mark (sample_after_mark\<lparr>rs_mtime := None\<rparr>)"
    by (simp_all add: sample_after_mark_def sample_mark sees_file_def)
      (simp_all add: reads_back_def sample_account_env_def)
  with revoked_account_goes_nowhere [OF m] show ?thesis by blast
qed

section \<open>A refresh is kept\<close>

lemma refreshed_kept:
  assumes "holds_secrets E s m"
    and new: "new = new_credential latest (rr_access r) (or_else (rr_refresh r) (so_refresh latest))
      (refreshed_expiry (ae_serde E) (account_provider account_id) (rs_now s) r)"
    and "reads_back (ae_secrets E) (fmupd account_id (OAuthCred new None) m)"
  obtains s1 u where "refreshed E account_id latest r s = (Inr (resolved account_id (rr_access r)), write_back E account_id u s1)"
    "read_oauth E account_id s1 = (Inr new, s1)" "fmlookup (rs_cache s1) account_id = Some (rr_access r, so_expires new)"
    "tu_access u = rr_access r" "or_else (rr_refresh r) (so_refresh latest) = Some rt \<Longrightarrow> tu_refresh u = rt"
proof -
  obtain s1 where s1: "keep_credential E account_id new None s = (Inr (), s1)"
    "holds_secrets E s1 (fmupd account_id (OAuthCred new None) m)"
    "fmlookup (rs_cache s1) account_id = Some (so_access new, so_expires new)"
    using keep_credential_held [OF assms(1,3)] by metis
  moreover have "so_access new = rr_access r" by (simp add: new new_credential_def)
  ultimately show ?thesis
    by (intro that [of "\<lparr>tu_access = rr_access r, tu_refresh = unwrap_or [] (or_else (rr_refresh r) (so_refresh latest)),
          tu_id_token = rr_id_token r\<rparr>" s1])
      (simp_all add: refreshed_def Let_def read_oauth_held oauth_of_def flip: new)
qed

text \<open>
  A renewal of a ChatGPT account keeps its client id in the entry of the account, and \<open>read_oauth\<close> takes no entry that
  has one: from then on the account cannot be resolved from the store.  A refresh that is forced because the endpoint
  has refused the token asks nobody while the token has more than three minutes left, and gives the same token back.
\<close>

lemma siwc_forced_refresh_locks_out:
  assumes "holds_secrets E s m" and "fmlookup m account_id = Some (OAuthCred oa None)"
    and "so_refresh oa = Some rt" and "so_expires oa = Some at" and "rs_now s + SIWC_MARGIN < at"
    and "siwc_meta_of E account_id s = (Some meta, s)"
    and "\<forall>m. reads_back (ae_secrets E) m"
  obtains s' where "refresh_siwc E account_id oa s = (Inr (resolved account_id (so_access oa)), s')"
    "rs_sent s' = rs_sent s" "read_oauth E account_id s' = (Inl (NotOAuth account_id), s')"
proof -
  let ?r = "siwc_request meta rt oa"
  let ?t = "renew_kept (rs_now s) ?r"
  let ?new = "new_credential oa (st_access ?t) (Some (st_refresh ?t)) (Some (rs_now s + st_expires_in ?t))"
  let ?meta = "Some (renewed_meta meta ?t)"
  have "renew_fresh (rs_now s) ?r"
    using assms(4,5) by (simp add: renew_fresh_def siwc_request_def)
  then have r: "renew E ?r s = (Inr (Some ?t), s)" by (simp add: renew_def)
  obtain s1 where s1: "keep_credential E account_id ?new ?meta s = (Inr (), s1)"
    "holds_secrets E s1 (fmupd account_id (OAuthCred ?new ?meta) m)" "rs_sent s1 = rs_sent s"
    using keep_credential_held [OF assms(1)] assms(7) by metis
  have "st_access ?t = so_access oa" by (simp add: renew_kept_def siwc_request_def)
  with r s1 assms(3,6) have "refresh_siwc E account_id oa s = (Inr (resolved account_id (so_access oa)), s1)"
    by (simp add: refresh_siwc_def)
  moreover have "read_oauth E account_id s1 = (Inl (NotOAuth account_id), s1)"
    by (simp add: read_oauth_held [OF s1(2)] oauth_of_def)
  ultimately show ?thesis using s1(3) that by blast
qed

text \<open>An Antigravity account signs in and is asked about its project, but cannot be refreshed.\<close>

lemma antigravity_not_refreshed:
  "account_provider account_id = ''antigravity'' \<Longrightarrow>
   refresh_stored E account_id oa s = (Inl (UnsupportedProvider account_id), s)"
  by (simp add: refresh_stored_def)

text \<open>When the store cannot be written, the rotated refresh token is neither in the store nor in the cache.\<close>

lemma failed_put_loses_token:
  assumes "fst (secrets_put (ae_secrets E) (ae_path E) account_id
      (OAuthCred (new_credential latest (rr_access r) (or_else (rr_refresh r) (so_refresh latest))
        (refreshed_expiry (ae_serde E) (account_provider account_id) (rs_now s) r)) None) (rs_disk s)) = Inl e"
  shows "fst (refreshed E account_id latest r s) = Inl (AccountStore e) \<and>
    rs_cache (snd (refreshed E account_id latest r s)) = rs_cache s"
  using assms by (auto simp: refreshed_def Let_def keep_credential_def on_disk_def split: prod.splits sum.splits)

end
