(* ===== verification/Account_Flight.thy ===== *)
theory Account_Flight
  imports Accounts
begin

text \<open>
  Concurrent calls of the account resolver in several processes that share one credential store: a step relation over
  the calls of \<open>Accounts\<close>, in which any call may move next.  The single-flight lock of a process is held by the call
  that has entered, the lock file by the call that sends or stores; the token endpoint answers as it likes, and sign-ins
  and sign-outs change the store without any lock.  The lemmas show that no refresh token is sent again once the
  endpoint has replaced it, as long as none of four mishaps happens, and that one mishap is enough to send it again.
\<close>

section \<open>Calls\<close>

datatype phase =
    Arriving bool
  | Queued "StoredOAuth option"
  | Entered StoredOAuth bool
  | Sending StoredOAuth
  | Storing StoredOAuth
  | Left

record call =
  c_proc :: nat
  c_acct :: string
  c_phase :: phase

text \<open>The replaced refresh tokens, latest first, and the number of mishaps.\<close>

record cluster =
  cl_store :: "string \<rightharpoonup> StoredOAuth"
  cl_calls :: "call list"
  cl_now :: int
  cl_spent :: "string list"
  cl_mishaps :: nat

definition has_flight :: "call \<Rightarrow> bool" where
  "has_flight c = (case c_phase c of Entered _ _ \<Rightarrow> True | Sending _ \<Rightarrow> True | Storing _ \<Rightarrow> True | _ \<Rightarrow> False)"

definition has_lock :: "call \<Rightarrow> bool" where
  "has_lock c = (case c_phase c of Sending _ \<Rightarrow> True | Storing _ \<Rightarrow> True | _ \<Rightarrow> False)"

definition flight_free :: "cluster \<Rightarrow> call \<Rightarrow> bool" where
  "flight_free s c \<longleftrightarrow>
     \<not> list_ex (\<lambda>x. has_flight x \<and> c_proc x = c_proc c \<and> c_acct x = c_acct c) (cl_calls s)"

definition lock_free :: "cluster \<Rightarrow> bool" where
  "lock_free s \<longleftrightarrow> filter has_lock (cl_calls s) = []"

definition at_phase :: "cluster \<Rightarrow> nat \<Rightarrow> call \<Rightarrow> phase \<Rightarrow> bool" where
  "at_phase s i c ph \<longleftrightarrow> i < length (cl_calls s) \<and> cl_calls s ! i = c \<and> c_phase c = ph"

definition goto :: "nat \<Rightarrow> phase \<Rightarrow> cluster \<Rightarrow> cluster" where
  "goto i ph s = s\<lparr>cl_calls := (cl_calls s)[i := (cl_calls s ! i)\<lparr>c_phase := ph\<rparr>]\<rparr>"

text \<open>A token the endpoint issues is new to everyone.\<close>

definition unseen :: "cluster \<Rightarrow> string \<Rightarrow> bool" where
  "unseen s rt \<longleftrightarrow> rt \<notin> set (cl_spent s) \<and>
     (\<forall>a oa. cl_store s a = Some oa \<longrightarrow> so_refresh oa \<noteq> Some rt) \<and>
     (\<forall>c oa. c \<in> set (cl_calls s) \<longrightarrow> c_phase c \<in> {Sending oa, Storing oa} \<longrightarrow> so_refresh oa \<noteq> Some rt)"

definition moved_on :: "cluster \<Rightarrow> bool \<Rightarrow> StoredOAuth \<Rightarrow> StoredOAuth \<Rightarrow> bool" where
  "moved_on s forced seen latest =
     (if forced then so_refresh latest \<noteq> so_refresh seen else settled (cl_now s) seen latest)"

definition mishap :: "cluster \<Rightarrow> cluster" where
  "mishap s = s\<lparr>cl_mishaps := Suc (cl_mishaps s)\<rparr>"

section \<open>Steps\<close>

text \<open>
  A call leaves with a token, an error or a timeout at any point before the endpoint has answered.  The mishaps: the
  lock is taken over from a call that still holds it, an answer is lost, the store cannot be written, and a writer
  that holds no lock puts an older credential back.
\<close>

inductive cl_step :: "cluster \<Rightarrow> cluster \<Rightarrow> bool" where
  tick: "0 \<le> dt \<Longrightarrow> cl_step s (s\<lparr>cl_now := cl_now s + dt\<rparr>)"
| arrive: "cl_step s (s\<lparr>cl_calls := cl_calls s @ [\<lparr>c_proc = p, c_acct = a, c_phase = Arriving forced\<rparr>]\<rparr>)"
| leave: "at_phase s i c ph \<Longrightarrow> \<forall>oa. ph \<noteq> Storing oa \<Longrightarrow> cl_step s (goto i Left s)"
| queue: "at_phase s i c (Arriving False) \<Longrightarrow> cl_store s (c_acct c) = Some oa \<Longrightarrow> expired (cl_now s) (so_expires oa) \<Longrightarrow>
    cl_step s (goto i (Queued (Some oa)) s)"
| force: "at_phase s i c (Arriving True) \<Longrightarrow> cl_step s (goto i (Queued None) s)"
| enter: "at_phase s i c (Queued (Some seen)) \<Longrightarrow> flight_free s c \<Longrightarrow> cl_store s (c_acct c) = Some latest \<Longrightarrow>
    \<not> settled (cl_now s) seen latest \<Longrightarrow> cl_step s (goto i (Entered seen False) s)"
| enter_forced: "at_phase s i c (Queued None) \<Longrightarrow> flight_free s c \<Longrightarrow> cl_store s (c_acct c) = Some latest \<Longrightarrow>
    cl_step s (goto i (Entered latest True) s)"
| lock: "at_phase s i c (Entered seen forced) \<Longrightarrow> lock_free s \<Longrightarrow> cl_store s (c_acct c) = Some latest \<Longrightarrow>
    \<not> moved_on s forced seen latest \<Longrightarrow> so_refresh latest \<noteq> None \<Longrightarrow> cl_step s (goto i (Sending latest) s)"
| rotated: "at_phase s i c (Sending latest) \<Longrightarrow> so_refresh latest = Some rt \<Longrightarrow> unseen s new \<Longrightarrow>
    cl_step s (goto i (Storing (new_credential latest access (Some new) expires)) (s\<lparr>cl_spent := rt # cl_spent s\<rparr>))"
| kept: "at_phase s i c (Sending latest) \<Longrightarrow>
    cl_step s (goto i (Storing (new_credential latest access (so_refresh latest) expires)) s)"
| stored: "at_phase s i c (Storing oa) \<Longrightarrow> cl_step s (goto i Left (s\<lparr>cl_store := (cl_store s)(c_acct c \<mapsto> oa)\<rparr>))"
| sign_in: "\<forall>rt. so_refresh oa = Some rt \<longrightarrow> unseen s rt \<Longrightarrow> cl_step s (s\<lparr>cl_store := (cl_store s)(a \<mapsto> oa)\<rparr>)"
| sign_out: "cl_step s (s\<lparr>cl_store := (cl_store s)(a := None)\<rparr>)"
| taken_over: "at_phase s i c (Entered seen forced) \<Longrightarrow> cl_store s (c_acct c) = Some latest \<Longrightarrow>
    \<not> moved_on s forced seen latest \<Longrightarrow> cl_step s (mishap (goto i (Sending latest) s))"
| answer_lost: "at_phase s i c (Sending latest) \<Longrightarrow> so_refresh latest = Some rt \<Longrightarrow>
    cl_step s (mishap (goto i Left (s\<lparr>cl_spent := rt # cl_spent s\<rparr>)))"
| put_failed: "at_phase s i c (Storing oa) \<Longrightarrow> cl_step s (mishap (goto i Left s))"
| reverted: "cl_step s (mishap (s\<lparr>cl_store := (cl_store s)(a \<mapsto> oa)\<rparr>))"

inductive_cases cl_stepE: "cl_step s s'"

definition cl_init :: "(string \<rightharpoonup> StoredOAuth) \<Rightarrow> int \<Rightarrow> cluster" where
  "cl_init store now = \<lparr>cl_store = store, cl_calls = [], cl_now = now, cl_spent = [], cl_mishaps = 0\<rparr>"

section \<open>The invariant\<close>

text \<open>The refresh token of an account, and the accounts in which a token is not yet replaced.\<close>

definition token_of :: "cluster \<Rightarrow> string \<Rightarrow> string option" where
  "token_of s a = Option.bind (cl_store s a) so_refresh"

definition own_token :: "(string \<rightharpoonup> string) \<Rightarrow> string list \<Rightarrow> string \<Rightarrow> StoredOAuth \<Rightarrow> bool" where
  "own_token tok spent a oa \<longleftrightarrow>
     (\<forall>rt. so_refresh oa = Some rt \<longrightarrow> rt \<notin> set spent \<and> (\<forall>b. b \<noteq> a \<longrightarrow> tok b \<noteq> Some rt))"

definition clean_but :: "(string \<rightharpoonup> string) \<Rightarrow> string list \<Rightarrow> string set \<Rightarrow> bool" where
  "clean_but tok spent A \<longleftrightarrow> (\<forall>a rt. tok a = Some rt \<longrightarrow> a \<notin> A \<longrightarrow> rt \<notin> set spent)"

fun locked_ok :: "(string \<rightharpoonup> string) \<Rightarrow> string list \<Rightarrow> call list \<Rightarrow> bool" where
  "locked_ok tok spent [] = clean_but tok spent {}"
| "locked_ok tok spent [c] =
     (case c_phase c of
        Sending oa \<Rightarrow> clean_but tok spent {} \<and> own_token tok spent (c_acct c) oa
      | Storing oa \<Rightarrow> clean_but tok spent {c_acct c} \<and> own_token tok spent (c_acct c) oa
      | _ \<Rightarrow> False)"
| "locked_ok tok spent _ = False"

definition one_owner :: "(string \<rightharpoonup> string) \<Rightarrow> bool" where
  "one_owner tok \<longleftrightarrow> (\<forall>a b rt. tok a = Some rt \<longrightarrow> tok b = Some rt \<longrightarrow> a = b)"

definition cl_inv :: "cluster \<Rightarrow> bool" where
  "cl_inv s \<longleftrightarrow> one_owner (token_of s) \<and> distinct (cl_spent s) \<and>
     locked_ok (token_of s) (cl_spent s) (filter has_lock (cl_calls s))"

lemma filter_update:
  assumes "i < length xs"
  shows "filter P (xs[i := y]) = filter P (take i xs) @ (if P y then [y] else []) @ filter P (drop (Suc i) xs)"
    and "filter P xs = filter P (take i xs) @ (if P (xs ! i) then [xs ! i] else []) @ filter P (drop (Suc i) xs)"
proof -
  show "filter P (xs[i := y]) = filter P (take i xs) @ (if P y then [y] else []) @ filter P (drop (Suc i) xs)"
    using assms by (simp add: upd_conv_take_nth_drop)
  have "xs = take i xs @ xs ! i # drop (Suc i) xs" using assms by (simp add: id_take_nth_drop)
  from arg_cong [OF this, of "filter P"]
  show "filter P xs = filter P (take i xs) @ (if P (xs ! i) then [xs ! i] else []) @ filter P (drop (Suc i) xs)"
    by (simp only: filter_append filter.simps append_Cons append_Nil split: if_split) simp
qed

text \<open>The calls that hold the lock, when one call moves.\<close>

abbreviation holders :: "cluster \<Rightarrow> call list" where
  "holders s \<equiv> filter has_lock (cl_calls s)"

lemma holders_goto:
  assumes "at_phase s i c ph"
  shows "\<not> has_lock c \<Longrightarrow> \<not> has_lock (c\<lparr>c_phase := ph'\<rparr>) \<Longrightarrow> holders (goto i ph' s) = holders s"
    and "lock_free s \<Longrightarrow> has_lock (c\<lparr>c_phase := ph'\<rparr>) \<Longrightarrow> holders (goto i ph' s) = [c\<lparr>c_phase := ph'\<rparr>]"
    and "has_lock c \<Longrightarrow> length (holders s) \<le> 1 \<Longrightarrow>
         holders s = [c] \<and> holders (goto i ph' s) = (if has_lock (c\<lparr>c_phase := ph'\<rparr>) then [c\<lparr>c_phase := ph'\<rparr>] else [])"
  using assms filter_update(1) [of i "cl_calls s" has_lock "c\<lparr>c_phase := ph'\<rparr>"] filter_update(2) [of i "cl_calls s" has_lock]
  by (auto simp: at_phase_def goto_def lock_free_def split: if_splits)

lemma goto_simps [simp]:
  "cl_store (goto i ph s) = cl_store s" "cl_spent (goto i ph s) = cl_spent s" "cl_mishaps (goto i ph s) = cl_mishaps s"
  "token_of (goto i ph s) = token_of s" "cl_mishaps (mishap s) = Suc (cl_mishaps s)"
  by (simp_all add: goto_def token_of_def mishap_def fun_eq_iff)

lemma token_of_simps [simp]:
  "token_of (s\<lparr>cl_spent := sp\<rparr>) = token_of s" "token_of (s\<lparr>cl_calls := cs\<rparr>) = token_of s"
  "token_of (s\<lparr>cl_now := n\<rparr>) = token_of s"
  "token_of (s\<lparr>cl_store := (cl_store s)(a := v)\<rparr>) = (token_of s)(a := Option.bind v so_refresh)"
  by (simp_all add: token_of_def fun_eq_iff)

lemma locked_ok_length: "locked_ok tok spent cs \<Longrightarrow> length cs \<le> 1"
  by (induction tok spent cs rule: locked_ok.induct) simp_all

lemma cl_invD:
  assumes "cl_inv s"
  shows "one_owner (token_of s)" "distinct (cl_spent s)" "locked_ok (token_of s) (cl_spent s) (holders s)"
    "length (holders s) \<le> 1"
  using assms locked_ok_length by (auto simp: cl_inv_def)

lemma cl_inv_same:
  "cl_inv s \<Longrightarrow> token_of s' = token_of s \<Longrightarrow> cl_spent s' = cl_spent s \<Longrightarrow> holders s' = holders s \<Longrightarrow> cl_inv s'"
  by (simp add: cl_inv_def)

lemma at_phase_lock: "at_phase s i c ph \<Longrightarrow> has_lock c = (case ph of Sending _ \<Rightarrow> True | Storing _ \<Rightarrow> True | _ \<Rightarrow> False)"
  by (auto simp: at_phase_def has_lock_def)

lemma has_lock_phase [simp]:
  "has_lock (c\<lparr>c_phase := ph\<rparr>) = (case ph of Sending _ \<Rightarrow> True | Storing _ \<Rightarrow> True | _ \<Rightarrow> False)"
  by (simp add: has_lock_def)

lemma cl_inv_quiet:
  assumes "cl_inv s" and "at_phase s i c ph" and "\<not> has_lock c" and "\<not> has_lock (c\<lparr>c_phase := ph'\<rparr>)"
  shows "cl_inv (goto i ph' s)"
  using cl_inv_same [OF assms(1)] holders_goto(1) [OF assms(2-4)] by simp

lemma cl_inv_arrive: "cl_inv s \<Longrightarrow> cl_inv (s\<lparr>cl_calls := cl_calls s @ [\<lparr>c_proc = p, c_acct = a, c_phase = Arriving f\<rparr>]\<rparr>)"
  by (erule cl_inv_same) (simp_all add: has_lock_def)

lemma cl_inv_leave:
  assumes "cl_inv s" and "at_phase s i c ph" and "\<forall>oa. ph \<noteq> Storing oa"
  shows "cl_inv (goto i Left s)"
proof (cases "has_lock c")
  case False
  then show ?thesis using cl_inv_quiet assms(1,2) by simp
next
  case True
  then obtain oa where "ph = Sending oa" using assms(3) at_phase_lock [OF assms(2)] by (cases ph) auto
  moreover have h: "holders s = [c]" "holders (goto i Left s) = []"
    using holders_goto(3) [OF assms(2) True cl_invD(4) [OF assms(1)], of Left] by simp_all
  ultimately show ?thesis using assms(1,2) by (simp add: cl_inv_def at_phase_def)
qed

lemma cl_inv_lock:
  assumes "cl_inv s" and "at_phase s i c (Entered seen forced)" and "lock_free s" and "cl_store s (c_acct c) = Some latest"
  shows "cl_inv (goto i (Sending latest) s)"
proof -
  have "holders (goto i (Sending latest) s) = [c\<lparr>c_phase := Sending latest\<rparr>]"
    using holders_goto(2) [OF assms(2,3)] by simp
  moreover have "clean_but (token_of s) (cl_spent s) {}" using cl_invD(3) [OF assms(1)] assms(3) by (simp add: lock_free_def)
  moreover have "token_of s (c_acct c) = so_refresh latest" using assms(4) by (simp add: token_of_def)
  ultimately show ?thesis
    using cl_invD(1,2) [OF assms(1)] by (auto simp: cl_inv_def own_token_def clean_but_def one_owner_def)
qed

lemma sending_holder:
  assumes "cl_inv s" and "at_phase s i c (Sending oa)"
  shows "holders s = [c]" "clean_but (token_of s) (cl_spent s) {}" "own_token (token_of s) (cl_spent s) (c_acct c) oa"
    "holders (goto i (Storing oa') s) = [c\<lparr>c_phase := Storing oa'\<rparr>]"
proof -
  have "has_lock c" using at_phase_lock [OF assms(2)] by simp
  note h = holders_goto(3) [OF assms(2) this cl_invD(4) [OF assms(1)], of "Storing oa'"]
  then show "holders s = [c]" "holders (goto i (Storing oa') s) = [c\<lparr>c_phase := Storing oa'\<rparr>]" by simp_all
  with cl_invD(3) [OF assms(1)] assms(2)
  show "clean_but (token_of s) (cl_spent s) {}" "own_token (token_of s) (cl_spent s) (c_acct c) oa"
    by (simp_all add: at_phase_def)
qed

lemma cl_inv_rotated:
  assumes "cl_inv s" and "at_phase s i c (Sending latest)" and "so_refresh latest = Some rt" and "unseen s new"
  shows "cl_inv (goto i (Storing (new_credential latest access (Some new) expires)) (s\<lparr>cl_spent := rt # cl_spent s\<rparr>))"
proof -
  let ?s = "s\<lparr>cl_spent := rt # cl_spent s\<rparr>"
  note h = sending_holder [OF assms(1,2)]
  have "at_phase ?s i c (Sending latest)" using assms(2) by (simp add: at_phase_def)
  then have "holders (goto i (Storing oa') ?s) = [c\<lparr>c_phase := Storing oa'\<rparr>]" for oa'
    using h(4) [of oa'] by (simp add: goto_def)
  moreover have "new \<noteq> rt" using assms(2-4) by (auto simp: unseen_def at_phase_def dest: nth_mem)
  moreover have "rt \<notin> set (cl_spent s)" "\<And>b. b \<noteq> c_acct c \<Longrightarrow> token_of s b \<noteq> Some rt"
    using h(3) assms(3) by (simp_all add: own_token_def)
  moreover have "new \<notin> set (cl_spent s)" "\<And>b. token_of s b \<noteq> Some new"
    using assms(4) by (auto simp: unseen_def token_of_def bind_eq_Some_conv)
  ultimately show ?thesis
    using h(2) cl_invD(1,2) [OF assms(1)]
    by (auto simp: cl_inv_def clean_but_def own_token_def new_credential_def)
qed

lemma cl_inv_kept:
  assumes "cl_inv s" and "at_phase s i c (Sending latest)"
  shows "cl_inv (goto i (Storing (new_credential latest access (so_refresh latest) expires)) s)"
  using sending_holder [OF assms] cl_invD(1,2) [OF assms(1)]
  by (auto simp: cl_inv_def clean_but_def own_token_def new_credential_def)

lemma cl_inv_stored:
  assumes "cl_inv s" and "at_phase s i c (Storing oa)"
  shows "cl_inv (goto i Left (s\<lparr>cl_store := (cl_store s)(c_acct c \<mapsto> oa)\<rparr>))"
proof -
  have "has_lock c" using at_phase_lock [OF assms(2)] by simp
  note h = holders_goto(3) [OF assms(2) this cl_invD(4) [OF assms(1)], of Left]
  then have "holders (goto i Left (s\<lparr>cl_store := st\<rparr>)) = []" for st by (simp add: goto_def)
  moreover have "clean_but (token_of s) (cl_spent s) {c_acct c}" "own_token (token_of s) (cl_spent s) (c_acct c) oa"
    using h cl_invD(3) [OF assms(1)] assms(2) by (simp_all add: at_phase_def)
  moreover have "clean_but ((token_of s)(c_acct c := so_refresh oa)) (cl_spent s) {}"
    if "clean_but (token_of s) (cl_spent s) {c_acct c}" "own_token (token_of s) (cl_spent s) (c_acct c) oa"
    using that by (auto simp: clean_but_def own_token_def)
  moreover have "one_owner ((token_of s)(c_acct c := so_refresh oa))" if "own_token (token_of s) (cl_spent s) (c_acct c) oa"
    using that cl_invD(1) [OF assms(1)] unfolding one_owner_def own_token_def fun_upd_apply by metis
  ultimately show ?thesis using cl_invD(2) [OF assms(1)] by (simp add: cl_inv_def)
qed

lemma locked_ok_mono:
  assumes "locked_ok tok spent cs"
    and "\<And>A. clean_but tok spent A \<Longrightarrow> clean_but tok' spent A"
    and "\<And>c oa. c \<in> set cs \<Longrightarrow> c_phase c \<in> {Sending oa, Storing oa} \<Longrightarrow>
        own_token tok spent (c_acct c) oa \<Longrightarrow> own_token tok' spent (c_acct c) oa"
  shows "locked_ok tok' spent cs"
  using assms by (cases "(tok, spent, cs)" rule: locked_ok.cases) (auto split: phase.splits)

text \<open>A sign-in brings a token nobody has, a sign-out removes one: what holds of the others stays.\<close>

lemma cl_inv_outside:
  assumes "cl_inv s" and "\<forall>rt. t = Some rt \<longrightarrow> unseen s rt"
    and "token_of s' = (token_of s)(a := t)" and "cl_spent s' = cl_spent s" and "cl_calls s' = cl_calls s"
  shows "cl_inv s'"
proof -
  have t: "rt \<notin> set (cl_spent s)" "token_of s b \<noteq> Some rt" if "t = Some rt" for rt b
    using that assms(2) by (auto simp: unseen_def token_of_def bind_eq_Some_conv)
  have "clean_but (token_of s') (cl_spent s) A" if "clean_but (token_of s) (cl_spent s) A" for A
    using that t(1) assms(3) by (auto simp: clean_but_def)
  moreover have "own_token (token_of s') (cl_spent s) (c_acct c) oa"
    if "c \<in> set (holders s)" "c_phase c \<in> {Sending oa, Storing oa}" "own_token (token_of s) (cl_spent s) (c_acct c) oa" for oa c
    using that assms(2,3) by (fastforce simp: own_token_def unseen_def)
  ultimately have "locked_ok (token_of s') (cl_spent s) (holders s)"
    using locked_ok_mono [OF cl_invD(3) [OF assms(1)]] by blast
  moreover have "one_owner (token_of s')" using cl_invD(1) [OF assms(1)] t(2) assms(3) by (auto simp: one_owner_def)
  ultimately show ?thesis using cl_invD(2) [OF assms(1)] assms(4,5) by (simp add: cl_inv_def)
qed

lemma cl_step_inv:
  assumes "cl_step s s'" and "cl_inv s" and "cl_mishaps s' = 0"
  shows "cl_inv s'"
  using assms(1)
proof (cases rule: cl_step.cases)
  case (tick dt)
  then show ?thesis using cl_inv_same [OF assms(2)] by simp
next
  case (sign_in oa a)
  then show ?thesis using cl_inv_outside [OF assms(2), of "so_refresh oa" s' a] by simp
next
  case (sign_out a)
  then show ?thesis using cl_inv_outside [OF assms(2), of None s' a] by simp
qed (use assms(2,3) in \<open>auto simp: at_phase_lock intro: cl_inv_arrive cl_inv_leave cl_inv_quiet cl_inv_lock cl_inv_rotated
      cl_inv_kept cl_inv_stored\<close>)

lemma mishaps_grow: "cl_step s s' \<Longrightarrow> cl_mishaps s \<le> cl_mishaps s'"
  by (cases rule: cl_step.cases) (auto simp: mishap_def)

lemma cl_reachable_inv:
  assumes "cl_step\<^sup>*\<^sup>* (cl_init store now) s" and "one_owner (\<lambda>a. Option.bind (store a) so_refresh)" and "cl_mishaps s = 0"
  shows "cl_inv s"
  using assms(1,3)
proof (induction rule: rtranclp_induct)
  case base
  have "token_of (cl_init store now) = (\<lambda>a. Option.bind (store a) so_refresh)"
    by (simp add: token_of_def cl_init_def fun_eq_iff)
  with assms(2) show ?case by (simp add: cl_inv_def) (simp add: cl_init_def clean_but_def)
next
  case (step s s')
  then have "cl_mishaps s = 0" using mishaps_grow [OF step.hyps(2)] by simp
  with step cl_step_inv show ?case by blast
qed

text \<open>C21: in every interleaving of resolves, forced refreshes, sign-ins and sign-outs of any number of processes, a
  refresh token is never sent again once the endpoint has replaced it, no two calls send or store at a time, and no
  token is replaced twice, as long as no lock is taken over, no answer is lost, no put fails and no older credential is
  put back.\<close>

theorem no_replaced_token_sent:
  assumes "cl_step\<^sup>*\<^sup>* (cl_init store now) s" and "one_owner (\<lambda>a. Option.bind (store a) so_refresh)" and "cl_mishaps s = 0"
    and "at_phase s i c (Sending oa)" and "so_refresh oa = Some rt"
  shows "rt \<notin> set (cl_spent s) \<and> holders s = [c] \<and> distinct (cl_spent s)"
proof -
  note inv = cl_reachable_inv [OF assms(1-3)]
  show ?thesis using sending_holder(1,3) [OF inv assms(4)] cl_invD(2) [OF inv] assms(5) by (simp add: own_token_def)
qed

section \<open>Runs\<close>

text \<open>In a state without any call under way, a forced refresh gets as far as the endpoint.\<close>

definition idle :: "cluster \<Rightarrow> bool" where
  "idle s \<longleftrightarrow> (\<forall>c \<in> set (cl_calls s). c_phase c = Left)"

definition with_call :: "string \<Rightarrow> phase \<Rightarrow> cluster \<Rightarrow> cluster" where
  "with_call a ph s = s\<lparr>cl_calls := cl_calls s @ [\<lparr>c_proc = 0, c_acct = a, c_phase = ph\<rparr>]\<rparr>"

lemma with_call_simps [simp]:
  "cl_store (with_call a ph s) = cl_store s" "cl_spent (with_call a ph s) = cl_spent s"
  "cl_mishaps (with_call a ph s) = cl_mishaps s" "cl_now (with_call a ph s) = cl_now s"
  "goto (length (cl_calls s)) ph' (with_call a ph s) = with_call a ph' s"
  by (simp_all add: with_call_def goto_def)

lemma with_call_at: "at_phase (with_call a ph s) (length (cl_calls s)) \<lparr>c_proc = 0, c_acct = a, c_phase = ph\<rparr> ph"
  by (simp add: at_phase_def with_call_def)

lemma idle_free:
  assumes "idle s"
  shows "flight_free (with_call a (Queued x) s) c" and "lock_free (with_call a (Entered y f) s)"
  using assms
  by (auto simp: idle_def flight_free_def lock_free_def with_call_def has_flight_def has_lock_def list_ex_iff filter_empty_conv)

lemma forced_run:
  assumes "idle s" and "cl_store s a = Some oa" and "so_refresh oa \<noteq> None"
  shows "cl_step\<^sup>*\<^sup>* s (with_call a (Sending oa) s)"
proof -
  let ?n = "length (cl_calls s)"
  have "cl_step s (with_call a (Arriving True) s)" unfolding with_call_def by (rule cl_step.arrive)
  moreover have "cl_step (with_call a (Arriving True) s) (with_call a (Queued None) s)"
    using cl_step.force [OF with_call_at [of a "Arriving True" s]] by simp
  moreover have "cl_step (with_call a (Queued None) s) (with_call a (Entered oa True) s)"
    using cl_step.enter_forced [OF with_call_at [of a "Queued None" s] idle_free(1) [OF assms(1)]] assms(2) by simp
  moreover have "cl_step (with_call a (Entered oa True) s) (with_call a (Sending oa) s)"
    using cl_step.lock [OF with_call_at [of a "Entered oa True" s] idle_free(2) [OF assms(1)], of oa] assms(2,3)
    by (simp add: moved_on_def)
  ultimately show ?thesis by (meson converse_rtranclp_into_rtranclp rtranclp.rtrancl_refl)
qed

lemma idle_left: "idle s \<Longrightarrow> idle (with_call a Left s)"
  by (auto simp: idle_def with_call_def)

abbreviation sample_oauth :: "string \<Rightarrow> StoredOAuth" where
  "sample_oauth rt \<equiv> \<lparr>so_provider = ''codex'', so_account = ''me'', so_access = ''t'', so_refresh = Some rt, so_expires = Some 0\<rparr>"

definition sample_cluster :: cluster where
  "sample_cluster = cl_init [''codex:me'' \<mapsto> sample_oauth ''r0''] 0"

lemma sample_first_run:
  "cl_step\<^sup>*\<^sup>* sample_cluster (with_call ''codex:me'' (Storing (sample_oauth ''r1'')) (sample_cluster\<lparr>cl_spent := [''r0'']\<rparr>))"
proof -
  have "cl_step\<^sup>*\<^sup>* sample_cluster (with_call ''codex:me'' (Sending (sample_oauth ''r0'')) sample_cluster)"
    by (rule forced_run) (simp_all add: sample_cluster_def idle_def cl_init_def)
  moreover have "unseen (with_call ''codex:me'' (Sending (sample_oauth ''r0'')) sample_cluster) ''r1''"
    by (simp add: unseen_def sample_cluster_def cl_init_def with_call_def)
  then have "cl_step (with_call ''codex:me'' (Sending (sample_oauth ''r0'')) sample_cluster)
      (with_call ''codex:me'' (Storing (sample_oauth ''r1'')) (sample_cluster\<lparr>cl_spent := [''r0'']\<rparr>))"
    using cl_step.rotated [OF with_call_at, of "sample_oauth ''r0''" "''r0''" "''codex:me''" sample_cluster "''r1''" "''t''" "Some 0"]
    by (simp add: new_credential_def) (simp add: with_call_def goto_def sample_cluster_def cl_init_def)
  ultimately show ?thesis by (rule rtranclp.rtrancl_into_rtrancl)
qed

text \<open>The state after the first refresh was stored, and after its put has failed.\<close>

definition after_stored :: cluster where
  "after_stored = with_call ''codex:me'' Left (sample_cluster\<lparr>cl_spent := [''r0''], cl_store := [''codex:me'' \<mapsto> sample_oauth ''r1'']\<rparr>)"

definition after_failed :: cluster where
  "after_failed = mishap (with_call ''codex:me'' Left (sample_cluster\<lparr>cl_spent := [''r0'']\<rparr>))"

lemma sample_second_runs:
  "cl_step\<^sup>*\<^sup>* sample_cluster (with_call ''codex:me'' (Sending (sample_oauth ''r1'')) after_stored)"
  "cl_step\<^sup>*\<^sup>* sample_cluster (with_call ''codex:me'' (Sending (sample_oauth ''r0'')) after_failed)"
proof -
  let ?s = "sample_cluster\<lparr>cl_spent := [''r0'']\<rparr>"
  let ?w = "with_call ''codex:me'' (Storing (sample_oauth ''r1'')) ?s"
  have at: "at_phase ?w (length (cl_calls ?s)) \<lparr>c_proc = 0, c_acct = ''codex:me'', c_phase = Storing (sample_oauth ''r1'')\<rparr>
      (Storing (sample_oauth ''r1''))" by (rule with_call_at)
  have i: "idle sample_cluster" by (simp add: idle_def sample_cluster_def cl_init_def)
  have "goto (length (cl_calls ?s)) Left (?w\<lparr>cl_store := (cl_store ?w)(''codex:me'' \<mapsto> sample_oauth ''r1'')\<rparr>) = after_stored"
    by (simp add: after_stored_def with_call_def goto_def sample_cluster_def cl_init_def)
  with cl_step.stored [OF at] have "cl_step ?w after_stored" by simp
  moreover have "cl_step\<^sup>*\<^sup>* after_stored (with_call ''codex:me'' (Sending (sample_oauth ''r1'')) after_stored)"
    by (rule forced_run) (use i in \<open>simp_all add: after_stored_def idle_def with_call_def\<close>)
  ultimately show "cl_step\<^sup>*\<^sup>* sample_cluster (with_call ''codex:me'' (Sending (sample_oauth ''r1'')) after_stored)"
    using sample_first_run by (meson rtranclp.rtrancl_into_rtrancl rtranclp_trans)
  have "cl_step ?w after_failed"
    using cl_step.put_failed [OF at] unfolding after_failed_def with_call_simps(5) .
  moreover have "cl_step\<^sup>*\<^sup>* after_failed (with_call ''codex:me'' (Sending (sample_oauth ''r0'')) after_failed)"
    by (rule forced_run) (use i in \<open>simp_all add: after_failed_def mishap_def idle_def with_call_def sample_cluster_def cl_init_def\<close>)
  ultimately show "cl_step\<^sup>*\<^sup>* sample_cluster (with_call ''codex:me'' (Sending (sample_oauth ''r0'')) after_failed)"
    using sample_first_run by (meson rtranclp.rtrancl_into_rtrancl rtranclp_trans)
qed

theorem no_replaced_token_sent_witness:
  "''r1'' \<notin> set (cl_spent (with_call ''codex:me'' (Sending (sample_oauth ''r1'')) after_stored)) \<and>
   cl_spent after_stored = [''r0'']"
proof -
  have "one_owner (\<lambda>a. Option.bind ([''codex:me'' \<mapsto> sample_oauth ''r0''] a) so_refresh)"
    by (auto simp: one_owner_def split: if_splits)
  moreover have "cl_mishaps (with_call ''codex:me'' (Sending (sample_oauth ''r1'')) after_stored) = 0" "cl_spent after_stored = [''r0'']"
    by (simp_all add: after_stored_def sample_cluster_def cl_init_def)
  ultimately show ?thesis
    using no_replaced_token_sent [OF sample_second_runs(1) [unfolded sample_cluster_def] _ _ with_call_at, of "''r1''"] by simp
qed

text \<open>One mishap is enough: when the put of a rotated token fails, the next refresh sends the replaced token again.\<close>

lemma failed_put_sends_replaced_token:
  "\<exists>s i c. cl_step\<^sup>*\<^sup>* sample_cluster s \<and> cl_mishaps s = 1 \<and> at_phase s i c (Sending (sample_oauth ''r0'')) \<and>
     ''r0'' \<in> set (cl_spent s)"
proof -
  let ?s = "with_call ''codex:me'' (Sending (sample_oauth ''r0'')) after_failed"
  have "cl_mishaps ?s = 1" "''r0'' \<in> set (cl_spent ?s)"
    by (simp_all add: after_failed_def mishap_def sample_cluster_def cl_init_def)
  with sample_second_runs(2) with_call_at show ?thesis by blast
qed

end
