(* ===== verification/Code_Assist.thy ===== *)
theory Code_Assist
  imports Accounts
begin

text \<open>
  Discovery of the Google Cloud project and of the models of an account: \<open>crates/server/src/credentials/gemini_models.rs\<close>
  and the second half of \<open>credentials/account.rs\<close>.  The state is the resolver of \<open>Accounts\<close> with the cache of
  projects; the HTTP client and the wait between two polls are parameters that may change the resolver.
\<close>

section \<open>Models and experiments\<close>

definition GEMINI_MODELS :: "(string \<times> string) list" where
  "GEMINI_MODELS =
     [(''gemini-3.1-pro-preview'', ''Gemini 3.1 Pro Preview''),
      (''gemini-3-pro-preview'', ''Gemini 3 Pro Preview''),
      (''gemini-3-flash-preview'', ''Gemini 3 Flash Preview''),
      (''gemini-3.8-flash'', ''Gemini 3.8 Flash''),
      (''gemini-3.5-flash'', ''Gemini 3.5 Flash''),
      (''gemini-3.5-flash-lite'', ''Gemini 3.5 Flash Lite''),
      (''gemini-3.1-flash-lite'', ''Gemini 3.1 Flash Lite''),
      (''gemini-2.5-pro'', ''Gemini 2.5 Pro''),
      (''gemini-2.5-flash'', ''Gemini 2.5 Flash''),
      (''gemini-2.5-flash-lite'', ''Gemini 2.5 Flash Lite'')]"

record GeminiFlags =
  gemini31 :: bool
  no_pro :: bool
  latest_flash :: bool
  latest_flash_lite :: bool

definition no_flags :: GeminiFlags where
  "no_flags = \<lparr>gemini31 = False, no_pro = False, latest_flash = False, latest_flash_lite = False\<rparr>"

definition FLAG_GEMINI31_PRO :: int where "FLAG_GEMINI31_PRO = 45760185"
definition FLAG_PRO_NO_ACCESS :: int where "FLAG_PRO_NO_ACCESS = 45768879"
definition FLAG_LATEST_FLASH :: int where "FLAG_LATEST_FLASH = 45842815"
definition FLAG_LATEST_FLASH_LITE :: int where "FLAG_LATEST_FLASH_LITE = 45827489"

lemmas flag_ids = FLAG_GEMINI31_PRO_def FLAG_PRO_NO_ACCESS_def FLAG_LATEST_FLASH_def FLAG_LATEST_FLASH_LITE_def

definition skip_model :: "GeminiFlags \<Rightarrow> bool \<Rightarrow> string \<Rightarrow> bool" where
  "skip_model f preview ident \<longleftrightarrow>
     (if ident = ''gemini-3.1-pro-preview'' then \<not> gemini31 f \<or> \<not> preview \<or> no_pro f
      else if ident = ''gemini-3-pro-preview'' then gemini31 f \<or> \<not> preview \<or> no_pro f
      else if ident = ''gemini-3-flash-preview'' then \<not> preview
      else if ident = ''gemini-3.8-flash'' then \<not> latest_flash f
      else if ident = ''gemini-3.5-flash'' then latest_flash f
      else if ident = ''gemini-3.5-flash-lite'' then \<not> latest_flash_lite f
      else if ident = ''gemini-3.1-flash-lite'' then latest_flash_lite f
      else if ident = ''gemini-2.5-pro'' then no_pro f
      else if ident = ''gemini-2.5-flash'' then latest_flash f
      else False)"

definition offered :: "GeminiFlags \<Rightarrow> bool \<Rightarrow> (string \<times> string) list" where
  "offered f preview = filter (\<lambda>(ident, _). \<not> skip_model f preview ident) GEMINI_MODELS"

definition set_flag :: "int \<Rightarrow> bool \<Rightarrow> GeminiFlags \<Rightarrow> GeminiFlags" where
  "set_flag ident on f =
     (if ident = FLAG_GEMINI31_PRO then f\<lparr>gemini31 := on\<rparr>
      else if ident = FLAG_PRO_NO_ACCESS then f\<lparr>no_pro := on\<rparr>
      else if ident = FLAG_LATEST_FLASH then f\<lparr>latest_flash := on\<rparr>
      else if ident = FLAG_LATEST_FLASH_LITE then f\<lparr>latest_flash_lite := on\<rparr>
      else f)"

definition bool_member :: "value \<Rightarrow> string \<Rightarrow> bool" where
  "bool_member v k = unwrap_or False (Option.bind (jget v k) as_bool)"

definition read_experiment :: "value \<Rightarrow> GeminiFlags \<Rightarrow> GeminiFlags" where
  "read_experiment e f =
     (case Option.bind (jget e ''flagId'') as_i64 of
        None \<Rightarrow> f
      | Some ident \<Rightarrow> set_flag (sint ident) (bool_member e ''boolValue'') f)"

definition array_member :: "value \<Rightarrow> string \<Rightarrow> value list" where
  "array_member v k = unwrap_or [] (Option.bind (jget v k) as_array)"

definition flags_from_experiments :: "value \<Rightarrow> GeminiFlags" where
  "flags_from_experiments json = fold read_experiment (array_member json ''experiments'') no_flags"

section \<open>Tiers and projects\<close>

definition companion_project :: "value option \<Rightarrow> string" where
  "companion_project v =
     (case v of
        Some (JString ident) \<Rightarrow> ident
      | Some (JObject m) \<Rightarrow> str_member (JObject m) ''id''
      | _ \<Rightarrow> [])"

record CodeAssistTier =
  tier_id :: string
  tier_name :: string
  user_defined :: bool

definition tier_view :: "value \<Rightarrow> CodeAssistTier" where
  "tier_view t =
     \<lparr>tier_id = str_member t ''id'', tier_name = str_member t ''name'',
      user_defined = bool_member t ''userDefinedCloudaicompanionProject''\<rparr>"

definition default_tier :: "value \<Rightarrow> CodeAssistTier" where
  "default_tier reply =
     (let tiers = array_member reply ''allowedTiers'' in
      case find (\<lambda>t. bool_member t ''isDefault'') tiers of
        Some t \<Rightarrow> tier_view t
      | None \<Rightarrow>
          (case tiers of
             t # _ \<Rightarrow> tier_view t
           | [] \<Rightarrow> \<lparr>tier_id = ''legacy-tier'', tier_name = [], user_defined = True\<rparr>))"

definition tier_plan :: "value \<Rightarrow> string option" where
  "tier_plan t =
     (if str_member t ''name'' \<noteq> [] then Some (str_member t ''name'')
      else if str_member t ''id'' \<noteq> [] then Some (str_member t ''id'')
      else None)"

fun is_jobject :: "value \<Rightarrow> bool" where
  "is_jobject (JObject _) = True"
| "is_jobject _ = False"

definition plan_of :: "value \<Rightarrow> string" where
  "plan_of reply =
     (let current = unwrap_or [] (Option.bind (opt_filter is_jobject (jget reply ''currentTier'')) tier_plan) in
      case opt_filter is_jobject (jget reply ''paidTier'') of
        Some t \<Rightarrow> if str_member t ''name'' \<noteq> [] then unwrap_or current (tier_plan t) else current
      | None \<Rightarrow> current)"

definition ineligible_reason :: "value \<Rightarrow> string" where
  "ineligible_reason reply =
     unwrap_or [] (find (\<lambda>m. m \<noteq> [])
       (List.map_filter (\<lambda>t. jget_str t ''reasonMessage'') (array_member reply ''ineligibleTiers'')))"

definition needs_project :: "string \<Rightarrow> string \<Rightarrow> AccountError" where
  "needs_project account_id why =
     (let msg = ''Google serves this sign-in only to Gemini Code Assist Standard and Enterprise, '' @
        ''which bill a Google Cloud project: name one with the provider's `project` field '' @
        ''in config.toml for account '' @ account_id in
      NeedsProject (if why = [] then msg else why @ '' '' @ em_dash @ '' '' @ msg))"

section \<open>Asking Code Assist\<close>

record CodeAssistProject =
  cp_id :: string
  cp_plan :: string

type_synonym projects = "(string, CodeAssistProject \<times> GeminiFlags \<times> int) fmap"

record assist_env =
  ce_accounts :: account_env
  ce_post :: "string \<Rightarrow> string \<Rightarrow> value \<Rightarrow> resolver \<Rightarrow> (string + nat \<times> string) \<times> resolver"
  ce_sleep :: "resolver \<Rightarrow> resolver"

definition PROJECT_CACHE_SECS :: int where "PROJECT_CACHE_SECS = 3600"

definition ANTIGRAVITY_VERSION :: string where "ANTIGRAVITY_VERSION = ''1.0.0''"

definition is_antigravity :: "string \<Rightarrow> bool" where
  "is_antigravity account_id \<longleftrightarrow> account_provider account_id = ''antigravity''"

definition code_assist_post ::
  "assist_env \<Rightarrow> string \<Rightarrow> string \<Rightarrow> value \<Rightarrow> resolver \<Rightarrow> (AccountError + value) \<times> resolver" where
  "code_assist_post C url token body s =
     (let (reply, s) = ce_post C url token body s in
      (case reply of
         Inl e \<Rightarrow> Inl (CodeAssistError (url @ '' request failed: '' @ e))
       | Inr (status, text) \<Rightarrow>
           if \<not> is_success status
           then Inl (CodeAssistError (url @ '' returned '' @ show_nat status @ '': '' @ text))
           else case from_text (ae_serde (ce_accounts C)) text of
                  Inl e \<Rightarrow> Inl (CodeAssistError (url @ '' returned malformed payload: '' @ e))
                | Inr v \<Rightarrow> Inr v, s))"

definition onboard_project :: "value \<Rightarrow> string" where
  "onboard_project reply =
     (case Option.bind (jget reply ''response'') (\<lambda>r. jget r ''cloudaicompanionProject'') of
        Some p \<Rightarrow> companion_project (Some p)
      | None \<Rightarrow> [])"

fun onboard_loop ::
  "assist_env \<Rightarrow> nat \<Rightarrow> string \<Rightarrow> string \<Rightarrow> value \<Rightarrow> resolver \<Rightarrow> (AccountError + string) \<times> resolver" where
  "onboard_loop C 0 url token req s =
     (Inl (CodeAssistError ''setting the account up for Code Assist is taking long; try again in a minute''), s)"
| "onboard_loop C (Suc n) url token req s =
     (case code_assist_post C url token req s of
        (Inl e, s) \<Rightarrow> (Inl e, s)
      | (Inr reply, s) \<Rightarrow>
          let project = onboard_project reply in
          if bool_member reply ''done'' \<or> project \<noteq> [] then (Inr project, s)
          else onboard_loop C n url token req (ce_sleep C s))"

definition onboard ::
  "assist_env \<Rightarrow> string \<Rightarrow> string \<Rightarrow> value \<Rightarrow> resolver \<Rightarrow> (AccountError + string) \<times> resolver" where
  "onboard C base token req s = onboard_loop C 5 (base @ ''/v1internal:onboardUser'') token req s"

definition load_metadata :: "string \<Rightarrow> string option \<Rightarrow> obj" where
  "load_metadata account_id project_override =
     (let m = (if is_antigravity account_id then obj_of [(''ideType'', JString ''ANTIGRAVITY'')]
               else obj_of [(''ideType'', JString ''IDE_UNSPECIFIED''), (''platform'', JString ''PLATFORM_UNSPECIFIED''),
                 (''pluginType'', JString ''GEMINI'')]) in
      case project_override of Some want \<Rightarrow> fmupd ''duetProject'' (JString want) m | None \<Rightarrow> m)"

definition load_body :: "string \<Rightarrow> string option \<Rightarrow> value" where
  "load_body account_id project_override =
     JObject (fmupd ''metadata'' (JObject (load_metadata account_id project_override))
       (case project_override of
          Some want \<Rightarrow> obj_of [(''cloudaicompanionProject'', JString want)]
        | None \<Rightarrow> fmempty))"

definition onboard_request :: "string \<Rightarrow> string option \<Rightarrow> CodeAssistTier \<Rightarrow> value" where
  "onboard_request account_id project_override tier =
     (if is_antigravity account_id
      then jobj [(''tier_id'', JString (if tier_id tier \<in> {[], ''legacy-tier''} then ''free-tier'' else tier_id tier)),
        (''metadata'', jobj [(''ide_type'', JString ''ANTIGRAVITY''), (''ide_name'', JString ''antigravity''),
          (''ide_version'', JString ANTIGRAVITY_VERSION)])]
      else let m = obj_of [(''tierId'', JString (tier_id tier)),
                 (''metadata'', JObject (load_metadata account_id project_override))] in
           JObject (if tier_id tier = ''free-tier'' then m
                    else fmupd ''cloudaicompanionProject'' (JString (unwrap_or [] project_override)) m))"

definition projects_put ::
  "string \<Rightarrow> CodeAssistProject \<Rightarrow> GeminiFlags \<Rightarrow> resolver \<times> projects \<Rightarrow> resolver \<times> projects" where
  "projects_put account_id p f = (\<lambda>(s, ps). (s, fmupd account_id (p, f, rs_now s) ps))"

definition found ::
  "string \<Rightarrow> string \<Rightarrow> string \<Rightarrow> GeminiFlags \<Rightarrow> resolver \<times> projects \<Rightarrow>
   (AccountError + CodeAssistProject \<times> GeminiFlags) \<times> resolver \<times> projects" where
  "found account_id ident plan f st =
     (let p = \<lparr>cp_id = ident, cp_plan = plan\<rparr> in (Inr (p, f), projects_put account_id p f st))"

text \<open>What the reply of \<open>loadCodeAssist\<close> leads to.\<close>

definition settle_project ::
  "assist_env \<Rightarrow> string \<Rightarrow> string \<Rightarrow> string option \<Rightarrow> string \<Rightarrow> value \<Rightarrow> resolver \<times> projects \<Rightarrow>
   (AccountError + CodeAssistProject \<times> GeminiFlags) \<times> resolver \<times> projects" where
  "settle_project C account_id base project_override token reply st =
     (let f = flags_from_experiments reply; project = companion_project (jget reply ''cloudaicompanionProject'') in
      if (case jget reply ''currentTier'' of Some t \<Rightarrow> is_jobject t | None \<Rightarrow> False)
      then if project \<noteq> [] then found account_id project (plan_of reply) f st
           else (case project_override of
                   Some want \<Rightarrow> found account_id want (plan_of reply) f st
                 | None \<Rightarrow> (Inl (needs_project account_id []), st))
      else let tier = default_tier reply in
           if user_defined tier \<and> project_override = None
           then (Inl (needs_project account_id (ineligible_reason reply)), st)
           else case onboard C base token (onboard_request account_id project_override tier) (fst st) of
                  (Inl e, s) \<Rightarrow> (Inl e, (s, snd st))
                | (Inr ident, s) \<Rightarrow>
                    let ident = (if ident = [] then unwrap_or [] project_override else ident) in
                    if ident = [] then (Inl (needs_project account_id []), (s, snd st))
                    else found account_id ident (tier_name tier) f (s, snd st))"

definition project_and_flags ::
  "assist_env \<Rightarrow> string \<Rightarrow> string \<Rightarrow> string option \<Rightarrow> resolver \<times> projects \<Rightarrow>
   (AccountError + CodeAssistProject \<times> GeminiFlags) \<times> resolver \<times> projects" where
  "project_and_flags C account_id base project_override st =
     (case opt_filter (\<lambda>(_, _, at). rs_now (fst st) - at < PROJECT_CACHE_SECS) (fmlookup (snd st) account_id) of
        Some (p, f, _) \<Rightarrow> (Inr (p, f), st)
      | None \<Rightarrow>
          (case resolve (ce_accounts C) account_id (fst st) of
             (Inl e, s) \<Rightarrow> (Inl e, (s, snd st))
           | (Inr account, s) \<Rightarrow>
               let base = trim_end_char (CHR ''/'') base in
               (case code_assist_post C (base @ ''/v1internal:loadCodeAssist'') (ra_token account)
                       (load_body account_id project_override) s of
                  (Inl e, s) \<Rightarrow> (Inl e, (s, snd st))
                | (Inr reply, s) \<Rightarrow>
                    settle_project C account_id base project_override (ra_token account) reply (s, snd st))))"

definition list_models ::
  "assist_env \<Rightarrow> string \<Rightarrow> string \<Rightarrow> resolver \<times> projects \<Rightarrow> (string \<times> string) list \<times> resolver \<times> projects" where
  "list_models C account_id base st =
     (case project_and_flags C account_id base None st of
        (Inr (_, f), st) \<Rightarrow> (offered f False, st)
      | (Inl _, st) \<Rightarrow> (GEMINI_MODELS, st))"

section \<open>What is offered\<close>

lemma offered_ids:
  "map fst (offered f preview) =
     concat [if gemini31 f \<and> preview \<and> \<not> no_pro f then [''gemini-3.1-pro-preview''] else [],
       if \<not> gemini31 f \<and> preview \<and> \<not> no_pro f then [''gemini-3-pro-preview''] else [],
       if preview then [''gemini-3-flash-preview''] else [],
       [if latest_flash f then ''gemini-3.8-flash'' else ''gemini-3.5-flash''],
       [if latest_flash_lite f then ''gemini-3.5-flash-lite'' else ''gemini-3.1-flash-lite''],
       if no_pro f then [] else [''gemini-2.5-pro''],
       if latest_flash f then [] else [''gemini-2.5-flash''],
       [''gemini-2.5-flash-lite'']]"
  by (simp add: offered_def GEMINI_MODELS_def skip_model_def)

lemma list_models_known: "set (fst (list_models C account_id base st)) \<subseteq> set GEMINI_MODELS"
  by (auto simp: list_models_def offered_def split: prod.splits sum.splits)

lemma list_models_never_empty: "(''gemini-2.5-flash-lite'', ''Gemini 2.5 Flash Lite'') \<in> set (fst (list_models C account_id base st))"
  by (auto simp: list_models_def offered_def GEMINI_MODELS_def skip_model_def split: prod.splits sum.splits)

text \<open>The last entry of an experiment decides.\<close>

lemma flags_last_entry:
  assumes "array_member json ''experiments'' = xs @ [e]"
  shows "flags_from_experiments json = read_experiment e (fold read_experiment xs no_flags)"
  by (simp add: flags_from_experiments_def assms)

section \<open>A project that is found can be used\<close>

definition projects_named :: "projects \<Rightarrow> bool" where
  "projects_named ps \<longleftrightarrow> (\<forall>a p f at. fmlookup ps a = Some (p, f, at) \<longrightarrow> cp_id p \<noteq> [])"

lemma found_named:
  "found account_id ident plan f st = (r, st') \<Longrightarrow> ident \<noteq> [] \<Longrightarrow> projects_named (snd st) \<Longrightarrow>
   projects_named (snd st') \<and> (\<forall>p g. r = Inr (p, g) \<longrightarrow> cp_id p \<noteq> [])"
  by (cases st) (fastforce simp: found_def Let_def projects_put_def projects_named_def split: if_splits)

lemma settle_project_named:
  assumes "settle_project C account_id base project_override token reply st = (r, st')"
    and "project_override \<noteq> Some []" and "projects_named (snd st)"
  shows "projects_named (snd st') \<and> (\<forall>p f. r = Inr (p, f) \<longrightarrow> cp_id p \<noteq> [])"
  using assms
  by (auto simp: settle_project_def Let_def split: if_splits option.splits prod.splits sum.splits dest: found_named)

lemma project_and_flags_named:
  assumes "project_and_flags C account_id base project_override st = (r, st')"
    and "project_override \<noteq> Some []" and "projects_named (snd st)"
  shows "projects_named (snd st') \<and> (\<forall>p f. r = Inr (p, f) \<longrightarrow> cp_id p \<noteq> [])"
proof (cases "opt_filter (\<lambda>(_, _, at). rs_now (fst st) - at < PROJECT_CACHE_SECS) (fmlookup (snd st) account_id)")
  case (Some x)
  then show ?thesis using assms by (cases x) (auto simp: project_and_flags_def projects_named_def)
next
  case None
  then show ?thesis using assms
    by (auto simp: project_and_flags_def Let_def split: prod.splits sum.splits dest: settle_project_named)
qed

text \<open>A project found less than an hour ago is used without asking anyone.\<close>

lemma project_cached:
  assumes "fmlookup (snd st) account_id = Some (p, f, at)" and "rs_now (fst st) < at + PROJECT_CACHE_SECS"
  shows "project_and_flags C account_id base project_override st = (Inr (p, f), st)"
  using assms by (simp add: project_and_flags_def)

end
