(* ===== verification/Rollup.thy ===== *)
theory Rollup
  imports Utf8 IR
begin

text \<open>
  The request log and its hourly pre-aggregate: \<open>crates/server/src/storage/write.rs\<close> and \<open>maintenance.rs\<close>.  A table is a list of rows or a map from its primary key; the SQL of the sources is read
  as an operation on tables.  Columns that are stored and never computed with are one field.  Integer columns are
  natural numbers, because a \<open>u64\<close> is stored as a non-negative \<open>i64\<close> (\<open>to_i64\<close>) and read back as one; sums are
  exact, also those of costs.  The lemmas show that the pre-aggregate kept on insert is what a rebuild from the log
  gives, where the two part, and that no body outlives its row.
\<close>

section \<open>Aggregates\<close>

record Aggregate =
  ag_calls :: nat
  ag_errors :: nat
  ag_input :: nat
  ag_output :: nat
  ag_cache_read :: nat
  ag_cache_write :: nat
  ag_cache_write_1h :: nat
  ag_cache_unknown :: nat
  ag_reasoning :: nat
  ag_latency_sum :: nat
  ag_latency_max :: nat
  ag_ttft_sum :: nat
  ag_ttft_calls :: nat
  ag_cost :: rat
  ag_priced :: nat
  ag_retried :: nat
  ag_loops :: nat
  ag_decode_ms :: nat
  ag_decode_out :: nat
  ag_decode_n :: nat

text \<open>Two rows of one group: every column adds, the highest latency keeps the larger side.\<close>

instantiation unit :: comm_monoid_add
begin

definition zero_unit :: unit where "zero_unit = ()"

definition plus_unit :: "unit \<Rightarrow> unit \<Rightarrow> unit" where "plus_unit a b = ()"

instance by standard simp_all

end

instantiation Aggregate_ext :: (comm_monoid_add) comm_monoid_add
begin

definition zero_Aggregate_ext :: "'a Aggregate_scheme" where
  "zero_Aggregate_ext =
     \<lparr>ag_calls = 0, ag_errors = 0, ag_input = 0, ag_output = 0, ag_cache_read = 0, ag_cache_write = 0,
      ag_cache_write_1h = 0, ag_cache_unknown = 0, ag_reasoning = 0, ag_latency_sum = 0, ag_latency_max = 0,
      ag_ttft_sum = 0, ag_ttft_calls = 0, ag_cost = 0, ag_priced = 0, ag_retried = 0, ag_loops = 0,
      ag_decode_ms = 0, ag_decode_out = 0, ag_decode_n = 0, \<dots> = 0\<rparr>"

definition plus_Aggregate_ext :: "'a Aggregate_scheme \<Rightarrow> 'a Aggregate_scheme \<Rightarrow> 'a Aggregate_scheme" where
  "plus_Aggregate_ext a b =
     \<lparr>ag_calls = ag_calls a + ag_calls b, ag_errors = ag_errors a + ag_errors b,
      ag_input = ag_input a + ag_input b, ag_output = ag_output a + ag_output b,
      ag_cache_read = ag_cache_read a + ag_cache_read b, ag_cache_write = ag_cache_write a + ag_cache_write b,
      ag_cache_write_1h = ag_cache_write_1h a + ag_cache_write_1h b,
      ag_cache_unknown = ag_cache_unknown a + ag_cache_unknown b, ag_reasoning = ag_reasoning a + ag_reasoning b,
      ag_latency_sum = ag_latency_sum a + ag_latency_sum b, ag_latency_max = max (ag_latency_max a) (ag_latency_max b),
      ag_ttft_sum = ag_ttft_sum a + ag_ttft_sum b, ag_ttft_calls = ag_ttft_calls a + ag_ttft_calls b,
      ag_cost = ag_cost a + ag_cost b, ag_priced = ag_priced a + ag_priced b, ag_retried = ag_retried a + ag_retried b,
      ag_loops = ag_loops a + ag_loops b, ag_decode_ms = ag_decode_ms a + ag_decode_ms b,
      ag_decode_out = ag_decode_out a + ag_decode_out b, ag_decode_n = ag_decode_n a + ag_decode_n b,
      \<dots> = Aggregate.more a + Aggregate.more b\<rparr>"

instance
  by standard (simp_all add: plus_Aggregate_ext_def zero_Aggregate_ext_def ac_simps max.assoc max.commute)

end

lemma ag_calls_plus [simp]: "ag_calls (a + b) = ag_calls a + ag_calls b" "ag_calls 0 = 0"
  by (simp_all add: plus_Aggregate_ext_def zero_Aggregate_ext_def)

section \<open>Records and rows\<close>

record RequestLogRecord =
  lr_request_id :: string
  lr_timestamp :: string
  lr_provider :: string
  lr_client_model :: string
  lr_upstream_model :: string
  lr_served_model :: "string option"
  lr_streaming :: bool
  lr_client_id :: "string option"
  lr_account :: "string option"
  lr_session :: "string option"
  lr_status :: nat
  lr_attempt :: nat
  lr_latency_ms :: u64
  lr_ttft_ms :: u64
  lr_decode_ms :: u64
  lr_decode_out :: u64
  lr_usage :: Usage
  lr_cache_unknown :: bool
  lr_cost :: "rat option"
  lr_err_type :: "string option"
  lr_rest :: "string list"

definition to_i64 :: "u64 \<Rightarrow> nat" where
  "to_i64 v = min (unat v) (2 ^ 63 - 1)"

text \<open>A row of \<open>request_logs\<close>; \<open>row_id\<close> is its autoincremented key.\<close>

record log_row =
  row_id :: nat
  row_request_id :: string
  row_timestamp :: string
  row_provider :: string
  row_client_model :: string
  row_upstream_model :: string
  row_served_model :: "string option"
  row_streaming :: bool
  row_client_id :: "string option"
  row_account :: "string option"
  row_session :: "string option"
  row_status :: nat
  row_attempt :: nat
  row_latency_ms :: nat
  row_ttft_ms :: nat
  row_decode_ms :: nat
  row_decode_out :: nat
  row_input :: nat
  row_output :: nat
  row_cache_read :: "nat option"
  row_cache_write :: "nat option"
  row_cache_write_1h :: nat
  row_reasoning :: "nat option"
  row_cache_unknown :: bool
  row_cost :: "rat option"
  row_err_type :: "string option"
  row_rest :: "string list"

definition log_row_of :: "nat \<Rightarrow> RequestLogRecord \<Rightarrow> log_row" where
  "log_row_of n r =
     \<lparr>row_id = n, row_request_id = lr_request_id r, row_timestamp = lr_timestamp r, row_provider = lr_provider r,
      row_client_model = lr_client_model r, row_upstream_model = lr_upstream_model r,
      row_served_model = lr_served_model r, row_streaming = lr_streaming r, row_client_id = lr_client_id r, row_account = lr_account r,
      row_session = lr_session r, row_status = lr_status r, row_attempt = lr_attempt r,
      row_latency_ms = to_i64 (lr_latency_ms r), row_ttft_ms = to_i64 (lr_ttft_ms r),
      row_decode_ms = to_i64 (lr_decode_ms r), row_decode_out = to_i64 (lr_decode_out r),
      row_input = to_i64 (us_input_tokens (lr_usage r)), row_output = to_i64 (us_output_tokens (lr_usage r)),
      row_cache_read = map_option to_i64 (us_cache_read_tokens (lr_usage r)),
      row_cache_write = map_option to_i64 (us_cache_write_tokens (lr_usage r)),
      row_cache_write_1h = to_i64 (unwrap_or 0 (us_cache_write_1h (lr_usage r))),
      row_reasoning = map_option to_i64 (us_reasoning_tokens (lr_usage r)),
      row_cache_unknown = lr_cache_unknown r, row_cost = lr_cost r, row_err_type = lr_err_type r, row_rest = lr_rest r\<rparr>"

section \<open>What one call adds\<close>

text \<open>Bucket, provider, model and agent.\<close>

type_synonym rollup_key = "string \<times> string \<times> string \<times> string"

definition HOUR_TAIL :: string where "HOUR_TAIL = '':00:00Z''"

definition hour_floor :: "string \<Rightarrow> string" where
  "hour_floor ts = (if 13 \<le> length ts \<and> is_char_boundary ts 13 then take 13 ts @ HOUR_TAIL else ts)"

definition record_key :: "RequestLogRecord \<Rightarrow> rollup_key" where
  "record_key r = (hour_floor (lr_timestamp r), lr_provider r, lr_client_model r, unwrap_or [] (lr_client_id r))"

text \<open>The values \<open>upsert_rollup\<close> binds; the sum of unknown tokens is a \<open>u64\<close> before it is stored.\<close>

definition record_aggregate :: "RequestLogRecord \<Rightarrow> Aggregate" where
  "record_aggregate r =
     (let u = lr_usage r; cr = unwrap_or 0 (us_cache_read_tokens u); cw = unwrap_or 0 (us_cache_write_tokens u) in
      \<lparr>ag_calls = 1, ag_errors = of_bool (400 \<le> lr_status r), ag_input = to_i64 (us_input_tokens u),
       ag_output = to_i64 (us_output_tokens u), ag_cache_read = to_i64 cr, ag_cache_write = to_i64 cw,
       ag_cache_write_1h = to_i64 (unwrap_or 0 (us_cache_write_1h u)),
       ag_cache_unknown = (if lr_cache_unknown r then to_i64 (us_input_tokens u + cr + cw) else 0),
       ag_reasoning = to_i64 (unwrap_or 0 (us_reasoning_tokens u)),
       ag_latency_sum = to_i64 (lr_latency_ms r), ag_latency_max = to_i64 (lr_latency_ms r),
       ag_ttft_sum = to_i64 (lr_ttft_ms r), ag_ttft_calls = of_bool (0 < lr_ttft_ms r),
       ag_cost = unwrap_or 0 (lr_cost r), ag_priced = of_bool (lr_cost r \<noteq> None),
       ag_retried = of_bool (0 < lr_attempt r \<and> lr_status r < 400), ag_loops = of_bool (lr_err_type r = Some ''loop''),
       ag_decode_ms = to_i64 (lr_decode_ms r), ag_decode_out = to_i64 (lr_decode_out r),
       ag_decode_n = of_bool (0 < lr_decode_out r \<and> 0 < lr_decode_ms r)\<rparr>)"

text \<open>\<open>substr(text,1,n)\<close> of SQLite counts characters.\<close>

definition continuation :: "char \<Rightarrow> bool" where
  "continuation c \<longleftrightarrow> (of_char c :: nat) div 64 = 2"

primrec sql_prefix :: "nat \<Rightarrow> string \<Rightarrow> string" where
  "sql_prefix 0 s = []"
| "sql_prefix (Suc n) s =
     (case s of
        [] \<Rightarrow> []
      | c # t \<Rightarrow> c # takeWhile continuation t @ sql_prefix n (dropWhile continuation t))"

definition row_key :: "log_row \<Rightarrow> rollup_key" where
  "row_key r = (sql_prefix 13 (row_timestamp r) @ HOUR_TAIL, row_provider r, row_client_model r, unwrap_or [] (row_client_id r))"

text \<open>The columns of \<open>rebuild_rollup\<close> for one row; a group is their sum.\<close>

definition row_aggregate :: "log_row \<Rightarrow> Aggregate" where
  "row_aggregate r =
     \<lparr>ag_calls = 1, ag_errors = (if 400 \<le> row_status r then 1 else 0), ag_input = row_input r, ag_output = row_output r,
      ag_cache_read = unwrap_or 0 (row_cache_read r), ag_cache_write = unwrap_or 0 (row_cache_write r),
      ag_cache_write_1h = row_cache_write_1h r,
      ag_cache_unknown =
        (if row_cache_unknown r
         then row_input r + unwrap_or 0 (row_cache_read r) + unwrap_or 0 (row_cache_write r) else 0),
      ag_reasoning = unwrap_or 0 (row_reasoning r), ag_latency_sum = row_latency_ms r, ag_latency_max = row_latency_ms r,
      ag_ttft_sum = row_ttft_ms r, ag_ttft_calls = (if 0 < row_ttft_ms r then 1 else 0),
      ag_cost = unwrap_or 0 (row_cost r), ag_priced = (if row_cost r \<noteq> None then 1 else 0),
      ag_retried = (if 0 < row_attempt r \<and> row_status r < 400 then 1 else 0),
      ag_loops = (if row_err_type r = Some ''loop'' then 1 else 0),
      ag_decode_ms = row_decode_ms r, ag_decode_out = row_decode_out r,
      ag_decode_n = (if 0 < row_decode_out r \<and> 0 < row_decode_ms r then 1 else 0)\<rparr>"

section \<open>The database\<close>

text \<open>\<open>request_logs\<close> in the order of its keys, \<open>request_bodies\<close> and \<open>rollup_hourly\<close>.\<close>

record log_db =
  db_rows :: "log_row list"
  db_bodies :: "string \<rightharpoonup> string \<times> string option"
  db_rollup :: "rollup_key \<rightharpoonup> Aggregate"
  db_next :: nat

definition empty_db :: log_db where
  "empty_db = \<lparr>db_rows = [], db_bodies = Map.empty, db_rollup = Map.empty, db_next = 1\<rparr>"

definition logged :: "log_db \<Rightarrow> string \<Rightarrow> bool" where
  "logged d i \<longleftrightarrow> i \<in> set (map row_request_id (db_rows d))"

text \<open>\<open>on conflict(request_id) do update\<close> keeps the row's key.\<close>

definition put_log_row :: "RequestLogRecord \<Rightarrow> log_db \<Rightarrow> log_db" where
  "put_log_row r d =
     (if logged d (lr_request_id r)
      then d\<lparr>db_rows := map (\<lambda>w. if row_request_id w = lr_request_id r then log_row_of (row_id w) r else w) (db_rows d)\<rparr>
      else d\<lparr>db_rows := db_rows d @ [log_row_of (db_next d) r], db_next := Suc (db_next d)\<rparr>)"

definition put_body :: "string \<Rightarrow> RequestLogRecord \<Rightarrow> log_db \<Rightarrow> log_db" where
  "put_body json r d = d\<lparr>db_bodies := (db_bodies d)(lr_request_id r \<mapsto> (json, Some (lr_timestamp r)))\<rparr>"

definition upsert_rollup :: "RequestLogRecord \<Rightarrow> log_db \<Rightarrow> log_db" where
  "upsert_rollup r d =
     (let k = record_key r; a = record_aggregate r in
      d\<lparr>db_rollup := (db_rollup d)(k \<mapsto> (case db_rollup d k of None \<Rightarrow> a | Some b \<Rightarrow> b + a))\<rparr>)"

text \<open>
  The statements of one record.  \<open>failing r\<close> is the first that fails, if one does: such a statement changes nothing, and
  the transaction goes on.  \<open>json r\<close> is the record's serialisation.
\<close>

datatype log_statement = LS_Json | LS_Probe | LS_Log | LS_Body | LS_Rollup

definition insert_request_log_row ::
    "(RequestLogRecord \<Rightarrow> string) \<Rightarrow> (RequestLogRecord \<Rightarrow> log_statement option) \<Rightarrow> RequestLogRecord \<Rightarrow> log_db \<Rightarrow> log_db" where
  "insert_request_log_row json failing r d =
     (if failing r = Some LS_Json \<or> failing r = Some LS_Probe \<or> failing r = Some LS_Log then d
      else
        let existed = logged d (lr_request_id r); d1 = put_log_row r d in
        if failing r = Some LS_Body then d1
        else
          let d2 = put_body (json r) r d1 in
          if existed \<or> failing r = Some LS_Rollup then d2 else upsert_rollup r d2)"

text \<open>One transaction for a batch: the failure of a record is logged and the next one goes on.\<close>

definition insert_request_logs ::
    "(RequestLogRecord \<Rightarrow> string) \<Rightarrow> (RequestLogRecord \<Rightarrow> log_statement option) \<Rightarrow> bool \<Rightarrow> bool \<Rightarrow>
     RequestLogRecord list \<Rightarrow> log_db \<Rightarrow> (unit + unit) \<times> log_db" where
  "insert_request_logs json failing begin_ok commit_ok rs d =
     (if rs = [] then (Inr (), d)
      else if \<not> begin_ok \<or> \<not> commit_ok then (Inl (), d)
      else (Inr (), fold (insert_request_log_row json failing) rs d))"

section \<open>Maintenance\<close>

text \<open>
  Deleting a row deletes its body (the foreign key cascades).  A cutoff is the text \<open>age_cutoff\<close> formats; texts are
  compared by their bytes.
\<close>

definition prune_before :: "string \<Rightarrow> log_db \<Rightarrow> nat \<times> log_db" where
  "prune_before cutoff d =
     (let gone = filter (\<lambda>w. row_timestamp w < cutoff) (db_rows d);
          kept = filter (\<lambda>w. \<not> row_timestamp w < cutoff) (db_rows d) in
      (length gone,
       d\<lparr>db_rows := kept, db_bodies := (db_bodies d) |` (- row_request_id ` set gone)\<rparr>))"

record RetentionPolicy =
  rp_rollup_days :: nat
  rp_log_days :: nat
  rp_body_days :: nat

definition default_retention :: RetentionPolicy where
  "default_retention = \<lparr>rp_rollup_days = 0, rp_log_days = 30, rp_body_days = 7\<rparr>"

definition prune_older_than :: "(nat \<Rightarrow> string) \<Rightarrow> nat \<Rightarrow> log_db \<Rightarrow> nat \<times> log_db" where
  "prune_older_than age_cutoff days d = (if days = 0 then (0, d) else prune_before (age_cutoff days) d)"

definition prune_bodies :: "string \<Rightarrow> log_db \<Rightarrow> log_db" where
  "prune_bodies cutoff d =
     d\<lparr>db_bodies := (\<lambda>i. case db_bodies d i of
          Some (j, Some t) \<Rightarrow> if t < cutoff then None else Some (j, Some t)
        | b \<Rightarrow> b)\<rparr>"

definition prune_rollup :: "string \<Rightarrow> log_db \<Rightarrow> log_db" where
  "prune_rollup cutoff d = d\<lparr>db_rollup := (\<lambda>k. if fst k < cutoff then None else db_rollup d k)\<rparr>"

definition apply_retention ::
    "(nat \<Rightarrow> string) \<Rightarrow> (nat \<Rightarrow> string) \<Rightarrow> RetentionPolicy \<Rightarrow> log_db \<Rightarrow> log_db" where
  "apply_retention age_cutoff hour_floor_cutoff p d =
     (let d1 = (if rp_body_days p \<noteq> 0 then prune_bodies (age_cutoff (rp_body_days p)) d else d);
          d2 = (if rp_log_days p \<noteq> 0 then snd (prune_before (age_cutoff (rp_log_days p)) d1) else d1) in
      if rp_rollup_days p \<noteq> 0 then prune_rollup (hour_floor_cutoff (rp_rollup_days p)) d2 else d2)"

text \<open>The grouped select of \<open>rebuild_rollup\<close>.\<close>

definition rollup_of :: "log_row list \<Rightarrow> rollup_key \<rightharpoonup> Aggregate" where
  "rollup_of ws =
     (\<lambda>k. let g = filter (\<lambda>w. row_key w = k) ws in if g = [] then None else Some (sum_list (map row_aggregate g)))"

definition rebuild_rollup :: "log_db \<Rightarrow> nat \<times> log_db" where
  "rebuild_rollup d = (length (remdups (map row_key (db_rows d))), d\<lparr>db_rollup := rollup_of (db_rows d)\<rparr>)"

section \<open>The pre-aggregate is what a rebuild gives\<close>

definition plain_record :: "RequestLogRecord \<Rightarrow> bool" where
  "plain_record r \<longleftrightarrow>
     13 \<le> length (lr_timestamp r) \<and> list_all (\<lambda>c. (of_char c :: nat) < 128) (lr_timestamp r) \<and>
     unat (us_input_tokens (lr_usage r)) + unat (unwrap_or 0 (us_cache_read_tokens (lr_usage r)))
       + unat (unwrap_or 0 (us_cache_write_tokens (lr_usage r))) < 2 ^ 63"

lemma sql_prefix_ascii:
  "list_all (\<lambda>c. (of_char c :: nat) < 128) s \<Longrightarrow> sql_prefix n s = take n s"
proof (induction n arbitrary: s)
  case (Suc n)
  show ?case
  proof (cases s)
    case (Cons c t)
    have "takeWhile continuation t = [] \<and> dropWhile continuation t = t"
      using Suc.prems Cons by (cases t) (auto simp: continuation_def)
    then show ?thesis using Suc Cons by simp
  qed simp
qed simp

lemma row_key_of_record:
  assumes "plain_record r"
  shows "row_key (log_row_of n r) = record_key r"
proof -
  let ?ts = "lr_timestamp r"
  from assms have len: "13 \<le> length ?ts" and ascii: "list_all (\<lambda>c. (of_char c :: nat) < 128) ?ts"
    by (auto simp: plain_record_def)
  have "is_char_boundary ?ts 13"
    using len ascii by (cases "length ?ts = 13") (auto simp: is_char_boundary_def list_all_length not_le)
  then show ?thesis
    using len ascii by (simp add: row_key_def record_key_def hour_floor_def log_row_of_def sql_prefix_ascii)
qed

lemma to_i64_small: "unat v < 2 ^ 63 \<Longrightarrow> to_i64 v = unat v"
  by (simp add: to_i64_def)

lemma unwrap_or_map: "unwrap_or (f z) (map_option f v) = f (unwrap_or z v)"
  by (cases v) simp_all

lemma to_i64_zero [simp]: "to_i64 0 = 0"
  by (simp add: to_i64_def)

lemma unwrap_or_i64: "unwrap_or 0 (map_option to_i64 v) = to_i64 (unwrap_or 0 v)"
  using unwrap_or_map [of to_i64 0 v] by simp

lemma to_i64_sum3:
  assumes "unat a + unat b + unat c < 2 ^ 63"
  shows "to_i64 (a + b + c) = to_i64 a + to_i64 b + to_i64 c"
proof -
  have "unat (a + b + c) = unat a + unat b + unat c"
    using assms by (simp add: unat_word_ariths)
  then show ?thesis using assms by (simp add: to_i64_small)
qed

lemma row_aggregate_of_record:
  assumes "plain_record r"
  shows "row_aggregate (log_row_of n r) = record_aggregate r"
proof -
  have "to_i64 (us_input_tokens (lr_usage r) + unwrap_or 0 (us_cache_read_tokens (lr_usage r))
          + unwrap_or 0 (us_cache_write_tokens (lr_usage r)))
        = to_i64 (us_input_tokens (lr_usage r)) + to_i64 (unwrap_or 0 (us_cache_read_tokens (lr_usage r)))
          + to_i64 (unwrap_or 0 (us_cache_write_tokens (lr_usage r)))"
    using assms by (intro to_i64_sum3) (simp add: plain_record_def)
  moreover have "(0 < to_i64 v) = (0 < v)" for v :: u64
    by (auto simp: to_i64_def word_less_nat_alt)
  ultimately show ?thesis
    by (simp add: row_aggregate_def record_aggregate_def log_row_of_def unwrap_or_i64 Let_def of_bool_def)
qed

text \<open>One more row in the log is one more summand of its group.\<close>

lemma rollup_of_snoc:
  "rollup_of (ws @ [w]) =
     (rollup_of ws)(row_key w \<mapsto>
        (case rollup_of ws (row_key w) of None \<Rightarrow> row_aggregate w | Some a \<Rightarrow> a + row_aggregate w))"
  by (rule ext) (auto simp: rollup_of_def Let_def)

definition rollup_exact :: "log_db \<Rightarrow> bool" where
  "rollup_exact d \<longleftrightarrow> db_rollup d = rollup_of (db_rows d) \<and> distinct (map row_request_id (db_rows d))"

definition rows_from :: "RequestLogRecord set \<Rightarrow> log_db \<Rightarrow> bool" where
  "rows_from R d \<longleftrightarrow> (\<forall>w\<in>set (db_rows d). \<exists>r\<in>R. w = log_row_of (row_id w) r)"

lemma log_row_of_id [simp]: "row_request_id (log_row_of n r) = lr_request_id r" "row_id (log_row_of n r) = n"
  by (simp_all add: log_row_of_def)

lemma replay_changes_no_row:
  assumes "logged d (lr_request_id r)"
    and "\<And>w. w \<in> set (db_rows d) \<Longrightarrow> row_request_id w = lr_request_id r \<Longrightarrow> w = log_row_of (row_id w) r"
  shows "db_rows (put_log_row r d) = db_rows d"
  using assms by (auto simp: put_log_row_def intro!: map_idI)

lemma insert_record_exact:
  assumes exact: "rollup_exact d" and from_R: "rows_from R d" and plain: "plain_record r" and ok: "failing r = None"
    and R: "r \<in> R" "\<And>s. s \<in> R \<Longrightarrow> lr_request_id s = lr_request_id r \<Longrightarrow> s = r"
  shows "let e = insert_request_log_row json failing r d in
           rollup_exact e \<and> rows_from R e \<and>
           set (map row_request_id (db_rows e)) = insert (lr_request_id r) (set (map row_request_id (db_rows d)))"
proof (cases "logged d (lr_request_id r)")
  case True
  have "db_rows (put_log_row r d) = db_rows d"
  proof (rule replay_changes_no_row [OF True])
    fix w assume w: "w \<in> set (db_rows d)" "row_request_id w = lr_request_id r"
    then obtain s where "s \<in> R" "w = log_row_of (row_id w) s" using from_R by (auto simp: rows_from_def)
    moreover from this w have "lr_request_id s = lr_request_id r" by (metis log_row_of_id(1))
    ultimately show "w = log_row_of (row_id w) r" using R by metis
  qed
  moreover have "db_rollup (put_log_row r d) = db_rollup d" by (simp add: put_log_row_def)
  ultimately show ?thesis using True ok exact from_R
    by (auto simp: insert_request_log_row_def put_body_def rollup_exact_def rows_from_def logged_def Let_def)
next
  case False
  then show ?thesis using ok exact from_R R(1)
    by (auto simp: insert_request_log_row_def put_log_row_def put_body_def upsert_rollup_def rollup_exact_def rows_from_def
        logged_def rollup_of_snoc row_key_of_record [OF plain] row_aggregate_of_record [OF plain] Let_def
        split: option.splits)
qed

lemma insert_records_exact:
  assumes "rollup_exact d" "rows_from R d" "set rs \<subseteq> R"
    and "\<And>r. r \<in> set rs \<Longrightarrow> plain_record r \<and> failing r = None"
    and "\<And>r s. r \<in> R \<Longrightarrow> s \<in> R \<Longrightarrow> lr_request_id s = lr_request_id r \<Longrightarrow> s = r"
  shows "let e = fold (insert_request_log_row json failing) rs d in
           rollup_exact e \<and> rows_from R e \<and>
           set (map row_request_id (db_rows e)) = lr_request_id ` set rs \<union> set (map row_request_id (db_rows d))"
  using assms
proof (induction rs arbitrary: d)
  case (Cons r rs)
  let ?e = "insert_request_log_row json failing r d"
  have "rollup_exact ?e \<and> rows_from R ?e \<and>
      set (map row_request_id (db_rows ?e)) = insert (lr_request_id r) (set (map row_request_id (db_rows d)))"
    using insert_record_exact [of d R r failing json] Cons.prems by (auto simp: Let_def)
  with Cons.IH [of ?e] Cons.prems show ?case by (auto simp: Let_def)
qed (simp add: Let_def)

text \<open>Batches, each with whether its transaction begins and commits.\<close>

fun insert_batches ::
    "(RequestLogRecord \<Rightarrow> string) \<Rightarrow> (RequestLogRecord \<Rightarrow> log_statement option) \<Rightarrow>
     (bool \<times> bool \<times> RequestLogRecord list) list \<Rightarrow> log_db \<Rightarrow> log_db" where
  "insert_batches json failing [] d = d"
| "insert_batches json failing ((b, c, rs) # bs) d =
     insert_batches json failing bs (snd (insert_request_logs json failing b c rs d))"

definition committed :: "(bool \<times> bool \<times> RequestLogRecord list) list \<Rightarrow> RequestLogRecord list" where
  "committed bs = concat (map (\<lambda>(b, c, rs). if b \<and> c then rs else []) bs)"

lemma insert_batches_fold:
  "insert_batches json failing bs d = fold (insert_request_log_row json failing) (committed bs) d"
  by (induction bs arbitrary: d) (auto simp: committed_def insert_request_logs_def)

text \<open>The calls of a pre-aggregate are the rows of the log.\<close>

lemma sum_list_calls: "ag_calls (sum_list (map row_aggregate ws)) = length ws"
  by (induction ws) (simp_all add: row_aggregate_def)

lemma dom_rollup_of: "dom (rollup_of ws) = row_key ` set ws"
proof (rule set_eqI)
  fix k
  have "k \<in> dom (rollup_of ws) \<longleftrightarrow> (\<exists>w\<in>set ws. row_key w = k)"
    by (simp add: rollup_of_def Let_def domIff filter_empty_conv)
  then show "k \<in> dom (rollup_of ws) \<longleftrightarrow> k \<in> row_key ` set ws" by blast
qed

lemma rollup_of_calls: "(\<Sum>k\<in>dom (rollup_of ws). ag_calls (the (rollup_of ws k))) = length ws"
proof -
  have "(\<Sum>k\<in>row_key ` set ws. ag_calls (the (rollup_of ws k)))
      = (\<Sum>k\<in>row_key ` set ws. length (filter (\<lambda>w. row_key w = k) ws))"
    by (rule sum.cong) (auto simp: rollup_of_def Let_def sum_list_calls filter_empty_conv)
  also have "\<dots> = length ws"
  proof (induction ws rule: rev_induct)
    case (snoc w ws)
    let ?n = "\<lambda>k. length (filter (\<lambda>w. row_key w = k) ws)"
    have "(\<Sum>k\<in>row_key ` set (ws @ [w]). length (filter (\<lambda>v. row_key v = k) (ws @ [w])))
        = (\<Sum>k\<in>insert (row_key w) (row_key ` set ws). ?n k + of_bool (row_key w = k))"
      by (rule sum.cong) auto
    also have "\<dots> = (\<Sum>k\<in>insert (row_key w) (row_key ` set ws). ?n k) + 1"
      by (simp add: sum.distrib)
    also have "(\<Sum>k\<in>insert (row_key w) (row_key ` set ws). ?n k) = (\<Sum>k\<in>row_key ` set ws. ?n k)"
    proof (cases "row_key w \<in> row_key ` set ws")
      case False
      then have "?n (row_key w) = 0" by (simp add: filter_empty_conv) (metis image_eqI)
      with False show ?thesis by simp
    qed (simp add: insert_absorb)
    finally show ?case using snoc.IH by simp
  qed simp
  finally show ?thesis by (simp add: dom_rollup_of)
qed


definition example_record :: RequestLogRecord where
  "example_record =
     \<lparr>lr_request_id = ''a'', lr_timestamp = ''2025-01-06T10:00:00.5+00:00'', lr_provider = ''p'', lr_client_model = ''m'',
      lr_upstream_model = ''m'', lr_served_model = None, lr_streaming = True,
      lr_client_id = None, lr_account = None, lr_session = None, lr_status = 200, lr_attempt = 0, lr_latency_ms = 9,
      lr_ttft_ms = 3, lr_decode_ms = 0, lr_decode_out = 0, lr_usage = usage_default\<lparr>us_input_tokens := 7\<rparr>,
      lr_cache_unknown = False, lr_cost = None, lr_err_type = None, lr_rest = []\<rparr>"

lemma plain_example: "plain_record example_record"
  by (simp add: plain_record_def example_record_def usage_default_def)


section \<open>Where the two part\<close>

text \<open>
  A failing statement leaves those before it in the transaction, which commits.  A row whose pre-aggregate failed is
  not counted by a replay either; only a rebuild counts it.
\<close>

lemma failed_rollup_is_not_replayed:
  assumes "\<not> logged d (lr_request_id r)" "failing r = Some LS_Rollup"
  shows "let e = snd (insert_request_logs json failing True True [r] d);
             e' = snd (insert_request_logs json (\<lambda>_. None) True True [r] e) in
           logged e (lr_request_id r) \<and> db_rollup e = db_rollup d \<and> db_rollup e' = db_rollup d"
  using assms
  by (simp add: insert_request_logs_def insert_request_log_row_def put_log_row_def put_body_def logged_def Let_def)

lemma failed_body_leaves_row:
  assumes "\<not> logged d (lr_request_id r)" "failing r = Some LS_Body"
  shows "let e = snd (insert_request_logs json failing True True [r] d) in
           logged e (lr_request_id r) \<and> db_bodies e = db_bodies d \<and> db_rollup e = db_rollup d"
  using assms by (simp add: insert_request_logs_def insert_request_log_row_def put_log_row_def logged_def Let_def)

text \<open>A timestamp too short for an hour has a bucket of its own on insert and another one in a rebuild.\<close>

lemma mangled_timestamp_moves:
  assumes "lr_timestamp r = ''later''"
  shows "record_key r = (''later'', lr_provider r, lr_client_model r, unwrap_or [] (lr_client_id r))"
    "row_key (log_row_of n r) = (''later:00:00Z'', lr_provider r, lr_client_model r, unwrap_or [] (lr_client_id r))"
  using assms by (simp_all add: record_key_def row_key_def hour_floor_def log_row_of_def HOUR_TAIL_def sql_prefix_ascii)

text \<open>Retention as it comes keeps the pre-aggregate when the rows it was folded from go, and a rebuild then forgets them.\<close>

lemma default_retention_keeps_rollup: "db_rollup (apply_retention age hour default_retention d) = db_rollup d"
  by (simp add: apply_retention_def default_retention_def prune_before_def prune_bodies_def Let_def)

lemma rebuild_after_retention_forgets:
  assumes "\<And>w. w \<in> set (db_rows d) \<Longrightarrow> row_timestamp w < age 30"
  shows "db_rollup (snd (rebuild_rollup (apply_retention age hour default_retention d))) = Map.empty"
proof -
  have "db_rows (apply_retention age hour default_retention d) = []"
    using assms
    by (simp add: apply_retention_def default_retention_def prune_before_def prune_bodies_def Let_def filter_empty_conv)
  then show ?thesis by (simp add: rebuild_rollup_def rollup_of_def)
qed

text \<open>No body outlives its row.\<close>

definition bodies_have_rows :: "log_db \<Rightarrow> bool" where
  "bodies_have_rows d \<longleftrightarrow> (\<forall>i\<in>dom (db_bodies d). logged d i)"

lemma logged_put_log_row: "logged (put_log_row r d) i \<longleftrightarrow> i = lr_request_id r \<or> logged d i"
proof -
  have "map row_request_id (map (\<lambda>w. if row_request_id w = lr_request_id r then log_row_of (row_id w) r else w) ws)
      = map row_request_id ws" for ws
    by (rule nth_equalityI) simp_all
  then show ?thesis by (auto simp: put_log_row_def logged_def simp del: map_map set_map)
qed

lemma insert_request_log_row_bodies:
  "bodies_have_rows d \<Longrightarrow> bodies_have_rows (insert_request_log_row json failing r d)"
proof -
  assume d: "bodies_have_rows d"
  have same: "db_bodies (put_log_row r d) = db_bodies d" by (simp add: put_log_row_def)
  have 1: "bodies_have_rows (put_log_row r d)"
    using d by (simp add: bodies_have_rows_def logged_put_log_row same)
  have body: "bodies_have_rows (put_body j r e)" if "bodies_have_rows e" "logged e (lr_request_id r)" for j e
    using that by (simp add: bodies_have_rows_def put_body_def logged_def)
  have rollup: "bodies_have_rows (upsert_rollup r e)" if "bodies_have_rows e" for e
    using that by (simp add: bodies_have_rows_def upsert_rollup_def logged_def Let_def)
  show ?thesis
    using d 1 by (simp add: insert_request_log_row_def Let_def body rollup logged_put_log_row)
qed

lemma prune_before_bodies: "bodies_have_rows d \<Longrightarrow> bodies_have_rows (snd (prune_before cutoff d))"
  by (auto simp: bodies_have_rows_def prune_before_def logged_def Let_def restrict_map_def dom_def image_iff
      split: if_splits)

lemma apply_retention_bodies:
  assumes "bodies_have_rows d"
  shows "bodies_have_rows (apply_retention age hour p d)"
proof -
  have bodies: "bodies_have_rows (prune_bodies c d)" if "bodies_have_rows d" for c and d :: log_db
    using that by (auto simp: bodies_have_rows_def prune_bodies_def logged_def split: option.splits if_splits)
  have rollup: "bodies_have_rows (prune_rollup c d)" if "bodies_have_rows d" for c and d :: log_db
    using that by (simp add: bodies_have_rows_def prune_rollup_def logged_def)
  show ?thesis
    using assms by (simp add: apply_retention_def Let_def bodies rollup prune_before_bodies)
qed

text \<open>\<open>to_rfc3339\<close> writes the fraction of a second and an offset, so a record in a bound's own second sorts before the bound.\<close>

lemma fraction_sorts_before_its_second:
  "''2025-01-06T10:00:00.5+00:00'' < ''2025-01-06T10:00:00Z''"
  by code_simp

end
