(* ===== verification/Usage_Summary.thy ===== *)
theory Usage_Summary
  imports Rollup "HOL-Library.Multiset" "HOL-Library.AList" "HOL-Library.Product_Lexorder"
begin

text \<open>
  What the usage views read: \<open>usage_summary\<close> of \<open>crates/server/src/storage.rs\<close> with the queries and totals of
  \<open>storage/query.rs\<close>.  A grouped select is a list of groups in some order; the lemmas show that the folded summary does
  not depend on it, and that a summary read from the pre-aggregate is the sum over the rows of the log whose hour the
  range covers.
\<close>

section \<open>Totals\<close>

record Totals =
  tt_calls :: nat
  tt_errors :: nat
  tt_input :: nat
  tt_output :: nat
  tt_cache_read :: nat
  tt_cache_write :: nat
  tt_cache_write_1h :: nat
  tt_cache_unknown :: nat
  tt_reasoning :: nat
  tt_latency_sum :: nat
  tt_latency_max :: nat
  tt_ttft_sum :: nat
  tt_ttft_calls :: nat
  tt_cost :: rat
  tt_unpriced :: nat
  tt_retried :: nat
  tt_loops :: nat
  tt_decode_ms :: nat
  tt_decode_out :: nat
  tt_decode_n :: nat

definition default_totals :: Totals where
  "default_totals =
     \<lparr>tt_calls = 0, tt_errors = 0, tt_input = 0, tt_output = 0, tt_cache_read = 0, tt_cache_write = 0,
      tt_cache_write_1h = 0, tt_cache_unknown = 0, tt_reasoning = 0, tt_latency_sum = 0, tt_latency_max = 0,
      tt_ttft_sum = 0, tt_ttft_calls = 0, tt_cost = 0, tt_unpriced = 0, tt_retried = 0, tt_loops = 0,
      tt_decode_ms = 0, tt_decode_out = 0, tt_decode_n = 0\<rparr>"

text \<open>The columns of a group, without the three of the reply speed.\<close>

definition totals_at :: "Aggregate \<Rightarrow> nat \<Rightarrow> Totals" where
  "totals_at a calls =
     default_totals
       \<lparr>tt_calls := calls, tt_errors := ag_errors a, tt_input := ag_input a, tt_output := ag_output a,
        tt_cache_read := ag_cache_read a, tt_cache_write := ag_cache_write a,
        tt_cache_write_1h := ag_cache_write_1h a, tt_cache_unknown := ag_cache_unknown a,
        tt_reasoning := ag_reasoning a, tt_latency_sum := ag_latency_sum a, tt_latency_max := ag_latency_max a,
        tt_ttft_sum := ag_ttft_sum a, tt_ttft_calls := ag_ttft_calls a, tt_cost := ag_cost a,
        tt_unpriced := calls - ag_priced a, tt_retried := ag_retried a, tt_loops := ag_loops a\<rparr>"

definition add_totals :: "Totals \<Rightarrow> Totals \<Rightarrow> Totals" where
  "add_totals into frm =
     \<lparr>tt_calls = tt_calls into + tt_calls frm, tt_errors = tt_errors into + tt_errors frm,
      tt_input = tt_input into + tt_input frm, tt_output = tt_output into + tt_output frm,
      tt_cache_read = tt_cache_read into + tt_cache_read frm, tt_cache_write = tt_cache_write into + tt_cache_write frm,
      tt_cache_write_1h = tt_cache_write_1h into + tt_cache_write_1h frm,
      tt_cache_unknown = tt_cache_unknown into + tt_cache_unknown frm,
      tt_reasoning = tt_reasoning into + tt_reasoning frm, tt_latency_sum = tt_latency_sum into + tt_latency_sum frm,
      tt_latency_max = max (tt_latency_max into) (tt_latency_max frm), tt_ttft_sum = tt_ttft_sum into + tt_ttft_sum frm,
      tt_ttft_calls = tt_ttft_calls into + tt_ttft_calls frm, tt_cost = tt_cost into + tt_cost frm,
      tt_unpriced = tt_unpriced into + tt_unpriced frm, tt_retried = tt_retried into + tt_retried frm,
      tt_loops = tt_loops into + tt_loops frm, tt_decode_ms = tt_decode_ms into + tt_decode_ms frm,
      tt_decode_out = tt_decode_out into + tt_decode_out frm, tt_decode_n = tt_decode_n into + tt_decode_n frm\<rparr>"

text \<open>The subtraction of \<open>hit_rate\<close> is one of \<open>u64\<close>s: \<open>None\<close> of the outer option is its underflow.\<close>

definition hit_rate :: "Totals \<Rightarrow> rat option option" where
  "hit_rate t =
     (let all = tt_input t + tt_cache_read t + tt_cache_write t in
      if all < tt_cache_unknown t then None
      else
        let prompt = all - tt_cache_unknown t in
        Some (if 0 < prompt then Some (of_nat (tt_cache_read t) / of_nat prompt) else None))"

definition mean_latency_ms :: "Totals \<Rightarrow> nat option" where
  "mean_latency_ms t = (if 0 < tt_calls t then Some (tt_latency_sum t div tt_calls t) else None)"

definition mean_ttft_ms :: "Totals \<Rightarrow> nat option" where
  "mean_ttft_ms t = (if 0 < tt_ttft_calls t then Some (tt_ttft_sum t div tt_ttft_calls t) else None)"

definition speed :: "Totals \<Rightarrow> rat option" where
  "speed t =
     (if tt_decode_n t = 0 \<or> tt_decode_ms t = 0 \<or> tt_decode_out t = 0 then None
      else Some (of_nat (tt_decode_out t) / (of_nat (tt_decode_ms t) / 1000)))"

section \<open>Queries\<close>

datatype Granularity = Hour | Day | Week | Month

text \<open>\<open>week\<close> is SQLite's \<open>date(column,'weekday 1','-7 days')\<close>.\<close>

definition bucket_expr :: "(string \<Rightarrow> string) \<Rightarrow> Granularity \<Rightarrow> string \<Rightarrow> string" where
  "bucket_expr week g col =
     (case g of
        Hour \<Rightarrow> sql_prefix 13 col @ HOUR_TAIL
      | Day \<Rightarrow> sql_prefix 10 col
      | Week \<Rightarrow> week col
      | Month \<Rightarrow> sql_prefix 7 col)"

record UsageQuery =
  uq_from :: string
  uq_to :: string
  uq_granularity :: Granularity
  uq_provider :: "string option"
  uq_model :: "string option"
  uq_agent :: "string option"
  uq_account :: "string option"

definition opt_matches :: "string option \<Rightarrow> string \<Rightarrow> bool" where
  "opt_matches f v \<longleftrightarrow> (case f of None \<Rightarrow> True | Some x \<Rightarrow> v = x)"

text \<open>
  One \<open>select ... group by 1, 2, 3, 4\<close> over rows that are a key, whose first part is the time column, and the columns to
  sum.
\<close>

definition select_groups ::
    "('k \<Rightarrow> 'g) \<Rightarrow> ('k \<Rightarrow> bool) \<Rightarrow> ('k \<times> Aggregate) list \<Rightarrow> ('g \<times> Aggregate) list" where
  "select_groups g P es =
     (let kept = filter (\<lambda>e. P (fst e)) es in
      map (\<lambda>k. (k, sum_list (map snd (filter (\<lambda>e. g (fst e) = k) kept)))) (remdups (map (\<lambda>e. g (fst e)) kept)))"

definition in_query :: "UsageQuery \<Rightarrow> string \<Rightarrow> rollup_key \<Rightarrow> bool" where
  "in_query q frm k \<longleftrightarrow>
     (case k of (t, provider, model, agent) \<Rightarrow>
        frm \<le> t \<and> t < uq_to q \<and> opt_matches (uq_provider q) provider \<and> opt_matches (uq_model q) model \<and>
        opt_matches (uq_agent q) agent)"

definition bucket_key :: "(string \<Rightarrow> string) \<Rightarrow> UsageQuery \<Rightarrow> rollup_key \<Rightarrow> rollup_key" where
  "bucket_key week q k = (bucket_expr week (uq_granularity q) (fst k), snd k)"

text \<open>The detail table with its own timestamp as the time column.\<close>

definition detail_key :: "log_row \<Rightarrow> rollup_key" where
  "detail_key w = (row_timestamp w, row_provider w, row_client_model w, unwrap_or [] (row_client_id w))"

text \<open>\<open>rollup\<close> lists the rows of \<open>rollup_hourly\<close>.\<close>

definition summary_groups ::
    "(string \<Rightarrow> string) \<Rightarrow> UsageQuery \<Rightarrow> log_row list \<Rightarrow> (rollup_key \<times> Aggregate) list \<Rightarrow> (rollup_key \<times> Aggregate) list" where
  "summary_groups week q ws rollup =
     (case uq_account q of
        Some account \<Rightarrow>
          select_groups (bucket_key week q) (in_query q (uq_from q))
            (map (\<lambda>w. (detail_key w, row_aggregate w)) (filter (\<lambda>w. row_account w = Some account) ws))
      | None \<Rightarrow> select_groups (bucket_key week q) (in_query q (hour_floor (uq_from q))) rollup)"

section \<open>The fold\<close>

record GroupTotals =
  gt_provider :: "string option"
  gt_model :: "string option"
  gt_totals :: Totals

definition default_group :: GroupTotals where
  "default_group = \<lparr>gt_provider = None, gt_model = None, gt_totals = default_totals\<rparr>"

record summary =
  sm_totals :: Totals
  sm_series :: "string \<rightharpoonup> Totals"
  sm_provider :: "string \<rightharpoonup> GroupTotals"
  sm_model :: "string \<rightharpoonup> GroupTotals"
  sm_agent :: "string \<rightharpoonup> GroupTotals"

definition empty_summary :: summary where
  "empty_summary =
     \<lparr>sm_totals = default_totals, sm_series = Map.empty, sm_provider = Map.empty, sm_model = Map.empty,
      sm_agent = Map.empty\<rparr>"

definition row_totals :: "Aggregate \<Rightarrow> Totals" where
  "row_totals a =
     (totals_at a (ag_calls a))
       \<lparr>tt_decode_ms := ag_decode_ms a, tt_decode_out := ag_decode_out a, tt_decode_n := ag_decode_n a\<rparr>"

definition add_group :: "Totals \<Rightarrow> GroupTotals \<Rightarrow> GroupTotals" where
  "add_group t g = g\<lparr>gt_totals := add_totals (gt_totals g) t\<rparr>"

definition fold_summary_row :: "rollup_key \<times> Aggregate \<Rightarrow> summary \<Rightarrow> summary" where
  "fold_summary_row row s =
     (case row of ((bucket, provider, model, agent), a) \<Rightarrow>
        let t = row_totals a in
        \<lparr>sm_totals = add_totals (sm_totals s) t,
         sm_series = (sm_series s)(bucket \<mapsto> add_totals (unwrap_or default_totals (sm_series s bucket)) t),
         sm_provider =
           (sm_provider s)(provider \<mapsto>
              add_group t (unwrap_or (default_group\<lparr>gt_provider := Some provider\<rparr>) (sm_provider s provider))),
         sm_model =
           (sm_model s)(model \<mapsto>
              (case sm_model s model of
                 None \<Rightarrow> add_group t (default_group\<lparr>gt_provider := Some provider, gt_model := Some model\<rparr>)
               | Some g \<Rightarrow>
                   add_group t (if gt_provider g \<noteq> Some provider then g\<lparr>gt_provider := None\<rparr> else g))),
         sm_agent = (sm_agent s)(agent \<mapsto> add_group t (unwrap_or default_group (sm_agent s agent)))\<rparr>)"

definition usage_summary ::
    "(string \<Rightarrow> string) \<Rightarrow> UsageQuery \<Rightarrow> log_row list \<Rightarrow> (rollup_key \<times> Aggregate) list \<Rightarrow> summary" where
  "usage_summary week q ws rollup = fold fold_summary_row (summary_groups week q ws rollup) empty_summary"

record Group =
  gr_id :: string
  gr_provider :: "string option"
  gr_model :: "string option"
  gr_totals :: Totals

text \<open>\<open>groups\<close> lists the entries of a hash map in any order.\<close>

definition sorted_groups :: "(string \<times> GroupTotals) list \<Rightarrow> Group list" where
  "sorted_groups groups =
     sort_key (\<lambda>g. (- int (tt_calls (gr_totals g)), gr_id g))
       (map (\<lambda>(i, g). \<lparr>gr_id = i, gr_provider = gt_provider g, gr_model = gt_model g, gr_totals = gt_totals g\<rparr>) groups)"

section \<open>Sums over groups\<close>

lemma row_totals_zero [simp]: "row_totals 0 = default_totals"
  by (simp add: row_totals_def totals_at_def default_totals_def zero_Aggregate_ext_def)

definition priced_within :: "Aggregate \<Rightarrow> bool" where
  "priced_within a \<longleftrightarrow> ag_priced a \<le> ag_calls a"

lemma priced_within_row [simp]: "priced_within (row_aggregate w)"
  by (simp add: priced_within_def row_aggregate_def)

lemma priced_within_sum: "\<forall>a\<in>set as. priced_within a \<Longrightarrow> priced_within (sum_list as)"
  by (induction as) (auto simp: priced_within_def plus_Aggregate_ext_def zero_Aggregate_ext_def)

lemma add_row_totals:
  "priced_within a \<Longrightarrow> priced_within b \<Longrightarrow> add_totals (row_totals a) (row_totals b) = row_totals (a + b)"
  by (simp add: add_totals_def row_totals_def totals_at_def default_totals_def plus_Aggregate_ext_def priced_within_def)

lemma add_default_totals: "priced_within a \<Longrightarrow> add_totals default_totals (row_totals a) = row_totals a"
proof -
  have "priced_within 0" by (simp add: priced_within_def zero_Aggregate_ext_def)
  then show "priced_within a \<Longrightarrow> add_totals default_totals (row_totals a) = row_totals a"
    using add_row_totals [of 0 a] by simp
qed

definition total_of :: "('k \<times> Aggregate) list \<Rightarrow> ('k \<Rightarrow> bool) \<Rightarrow> Totals option" where
  "total_of gs Q =
     (let g = filter (\<lambda>e. Q (fst e)) gs in if g = [] then None else Some (row_totals (sum_list (map snd g))))"

lemma total_of_Nil [simp]: "total_of [] Q = None"
  by (simp add: total_of_def)

lemma total_of_snoc:
  assumes "\<forall>e\<in>set (gs @ [e]). priced_within (snd e)"
  shows "total_of (gs @ [e]) Q =
           (if Q (fst e) then Some (add_totals (unwrap_or default_totals (total_of gs Q)) (row_totals (snd e)))
            else total_of gs Q)"
proof -
  have "priced_within (sum_list (map snd (filter (\<lambda>e. Q (fst e)) gs)))"
    using assms by (intro priced_within_sum) auto
  then show ?thesis using assms by (auto simp: total_of_def Let_def add_row_totals add_default_totals)
qed

lemma total_of_mset:
  assumes "mset gs = mset hs"
  shows "total_of gs Q = total_of hs Q"
proof -
  let ?f = "filter (\<lambda>e. Q (fst e))"
  have m: "mset (?f gs) = mset (?f hs)"
    by (metis assms mset_filter)
  then have "mset (map snd (?f gs)) = mset (map snd (?f hs))" by (metis mset_map)
  then have "sum_list (map snd (?f gs)) = sum_list (map snd (?f hs))" by (metis sum_mset_sum_list)
  moreover have "?f gs = [] \<longleftrightarrow> ?f hs = []" by (metis m mset_zero_iff)
  ultimately show ?thesis by (simp only: total_of_def Let_def)
qed

text \<open>Grouping first and summing the groups, or summing at once.\<close>

lemma sum_by_groups:
  fixes f :: "'a \<Rightarrow> 'b::comm_monoid_add"
  assumes "finite S" "h ` set xs \<subseteq> S"
  shows "(\<Sum>k\<in>S. if Q k then sum_list (map f (filter (\<lambda>x. h x = k) xs)) else 0)
       = sum_list (map f (filter (\<lambda>x. Q (h x)) xs))"
  using assms(2)
proof (induction xs)
  case (Cons x xs)
  have "(\<Sum>k\<in>S. if Q k then sum_list (map f (filter (\<lambda>x. h x = k) (x # xs))) else 0)
      = (\<Sum>k\<in>S. (if k = h x then if Q k then f x else 0 else 0)
           + (if Q k then sum_list (map f (filter (\<lambda>x. h x = k) xs)) else 0))"
    by (rule sum.cong) auto
  also have "\<dots> = (if Q (h x) then f x else 0) + sum_list (map f (filter (\<lambda>x. Q (h x)) xs))"
    using Cons assms(1) by (simp add: sum.distrib)
  finally show ?case by simp
qed (auto intro!: sum.neutral)

lemma sum_select_groups:
  "sum_list (map snd (filter (\<lambda>e. Q (fst e)) (select_groups g P es)))
     = sum_list (map snd (filter (\<lambda>e. P (fst e) \<and> Q (g (fst e))) es))"
proof -
  let ?kept = "filter (\<lambda>e. P (fst e)) es"
  let ?f = "\<lambda>k. sum_list (map snd (filter (\<lambda>e. g (fst e) = k) ?kept))"
  let ?ks = "remdups (map (\<lambda>e. g (fst e)) ?kept)"
  have "sum_list (map snd (filter (\<lambda>e. Q (fst e)) (select_groups g P es)))
      = sum_list (map ?f (filter Q ?ks))"
    by (simp add: select_groups_def Let_def filter_map comp_def)
  also have "\<dots> = sum ?f (set (filter Q ?ks))"
    by (rule sum_list_distinct_conv_sum_set) simp
  also have "\<dots> = (\<Sum>k\<in>set ?ks. if Q k then ?f k else 0)"
    by (simp only: set_filter) (rule sum.inter_filter, simp)
  also have "\<dots> = sum_list (map snd (filter (\<lambda>e. Q (g (fst e))) ?kept))"
    by (rule sum_by_groups) auto
  finally show ?thesis by (simp add: conj_commute)
qed

lemma total_of_select_groups:
  "total_of (select_groups g P es) Q = total_of es (\<lambda>k. P k \<and> Q (g k))"
proof -
  have "filter (\<lambda>e. Q (fst e)) (select_groups g P es) = [] \<longleftrightarrow> filter (\<lambda>e. P (fst e) \<and> Q (g (fst e))) es = []"
    by (auto simp: select_groups_def Let_def filter_empty_conv)
  then show ?thesis by (simp add: total_of_def Let_def sum_select_groups)
qed

lemma select_groups_priced:
  "\<forall>e\<in>set es. priced_within (snd e) \<Longrightarrow> \<forall>e\<in>set (select_groups g P es). priced_within (snd e)"
  by (auto simp: select_groups_def Let_def intro!: priced_within_sum)

section \<open>What the fold gives\<close>

lemma add_group_entry:
  "add_group t (unwrap_or \<lparr>gt_provider = p, gt_model = m, gt_totals = default_totals\<rparr>
      (map_option (\<lambda>u. \<lparr>gt_provider = p, gt_model = m, gt_totals = u\<rparr>) x))
     = \<lparr>gt_provider = p, gt_model = m, gt_totals = add_totals (unwrap_or default_totals x) t\<rparr>"
  by (cases x) (simp_all add: add_group_def)

lemma fold_summary:
  assumes "\<forall>e\<in>set gs. priced_within (snd e)"
  defines "s \<equiv> fold fold_summary_row gs empty_summary"
  shows "sm_totals s = unwrap_or default_totals (total_of gs (\<lambda>_. True)) \<and>
         sm_series s b = total_of gs (\<lambda>k. fst k = b) \<and>
         sm_provider s p = map_option (\<lambda>t. \<lparr>gt_provider = Some p, gt_model = None, gt_totals = t\<rparr>)
           (total_of gs (\<lambda>k. fst (snd k) = p)) \<and>
         sm_agent s i = map_option (\<lambda>t. \<lparr>gt_provider = None, gt_model = None, gt_totals = t\<rparr>)
           (total_of gs (\<lambda>k. snd (snd (snd k)) = i))"
  using assms(1) unfolding s_def
proof (induction gs rule: rev_induct)
  case (snoc e gs)
  obtain bucket provider model agent a where e: "e = ((bucket, provider, model, agent), a)"
    by (cases e) auto
  from snoc.prems have prems: "\<forall>f\<in>set (gs @ [((bucket, provider, model, agent), a)]). priced_within (snd f)"
    by (simp add: e)
  have step:
    "sm_totals (fold_summary_row e S) = add_totals (sm_totals S) (row_totals a)"
    "sm_series (fold_summary_row e S) b =
       (if bucket = b then Some (add_totals (unwrap_or default_totals (sm_series S b)) (row_totals a)) else sm_series S b)"
    "sm_provider (fold_summary_row e S) p =
       (if provider = p
        then Some (add_group (row_totals a)
          (unwrap_or \<lparr>gt_provider = Some p, gt_model = None, gt_totals = default_totals\<rparr> (sm_provider S p)))
        else sm_provider S p)"
    "sm_agent (fold_summary_row e S) i =
       (if agent = i
        then Some (add_group (row_totals a)
          (unwrap_or \<lparr>gt_provider = None, gt_model = None, gt_totals = default_totals\<rparr> (sm_agent S i)))
        else sm_agent S i)" for S
    by (simp_all add: e fold_summary_row_def Let_def default_group_def)
  show ?case
    using snoc by (simp add: step [unfolded e] add_group_entry e total_of_snoc [OF prems])
qed (simp add: empty_summary_def)

text \<open>The entry of a model names its provider as long as only one serves it.\<close>

definition model_providers :: "(rollup_key \<times> Aggregate) list \<Rightarrow> string \<Rightarrow> string list" where
  "model_providers gs m = map (\<lambda>e. fst (snd (fst e))) (filter (\<lambda>e. fst (snd (snd (fst e))) = m) gs)"

lemma fold_summary_model:
  assumes "\<forall>e\<in>set gs. priced_within (snd e)"
  defines "s \<equiv> fold fold_summary_row gs empty_summary"
  shows "sm_model s m =
           map_option
             (\<lambda>t. \<lparr>gt_provider =
                     (let ps = model_providers gs m in if \<forall>p\<in>set ps. p = hd ps then Some (hd ps) else None),
                   gt_model = Some m, gt_totals = t\<rparr>)
             (total_of gs (\<lambda>k. fst (snd (snd k)) = m))"
  using assms(1) unfolding s_def
proof (induction gs rule: rev_induct)
  case (snoc e gs)
  obtain bucket provider model agent a where e: "e = ((bucket, provider, model, agent), a)"
    by (cases e) auto
  have none: "total_of gs (\<lambda>k. fst (snd (snd k)) = m) = None \<longleftrightarrow> model_providers gs m = []"
    by (simp add: total_of_def model_providers_def Let_def)
  have ps: "model_providers (gs @ [e]) m = model_providers gs m @ (if model = m then [provider] else [])"
    by (simp add: model_providers_def e)
  have IH: "sm_model (fold fold_summary_row gs empty_summary) m = map_option
       (\<lambda>t. \<lparr>gt_provider = (let ps = model_providers gs m in if \<forall>p\<in>set ps. p = hd ps then Some (hd ps) else None),
             gt_model = Some m, gt_totals = t\<rparr>)
       (total_of gs (\<lambda>k. fst (snd (snd k)) = m))"
    using snoc by simp
  have tot: "total_of (gs @ [e]) (\<lambda>k. fst (snd (snd k)) = m) =
      (if model = m then Some (add_totals (unwrap_or default_totals (total_of gs (\<lambda>k. fst (snd (snd k)) = m))) (row_totals a))
       else total_of gs (\<lambda>k. fst (snd (snd k)) = m))"
    using total_of_snoc [OF snoc.prems] by (simp add: e)
  have step: "sm_model (fold_summary_row e S) m =
      (if model = m
       then Some (case sm_model S m of
           None \<Rightarrow> \<lparr>gt_provider = Some provider, gt_model = Some m, gt_totals = add_totals default_totals (row_totals a)\<rparr>
         | Some g \<Rightarrow> add_group (row_totals a) (if gt_provider g \<noteq> Some provider then g\<lparr>gt_provider := None\<rparr> else g))
       else sm_model S m)" for S
    by (simp add: e fold_summary_row_def Let_def add_group_def default_group_def split: option.splits)
  show ?case
  proof (cases "model_providers gs m")
    case Nil
    then show ?thesis using none by (simp add: step tot ps IH)
  next
    case (Cons p qs)
    then obtain t where "total_of gs (\<lambda>k. fst (snd (snd k)) = m) = Some t" using none by fastforce
    with Cons show ?thesis by (auto simp: step tot ps IH add_group_def)
  qed
qed (simp add: empty_summary_def)

section \<open>A summary is a sum over the log\<close>

definition log_entries :: "(log_row \<Rightarrow> rollup_key) \<Rightarrow> log_row list \<Rightarrow> (rollup_key \<times> Aggregate) list" where
  "log_entries key ws = map (\<lambda>w. (key w, row_aggregate w)) ws"

lemma map_of_select_groups:
  "map_of (select_groups id (\<lambda>_. True) (log_entries row_key ws)) = rollup_of ws"
proof (rule ext)
  fix k
  let ?f = "\<lambda>k. sum_list (map row_aggregate (filter (\<lambda>w. row_key w = k) ws))"
  have groups: "select_groups id (\<lambda>_. True) (log_entries row_key ws) = map (\<lambda>k. (k, ?f k)) (remdups (map row_key ws))"
    by (simp add: select_groups_def log_entries_def filter_map comp_def)
  have at: "map_of (map (\<lambda>k. (k, f k)) ks) k = (if k \<in> set ks then Some (f k) else None)"
    for f :: "rollup_key \<Rightarrow> Aggregate" and ks
    by (induction ks) auto
  have "k \<in> set (remdups (map row_key ws)) \<longleftrightarrow> filter (\<lambda>w. row_key w = k) ws \<noteq> []"
    by (simp only: set_remdups set_map filter_empty_conv) blast
  then have "(if k \<in> set (remdups (map row_key ws)) then Some (?f k) else None) = rollup_of ws k"
    by (simp only: rollup_of_def Let_def if_not_P if_P split: if_split) simp
  then show "map_of (select_groups id (\<lambda>_. True) (log_entries row_key ws)) k = rollup_of ws k"
    by (simp only: groups at)
qed

lemma distinct_select_groups: "distinct (map fst (select_groups g P es))"
  by (simp add: select_groups_def Let_def comp_def)

definition lists_rollup :: "(rollup_key \<times> Aggregate) list \<Rightarrow> log_row list \<Rightarrow> bool" where
  "lists_rollup rollup ws \<longleftrightarrow> distinct (map fst rollup) \<and> map_of rollup = rollup_of ws"

lemma lists_rollup_mset:
  assumes "lists_rollup rollup ws"
  shows "mset rollup = mset (select_groups id (\<lambda>_. True) (log_entries row_key ws))"
proof -
  let ?gs = "select_groups id (\<lambda>_. True) (log_entries row_key ws)"
  from assms have r: "distinct (map fst rollup)" "map_of rollup = map_of ?gs"
    by (simp_all add: lists_rollup_def map_of_select_groups)
  have g: "distinct (map fst ?gs)" by (rule distinct_select_groups)
  have "set rollup = set ?gs" using map_of_inject_set [OF r(1) g] r(2) by simp
  moreover have "distinct rollup" "distinct ?gs" using r(1) g by (simp_all add: distinct_map)
  ultimately show ?thesis by (simp add: set_eq_iff_mset_eq_distinct)
qed

lemma total_of_rollup: "lists_rollup rollup ws \<Longrightarrow> total_of rollup Q = total_of (log_entries row_key ws) Q"
  using total_of_mset [OF lists_rollup_mset] by (simp add: total_of_select_groups)

lemma log_entries_priced: "\<forall>e\<in>set (log_entries key ws). priced_within (snd e)"
  by (simp add: log_entries_def)

lemma rollup_priced:
  assumes "lists_rollup rollup ws"
  shows "\<forall>e\<in>set rollup. priced_within (snd e)"
proof -
  have "set rollup = set (select_groups id (\<lambda>_. True) (log_entries row_key ws))"
    by (rule mset_eq_setD [OF lists_rollup_mset [OF assms]])
  then show ?thesis using select_groups_priced [OF log_entries_priced] by simp
qed

text \<open>The rows a query covers: by their hour without an account, by their own instant with one.\<close>

definition covers :: "UsageQuery \<Rightarrow> log_row \<Rightarrow> bool" where
  "covers q w \<longleftrightarrow>
     (case uq_account q of
        None \<Rightarrow> in_query q (hour_floor (uq_from q)) (row_key w)
      | Some account \<Rightarrow> row_account w = Some account \<and> in_query q (uq_from q) (detail_key w))"

definition time_column :: "UsageQuery \<Rightarrow> log_row \<Rightarrow> string" where
  "time_column q w = (if uq_account q = None then fst (row_key w) else row_timestamp w)"

definition log_total :: "log_row list \<Rightarrow> (log_row \<Rightarrow> bool) \<Rightarrow> Totals option" where
  "log_total ws P = (let g = filter P ws in if g = [] then None else Some (row_totals (sum_list (map row_aggregate g))))"

lemma total_of_log_entries: "total_of (log_entries key ws) Q = log_total ws (\<lambda>w. Q (key w))"
  by (simp add: total_of_def log_entries_def log_total_def Let_def filter_map comp_def)

lemma log_total_filter: "log_total (filter P ws) Q = log_total ws (\<lambda>w. P w \<and> Q w)"
  by (simp add: log_total_def conj_commute)

lemma snd_keys: "snd (row_key w) = (row_provider w, row_client_model w, unwrap_or [] (row_client_id w))"
  "snd (detail_key w) = (row_provider w, row_client_model w, unwrap_or [] (row_client_id w))"
  "fst (detail_key w) = row_timestamp w"
  by (simp_all add: row_key_def detail_key_def)

lemma total_of_summary_groups:
  assumes "lists_rollup rollup ws"
  shows "total_of (summary_groups week q ws rollup) Q =
           log_total ws (\<lambda>w. covers q w \<and>
             Q (bucket_expr week (uq_granularity q) (time_column q w), row_provider w, row_client_model w,
                unwrap_or [] (row_client_id w)))"
proof (cases "uq_account q")
  case None
  then show ?thesis
    by (simp add: summary_groups_def total_of_select_groups total_of_rollup [OF assms] total_of_log_entries covers_def
        bucket_key_def time_column_def snd_keys)
next
  case (Some account)
  have "total_of (summary_groups week q ws rollup) Q =
      total_of (log_entries detail_key (filter (\<lambda>w. row_account w = Some account) ws))
        (\<lambda>k. in_query q (uq_from q) k \<and> Q (bucket_key week q k))"
    by (simp add: summary_groups_def Some total_of_select_groups log_entries_def)
  also have "\<dots> = log_total ws (\<lambda>w. row_account w = Some account \<and>
      in_query q (uq_from q) (detail_key w) \<and> Q (bucket_key week q (detail_key w)))"
    by (simp add: total_of_log_entries log_total_filter)
  finally show ?thesis by (simp add: covers_def Some bucket_key_def time_column_def snd_keys)
qed

lemma summary_groups_priced:
  assumes "lists_rollup rollup ws"
  shows "\<forall>e\<in>set (summary_groups week q ws rollup). priced_within (snd e)"
proof (cases "uq_account q")
  case None
  then show ?thesis
    unfolding summary_groups_def by (simp only: option.case) (rule select_groups_priced [OF rollup_priced [OF assms]])
next
  case (Some account)
  then show ?thesis
    unfolding summary_groups_def log_entries_def [symmetric]
    by (simp only: option.case) (rule select_groups_priced [OF log_entries_priced])
qed


definition example_query :: UsageQuery where
  "example_query =
     \<lparr>uq_from = ''2025-01-06T10:30:00Z'', uq_to = ''2025-01-06T10:45:00Z'', uq_granularity = Day, uq_provider = None,
      uq_model = None, uq_agent = None, uq_account = None\<rparr>"

text \<open>
  The query has no instant of the example row, which is at ten o'clock: without an account the bounds meet the hour's
  own instant, so the row counts.
\<close>

lemma example_covered: "covers example_query (log_row_of 1 example_record)"
proof -
  have "row_key (log_row_of 1 example_record) = (''2025-01-06T10:00:00Z'', ''p'', ''m'', [])"
    unfolding row_key_of_record [OF plain_example]
    by (simp add: record_key_def hour_floor_def example_record_def is_char_boundary_def HOUR_TAIL_def)
  then show ?thesis
    by (simp add: covers_def example_query_def in_query_def opt_matches_def hour_floor_def is_char_boundary_def
        HOUR_TAIL_def)
qed


section \<open>Ranks, rates and weeks\<close>

text \<open>The ranking does not depend on the order a hash map yields its entries in.\<close>

lemma sorted_groups_order:
  assumes "mset xs = mset ys" "distinct (map fst xs)"
  shows "sorted_groups xs = sorted_groups ys"
proof -
  let ?f = "\<lambda>(i, g). \<lparr>gr_id = i, gr_provider = gt_provider g, gr_model = gt_model g, gr_totals = gt_totals g\<rparr>"
  let ?key = "\<lambda>g. (- int (tt_calls (gr_totals g)), gr_id g)"
  have "inj_on ?key (set (map ?f xs))"
    using assms(2) by (force simp: inj_on_def distinct_map)
  moreover have "mset (map ?f ys) = mset (map ?f xs)" using assms(1) by (simp only: mset_map)
  ultimately show ?thesis
    unfolding sorted_groups_def by (intro sort_key_inj_key_eq) simp_all
qed

text \<open>\<open>hit_rate\<close> subtracts no more prompt tokens than there are.\<close>

lemma hit_rate_of_log: "hit_rate (row_totals (sum_list (map row_aggregate ws))) \<noteq> None"
proof -
  have "ag_cache_unknown (sum_list (map row_aggregate ws))
      \<le> ag_input (sum_list (map row_aggregate ws)) + ag_cache_read (sum_list (map row_aggregate ws))
        + ag_cache_write (sum_list (map row_aggregate ws))"
    by (induction ws) (auto simp: plus_Aggregate_ext_def zero_Aggregate_ext_def row_aggregate_def)
  then show ?thesis by (simp add: hit_rate_def row_totals_def totals_at_def default_totals_def Let_def)
qed

text \<open>
  Days are numbered with a Monday at the multiples of seven.  SQLite's \<open>weekday 1\<close> moves to the next Monday and leaves a
  Monday where it is.
\<close>

definition week_bucket_day :: "int \<Rightarrow> int" where
  "week_bucket_day d = (d + (- d) mod 7) - 7"

definition monday_of :: "int \<Rightarrow> int" where
  "monday_of d = d - d mod 7"

lemma week_bucket_of_a_monday: "week_bucket_day (7 * n) = monday_of (7 * n) - 7"
  by (simp add: week_bucket_day_def monday_of_def)

lemma week_bucket_of_other_days:
  assumes "d mod 7 \<noteq> 0"
  shows "week_bucket_day d = monday_of d"
  using assms by (simp add: week_bucket_day_def monday_of_def zmod_zminus1_eq_if)

section \<open>A series split by a dimension\<close>

datatype SplitDim = SplitProvider | SplitAgent | SplitModel | SplitAccount

definition rollup_column :: "SplitDim \<Rightarrow> string option" where
  "rollup_column d =
     (case d of
        SplitProvider \<Rightarrow> Some ''provider''
      | SplitAgent \<Rightarrow> Some ''agent''
      | SplitModel \<Rightarrow> Some ''client_model''
      | SplitAccount \<Rightarrow> None)"

definition SERIES_KEEP :: nat where "SERIES_KEEP = 24"

text \<open>A column named in a select; \<open>request_logs\<close> has a \<open>client_id\<close> and no \<open>agent\<close>.\<close>

definition column_of :: "string \<Rightarrow> rollup_key \<Rightarrow> string" where
  "column_of c k = (case k of (_, provider, model, agent) \<Rightarrow>
     if c = ''provider'' then provider else if c = ''client_model'' then model else agent)"

definition split_groups ::
    "(string \<Rightarrow> string) \<Rightarrow> UsageQuery \<Rightarrow> string \<Rightarrow> log_row list \<Rightarrow> (rollup_key \<times> Aggregate) list \<Rightarrow>
     string + ((string \<times> string) \<times> Aggregate) list" where
  "split_groups week q c ws rollup =
     (let key = (\<lambda>k. (column_of c k, bucket_expr week (uq_granularity q) (fst k))) in
      case uq_account q of
        Some account \<Rightarrow>
          if c = ''agent'' then Inl ''no such column: agent''
          else Inr (select_groups key (in_query q (uq_from q))
            (log_entries detail_key (filter (\<lambda>w. row_account w = Some account) ws)))
      | None \<Rightarrow> Inr (select_groups key (in_query q (hour_floor (uq_from q))) rollup))"

type_synonym series_split = "(string \<times> (string \<times> Totals) list) list"

definition split_row ::
    "(string \<times> string) \<times> Aggregate \<Rightarrow> series_split \<times> (string \<times> nat) list \<Rightarrow> series_split \<times> (string \<times> nat) list" where
  "split_row row acc =
     (case (row, acc) of (((v, bucket), a), (split, weight)) \<Rightarrow>
        if v = [] then acc
        else
          let t = totals_at a (ag_calls a); w = tt_input t + tt_output t in
          (AList.map_default bucket [(v, add_totals default_totals t)]
             (AList.map_default v (add_totals default_totals t) (\<lambda>u. add_totals u t)) split,
           AList.map_default v w (\<lambda>x. x + w) weight))"

definition kept_values :: "(string \<times> nat) list \<Rightarrow> string list" where
  "kept_values weight = map fst (take SERIES_KEEP (sort_key (\<lambda>(v, w). (- int w, v)) weight))"

definition series_split ::
    "(string \<Rightarrow> string) \<Rightarrow> UsageQuery \<Rightarrow> SplitDim \<Rightarrow> log_row list \<Rightarrow> (rollup_key \<times> Aggregate) list \<Rightarrow>
     string + series_split option" where
  "series_split week q d ws rollup =
     (case rollup_column d of
        None \<Rightarrow> Inr None
      | Some c \<Rightarrow>
          (case split_groups week q c ws rollup of
             Inl e \<Rightarrow> Inl e
           | Inr groups \<Rightarrow>
               let (split, weight) = fold split_row groups ([], []); kept = kept_values weight in
               if kept = [] then Inr None
               else
                 Inr (Some (filter (\<lambda>(_, vs). vs \<noteq> [])
                   (map (\<lambda>(b, vs). (b, filter (\<lambda>(v, _). v \<in> set kept) vs)) split)))))"

text \<open>A split series has at most twenty-four values, and no point without one.\<close>

lemma series_split_bound:
  assumes "series_split week q d ws rollup = Inr (Some split)"
  shows "card (\<Union>(b, vs)\<in>set split. fst ` set vs) \<le> SERIES_KEEP \<and> (\<forall>(b, vs)\<in>set split. vs \<noteq> [])"
proof -
  from assms obtain s0 weight where split:
    "split = filter (\<lambda>(_, vs). vs \<noteq> []) (map (\<lambda>(b, vs). (b, filter (\<lambda>(v, _). v \<in> set (kept_values weight)) vs)) s0)"
    by (auto simp: series_split_def Let_def split: option.splits sum.splits prod.splits if_splits)
  have "(\<Union>(b, vs)\<in>set split. fst ` set vs) \<subseteq> set (kept_values weight)"
    by (auto simp: split)
  then have "card (\<Union>(b, vs)\<in>set split. fst ` set vs) \<le> card (set (kept_values weight))"
    by (intro card_mono) simp_all
  also have "\<dots> \<le> length (kept_values weight)" by (rule card_length)
  also have "\<dots> \<le> SERIES_KEEP" by (simp add: kept_values_def)
  finally show ?thesis by (auto simp: split)
qed

text \<open>Under an account filter a split by agent names a column that the detail table does not have.\<close>

lemma split_by_agent_of_an_account_fails:
  "uq_account q = Some account \<Longrightarrow>
     series_split week q SplitAgent ws rollup = Inl ''no such column: agent''"
  by (simp add: series_split_def rollup_column_def split_groups_def Let_def)

end
