(* ===== verification/Ledger.thy ===== *)
theory Ledger
  imports Usage_Summary Server_Prelude "HOL-Library.Sublist"
begin

text \<open>
  The request ledger of \<open>crates/server/src/storage/ledger.rs\<close>: the predicate every ledger query shares, a page of detail
  rows and its cursor, and the CSV export.  The lemmas show that following the cursors reads every kept row once, that a
  plain search is a substring search, and that the CSV text reads back as its cells.
\<close>

section \<open>The filter\<close>

record LedgerFilter =
  lf_from :: string
  lf_to :: string
  lf_day :: "string option"
  lf_provider :: "string option"
  lf_model :: "string option"
  lf_agent :: "string option"
  lf_account :: "string option"
  lf_failed :: bool
  lf_retried :: bool
  lf_query :: "string option"

text \<open>SQLite's \<open>like\<close>: \<open>%\<close> any text, \<open>_\<close> any one character, letters of ASCII without regard to case.\<close>

function (sequential) like :: "string \<Rightarrow> string \<Rightarrow> bool" where
  "like [] t \<longleftrightarrow> t = []"
| "like (p # ps) [] \<longleftrightarrow> p = CHR ''%'' \<and> like ps []"
| "like (p # ps) (c # t) \<longleftrightarrow>
     (if p = CHR ''%'' then like ps (c # t) \<or> like (p # ps) (dropWhile continuation t)
      else if p = CHR ''_'' then like ps (dropWhile continuation t)
      else ascii_lower p = ascii_lower c \<and> like ps t)"
  by pat_completeness auto

termination
  by (relation "measure (\<lambda>(p, t). length p + length t)") (auto simp: le_imp_less_Suc length_dropWhile_le le_SucI less_Suc_eq_le)

definition opt_column :: "string option \<Rightarrow> string option \<Rightarrow> bool" where
  "opt_column f v \<longleftrightarrow> (case f of None \<Rightarrow> True | Some x \<Rightarrow> v = Some x)"

text \<open>\<open>lowercase\<close> is \<open>str::to_lowercase\<close>; \<open>lower(...)\<close> of SQLite changes ASCII letters alone.\<close>

definition searched :: "(string \<Rightarrow> string) \<Rightarrow> string \<Rightarrow> log_row \<Rightarrow> bool" where
  "searched lowercase query w =
     (let needle = ''%'' @ lowercase query @ ''%'' in
      like needle (to_ascii_lowercase (row_client_model w)) \<or> like needle (to_ascii_lowercase (row_provider w)) \<or>
      like needle (to_ascii_lowercase (unwrap_or [] (row_served_model w))) \<or>
      like needle (to_ascii_lowercase (unwrap_or [] (row_session w))))"

definition where_clause :: "(string \<Rightarrow> string) \<Rightarrow> LedgerFilter \<Rightarrow> log_row \<Rightarrow> bool" where
  "where_clause lowercase f w \<longleftrightarrow>
     lf_from f \<le> row_timestamp w \<and> row_timestamp w < lf_to f \<and>
     (case lf_day f of None \<Rightarrow> True | Some day \<Rightarrow> sql_prefix 10 (row_timestamp w) = day) \<and>
     opt_matches (lf_provider f) (row_provider w) \<and> opt_matches (lf_model f) (row_client_model w) \<and>
     opt_column (lf_agent f) (row_client_id w) \<and> opt_column (lf_account f) (row_account w) \<and>
     (lf_failed f \<longrightarrow> 400 \<le> row_status w) \<and> (lf_retried f \<longrightarrow> 0 < row_attempt w) \<and>
     (case lf_query f of None \<Rightarrow> True | Some query \<Rightarrow> searched lowercase query w)"

section \<open>A page\<close>

definition DEFAULT_LIMIT :: nat where "DEFAULT_LIMIT = 100"

definition MAX_LIMIT :: nat where "MAX_LIMIT = 500"

record LedgerRow =
  lg_request_id :: string
  lg_timestamp :: string
  lg_provider :: string
  lg_client_model :: string
  lg_upstream_model :: string
  lg_served_model :: "string option"
  lg_agent :: "string option"
  lg_account :: "string option"
  lg_session_id :: "string option"
  lg_status :: nat
  lg_attempt :: nat
  lg_streaming :: bool
  lg_latency_ms :: nat
  lg_ttft_ms :: nat
  lg_input_tokens :: nat
  lg_output_tokens :: nat
  lg_cache_read_tokens :: nat
  lg_cache_write_tokens :: nat
  lg_reasoning_tokens :: nat
  lg_cost_usd :: "rat option"

definition ledger_row :: "log_row \<Rightarrow> LedgerRow" where
  "ledger_row w =
     \<lparr>lg_request_id = row_request_id w, lg_timestamp = row_timestamp w, lg_provider = row_provider w,
      lg_client_model = row_client_model w, lg_upstream_model = row_upstream_model w,
      lg_served_model = row_served_model w, lg_agent = row_client_id w, lg_account = row_account w,
      lg_session_id = row_session w, lg_status = row_status w, lg_attempt = row_attempt w,
      lg_streaming = row_streaming w, lg_latency_ms = row_latency_ms w, lg_ttft_ms = row_ttft_ms w,
      lg_input_tokens = row_input w, lg_output_tokens = row_output w,
      lg_cache_read_tokens = unwrap_or 0 (row_cache_read w), lg_cache_write_tokens = unwrap_or 0 (row_cache_write w),
      lg_reasoning_tokens = unwrap_or 0 (row_reasoning w), lg_cost_usd = row_cost w\<rparr>"

record LedgerPage =
  lp_rows :: "LedgerRow list"
  lp_total :: nat
  lp_next_cursor :: "nat option"
  lp_totals :: Totals

definition page_limit :: "nat \<Rightarrow> nat" where
  "page_limit limit = (if limit = 0 then DEFAULT_LIMIT else min limit MAX_LIMIT)"

definition before_cursor :: "nat option \<Rightarrow> log_row \<Rightarrow> bool" where
  "before_cursor cursor w \<longleftrightarrow> (case cursor of None \<Rightarrow> True | Some c \<Rightarrow> row_id w < c)"

definition ledger_page ::
    "(string \<Rightarrow> string) \<Rightarrow> LedgerFilter \<Rightarrow> nat option \<Rightarrow> nat \<Rightarrow> log_row list \<Rightarrow> LedgerPage" where
  "ledger_page lowercase f cursor asked ws =
     (let limit = page_limit asked;
          kept = filter (where_clause lowercase f) ws;
          page = take limit (rev (sort_key row_id (filter (before_cursor cursor) kept)));
          total = length kept in
      \<lparr>lp_rows = map ledger_row page, lp_total = total,
       lp_next_cursor = (if length page = limit then Some (row_id (last page)) else None),
       lp_totals = totals_at (sum_list (map row_aggregate kept)) total\<rparr>)"

text \<open>A reader who follows the cursors; \<open>logs\<close> is the log at each of the loads.\<close>

fun read_pages ::
    "(string \<Rightarrow> string) \<Rightarrow> LedgerFilter \<Rightarrow> nat \<Rightarrow> nat option \<Rightarrow> log_row list list \<Rightarrow> LedgerRow list" where
  "read_pages lowercase f asked cursor [] = []"
| "read_pages lowercase f asked cursor (ws # logs) =
     (let p = ledger_page lowercase f cursor asked ws in
      lp_rows p @
      (case lp_next_cursor p of None \<Rightarrow> [] | Some c \<Rightarrow> read_pages lowercase f asked (Some c) logs))"

section \<open>The export\<close>

definition push_csv_field :: "string \<Rightarrow> string \<Rightarrow> string" where
  "push_csv_field out field =
     (if list_all (\<lambda>c. c \<notin> {CHR '','', CHR 0x22, CHR 0x0A, CHR 0x0D}) field then out @ field
      else out @ [CHR 0x22] @ concat (map (\<lambda>c. if c = CHR 0x22 then [CHR 0x22, c] else [c]) field) @ [CHR 0x22])"

primrec push_csv_fields :: "string \<Rightarrow> string list \<Rightarrow> string" where
  "push_csv_fields out [] = out"
| "push_csv_fields out (f # fs) = push_csv_fields (push_csv_field (out @ [CHR '','']) f) fs"

definition push_csv_record :: "string \<Rightarrow> string list \<Rightarrow> string" where
  "push_csv_record out cells = (case cells of [] \<Rightarrow> out | f # fs \<Rightarrow> push_csv_fields (push_csv_field out f) fs)"

definition csv_header :: string where
  "csv_header =
     ''timestamp,provider,client_model,upstream_model,served_model,agent,account,'' @
     ''session_id,status,streaming,latency_ms,ttft_ms,input_tokens,output_tokens,'' @
     ''cache_read_tokens,cache_write_tokens,reasoning_tokens,cost_usd''"

text \<open>\<open>fixed6\<close> prints a cost with six digits.\<close>

definition csv_cells :: "(rat \<Rightarrow> string) \<Rightarrow> LedgerRow \<Rightarrow> string list" where
  "csv_cells fixed6 r =
     [lg_timestamp r, lg_provider r, lg_client_model r, lg_upstream_model r, unwrap_or [] (lg_served_model r),
      unwrap_or [] (lg_agent r), unwrap_or [] (lg_account r), unwrap_or [] (lg_session_id r), show_nat (lg_status r),
      if lg_streaming r then ''true'' else ''false'', show_nat (lg_latency_ms r), show_nat (lg_ttft_ms r),
      show_nat (lg_input_tokens r), show_nat (lg_output_tokens r), show_nat (lg_cache_read_tokens r),
      show_nat (lg_cache_write_tokens r), show_nat (lg_reasoning_tokens r),
      unwrap_or [] (map_option fixed6 (lg_cost_usd r))]"

definition ledger_csv :: "(rat \<Rightarrow> string) \<Rightarrow> LedgerRow list \<Rightarrow> string" where
  "ledger_csv fixed6 rows = foldl (\<lambda>out r. push_csv_record (out @ [CHR 0x0A]) (csv_cells fixed6 r)) csv_header rows"

section \<open>Following the cursors\<close>

text \<open>Newest first: what a page starts from.\<close>

definition newest_first :: "(string \<Rightarrow> string) \<Rightarrow> LedgerFilter \<Rightarrow> nat option \<Rightarrow> log_row list \<Rightarrow> log_row list" where
  "newest_first lowercase f cursor ws = rev (filter (\<lambda>w. where_clause lowercase f w \<and> before_cursor cursor w) ws)"

abbreviation by_id :: "log_row list \<Rightarrow> bool" where
  "by_id ws \<equiv> sorted_wrt (\<lambda>v w. row_id v < row_id w) ws"

lemma sort_by_id: "by_id ws \<Longrightarrow> sort_key row_id (filter P ws) = filter P ws"
proof (rule sort_key_id_if_sorted)
  assume "by_id ws"
  then have "by_id (filter P ws)" by (rule sorted_wrt_filter)
  then show "sorted (map row_id (filter P ws))"
    by (auto simp: sorted_wrt_map elim: sorted_wrt_mono_rel [rotated])
qed

lemma page_of:
  assumes "by_id ws"
  shows "lp_rows (ledger_page lowercase f cursor asked ws) =
           map ledger_row (take (page_limit asked) (newest_first lowercase f cursor ws))"
    and "lp_next_cursor (ledger_page lowercase f cursor asked ws) =
           (let page = take (page_limit asked) (newest_first lowercase f cursor ws) in
            if length page = page_limit asked then Some (row_id (last page)) else None)"
  using assms by (simp_all add: ledger_page_def newest_first_def sort_by_id Let_def conj_commute)

lemma page_limit_pos: "0 < page_limit n"
  by (simp add: page_limit_def DEFAULT_LIMIT_def MAX_LIMIT_def)

text \<open>The last row of a page parts a list that descends.\<close>

lemma filter_below_last:
  assumes "sorted_wrt (\<lambda>v w. row_id w < row_id v) ws" "0 < n" "n \<le> length ws"
  shows "filter (\<lambda>w. row_id w < row_id (last (take n ws))) ws = drop n ws"
proof -
  let ?l = "last (take n ws)"
  have ne: "take n ws \<noteq> []" using assms by auto
  have parts: "sorted_wrt (\<lambda>v w. row_id w < row_id v) (take n ws @ drop n ws)" using assms(1) by simp
  have "row_id w < row_id ?l" if "w \<in> set (drop n ws)" for w
    using parts that last_in_set [OF ne] unfolding sorted_wrt_append by blast
  moreover have "\<not> row_id w < row_id ?l" if "w \<in> set (take n ws)" for w
  proof -
    have "sorted_wrt (\<lambda>v w. row_id w < row_id v) (butlast (take n ws) @ [?l])"
      using parts ne by (simp add: sorted_wrt_append)
    moreover have "w \<in> set (butlast (take n ws)) \<or> w = ?l"
      using that ne by (metis append_butlast_last_id in_set_conv_decomp rotate1.simps(2) set_ConsD set_rotate1)
    ultimately show ?thesis unfolding sorted_wrt_append by fastforce
  qed
  ultimately have "filter (\<lambda>w. row_id w < row_id ?l) (take n ws @ drop n ws) = drop n ws"
    by (simp add: filter_empty_conv filter_id_conv del: append_take_drop_id)
  then show ?thesis by simp
qed

lemma newest_first_sorted:
  "by_id ws \<Longrightarrow> sorted_wrt (\<lambda>v w. row_id w < row_id v) (newest_first lowercase f cursor ws)"
  by (simp add: newest_first_def sorted_wrt_rev sorted_wrt_filter)

lemma newest_first_next:
  assumes "by_id ws" "page_limit n \<le> length (newest_first lowercase f cursor ws)"
  defines "l \<equiv> last (take (page_limit n) (newest_first lowercase f cursor ws))"
  shows "newest_first lowercase f (Some (row_id l)) ws = drop (page_limit n) (newest_first lowercase f cursor ws)"
    and "l \<in> set ws"
proof -
  let ?d = "newest_first lowercase f cursor ws"
  have ne: "take (page_limit n) ?d \<noteq> []" using assms(2) page_limit_pos [of n] by auto
  have "l \<in> set ?d" unfolding l_def using last_in_set [OF ne] by (rule in_set_takeD)
  then have l: "l \<in> set ws" "before_cursor cursor l" by (simp_all add: newest_first_def)
  have "newest_first lowercase f (Some (row_id l)) ws = filter (\<lambda>w. row_id w < row_id l) ?d"
    using l(2) by (auto simp: newest_first_def before_cursor_def rev_filter intro!: filter_cong split: option.splits)
  also have "\<dots> = drop (page_limit n) ?d"
    unfolding l_def by (rule filter_below_last [OF newest_first_sorted [OF assms(1)] page_limit_pos assms(2)])
  finally show "newest_first lowercase f (Some (row_id l)) ws = drop (page_limit n) ?d" .
  show "l \<in> set ws" by (rule l)
qed

text \<open>Rows written after the first load have keys above every cursor.\<close>

definition grown_from :: "log_row list \<Rightarrow> log_row list \<Rightarrow> bool" where
  "grown_from ws vs \<longleftrightarrow> by_id vs \<and> (\<exists>new. vs = ws @ new)"

lemma newest_first_grown:
  assumes "grown_from ws vs" "l \<in> set ws"
  shows "newest_first lowercase f (Some (row_id l)) vs = newest_first lowercase f (Some (row_id l)) ws"
proof -
  from assms obtain new where vs: "vs = ws @ new" "by_id (ws @ new)" by (auto simp: grown_from_def)
  have "\<not> before_cursor (Some (row_id l)) w" if "w \<in> set new" for w
    using vs(2) assms(2) that unfolding sorted_wrt_append by (fastforce simp: before_cursor_def)
  then show ?thesis by (auto simp: newest_first_def vs filter_empty_conv)
qed

lemma read_pages_from:
  assumes "by_id ws" "\<forall>vs\<in>set logs. grown_from ws vs"
    and "\<And>vs. vs \<in> set logs \<Longrightarrow> newest_first lowercase f cursor vs = newest_first lowercase f cursor ws"
    and "length (newest_first lowercase f cursor ws) < length logs * page_limit n"
  shows "read_pages lowercase f n cursor logs = map ledger_row (newest_first lowercase f cursor ws)"
  using assms(2-)
proof (induction logs arbitrary: cursor)
  case (Cons vs logs)
  let ?d = "newest_first lowercase f cursor ws" and ?n = "page_limit n"
  have vs: "by_id vs" "newest_first lowercase f cursor vs = ?d"
    using Cons.prems by (auto simp: grown_from_def)
  show ?case
  proof (cases "?n \<le> length ?d")
    case False
    then show ?thesis by (simp add: page_of [OF vs(1)] vs(2) Let_def)
  next
    case True
    define l where "l = last (take ?n ?d)"
    note l = newest_first_next [OF assms(1) True, folded l_def]
    have "read_pages lowercase f n (Some (row_id l)) logs = map ledger_row (drop ?n ?d)"
      unfolding l(1) [symmetric]
    proof (rule Cons.IH)
      show "\<forall>vs\<in>set logs. grown_from ws vs" using Cons.prems(1) by simp
      show "newest_first lowercase f (Some (row_id l)) us = newest_first lowercase f (Some (row_id l)) ws"
        if "us \<in> set logs" for us
        using newest_first_grown [OF _ l(2)] Cons.prems(1) that by simp
      show "length (newest_first lowercase f (Some (row_id l)) ws) < length logs * ?n"
        using Cons.prems(3) True by (simp add: l(1))
    qed
    with True show ?thesis
      by (simp add: page_of [OF vs(1)] vs(2) Let_def l_def flip: map_append)
  qed
qed simp

text \<open>C31: Following the cursors of the ledger from its first page returns every row the filter keeps once and newest
  first, whatever rows are written between two page loads, in at most one load more than there are full pages.\<close>

theorem ledger_pages_complete:
  assumes "by_id ws" "\<forall>vs\<in>set logs. grown_from ws vs"
    and "length (filter (where_clause lowercase f) ws) < Suc (length logs) * page_limit n"
  shows "read_pages lowercase f n None (ws # logs) = map ledger_row (rev (filter (where_clause lowercase f) ws))"
proof -
  let ?d = "newest_first lowercase f None ws" and ?n = "page_limit n"
  have d: "?d = rev (filter (where_clause lowercase f) ws)" by (simp add: newest_first_def before_cursor_def)
  show ?thesis
  proof (cases "?n \<le> length ?d")
    case False
    then show ?thesis by (simp add: page_of [OF assms(1)] Let_def d)
  next
    case True
    define l where "l = last (take ?n ?d)"
    note l = newest_first_next [OF assms(1) True, folded l_def]
    have "read_pages lowercase f n (Some (row_id l)) logs = map ledger_row (drop ?n ?d)"
      unfolding l(1) [symmetric]
    proof (rule read_pages_from [OF assms(1,2)])
      show "newest_first lowercase f (Some (row_id l)) us = newest_first lowercase f (Some (row_id l)) ws"
        if "us \<in> set logs" for us
        using newest_first_grown [OF _ l(2)] assms(2) that by simp
      show "length (newest_first lowercase f (Some (row_id l)) ws) < length logs * ?n"
        using assms(3) True by (simp add: l(1) d)
    qed
    with True show ?thesis
      by (simp add: page_of [OF assms(1)] Let_def l_def d flip: map_append)
  qed
qed

definition example_filter :: LedgerFilter where
  "example_filter =
     \<lparr>lf_from = ''2025'', lf_to = ''2026'', lf_day = None, lf_provider = None, lf_model = None, lf_agent = None,
      lf_account = None, lf_failed = False, lf_retried = False, lf_query = None\<rparr>"

lemma example_kept: "where_clause lowercase example_filter (log_row_of n example_record)"
  by (simp add: where_clause_def example_filter_def log_row_of_def example_record_def opt_matches_def opt_column_def)

text \<open>Pages of one row, and a third row that is written after the first load.\<close>

theorem ledger_pages_complete_witness:
  "let w = (\<lambda>n. log_row_of n example_record) in
     read_pages id example_filter 1 None [[w 1, w 2], [w 1, w 2, w 3], [w 1, w 2, w 3]]
       = [ledger_row (w 2), ledger_row (w 1)]"
proof -
  let ?w = "\<lambda>n. log_row_of n example_record"
  have "by_id [?w 1, ?w 2]" "\<forall>vs\<in>set [[?w 1, ?w 2, ?w 3], [?w 1, ?w 2, ?w 3]]. grown_from [?w 1, ?w 2] vs"
    by (auto simp: grown_from_def)
  moreover have "page_limit 1 = 1" by (simp add: page_limit_def MAX_LIMIT_def)
  ultimately show ?thesis
    using ledger_pages_complete [of "[?w 1, ?w 2]" "[[?w 1, ?w 2, ?w 3], [?w 1, ?w 2, ?w 3]]" id example_filter 1]
    by (simp add: example_kept Let_def del: read_pages.simps)
qed

text \<open>The size and the totals of a page are those of every row the filter keeps, whatever the page.\<close>

lemma page_totals:
  "lp_total (ledger_page lowercase f cursor n ws) = length (filter (where_clause lowercase f) ws)"
  "tt_calls (lp_totals (ledger_page lowercase f cursor n ws)) = length (filter (where_clause lowercase f) ws)"
  by (simp_all add: ledger_page_def Let_def totals_at_def)

section \<open>The search\<close>

definition plain_char :: "char \<Rightarrow> bool" where
  "plain_char c \<longleftrightarrow> c \<noteq> CHR ''%'' \<and> c \<noteq> CHR ''_''"

lemma like_rest: "like ''%'' t"
proof (induction "length t" arbitrary: t rule: less_induct)
  case less
  show ?case
  proof (cases t)
    case (Cons c u)
    have "length (dropWhile continuation u) < length t" using Cons by (simp add: length_dropWhile_le le_imp_less_Suc)
    from less [OF this] show ?thesis by (simp add: Cons)
  qed simp
qed

lemma like_plain_prefix:
  assumes "list_all plain_char q"
  shows "like (q @ ''%'') t \<longleftrightarrow> prefix (map ascii_lower q) (map ascii_lower t)"
  using assms
proof (induction q arbitrary: t)
  case Nil
  show ?case by (simp add: like_rest)
next
  case (Cons p q)
  then show ?case by (cases t) (auto simp: plain_char_def)
qed

lemma like_plain_search:
  assumes "list_all plain_char q" "list_all (\<lambda>c. (of_char c :: nat) < 128) t"
  shows "like (''%'' @ q @ ''%'') t \<longleftrightarrow> sublist (map ascii_lower q) (map ascii_lower t)"
  using assms(2)
proof (induction t)
  case Nil
  show ?case using like_plain_prefix [OF assms(1), of "[]"] by (cases q) (auto simp: plain_char_def)
next
  case (Cons c t)
  have "dropWhile continuation t = t"
    using Cons.prems by (cases t) (auto simp: continuation_def)
  then show ?case
    using Cons like_plain_prefix [OF assms(1), of "c # t"] by (simp add: sublist_Cons_right)
qed

text \<open>The two wildcards are not escaped: a search for \<open>a_b\<close> finds what does not contain it.\<close>

lemma search_wildcard_not_escaped:
  "like (''%'' @ ''a_b'' @ ''%'') ''xaxbx'' \<and> \<not> sublist ''a_b'' ''xaxbx''"
proof -
  have "\<not> sublist ''a_b'' ''xaxbx''" by (simp add: sublist_Cons_right)
  moreover have "like (''%'' @ ''a_b'' @ ''%'') ''xaxbx''"
    by (simp add: continuation_def ascii_lower_def)
  ultimately show ?thesis by (intro conjI)
qed

section \<open>The CSV text reads back\<close>

text \<open>A reader of CSV: a cell in quotes, in which a doubled quote is one, or up to the next comma or line end.\<close>

fun csv_quoted :: "string \<Rightarrow> string \<times> string" where
  "csv_quoted [] = ([], [])"
| "csv_quoted (c # s) =
     (if c = CHR 0x22
      then (case s of
          [] \<Rightarrow> ([], [])
        | d # t \<Rightarrow> if d = CHR 0x22 then (let (x, rest) = csv_quoted t in (CHR 0x22 # x, rest)) else ([], d # t))
      else (let (x, rest) = csv_quoted s in (c # x, rest)))"

definition cell_end :: "char \<Rightarrow> bool" where
  "cell_end c \<longleftrightarrow> c = CHR '','' \<or> c = CHR 0x0A"

definition csv_cell :: "string \<Rightarrow> string \<times> string" where
  "csv_cell s =
     (case s of
        [] \<Rightarrow> ([], [])
      | c # t \<Rightarrow>
          if c = CHR 0x22 then csv_quoted t else (takeWhile (\<lambda>c. \<not> cell_end c) s, dropWhile (\<lambda>c. \<not> cell_end c) s))"

lemma csv_quoted_shorter: "length (snd (csv_quoted s)) \<le> length s"
proof (induction s rule: csv_quoted.induct)
  case (2 c s)
  show ?case
  proof (cases "c = CHR 0x22")
    case True
    show ?thesis
    proof (cases s)
      case (Cons d t)
      then show ?thesis
        using True 2(1) [OF True Cons] by (cases "d = CHR 0x22"; cases "csv_quoted t") simp_all
    qed (simp add: True)
  next
    case False
    then show ?thesis using 2(2) by (cases "csv_quoted s") simp
  qed
qed simp

lemma csv_cell_shorter: "length (snd (csv_cell s)) \<le> length s"
  using csv_quoted_shorter by (auto simp: csv_cell_def length_dropWhile_le le_SucI split: list.splits)

function csv_record :: "string \<Rightarrow> string list \<times> string" where
  "csv_record s =
     (let (x, rest) = csv_cell s in
      case rest of
        [] \<Rightarrow> ([x], [])
      | c # t \<Rightarrow> if c = CHR '','' then (let (xs, r) = csv_record t in (x # xs, r)) else ([x], rest))"
  by pat_completeness auto

termination
proof (relation "measure length")
  fix s x rest c and t :: string and p
  assume p: "p = csv_cell s" and x: "(x, rest) = p" and rest: "rest = c # t"
  have "csv_cell s = p" by (rule p [symmetric])
  also have "\<dots> = (x, c # t)" using x rest by (simp only:)
  finally show "(t, s) \<in> measure length" using csv_cell_shorter [of s] by simp
qed simp

declare csv_record.simps [simp del]

lemma csv_record_shorter: "length (snd (csv_record s)) \<le> length s"
proof (induction s rule: csv_record.induct)
  case (1 s)
  obtain x rest where cell: "csv_cell s = (x, rest)" by (cases "csv_cell s")
  have "length rest \<le> length s" using csv_cell_shorter [of s] by (simp add: cell)
  show ?case
  proof (cases rest)
    case Nil
    then show ?thesis by (subst csv_record.simps) (simp add: cell)
  next
    case (Cons c t)
    then show ?thesis
      using 1 [OF cell [symmetric] refl Cons] \<open>length rest \<le> length s\<close>
      by (subst csv_record.simps) (cases "csv_record t"; cases "c = CHR '',''"; simp add: cell)
  qed
qed

function csv_text :: "string \<Rightarrow> string list list" where
  "csv_text s =
     (let (x, rest) = csv_record s in
      case rest of [] \<Rightarrow> [x] | c # t \<Rightarrow> x # csv_text t)"
  by pat_completeness auto

termination
proof (relation "measure length")
  fix s x rest c and t :: string and p
  assume p: "p = csv_record s" and x: "(x, rest) = p" and rest: "rest = c # t"
  have "csv_record s = p" by (rule p [symmetric])
  also have "\<dots> = (x, c # t)" using x rest by (simp only:)
  finally show "(t, s) \<in> measure length" using csv_record_shorter [of s] by simp
qed simp

declare csv_text.simps [simp del]

abbreviation at_end :: "string \<Rightarrow> bool" where
  "at_end rest \<equiv> rest = [] \<or> cell_end (hd rest)"

lemma csv_quoted_pushed:
  assumes "at_end rest"
  shows "csv_quoted (concat (map (\<lambda>c. if c = CHR 0x22 then [CHR 0x22, c] else [c]) f) @ CHR 0x22 # rest) = (f, rest)"
  using assms by (induction f) (auto simp: cell_end_def split: list.splits)

lemma csv_cell_pushed:
  assumes "at_end rest"
  shows "csv_cell (push_csv_field [] f @ rest) = (f, rest)"
proof (cases "list_all (\<lambda>c. c \<notin> {CHR '','', CHR 0x22, CHR 0x0A, CHR 0x0D}) f")
  case False
  then show ?thesis using csv_quoted_pushed [OF assms, of f] by (simp add: push_csv_field_def csv_cell_def)
next
  case True
  then have plain: "\<forall>c\<in>set f. \<not> cell_end c \<and> c \<noteq> CHR 0x22" by (auto simp: list_all_iff cell_end_def)
  then have "takeWhile (\<lambda>c. \<not> cell_end c) (f @ rest) = f" "dropWhile (\<lambda>c. \<not> cell_end c) (f @ rest) = rest"
    using assms by (cases rest; simp add: takeWhile_append2 dropWhile_append2)+
  moreover have "f @ rest = [] \<or> hd (f @ rest) \<noteq> CHR 0x22"
    using plain assms by (cases f) (auto simp: cell_end_def)
  ultimately show ?thesis
    by (simp only: push_csv_field_def True if_True append_Nil) (auto simp: csv_cell_def split: list.splits)
qed

lemma push_csv_field_append: "push_csv_field out f = out @ push_csv_field [] f"
  by (simp add: push_csv_field_def)

lemma push_csv_fields_append: "push_csv_fields out fs = out @ push_csv_fields [] fs"
proof (induction fs arbitrary: out)
  case (Cons f fs)
  show ?case
    using Cons [of "push_csv_field (out @ [CHR '','']) f"] Cons [of "push_csv_field [CHR '',''] f"]
      push_csv_field_append [of "out @ [CHR '','']" f] push_csv_field_append [of "[CHR '','']" f]
    by simp
qed simp

lemma push_csv_record_append: "push_csv_record out fs = out @ push_csv_record [] fs"
proof (cases fs)
  case (Cons f gs)
  show ?thesis
    using push_csv_fields_append [of "push_csv_field out f" gs] push_csv_fields_append [of "push_csv_field [] f" gs]
      push_csv_field_append [of out f]
    by (simp add: push_csv_record_def Cons)
qed (simp add: push_csv_record_def)

lemma push_csv_record_Cons:
  "push_csv_record [] (f # g # gs) = push_csv_field [] f @ CHR '','' # push_csv_record [] (g # gs)"
  using push_csv_fields_append [of "push_csv_field (push_csv_field [] f @ [CHR '','']) g" gs]
    push_csv_fields_append [of "push_csv_field [] g" gs]
    push_csv_field_append [of "push_csv_field [] f @ [CHR '','']" g]
  by (simp add: push_csv_record_def)

lemma csv_record_pushed:
  assumes "fs \<noteq> []" "rest = [] \<or> hd rest = CHR 0x0A"
  shows "csv_record (push_csv_record [] fs @ rest) = (fs, rest)"
  using assms(1)
proof (induction fs rule: induct_list012)
  case (2 f)
  have "csv_cell (push_csv_field [] f @ rest) = (f, rest)"
    using assms(2) by (intro csv_cell_pushed) (auto simp: cell_end_def)
  then show ?case
    using assms(2) by (subst csv_record.simps) (cases rest; simp add: push_csv_record_def)
next
  case (3 f g gs)
  have "csv_cell (push_csv_field [] f @ CHR '','' # push_csv_record [] (g # gs) @ rest)
      = (f, CHR '','' # push_csv_record [] (g # gs) @ rest)"
    by (rule csv_cell_pushed) (simp add: cell_end_def)
  then show ?case
    using 3 by (subst csv_record.simps) (simp add: push_csv_record_Cons)
qed simp

lemma csv_text_pushed:
  assumes "f \<noteq> []" "[] \<notin> set fs"
  shows "csv_text (push_csv_record [] f @ concat (map (\<lambda>g. CHR 0x0A # push_csv_record [] g) fs)) = f # fs"
  using assms
proof (induction fs arbitrary: f)
  case Nil
  then show ?case using csv_record_pushed [of f "[]"] by (subst csv_text.simps) simp
next
  case (Cons g fs)
  let ?rest = "CHR 0x0A # push_csv_record [] g @ concat (map (\<lambda>g. CHR 0x0A # push_csv_record [] g) fs)"
  have "csv_record (push_csv_record [] f @ ?rest) = (f, ?rest)"
    using Cons.prems by (intro csv_record_pushed) simp_all
  moreover have "csv_text (push_csv_record [] g @ concat (map (\<lambda>g. CHR 0x0A # push_csv_record [] g) fs)) = g # fs"
    using Cons.prems by (intro Cons.IH) auto
  ultimately show ?case by (subst csv_text.simps) simp
qed

definition csv_columns :: "string list" where
  "csv_columns =
     [''timestamp'', ''provider'', ''client_model'', ''upstream_model'', ''served_model'', ''agent'', ''account'',
      ''session_id'', ''status'', ''streaming'', ''latency_ms'', ''ttft_ms'', ''input_tokens'', ''output_tokens'',
      ''cache_read_tokens'', ''cache_write_tokens'', ''reasoning_tokens'', ''cost_usd'']"

lemma csv_header_cells: "csv_header = push_csv_record [] csv_columns"
  by (simp add: csv_header_def csv_columns_def push_csv_record_def push_csv_field_def)

lemma ledger_csv_lines:
  "foldl (\<lambda>out r. push_csv_record (out @ [CHR 0x0A]) (csv_cells fixed6 r)) h rows
     = h @ concat (map (\<lambda>g. CHR 0x0A # push_csv_record [] g) (map (csv_cells fixed6) rows))"
proof (induction rows arbitrary: h)
  case (Cons r rows)
  show ?case
    using Cons [of "push_csv_record (h @ [CHR 0x0A]) (csv_cells fixed6 r)"]
      push_csv_record_append [of "h @ [CHR 0x0A]" "csv_cells fixed6 r"]
    by simp
qed simp

text \<open>C32: The CSV export of the ledger reads back as its cells: whatever commas, quotes and line ends the models, accounts
  and sessions of the rows contain, the text has the header's columns and one record of as many cells per row, each
  with its cell's own text.\<close>

theorem ledger_csv_roundtrip:
  "csv_text (ledger_csv fixed6 rows) = csv_columns # map (csv_cells fixed6) rows"
proof -
  have "csv_columns \<noteq> []" "[] \<notin> set (map (csv_cells fixed6) rows)"
    by (auto simp: csv_columns_def csv_cells_def)
  from csv_text_pushed [OF this] show ?thesis
    by (simp only: ledger_csv_def ledger_csv_lines csv_header_cells)
qed

end
