(* ===== verification/Spec2Isabelle.thy ===== *)
theory Spec2Isabelle
  imports Redact Request Agents_Api Lockfile Account_Flight Code_Assist Ledger
begin

text \<open>
  Any-Converter is a gateway between the four large-language-model APIs: Claude Messages, OpenAI Chat Completions,
  OpenAI Responses and Gemini.  A client of one API talks to a provider of another; the gateway translates requests,
  replies and streams, chooses and signs the upstream request, fails over between accounts, and writes its own
  address into the configuration of coding agents.  This development models the converter library
  (\<open>src/crates/core\<close>), the request path of the server (\<open>src/crates/server\<close>) and the agent wiring
  (\<open>src/crates/agent-wiring\<close>, with the registry and its HTTP interface in the server).

  \<^bold>\<open>Converter library.\<close>  \<open>Json\<close> is the value type of \<open>serde_json\<close>; \<open>IR\<close> is \<open>core/src/ir\<close> (requests, replies,
  canonical stream events, the bag of unmodelled fields, stop reasons); \<open>Vendor\<close> states the isolation contract of
  the module comment of \<open>ir/request.rs\<close>; \<open>Sse\<close> is \<open>sse.rs\<close>; \<open>Shared\<close> is \<open>converters/shared.rs\<close> and
  \<open>reasoning.rs\<close>; \<open>Stream_Adapter\<close> is the trait of the stream adapters.  Each API has a theory per file of
  \<open>formats/<api>/\<close>: \<open>_Wire\<close> (\<open>types.rs\<close>), \<open>_Read\<close>, \<open>_Build\<close>, \<open>_Stream\<close>, and \<open>_Roundtrip\<close> or
  \<open>_Stream_Props\<close> for its larger theorems.  \<open>Base64\<close> is the codec that seals reasoning.  \<open>Hub\<close> is the dispatch of
  \<open>converters/mod.rs\<close> and \<open>convert.rs\<close>; \<open>Hub_Props\<close> has what holds for all pairs of formats.

  \<^bold>\<open>Server.\<close>  \<open>Server_Prelude\<close> has the string functions of the standard library; \<open>Glob\<close> the pattern matcher,
  \<open>Config\<close> providers, routes and validation (\<open>config/\<close>), \<open>Pool\<close> the order of accounts, their quotas and the
  rotation of providers, \<open>Auth\<close> keys and headers, \<open>Redact\<close> what is logged of them, \<open>Wire\<close> addresses, envelopes
  and tool namespaces, \<open>Utf8\<close> the decoder, \<open>Proxy\<close> the streaming proxy of \<open>proxy.rs\<close>, \<open>Token\<close> the token manager
  (\<open>credentials/token.rs\<close>), \<open>Gateway\<close> one upstream attempt (\<open>handlers/chat/forward.rs\<close>, \<open>failover.rs\<close>),
  \<open>Request\<close> the whole request (\<open>plan.rs\<close>, \<open>mod.rs\<close>).

  \<^bold>\<open>Accounts.\<close>  \<open>Lockfile\<close> is the lock between processes (\<open>lockfile.rs\<close>), \<open>Secrets\<close> the credential store with its
  backup and the side file of ChatGPT sign-ins (\<open>credentials/store.rs\<close>, \<open>siwc_store.rs\<close>), \<open>Token_Endpoint\<close> the
  renewal of tokens and the write-back into the file of Codex (\<open>siwc_signin.rs\<close>, \<open>codex_store.rs\<close>), \<open>Accounts\<close>
  one call of the account resolver (\<open>account.rs\<close>), \<open>Account_Flight\<close> concurrent calls of several processes as a step
  relation, \<open>Code_Assist\<close> the discovery of projects and models (\<open>account.rs\<close>, \<open>gemini_models.rs\<close>).

  \<^bold>\<open>Request log.\<close>  \<open>Rollup\<close> is the write path with its hourly pre-aggregate, retention and rebuild
  (\<open>storage/write.rs\<close>, \<open>maintenance.rs\<close>), \<open>Usage_Summary\<close> the summaries read from it (\<open>storage.rs\<close>, \<open>query.rs\<close>),
  \<open>Ledger\<close> the pages of detail rows and their CSV export (\<open>ledger.rs\<close>).  The SQL of the sources is read as operations
  on tables, which are lists of rows and maps from primary keys.

  \<^bold>\<open>Agent wiring.\<close>  \<open>Env_Edit\<close> and \<open>Json_Edit\<close> are the format-preserving editors (\<open>edit/env.rs\<close>, \<open>edit/json.rs\<close>),
  \<open>Catalog\<close> the model catalog and its SHA-256 digest (\<open>sync/catalog.rs\<close>), \<open>Agent_Store\<close> the disk and the recovery
  files (\<open>atomic.rs\<close>, \<open>backup/\<close>), \<open>Agent_Specs\<close> the Claude Code, Gemini CLI and Pi specifications (\<open>spec/\<close>),
  \<open>Wiring\<close> connect and disconnect (\<open>wiring.rs\<close>), \<open>Agents_Registry\<close> and \<open>Agents_Api\<close> the registry and its handlers
  (\<open>server/src/agents_registry.rs\<close>, \<open>agents.rs\<close>).

  \<^bold>\<open>How code is represented.\<close>  A struct is a record, an enum a datatype, a fallible function returns a sum whose left
  side is the error, a machine integer that can wrap is a word.  Text is a list of bytes, so a Rust byte index is a
  length.  A function that changes a \<open>&mut\<close> argument returns it.  Shared state behind a mutex is a record passed
  along one operation, and concurrency is an inductive step relation over such operations (\<open>tm_step\<close> of \<open>Token\<close>,
  \<open>reg_step\<close> of \<open>Agents_Registry\<close>, \<open>lock_step\<close> of \<open>Lockfile\<close>, \<open>cl_step\<close> of \<open>Account_Flight\<close>).  Interfaces are locales, interpreted in the theory of their provider: the
  request builders of the four APIs, the stream adapters, the dotenv editor as a map (\<open>assignment_store\<close>), the
  credential store as a map (\<open>credential_store\<close>), the specifications that keep to their own files (\<open>wired_agent\<close>).

  \<^bold>\<open>Parameters.\<close>  Code outside the repository is an argument: \<open>serde\<close>, \<open>hub_serde\<close> and \<open>json_text\<close> for
  \<open>serde_json\<close> and the derived code of the wire structs, \<open>toml_text\<close> for \<open>toml_edit\<close>, \<open>store_json\<close> for the derived
  code of the recovery files, \<open>env\<close> for random identifiers and the clock, \<open>world\<close> for the account store, the HTTP
  client and the plugin hosts, \<open>account_env\<close> for the token endpoints and what others do while a call waits, \<open>week\<close> for
  the date function of SQLite.  A theorem that needs more of them says so (that a parser reads back what its printer
  writes, for instance), and its witness gives a concrete instance.

  \<^bold>\<open>Faults, loops and bounds.\<close>  A disk carries a list of outcomes, one for each operation that can fail, so a
  statement about every disk covers every pattern of I/O failures; an atomic write replaces a file or changes
  nothing.  Every loop is a total function with its measure, but for the redaction loop of \<open>Redact\<close>, which need not
  end and is a \<open>partial_function\<close>: the theorem there says exactly when it returns.  The failover loop of \<open>Request\<close> is
  total by a measure over the remaining targets, onboarding of \<open>Code_Assist\<close> counts the five polls of the source.  No
  other fuel is used.

  \<^bold>\<open>What the theorems show.\<close>  For the library: round trips of requests, replies and streams through each wire format,
  the dispatch table, isolation of vendors, totality up to parse errors, and the dialect rules of Claude.  For the
  server: who is let in, which provider and account serve, that failover ends and is bounded, that the stream does not
  depend on how the network cuts it, what is captured and what the headers carry.  For the wiring: the dotenv editor
  refines a map, connect and disconnect give back what was there and lose no backup whatever I/O fails, a failed
  connect is undone, agent keys survive a restart, agent keys read but do not manage, the digest stands for the set of
  models, and a refresh token is spent once an hour at most.  For the accounts: the lock has one holder, the credential
  store outlives the corruption of its file, a revoked account is not used, no replaced token is sent, and the file of
  Codex is never lost.  For the request log: the pre-aggregate is what a rebuild gives, a summary is a sum over the log,
  the cursors of the ledger read every row once, and the CSV export reads back.

  \<^bold>\<open>Not modelled.\<close>  The TOML editor and the Codex specification, which work on the document tree of \<open>toml_edit\<close>; the
  browser sign-in flows of the vendors and the reading of their quotas, which are HTTP exchanges and child processes;
  schema migrations, the heatmap and the rankings of the request log, prices and the extraction of usage from bodies;
  plugin host processes; the axum router, the command line, the terminal interface and the desktop shell.  Detection of installed agents and the derived serde code are arguments.
\<close>

end
